(* ===== verification/Dht_Prelude.thy ===== *)
theory Dht_Prelude
  imports Main "HOL-Library.Word" "HOL-Library.Multiset" "HOL-Library.Sublist"
begin

unbundle bit_operations_syntax

text \<open>
  The prelude: names of the machine types, the model of \<open>std::time\<close>, the byte-order
  conversions of the integer types, the vector operations of the Rust standard library
  that the code relies on (\<open>swap_remove\<close>, \<open>retain\<close>, the sort family), and the generic
  lemmas on lists and multisets that the component theories share.
\<close>

named_theorems byte_simps \<open>evaluation of big-endian byte conversions\<close>
named_theorems vec_simps \<open>lengths, members and multisets of the vector operations\<close>

section \<open>Machine types\<close>

type_synonym u8 = "8 word"
type_synonym u16 = "16 word"
type_synonym u32 = "32 word"
type_synonym u64 = "64 word"
type_synonym i32 = "32 word" \<comment> \<open>read with \<open>sint\<close>\<close>

definition i32_max :: int where "i32_max = 2 ^ 31 - 1"
definition i32_min :: int where "i32_min = - (2 ^ 31)"

section \<open>Time: \<open>std::time::Instant\<close> and \<open>std::time::Duration\<close>\<close>

text \<open>
  An \<open>Instant\<close> is opaque and only comparable. It is modelled as the number of nanoseconds
  since the earliest instant the platform can represent, so that \<open>checked_sub\<close> is
  \<open>None\<close> exactly on underflow of the platform's clock. Instants and durations have 64 bits of
  seconds and a nanosecond part; adding past the last instant panics.
\<close>

type_synonym instant = nat
type_synonym duration = nat

definition nanos_per_sec :: nat where "nanos_per_sec = 10 ^ 9"
definition instant_max :: instant where "instant_max = 2 ^ 64 * nanos_per_sec - 1"

definition dur_from_secs :: "nat \<Rightarrow> duration" where
  "dur_from_secs s = s * nanos_per_sec"

definition dur_as_secs :: "duration \<Rightarrow> nat" where
  "dur_as_secs d = d div nanos_per_sec"

lemma dur_as_from_secs [simp]: "dur_as_secs (dur_from_secs s) = s"
  by (simp add: dur_as_secs_def dur_from_secs_def nanos_per_sec_def)

definition instant_checked_sub :: "instant \<Rightarrow> duration \<Rightarrow> instant option" where
  "instant_checked_sub t d = (if d \<le> t then Some (t - d) else None)"

definition instant_checked_add :: "instant \<Rightarrow> duration \<Rightarrow> instant option" where
  "instant_checked_add t d = (if t + d \<le> instant_max then Some (t + d) else None)"

definition instant_checked_duration_since :: "instant \<Rightarrow> instant \<Rightarrow> duration option" where
  "instant_checked_duration_since t s = (if s \<le> t then Some (t - s) else None)"

lemma instant_checked_sub_Some [simp]:
  "instant_checked_sub t d = Some r \<longleftrightarrow> d \<le> t \<and> r = t - d"
  by (auto simp: instant_checked_sub_def)

lemma instant_checked_sub_None [simp]: "instant_checked_sub t d = None \<longleftrightarrow> t < d"
  by (auto simp: instant_checked_sub_def)

section \<open>Big-endian bytes\<close>

definition be_bytes2 :: "u16 \<Rightarrow> u8 list" where
  "be_bytes2 w = [ucast (drop_bit 8 w), ucast w]"

definition be_bytes4 :: "u32 \<Rightarrow> u8 list" where
  "be_bytes4 w = [ucast (drop_bit 24 w), ucast (drop_bit 16 w), ucast (drop_bit 8 w), ucast w]"

definition be_bytes8 :: "u64 \<Rightarrow> u8 list" where
  "be_bytes8 w = be_bytes4 (ucast (drop_bit 32 w)) @ be_bytes4 (ucast w)"

definition be_bytes16 :: "128 word \<Rightarrow> u8 list" where
  "be_bytes16 w = be_bytes8 (ucast (drop_bit 64 w)) @ be_bytes8 (ucast w)"

text \<open>\<open>from_be_bytes\<close>: the first byte is the most significant one.\<close>

definition from_be :: "u8 list \<Rightarrow> 'a::len word" where
  "from_be bs = foldl (\<lambda>acc b. push_bit 8 acc OR ucast b) 0 bs"

lemma from_be_be_bytes2 [simp]: "from_be (be_bytes2 w) = w"
  by (rule bit_eqI) (auto simp: from_be_def be_bytes2_def bit_simps)

lemma length_be_bytes [simp, byte_simps]:
  "length (be_bytes2 p) = 2" "length (be_bytes4 w) = 4" "length (be_bytes8 v) = 8"
  "length (be_bytes16 x) = 16"
  by (simp_all add: be_bytes2_def be_bytes4_def be_bytes8_def be_bytes16_def)

lemma from_be_be_bytes4 [simp]: "from_be (be_bytes4 w) = w"
proof (rule bit_word_eqI)
  fix n :: nat
  assume "n < LENGTH(32)"
  then have "n < 32" by simp
  then consider "n < 8" | "8 \<le> n" "n < 16" | "16 \<le> n" "n < 24" | "24 \<le> n" "n < 32"
    by fastforce
  then show "bit (from_be (be_bytes4 w) :: u32) n = bit w n"
    by cases (auto simp: from_be_def be_bytes4_def bit_simps)
qed

lemma u8_no_high_bit [simp]: "\<not> bit (b :: u8) (8 + n)"
  using bit_imp_le_length [of b "8 + n"] by auto

lemma be_bytes2_from_be [simp]: "be_bytes2 (from_be [a, b]) = [a, b]"
  by (auto simp: from_be_def be_bytes2_def bit_simps intro!: bit_word_eqI)

section \<open>Vectors: \<open>Vec::swap_remove\<close> and the unstable sorts\<close>

text \<open>
  \<open>xs.swap_remove(i)\<close> replaces element \<open>i\<close> by the last one and shortens the vector. The
  model is only meaningful for \<open>i < length xs\<close>; every use in the code is in range.
\<close>

definition swap_remove :: "nat \<Rightarrow> 'a list \<Rightarrow> 'a list" where
  "swap_remove i xs = (butlast xs)[i := last xs]"

lemma length_swap_remove [simp, vec_simps]: "length (swap_remove i xs) = length xs - 1"
  by (simp add: swap_remove_def)

lemma mset_swap_remove:
  assumes "i < length xs"
  shows "add_mset (xs ! i) (mset (swap_remove i xs)) = mset xs"
proof (cases "i = length xs - 1")
  case True
  then have ne: "xs \<noteq> []" using assms by auto
  have "swap_remove i xs = butlast xs" using True by (simp add: swap_remove_def list_update_beyond)
  moreover have "xs ! i = last xs" using True ne by (simp add: last_conv_nth)
  moreover have "mset xs = mset (butlast xs @ [last xs])" using ne by simp
  ultimately show ?thesis by simp
next
  case False
  then have i: "i < length (butlast xs)" and ne: "xs \<noteq> []" using assms by auto
  have "mset xs = mset (butlast xs @ [last xs])" using ne by simp
  moreover have "butlast xs ! i = xs ! i" using i by (simp add: nth_butlast)
  moreover have "butlast xs ! i \<in># mset (butlast xs)" using i by (metis nth_mem set_mset_mset)
  ultimately show ?thesis using i by (simp add: swap_remove_def mset_update)
qed

lemma set_swap_remove_subset: "i < length xs \<Longrightarrow> set (swap_remove i xs) \<subseteq> set xs"
  using mset_swap_remove [of i xs] by (metis mset_subset_eq_insertD set_mset_mono set_mset_mset
      subset_mset.less_imp_le subset_mset.order_refl)

text \<open>
  \<open>sort_unstable_by\<close> and \<open>sort_unstable_by_key\<close> return some ordered permutation; the order of
  equal elements is not specified. The sort is therefore a parameter \<open>srt\<close> of the model,
  taking the comparison \<open>le\<close>, and \<open>sort_law\<close> is all the code relies on.
\<close>

definition total_preorder :: "('a \<Rightarrow> 'a \<Rightarrow> bool) \<Rightarrow> bool" where
  "total_preorder le \<longleftrightarrow>
     (\<forall>x y. le x y \<or> le y x) \<and> (\<forall>x y z. le x y \<longrightarrow> le y z \<longrightarrow> le x z)"

type_synonym 'a sorter = "('a \<Rightarrow> 'a \<Rightarrow> bool) \<Rightarrow> 'a list \<Rightarrow> 'a list"

definition sort_law :: "'a sorter \<Rightarrow> bool" where
  "sort_law srt \<longleftrightarrow>
     (\<forall>le xs. total_preorder le \<longrightarrow> mset (srt le xs) = mset xs \<and> sorted_wrt le (srt le xs))"

lemma total_preorder_key [simp, intro]: "total_preorder (\<lambda>a b. (f a :: 'k::linorder) \<le> f b)"
  by (auto simp: total_preorder_def)

lemma sort_law_mset [vec_simps]: "sort_law srt \<Longrightarrow> total_preorder le \<Longrightarrow> mset (srt le xs) = mset xs"
  by (simp add: sort_law_def)

lemma sort_law_sorted: "sort_law srt \<Longrightarrow> total_preorder le \<Longrightarrow> sorted_wrt le (srt le xs)"
  by (simp add: sort_law_def)

lemma sort_law_set [vec_simps]: "sort_law srt \<Longrightarrow> total_preorder le \<Longrightarrow> set (srt le xs) = set xs"
  by (metis sort_law_mset set_mset_mset)

lemma sort_law_length [vec_simps]:
  "sort_law srt \<Longrightarrow> total_preorder le \<Longrightarrow> length (srt le xs) = length xs"
  by (metis sort_law_mset size_mset)

text \<open>Insertion sort is one sort that obeys the law (and the one small slices really get).\<close>

fun insert_by :: "('a \<Rightarrow> 'a \<Rightarrow> bool) \<Rightarrow> 'a \<Rightarrow> 'a list \<Rightarrow> 'a list" where
  "insert_by le x [] = [x]"
| "insert_by le x (y # ys) = (if le x y then x # y # ys else y # insert_by le x ys)"

fun insertion_sort :: "'a sorter" where
  "insertion_sort le [] = []"
| "insertion_sort le (x # xs) = insert_by le x (insertion_sort le xs)"

lemma mset_insert_by [simp]: "mset (insert_by le x xs) = add_mset x (mset xs)"
  by (induction xs) auto

lemma set_insert_by [simp]: "set (insert_by le x xs) = insert x (set xs)"
  by (induction xs) auto

lemma mset_insertion_sort [simp]: "mset (insertion_sort le xs) = mset xs"
  by (induction xs) auto

lemma sorted_insert_by:
  "total_preorder le \<Longrightarrow> sorted_wrt le xs \<Longrightarrow> sorted_wrt le (insert_by le x xs)"
  by (induction xs) (auto simp: total_preorder_def)

lemma sort_law_insertion_sort: "sort_law insertion_sort"
proof -
  have "sorted_wrt le (insertion_sort le xs)" if "total_preorder le" for le and xs :: "'a list"
    by (induction xs) (auto intro: sorted_insert_by that)
  then show ?thesis by (simp add: sort_law_def)
qed

section \<open>Generic list lemmas\<close>

lemma sorted_wrt_take_drop:
  assumes "sorted_wrt le xs" and "x \<in> set (take n xs)" and "y \<in> set (drop n xs)"
  shows "le x y"
  using assms sorted_wrt_append [of le "take n xs" "drop n xs"] by simp

lemma mset_take_drop: "mset (take n xs) + mset (drop n xs) = mset xs"
  by (metis append_take_drop_id mset_append)

lemma filter_mset_none: "(\<And>x. x \<in># M \<Longrightarrow> \<not> P x) \<Longrightarrow> filter_mset P M = {#}"
  by (induction M) auto

lemma filter_mset_all: "(\<And>x. x \<in># M \<Longrightarrow> P x) \<Longrightarrow> filter_mset P M = M"
  by (induction M) auto

lemma concat_update_mset:
  assumes "i < length xss"
  shows "mset (concat (xss[i := ys])) + mset (xss ! i) = mset (concat xss) + mset ys"
proof -
  have "xss = take i xss @ xss ! i # drop (Suc i) xss" using assms by (rule id_take_nth_drop)
  then have "mset (concat xss) = mset (concat (take i xss)) + mset (xss ! i) + mset (concat (drop (Suc i) xss))"
    by (metis concat.simps(2) concat_append mset_append add.assoc)
  moreover have "xss[i := ys] = take i xss @ ys # drop (Suc i) xss"
    using assms by (rule upd_conv_take_nth_drop)
  ultimately show ?thesis by simp
qed

lemma distinct_mset_map:
  "mset xs = mset ys \<Longrightarrow> distinct (map f xs) \<longleftrightarrow> distinct (map f ys)"
  by (metis distinct_count_atmost_1 mset_map mset_eq_imp_distinct_iff)

end
