(* ===== verification/Dht_Errors.thy ===== *)
theory Dht_Errors
  imports Dht_Prelude
begin

text \<open>
  \<open>src/errors.rs\<close>: the error type of the library, and the result type in which every
  fallible operation of the model returns. \<open>Err\<close> is a Rust \<open>Err\<close> that the caller sees;
  \<open>Panic\<close> is an unwinding panic (\<open>unwrap\<close>, \<open>expect\<close>, a failed index or an arithmetic overflow
  with overflow checks). The wrapped foreign errors are represented by their text.
\<close>

datatype RustyDHTError =
    PacketParseError string
  | PacketSerializationError string
  | GeneralError string
  | ConntrackError string
  | SocketSendError string
  | SocketRecvError string
  | TimeoutError string
  | ShutdownError string
  | BuilderMissingFieldError string
  | BuilderInvalidComboError string

datatype 'a res = Ok 'a | Err RustyDHTError | Panic

fun res_bind :: "'a res \<Rightarrow> ('a \<Rightarrow> 'b res) \<Rightarrow> 'b res" where
  "res_bind (Ok x) f = f x"
| "res_bind (Err e) f = Err e"
| "res_bind Panic f = Panic"

lemma res_bind_eq_Ok [simp]: "res_bind r f = Ok y \<longleftrightarrow> (\<exists>x. r = Ok x \<and> f x = Ok y)"
  by (cases r) auto

lemma res_bind_eq_Panic [simp]:
  "res_bind r f = Panic \<longleftrightarrow> r = Panic \<or> (\<exists>x. r = Ok x \<and> f x = Panic)"
  by (cases r) auto

lemma res_bind_eq_Err:
  "res_bind r f = Err e \<longleftrightarrow> r = Err e \<or> (\<exists>x. r = Ok x \<and> f x = Err e)"
  by (cases r) auto

text \<open>\<open>iter().map(f).collect::<Result<Vec<_>, _>>()\<close>: stops at the first error.\<close>

fun res_collect :: "('a \<Rightarrow> 'b res) \<Rightarrow> 'a list \<Rightarrow> 'b list res" where
  "res_collect f [] = Ok []"
| "res_collect f (x # xs) =
     res_bind (f x) (\<lambda>y. res_bind (res_collect f xs) (\<lambda>ys. Ok (y # ys)))"

lemma res_collect_map_Ok:
  "(\<And>x. x \<in> set xs \<Longrightarrow> f (g x) = Ok (h x)) \<Longrightarrow> res_collect f (map g xs) = Ok (map h xs)"
  by (induction xs) auto

lemma res_collect_length: "res_collect f xs = Ok ys \<Longrightarrow> length ys = length xs"
  by (induction xs arbitrary: ys) auto

lemma res_collect_no_Panic:
  "(\<And>x. x \<in> set xs \<Longrightarrow> f x \<noteq> Panic) \<Longrightarrow> res_collect f xs \<noteq> Panic"
  by (induction xs) auto

text \<open>\<open>Result::ok_or_else\<close> and \<open>Option::expect\<close>.\<close>

definition expect :: "'a option \<Rightarrow> 'a res" where
  "expect x = (case x of None \<Rightarrow> Panic | Some v \<Rightarrow> Ok v)"

lemma expect_simps [simp]: "expect None = Panic" "expect (Some v) = Ok v"
  by (simp_all add: expect_def)

end
