(* ===== verification/Dht_Net.thy ===== *)
theory Dht_Net
  imports Dht_Errors
begin

text \<open>
  The address types of \<open>std::net\<close> that the program passes around, with the operations it
  uses: octets, loopback test, port access and IPv4 test.
\<close>

datatype Ipv4Addr = Ipv4Addr u8 u8 u8 u8
datatype Ipv6Addr = Ipv6Addr "128 word"
datatype IpAddr = IpV4 Ipv4Addr | IpV6 Ipv6Addr

text \<open>\<open>SocketAddr\<close>: the IPv6 variant also carries the flow information and the scope id.\<close>

datatype SocketAddr = SockV4 Ipv4Addr u16 | SockV6 Ipv6Addr u16 u32 u32

fun v4_octets :: "Ipv4Addr \<Rightarrow> u8 list" where
  "v4_octets (Ipv4Addr a b c d) = [a, b, c, d]"

fun v6_octets :: "Ipv6Addr \<Rightarrow> u8 list" where
  "v6_octets (Ipv6Addr w) = be_bytes16 w"

fun ip_octets :: "IpAddr \<Rightarrow> u8 list" where
  "ip_octets (IpV4 a) = v4_octets a"
| "ip_octets (IpV6 a) = v6_octets a"

fun is_loopback :: "IpAddr \<Rightarrow> bool" where
  "is_loopback (IpV4 (Ipv4Addr a b c d)) \<longleftrightarrow> a = 127"
| "is_loopback (IpV6 (Ipv6Addr w)) \<longleftrightarrow> w = 1"

fun is_v4 :: "IpAddr \<Rightarrow> bool" where
  "is_v4 (IpV4 a) = True"
| "is_v4 (IpV6 a) = False"

fun sock_ip :: "SocketAddr \<Rightarrow> IpAddr" where
  "sock_ip (SockV4 a p) = IpV4 a"
| "sock_ip (SockV6 a p f s) = IpV6 a"

fun sock_port :: "SocketAddr \<Rightarrow> u16" where
  "sock_port (SockV4 a p) = p"
| "sock_port (SockV6 a p f s) = p"

fun sock_set_port :: "SocketAddr \<Rightarrow> u16 \<Rightarrow> SocketAddr" where
  "sock_set_port (SockV4 a p) q = SockV4 a q"
| "sock_set_port (SockV6 a p f s) q = SockV6 a q f s"

definition sock_is_v4 :: "SocketAddr \<Rightarrow> bool" where
  "sock_is_v4 s = is_v4 (sock_ip s)"

text \<open>\<open>SocketAddr::new(ip, port)\<close>.\<close>

fun sock_new :: "IpAddr \<Rightarrow> u16 \<Rightarrow> SocketAddr" where
  "sock_new (IpV4 a) p = SockV4 a p"
| "sock_new (IpV6 a) p = SockV6 a p 0 0"

lemma length_v4_octets [simp]: "length (v4_octets a) = 4"
  by (cases a) simp

lemma length_v6_octets [simp]: "length (v6_octets a) = 16"
  by (cases a) simp

lemma sock_set_port_simps [simp]:
  "sock_ip (sock_set_port s q) = sock_ip s" "sock_port (sock_set_port s q) = q"
  by (cases s; simp)+

lemma sock_is_v4_simps [simp]:
  "sock_is_v4 (SockV4 a p)" "\<not> sock_is_v4 (SockV6 b p f s)"
  by (simp_all add: sock_is_v4_def)

lemma sock_is_v4_iff: "sock_is_v4 s \<longleftrightarrow> (\<exists>a p. s = SockV4 a p)"
  by (cases s) auto

definition localhost_v4 :: IpAddr where
  "localhost_v4 = IpV4 (Ipv4Addr 127 0 0 1)"

end
