(* ===== verification/Dht_IpSource.thy ===== *)
theory Dht_IpSource
  imports Dht_Net
begin

text \<open>
  \<open>src/common/ipv4_addr_src.rs\<close>: the trait \<open>IPV4AddrSource\<close>, as a table of operations with a
  contract locale, and its two implementations, \<open>StaticIPV4AddrSource\<close> and
  \<open>IPV4Consensus\<close>. Vote counts are \<open>i32\<close>; arithmetic that leaves the type panics, as it does
  with overflow checks.
\<close>

section \<open>The trait\<close>

record 's ip4_source_ops =
  get_best_ipv4 :: "'s \<Rightarrow> Ipv4Addr option res"
  add_vote :: "'s \<Rightarrow> Ipv4Addr \<Rightarrow> Ipv4Addr \<Rightarrow> 's res"
  decay :: "'s \<Rightarrow> 's res"

text \<open>
  What the DHT may rely on: in states satisfying \<open>inv\<close> no operation fails, and the best address
  is one of the candidates \<open>support\<close>, which only votes can enlarge.
\<close>

locale ip4_source =
  fixes ops :: "'s ip4_source_ops"
    and inv :: "'s \<Rightarrow> bool"
    and support :: "'s \<Rightarrow> Ipv4Addr set"
  assumes best_ok: "inv s \<Longrightarrow> \<exists>r. get_best_ipv4 ops s = Ok r"
    and vote_ok: "inv s \<Longrightarrow> \<exists>s'. add_vote ops s a b = Ok s'"
    and decay_ok: "inv s \<Longrightarrow> \<exists>s'. decay ops s = Ok s'"
    and inv_vote: "inv s \<Longrightarrow> add_vote ops s a b = Ok s' \<Longrightarrow> inv s'"
    and inv_decay: "inv s \<Longrightarrow> decay ops s = Ok s' \<Longrightarrow> inv s'"
    and best_support: "inv s \<Longrightarrow> get_best_ipv4 ops s = Ok (Some a) \<Longrightarrow> a \<in> support s"
    and vote_support: "inv s \<Longrightarrow> add_vote ops s a b = Ok s' \<Longrightarrow> support s' \<subseteq> insert b (support s)"
    and decay_support: "inv s \<Longrightarrow> decay ops s = Ok s' \<Longrightarrow> support s' \<subseteq> support s"

text \<open>A history of calls: votes, with the voter and the address it proposes, and decays.\<close>

datatype ip4_event = Vote Ipv4Addr Ipv4Addr | Decay

fun ip4_run :: "'s ip4_source_ops \<Rightarrow> 's \<Rightarrow> ip4_event list \<Rightarrow> 's res" where
  "ip4_run ops s [] = Ok s"
| "ip4_run ops s (Vote a b # es) = res_bind (add_vote ops s a b) (\<lambda>s'. ip4_run ops s' es)"
| "ip4_run ops s (Decay # es) = res_bind (decay ops s) (\<lambda>s'. ip4_run ops s' es)"

definition votes_for :: "Ipv4Addr \<Rightarrow> ip4_event list \<Rightarrow> nat" where
  "votes_for a es = length (filter (\<lambda>e. case e of Vote _ b \<Rightarrow> b = a | Decay \<Rightarrow> False) es)"

lemma votes_for_simps [simp]:
  "votes_for a [] = 0"
  "votes_for a (Vote t b # es) = of_bool (b = a) + votes_for a es"
  "votes_for a (Decay # es) = votes_for a es"
  by (simp_all add: votes_for_def)

context ip4_source
begin

lemma run_ok: "inv s \<Longrightarrow> \<exists>s'. ip4_run ops s es = Ok s' \<and> inv s'"
proof (induction es arbitrary: s)
  case (Cons e es)
  show ?case
  proof (cases e)
    case (Vote a b)
    then show ?thesis using Cons vote_ok [of s a b] inv_vote [of s a b] by fastforce
  next
    case Decay
    then show ?thesis using Cons decay_ok [of s] inv_decay [of s] by fastforce
  qed
qed simp

lemma run_support:
  "inv s \<Longrightarrow> ip4_run ops s es = Ok s' \<Longrightarrow> support s' \<subseteq> support s \<union> {a. 0 < votes_for a es}"
proof (induction es arbitrary: s)
  case (Cons e es)
  show ?case
  proof (cases e)
    case (Vote a b)
    then obtain t where t: "add_vote ops s a b = Ok t" "ip4_run ops t es = Ok s'"
      using Cons.prems by auto
    then have "support s' \<subseteq> support t \<union> {a. 0 < votes_for a es}"
      using Cons by (blast intro: inv_vote)
    then show ?thesis using t Vote Cons.prems vote_support [of s a b t] by fastforce
  next
    case Decay
    then obtain t where t: "decay ops s = Ok t" "ip4_run ops t es = Ok s'"
      using Cons.prems by auto
    then have "support s' \<subseteq> support t \<union> {a. 0 < votes_for a es}"
      using Cons by (blast intro: inv_decay)
    then show ?thesis using t Decay Cons.prems decay_support [of s t] by fastforce
  qed
qed simp

lemma run_best_voted:
  assumes "inv s" and "ip4_run ops s es = Ok s'" and "get_best_ipv4 ops s' = Ok (Some a)"
  shows "a \<in> support s \<or> 0 < votes_for a es"
proof -
  have "inv s'" using run_ok [OF assms(1), of es] assms(2) by auto
  then show ?thesis using run_support [OF assms(1,2)] best_support [OF _ assms(3)] by auto
qed

end

section \<open>\<open>StaticIPV4AddrSource\<close>\<close>

record StaticIPV4AddrSource =
  static_ip :: Ipv4Addr

definition static_new :: "Ipv4Addr \<Rightarrow> StaticIPV4AddrSource" where
  "static_new addr = \<lparr>static_ip = addr\<rparr>"

definition static_source :: "StaticIPV4AddrSource ip4_source_ops" where
  "static_source = \<lparr>get_best_ipv4 = (\<lambda>s. Ok (Some (static_ip s))),
                    add_vote = (\<lambda>s _ _. Ok s), decay = (\<lambda>s. Ok s)\<rparr>"

interpretation static: ip4_source static_source "\<lambda>_. True" "\<lambda>s. {static_ip s}"
  by unfold_locales (auto simp: static_source_def)

section \<open>\<open>IPV4Consensus\<close>\<close>

record IPV4Vote =
  vote_ip :: Ipv4Addr
  votes :: int

record IPV4Consensus =
  min_votes :: nat
  max_votes :: nat
  vote_list :: "IPV4Vote list"

definition consensus_new :: "nat \<Rightarrow> nat \<Rightarrow> IPV4Consensus" where
  "consensus_new mn mx = \<lparr>min_votes = mn, max_votes = mx, vote_list = []\<rparr>"

text \<open>\<open>usize.try_into().unwrap()\<close> into \<open>i32\<close>, and \<open>i32\<close> results in range.\<close>

definition usize_to_i32 :: "nat \<Rightarrow> int res" where
  "usize_to_i32 n = (if int n \<le> i32_max then Ok (int n) else Panic)"

definition i32_checked :: "int \<Rightarrow> int res" where
  "i32_checked v = (if i32_min \<le> v \<and> v \<le> i32_max then Ok v else Panic)"

definition consensus_get_best_ipv4 :: "IPV4Consensus \<Rightarrow> Ipv4Addr option res" where
  "consensus_get_best_ipv4 c =
     (case vote_list c of
        [] \<Rightarrow> Ok None
      | vote_info # _ \<Rightarrow>
          res_bind (usize_to_i32 (min_votes c))
            (\<lambda>m. if m \<le> votes vote_info then Ok (Some (vote_ip vote_info)) else Ok None))"

fun add_vote_loop :: "nat \<Rightarrow> Ipv4Addr \<Rightarrow> IPV4Vote list \<Rightarrow> (IPV4Vote list \<times> bool) res" where
  "add_vote_loop mx a [] = Ok ([], False)"
| "add_vote_loop mx a (v # vs) =
     (if vote_ip v = a
      then res_bind (usize_to_i32 mx) (\<lambda>m. res_bind (i32_checked (votes v + 1))
             (\<lambda>n. Ok (v\<lparr>votes := min m n\<rparr> # vs, True)))
      else res_bind (add_vote_loop mx a vs) (\<lambda>(vs', do_sort). Ok (v # vs', do_sort)))"

text \<open>\<open>sort_by\<close> is stable and descending; a new address goes to the end with one vote.\<close>

definition consensus_add_vote :: "IPV4Consensus \<Rightarrow> Ipv4Addr \<Rightarrow> Ipv4Addr \<Rightarrow> IPV4Consensus res" where
  "consensus_add_vote c their_addr proposed_addr =
     res_bind (add_vote_loop (max_votes c) proposed_addr (vote_list c)) (\<lambda>(vs, do_sort).
       Ok (if do_sort then c\<lparr>vote_list := sort_key (\<lambda>v. - votes v) vs\<rparr>
           else c\<lparr>vote_list := vs @ [\<lparr>vote_ip = proposed_addr, votes = 1\<rparr>]\<rparr>))"

definition consensus_decay :: "IPV4Consensus \<Rightarrow> IPV4Consensus res" where
  "consensus_decay c =
     res_bind (res_collect (\<lambda>v. res_bind (i32_checked (votes v - 1))
                 (\<lambda>n. Ok (v\<lparr>votes := max 0 n\<rparr>))) (vote_list c))
       (\<lambda>vs. Ok (c\<lparr>vote_list := filter (\<lambda>a. 0 < votes a) vs\<rparr>))"

definition consensus_source :: "IPV4Consensus ip4_source_ops" where
  "consensus_source = \<lparr>get_best_ipv4 = consensus_get_best_ipv4,
     add_vote = consensus_add_vote, decay = consensus_decay\<rparr>"

text \<open>
  The invariant: the bounds fit an \<open>i32\<close>, no address is listed twice, every count is between
  one and the maximum, and the list is ordered, most votes first.
\<close>

definition consensus_inv :: "IPV4Consensus \<Rightarrow> bool" where
  "consensus_inv c \<longleftrightarrow>
     int (min_votes c) \<le> i32_max \<and> 1 \<le> max_votes c \<and> int (max_votes c) < i32_max \<and>
     distinct (map vote_ip (vote_list c)) \<and>
     (\<forall>v \<in> set (vote_list c). 1 \<le> votes v \<and> votes v \<le> int (max_votes c)) \<and>
     sorted_wrt (\<lambda>a b. votes b \<le> votes a) (vote_list c)"

text \<open>The abstract state: how many votes an address has.\<close>

definition votes_in :: "IPV4Vote list \<Rightarrow> Ipv4Addr \<Rightarrow> int" where
  "votes_in vs a = (\<Sum>v\<leftarrow>vs. if vote_ip v = a then votes v else 0)"

definition vote_count :: "IPV4Consensus \<Rightarrow> Ipv4Addr \<Rightarrow> int" where
  "vote_count c a = votes_in (vote_list c) a"

lemma votes_in_simps [simp]:
  "votes_in [] a = 0"
  "votes_in (v # vs) a = (if vote_ip v = a then votes v else 0) + votes_in vs a"
  "votes_in (vs @ ws) a = votes_in vs a + votes_in ws a"
  by (simp_all add: votes_in_def)

lemma votes_in_sort [simp]: "votes_in (sort_key f vs) a = votes_in vs a"
  by (simp add: votes_in_def flip: sum_mset_sum_list)

lemma votes_in_absent: "a \<notin> vote_ip ` set vs \<Longrightarrow> votes_in vs a = 0"
  by (induction vs) auto

lemma votes_in_member:
  "distinct (map vote_ip vs) \<Longrightarrow> v \<in> set vs \<Longrightarrow> votes_in vs (vote_ip v) = votes v"
  by (induction vs) (auto simp: votes_in_absent)

definition bump_vote :: "nat \<Rightarrow> Ipv4Addr \<Rightarrow> IPV4Vote \<Rightarrow> IPV4Vote" where
  "bump_vote mx a v = (if vote_ip v = a then v\<lparr>votes := min (int mx) (votes v + 1)\<rparr> else v)"

lemma bump_vote_ip [simp]: "vote_ip (bump_vote mx a v) = vote_ip v"
  by (simp add: bump_vote_def)

lemma bump_vote_same: "bump_vote mx (vote_ip v) v = v\<lparr>votes := min (int mx) (votes v + 1)\<rparr>"
  by (simp add: bump_vote_def)

lemma map_bump_other: "a \<notin> vote_ip ` set vs \<Longrightarrow> map (bump_vote mx a) vs = vs"
  by (rule map_idI) (auto simp: bump_vote_def)

text \<open>Closed forms of the two loops on lists that satisfy the invariant.\<close>

lemma add_vote_loop_eq:
  assumes "int mx < i32_max" and "distinct (map vote_ip vs)"
    and "\<forall>v \<in> set vs. 1 \<le> votes v \<and> votes v \<le> int mx"
  shows "add_vote_loop mx a vs = Ok (map (bump_vote mx a) vs, a \<in> vote_ip ` set vs)"
  using assms(2,3)
proof (induction vs)
  case (Cons v vs)
  show ?case
  proof (cases "vote_ip v = a")
    case True
    then have "map (bump_vote mx a) vs = vs" using Cons.prems(1) by (intro map_bump_other) auto
    moreover have "i32_checked (votes v + 1) = Ok (votes v + 1)"
      using assms(1) Cons.prems(2) by (auto simp: i32_checked_def i32_min_def)
    moreover have "usize_to_i32 mx = Ok (int mx)" using assms(1) by (simp add: usize_to_i32_def)
    moreover have "bump_vote mx a v = v\<lparr>votes := min (int mx) (votes v + 1)\<rparr>"
      using True by (simp add: bump_vote_def)
    ultimately show ?thesis using True by simp
  next
    case False
    then show ?thesis using Cons by (auto simp: bump_vote_def)
  qed
qed simp

definition decay_votes :: "IPV4Vote list \<Rightarrow> IPV4Vote list" where
  "decay_votes vs = filter (\<lambda>a. 0 < votes a) (map (\<lambda>v. v\<lparr>votes := votes v - 1\<rparr>) vs)"

lemma consensus_decay_eq:
  assumes "consensus_inv c"
  shows "consensus_decay c = Ok (c\<lparr>vote_list := decay_votes (vote_list c)\<rparr>)"
proof -
  have "res_collect (\<lambda>v. res_bind (i32_checked (votes v - 1)) (\<lambda>n. Ok (v\<lparr>votes := max 0 n\<rparr>))) vs
      = Ok (map (\<lambda>v. v\<lparr>votes := votes v - 1\<rparr>) vs)"
    if "\<forall>v \<in> set vs. 1 \<le> votes v \<and> votes v \<le> int (max_votes c)" for vs
    using that assms by (induction vs) (auto simp: i32_checked_def i32_min_def consensus_inv_def)
  from this [of "vote_list c"] assms show ?thesis
    by (simp add: consensus_decay_def consensus_inv_def decay_votes_def)
qed

lemma consensus_add_vote_eq:
  assumes "consensus_inv c"
  shows "consensus_add_vote c t a = Ok
    (if a \<in> vote_ip ` set (vote_list c)
     then c\<lparr>vote_list := sort_key (\<lambda>v. - votes v) (map (bump_vote (max_votes c) a) (vote_list c))\<rparr>
     else c\<lparr>vote_list := vote_list c @ [\<lparr>vote_ip = a, votes = 1\<rparr>]\<rparr>)"
  using assms by (auto simp: consensus_add_vote_def add_vote_loop_eq consensus_inv_def map_bump_other)

lemma consensus_get_best_eq:
  assumes "consensus_inv c"
  shows "consensus_get_best_ipv4 c = Ok
    (case vote_list c of [] \<Rightarrow> None
     | v # _ \<Rightarrow> if int (min_votes c) \<le> votes v then Some (vote_ip v) else None)"
  using assms
  by (auto simp: consensus_get_best_ipv4_def usize_to_i32_def consensus_inv_def split: list.splits)

lemma consensus_inv_new:
  "int mn \<le> i32_max \<Longrightarrow> 1 \<le> mx \<Longrightarrow> int mx < i32_max \<Longrightarrow> consensus_inv (consensus_new mn mx)"
  by (simp add: consensus_inv_def consensus_new_def)

lemma sorted_wrt_votes_sort:
  "sorted_wrt (\<lambda>a b. votes b \<le> votes a) (sort_key (\<lambda>v. - votes v) vs)"
  using sorted_sort_key [of "\<lambda>v. - votes v" vs] by (simp add: sorted_map)

lemma consensus_inv_add_vote:
  assumes inv: "consensus_inv c" and add: "consensus_add_vote c t a = Ok c'"
  shows "consensus_inv c'"
proof (cases "a \<in> vote_ip ` set (vote_list c)")
  case True
  let ?vs = "map (bump_vote (max_votes c) a) (vote_list c)"
  have "distinct (map vote_ip (sort_key (\<lambda>v. - votes v) ?vs)) \<longleftrightarrow> distinct (map vote_ip ?vs)"
    by (rule distinct_mset_map) simp
  then have "distinct (map vote_ip (sort_key (\<lambda>v. - votes v) ?vs))"
    using inv by (simp add: consensus_inv_def comp_def)
  moreover have "1 \<le> votes (bump_vote (max_votes c) a v) \<and>
      votes (bump_vote (max_votes c) a v) \<le> int (max_votes c)" if "v \<in> set (vote_list c)" for v
  proof -
    have "1 \<le> votes v \<and> votes v \<le> int (max_votes c)" "1 \<le> max_votes c"
      using inv that by (auto simp: consensus_inv_def)
    then show ?thesis by (auto simp: bump_vote_def)
  qed
  ultimately show ?thesis using inv add True
    by (auto simp: consensus_add_vote_eq consensus_inv_def sorted_wrt_votes_sort)
next
  case False
  with inv add show ?thesis
    by (auto simp: consensus_add_vote_eq consensus_inv_def sorted_wrt_append)
qed

lemma distinct_decay_votes: "distinct (map vote_ip vs) \<Longrightarrow> distinct (map vote_ip (decay_votes vs))"
  by (induction vs) (auto simp: decay_votes_def)

lemma sorted_decay_votes:
  "sorted_wrt (\<lambda>a b. votes b \<le> votes a) vs \<Longrightarrow> sorted_wrt (\<lambda>a b. votes b \<le> votes a) (decay_votes vs)"
  by (induction vs) (auto simp: decay_votes_def)

lemma decay_votes_member:
  "w \<in> set (decay_votes vs) \<longleftrightarrow> (\<exists>v \<in> set vs. w = v\<lparr>votes := votes v - 1\<rparr> \<and> 1 < votes v)"
  by (auto simp: decay_votes_def)

lemma consensus_inv_decay:
  assumes inv: "consensus_inv c" and dec: "consensus_decay c = Ok c'"
  shows "consensus_inv c'"
proof -
  have "c' = c\<lparr>vote_list := decay_votes (vote_list c)\<rparr>"
    using dec by (simp add: consensus_decay_eq [OF inv])
  moreover have "\<forall>w \<in> set (decay_votes (vote_list c)). 1 \<le> votes w \<and> votes w \<le> int (max_votes c)"
    using inv by (fastforce simp: decay_votes_member consensus_inv_def)
  ultimately show ?thesis
    using inv by (simp add: consensus_inv_def distinct_decay_votes sorted_decay_votes)
qed

interpretation consensus: ip4_source consensus_source consensus_inv
  "\<lambda>c. vote_ip ` set (vote_list c)"
proof (unfold_locales, goal_cases)
  case (1 s) then show ?case by (simp add: consensus_source_def consensus_get_best_eq)
next
  case (2 s a b) then show ?case by (simp add: consensus_source_def consensus_add_vote_eq)
next
  case (3 s) then show ?case by (simp add: consensus_source_def consensus_decay_eq)
next
  case (4 s a b s') then show ?case
    by (auto simp: consensus_source_def intro: consensus_inv_add_vote)
next
  case (5 s s') then show ?case by (auto simp: consensus_source_def intro: consensus_inv_decay)
next
  case (6 s a) then show ?case
    by (auto simp: consensus_source_def consensus_get_best_eq split: list.splits if_splits)
next
  case (7 s a b s') then show ?case
    by (auto simp: consensus_source_def consensus_add_vote_eq split: if_splits)
next
  case (8 s s') then show ?case
    by (auto simp: consensus_source_def consensus_decay_eq decay_votes_def)
qed

text \<open>How the operations act on the vote counts.\<close>

lemma vote_count_add_vote:
  assumes inv: "consensus_inv c" and add: "consensus_add_vote c t a = Ok c'"
  shows "vote_count c' b =
    (if b = a then min (int (max_votes c)) (vote_count c a + 1) else vote_count c b)"
proof -
  have mx: "1 \<le> int (max_votes c)" and d: "distinct (map vote_ip (vote_list c))"
    using inv by (auto simp: consensus_inv_def)
  have bump: "votes_in (map (bump_vote m a) vs) b =
      (if b = a then min (int m) (votes_in vs a + 1) else votes_in vs b)"
    if "distinct (map vote_ip vs)" "a \<in> vote_ip ` set vs" for vs m
    using that
  proof (induction vs)
    case (Cons v vs)
    show ?case
    proof (cases "vote_ip v = a")
      case True
      then have "a \<notin> vote_ip ` set vs" using Cons.prems(1) by auto
      with True show ?thesis
        by (auto simp: map_bump_other votes_in_absent bump_vote_same)
    next
      case False
      then have "a \<in> vote_ip ` set vs" using Cons.prems(2) by auto
      moreover have "votes_in vs b = 0" if "vote_ip v = b"
        using that Cons.prems(1) by (auto intro: votes_in_absent)
      ultimately show ?thesis using False Cons by (auto simp: bump_vote_def)
    qed
  qed simp
  show ?thesis
  proof (cases "a \<in> vote_ip ` set (vote_list c)")
    case True
    with inv add bump [OF d True] show ?thesis by (auto simp: consensus_add_vote_eq vote_count_def)
  next
    case False
    then have "votes_in (vote_list c) a = 0" by (rule votes_in_absent)
    with inv add mx False show ?thesis by (auto simp: consensus_add_vote_eq vote_count_def)
  qed
qed

lemma vote_count_decay:
  assumes inv: "consensus_inv c" and dec: "consensus_decay c = Ok c'"
  shows "vote_count c' b = max 0 (vote_count c b - 1)"
proof -
  have "votes_in (decay_votes vs) b = max 0 (votes_in vs b - 1)"
    if "distinct (map vote_ip vs)" "\<forall>v \<in> set vs. 1 \<le> votes v" for vs
    using that
    by (induction vs) (auto simp: decay_votes_def votes_in_absent image_iff max_def)
  with inv dec show ?thesis by (auto simp: consensus_decay_eq vote_count_def consensus_inv_def)
qed

section \<open>What the consensus decides\<close>

lemma consensus_best_count:
  assumes inv: "consensus_inv c" and best: "consensus_get_best_ipv4 c = Ok (Some a)"
  shows "int (min_votes c) \<le> vote_count c a" and "vote_count c b \<le> vote_count c a"
proof -
  obtain v vs where v: "vote_list c = v # vs" "vote_ip v = a" "int (min_votes c) \<le> votes v"
    using best by (auto simp: consensus_get_best_eq [OF inv] split: list.splits if_splits)
  have d: "distinct (map vote_ip (vote_list c))" and s: "\<forall>w \<in> set vs. votes w \<le> votes v"
    and pos: "1 \<le> votes v"
    using inv v(1) by (auto simp: consensus_inv_def)
  have a: "vote_count c a = votes v"
    using votes_in_member [OF d, of v] v by (simp add: vote_count_def)
  show "int (min_votes c) \<le> vote_count c a" using a v(3) by simp
  show "vote_count c b \<le> vote_count c a"
  proof (cases "b \<in> vote_ip ` set (vote_list c)")
    case True
    then obtain w where "w \<in> set (vote_list c)" "vote_ip w = b" by auto
    then show ?thesis using votes_in_member [OF d, of w] a s v(1) by (auto simp: vote_count_def)
  next
    case False
    then show ?thesis using a pos by (simp add: vote_count_def votes_in_absent)
  qed
qed

lemma consensus_undecided:
  assumes inv: "consensus_inv c" and best: "consensus_get_best_ipv4 c = Ok None"
    and v: "v \<in> set (vote_list c)"
  shows "votes v < int (min_votes c)"
  using best inv v
  by (auto simp: consensus_get_best_eq [OF inv] consensus_inv_def split: list.splits if_splits)

section \<open>Properties\<close>

text \<open>
  The reference for the consensus: the votes of one address as a counter of its own. A vote for
  the address adds one, capped at the maximum; a decay takes one off, down to zero.
\<close>

fun tally_step :: "nat \<Rightarrow> Ipv4Addr \<Rightarrow> ip4_event \<Rightarrow> nat \<Rightarrow> nat" where
  "tally_step mx a (Vote t b) n = (if b = a then min mx (n + 1) else n)"
| "tally_step mx a Decay n = n - 1"

definition tally :: "nat \<Rightarrow> Ipv4Addr \<Rightarrow> ip4_event list \<Rightarrow> nat" where
  "tally mx a es = fold (tally_step mx a) es 0"

lemma consensus_run_tally:
  "consensus_inv c \<Longrightarrow> ip4_run consensus_source c es = Ok c' \<Longrightarrow> vote_count c a = int n \<Longrightarrow>
   vote_count c' a = int (fold (tally_step (max_votes c) a) es n) \<and> min_votes c' = min_votes c"
proof (induction es arbitrary: c n)
  case (Cons e es)
  show ?case
  proof (cases e)
    case (Vote t b)
    then obtain d where d: "consensus_add_vote c t b = Ok d" "ip4_run consensus_source d es = Ok c'"
      using Cons.prems by (auto simp: consensus_source_def)
    have "min_votes d = min_votes c" "max_votes d = max_votes c"
      using d(1) Cons.prems(1) by (auto simp: consensus_add_vote_eq split: if_splits)
    moreover have "vote_count d a = int (tally_step (max_votes c) a e n)"
      using vote_count_add_vote [OF Cons.prems(1) d(1), of a] Cons.prems(3) Vote by auto
    ultimately show ?thesis
      using Cons.IH [OF consensus_inv_add_vote [OF Cons.prems(1) d(1)] d(2)] by simp
  next
    case Decay
    then obtain d where d: "consensus_decay c = Ok d" "ip4_run consensus_source d es = Ok c'"
      using Cons.prems by (auto simp: consensus_source_def)
    have "min_votes d = min_votes c" "max_votes d = max_votes c"
      using d(1) Cons.prems(1) by (auto simp: consensus_add_vote_eq consensus_decay_eq)
    moreover have "vote_count d a = int (tally_step (max_votes c) a e n)"
      using vote_count_decay [OF Cons.prems(1) d(1), of a] Cons.prems(3) Decay by auto
    ultimately show ?thesis
      using Cons.IH [OF consensus_inv_decay [OF Cons.prems(1) d(1)] d(2)] by simp
  qed
qed simp

text \<open>
  C30. The consensus is decided by the votes that are left: starting empty, after any history of
  votes and decays no call fails, the count of every address is that of the reference counter
  \<open>tally\<close>, and if \<open>get_best_ipv4\<close> returns an address then at least \<open>min_votes\<close> of its votes
  are left and no address has more; if it returns none, every address has fewer than
  \<open>min_votes\<close> votes left (or none at all).
\<close>

theorem consensus_needs_min_votes:
  assumes "int mn \<le> i32_max" and "1 \<le> mx" and "int mx < i32_max"
  shows "\<exists>c r. ip4_run consensus_source (consensus_new mn mx) es = Ok c \<and>
    consensus_get_best_ipv4 c = Ok r \<and>
    (\<forall>a. vote_count c a = int (tally mx a es)) \<and>
    (case r of
       Some a \<Rightarrow> mn \<le> tally mx a es \<and> (\<forall>b. tally mx b es \<le> tally mx a es)
     | None \<Rightarrow> \<forall>a. tally mx a es < mn \<or> tally mx a es = 0)"
proof -
  let ?c = "consensus_new mn mx"
  have inv: "consensus_inv ?c" using assms by (rule consensus_inv_new)
  then obtain c where c: "ip4_run consensus_source ?c es = Ok c" and inv': "consensus_inv c"
    using consensus.run_ok by blast
  obtain r where r: "consensus_get_best_ipv4 c = Ok r" using consensus_get_best_eq [OF inv'] by blast
  have count: "vote_count c a = int (tally mx a es)" and mn: "min_votes c = mn" for a
    using consensus_run_tally [OF inv c, of a 0]
    by (simp_all add: consensus_new_def vote_count_def tally_def)
  show ?thesis
  proof (cases r)
    case (Some a)
    have "mn \<le> tally mx a es" "tally mx b es \<le> tally mx a es" for b
      using consensus_best_count(1) [OF inv' r [unfolded Some]]
        consensus_best_count(2) [OF inv' r [unfolded Some], of b] by (simp_all add: count mn)
    then show ?thesis using c r count Some by auto
  next
    case None
    have "tally mx a es < mn \<or> tally mx a es = 0" for a
    proof (cases "a \<in> vote_ip ` set (vote_list c)")
      case True
      then obtain v where v: "v \<in> set (vote_list c)" "vote_ip v = a" by auto
      have "vote_count c a = votes v"
        using votes_in_member [of "vote_list c" v] v inv' by (auto simp: vote_count_def consensus_inv_def)
      then show ?thesis
        using consensus_undecided [OF inv' r [unfolded None] v(1)] by (simp add: count mn)
    next
      case False
      then have "vote_count c a = 0" by (simp add: vote_count_def votes_in_absent)
      then show ?thesis by (simp add: count)
    qed
    then show ?thesis using c r count None by auto
  qed
qed

theorem consensus_needs_min_votes_witness:
  "\<exists>c. ip4_run consensus_source (consensus_new 2 4)
        [Vote (Ipv4Addr 0 0 0 0) (Ipv4Addr 1 1 1 1), Vote (Ipv4Addr 0 0 0 0) (Ipv4Addr 1 1 1 1)] = Ok c \<and>
    consensus_get_best_ipv4 c = Ok (Some (Ipv4Addr 1 1 1 1)) \<and>
    vote_count c (Ipv4Addr 1 1 1 1) = 2"
proof -
  have "int 2 \<le> i32_max" "(1::nat) \<le> 4" "int 4 < i32_max" by (simp_all add: i32_max_def)
  note holds = consensus_needs_min_votes [OF this,
      of "[Vote (Ipv4Addr 0 0 0 0) (Ipv4Addr 1 1 1 1), Vote (Ipv4Addr 0 0 0 0) (Ipv4Addr 1 1 1 1)]"]
  have best: "consensus_get_best_ipv4 \<lparr>min_votes = 2, max_votes = 4,
      vote_list = [\<lparr>vote_ip = Ipv4Addr 1 1 1 1, votes = 2\<rparr>]\<rparr> = Ok (Some (Ipv4Addr 1 1 1 1))"
    by (simp add: consensus_get_best_ipv4_def usize_to_i32_def i32_max_def)
  have run: "ip4_run consensus_source (consensus_new 2 4)
      [Vote (Ipv4Addr 0 0 0 0) (Ipv4Addr 1 1 1 1), Vote (Ipv4Addr 0 0 0 0) (Ipv4Addr 1 1 1 1)]
     = Ok \<lparr>min_votes = 2, max_votes = 4, vote_list = [\<lparr>vote_ip = Ipv4Addr 1 1 1 1, votes = 2\<rparr>]\<rparr>"
    by (simp add: consensus_source_def consensus_add_vote_def consensus_new_def usize_to_i32_def
        i32_checked_def i32_max_def i32_min_def)
  have "tally 4 (Ipv4Addr 1 1 1 1)
      [Vote (Ipv4Addr 0 0 0 0) (Ipv4Addr 1 1 1 1), Vote (Ipv4Addr 0 0 0 0) (Ipv4Addr 1 1 1 1)] = 2"
    by (simp add: tally_def)
  with holds run best show ?thesis by auto
qed

text \<open>
  The vote counts behave as the counter they stand for: a vote adds one, capped at
  \<open>max_votes\<close>, to the proposed address only; a decay takes one off every address, never below
  zero; and the answer is an address with the most votes.
\<close>

lemma consensus_counts:
  assumes "consensus_inv c"
  shows "\<exists>c' d. consensus_add_vote c t a = Ok c' \<and> consensus_decay c = Ok d \<and>
    (\<forall>b. vote_count c' b = (if b = a then min (int (max_votes c)) (vote_count c a + 1) else vote_count c b)) \<and>
    (\<forall>b. vote_count d b = max 0 (vote_count c b - 1)) \<and>
    (\<forall>b x. consensus_get_best_ipv4 c = Ok (Some x) \<longrightarrow> vote_count c b \<le> vote_count c x)"
proof -
  obtain c' where c': "consensus_add_vote c t a = Ok c'"
    using consensus_add_vote_eq [OF assms] by blast
  obtain d where d: "consensus_decay c = Ok d" using consensus_decay_eq [OF assms] by blast
  show ?thesis
    using c' d vote_count_add_vote [OF assms c'] vote_count_decay [OF assms d]
      consensus_best_count(2) [OF assms] by blast
qed

end
