(* ===== verification/Dht_Id.thy ===== *)
theory Dht_Id
  imports Dht_Net
begin

text \<open>
  \<open>src/common/id.rs\<close>: node ids and info hashes, 20 bytes compared as a big-endian number, with
  XOR as the distance; the common-prefix length that drives the buckets; and the BEP 42 check
  that ties an id to an IP address. The CRC-32C of the \<open>crc\<close> crate, the hexadecimal decoder
  of the \<open>hex\<close> crate and the random generator are arguments.
\<close>

unbundle bit_operations_syntax

section \<open>The type and its construction\<close>

definition ID_SIZE :: nat where "ID_SIZE = 20"

lemma ID_SIZE_eq [simp]: "ID_SIZE = 20" by (simp add: ID_SIZE_def)

typedef Id = "{bs :: u8 list. length bs = ID_SIZE}" morphisms bytes Abs_Id
  by (rule exI [of _ "replicate ID_SIZE 0"]) simp

lemma Abs_Id_bytes [code abstype]: "Abs_Id (bytes i) = i"
  by (rule bytes_inverse)

lemma length_bytes [simp]: "length (bytes i) = 20"
  using bytes [of i] by simp

text \<open>An id from an array of bytes; only ever applied to 20 of them.\<close>

definition mk_id :: "u8 list \<Rightarrow> Id" where
  "mk_id bs = Abs_Id (if length bs = ID_SIZE then bs else replicate ID_SIZE 0)"

lemma bytes_mk_id_code [code abstract]:
  "bytes (mk_id bs) = (if length bs = ID_SIZE then bs else replicate ID_SIZE 0)"
  by (simp add: mk_id_def Abs_Id_inverse)

lemma bytes_mk_id [simp]: "length bs = 20 \<Longrightarrow> bytes (mk_id bs) = bs"
  by (simp add: bytes_mk_id_code)

lemma mk_id_bytes [simp]: "mk_id (bytes i) = i"
  by (metis bytes_inject bytes_mk_id length_bytes)

lemma Id_eqI: "bytes i = bytes j \<Longrightarrow> i = j"
  by (simp add: bytes_inject)

lemma mk_id_inject [simp]:
  "length a = 20 \<Longrightarrow> length b = 20 \<Longrightarrow> mk_id a = mk_id b \<longleftrightarrow> a = b"
  by (metis bytes_mk_id)

instantiation Id :: equal
begin
definition equal_Id :: "Id \<Rightarrow> Id \<Rightarrow> bool" where
  "equal_Id i j \<longleftrightarrow> bytes i = bytes j"
instance
  by standard (simp add: equal_Id_def bytes_inject)
end

definition id_from_bytes :: "u8 list \<Rightarrow> Id res" where
  "id_from_bytes bs =
     (if length bs \<noteq> ID_SIZE then Err (PacketParseError ''Wrong number of bytes'')
      else Ok (mk_id (take ID_SIZE bs)))"

definition id_to_vec :: "Id \<Rightarrow> u8 list" where
  "id_to_vec i = bytes i"

definition id_zero :: Id where
  "id_zero = mk_id (replicate ID_SIZE 0)"

text \<open>\<open>from_random\<close>: the generator fills the array.\<close>

definition id_from_random :: "(nat \<Rightarrow> u8) \<Rightarrow> Id" where
  "id_from_random g = mk_id (map g [0..<ID_SIZE])"

text \<open>\<open>from_hex\<close>; \<open>hex_decode\<close> is \<open>hex::decode\<close>.\<close>

definition id_from_hex :: "(string \<Rightarrow> u8 list option) \<Rightarrow> string \<Rightarrow> Id res" where
  "id_from_hex hex_decode h =
     (case hex_decode h of
        None \<Rightarrow> Err (PacketParseError ''hex'')
      | Some bs \<Rightarrow> id_from_bytes bs)"

lemma id_from_bytes_simps [simp]:
  "length bs = 20 \<Longrightarrow> id_from_bytes bs = Ok (mk_id bs)"
  "length bs \<noteq> 20 \<Longrightarrow> id_from_bytes bs = Err (PacketParseError ''Wrong number of bytes'')"
  by (simp_all add: id_from_bytes_def)

lemma id_from_bytes_to_vec [simp]: "id_from_bytes (id_to_vec i) = Ok i"
  by (simp add: id_to_vec_def)

lemma length_id_to_vec [simp]: "length (id_to_vec i) = 20"
  by (simp add: id_to_vec_def)

lemma bytes_id_zero [simp]: "bytes id_zero = replicate 20 0"
  by (simp add: id_zero_def)

section \<open>Distance\<close>

text \<open>\<open>xor\<close>: byte by byte; the \<open>expect\<close> on \<open>from_bytes\<close> cannot fail on \<open>ID_SIZE\<close> bytes.\<close>

definition id_xor :: "Id \<Rightarrow> Id \<Rightarrow> Id" where
  "id_xor a b = mk_id (map (\<lambda>i. (bytes a ! i) XOR (bytes b ! i)) [0..<ID_SIZE])"

lemma bytes_id_xor: "bytes (id_xor a b) = map2 (XOR) (bytes a) (bytes b)"
  by (simp add: id_xor_def list_eq_iff_nth_eq)

lemma nth_bytes_id_xor [simp]: "i < 20 \<Longrightarrow> bytes (id_xor a b) ! i = (bytes a ! i) XOR (bytes b ! i)"
  by (simp add: bytes_id_xor)

lemma id_xor_commute: "id_xor a b = id_xor b a"
  by (rule Id_eqI) (simp add: list_eq_iff_nth_eq xor.commute)

lemma id_xor_assoc: "id_xor (id_xor a b) c = id_xor a (id_xor b c)"
  by (rule Id_eqI) (simp add: list_eq_iff_nth_eq xor.assoc)

lemma id_xor_self [simp]: "id_xor a a = id_zero"
  by (rule Id_eqI) (simp add: list_eq_iff_nth_eq)

lemma id_xor_zero [simp]: "id_xor a id_zero = a" "id_xor id_zero a = a"
  by (rule Id_eqI, simp add: list_eq_iff_nth_eq)+

lemma id_xor_cancel [simp]: "id_xor a (id_xor a b) = b"
  by (simp flip: id_xor_assoc)

lemma id_xor_right_inject [simp]: "id_xor a t = id_xor b t \<longleftrightarrow> a = b"
  by (metis id_xor_cancel id_xor_commute)

text \<open>The comparison loop of \<open>partial_cmp\<close>.\<close>

datatype ordering = Less | Equal | Greater

fun cmp_bytes :: "u8 list \<Rightarrow> u8 list \<Rightarrow> ordering" where
  "cmp_bytes (x # xs) (y # ys) =
     (if x < y then Less else if y < x then Greater else cmp_bytes xs ys)"
| "cmp_bytes xs ys = Equal"

definition id_partial_cmp :: "Id \<Rightarrow> Id \<Rightarrow> ordering option" where
  "id_partial_cmp a b = Some (cmp_bytes (bytes a) (bytes b))"

text \<open>The number an id stands for, most significant byte first: the reference order.\<close>

definition bytes_val :: "u8 list \<Rightarrow> nat" where
  "bytes_val bs = foldl (\<lambda>acc b. 256 * acc + unat b) 0 bs"

definition id_val :: "Id \<Rightarrow> nat" where
  "id_val i = bytes_val (bytes i)"

lemma bytes_val_foldl: "foldl (\<lambda>acc b. 256 * acc + unat (b :: u8)) n bs = n * 256 ^ length bs + bytes_val bs"
proof (induction bs arbitrary: n)
  case Nil
  then show ?case by (simp add: bytes_val_def)
next
  case (Cons b bs)
  have "bytes_val (b # bs) = unat b * 256 ^ length bs + bytes_val bs"
    using Cons [of "unat b"] by (simp add: bytes_val_def)
  then show ?case using Cons [of "256 * n + unat b"] by (simp add: algebra_simps)
qed

lemma bytes_val_simps [simp]:
  "bytes_val [] = 0"
  "bytes_val (b # bs) = unat b * 256 ^ length bs + bytes_val bs"
  using bytes_val_foldl [of "unat b" bs] by (simp_all add: bytes_val_def)

lemma unat_u8_less [simp]: "unat (b :: u8) < 256"
proof -
  have "unat b < 2 ^ LENGTH(8)" by (rule unsigned_less)
  then show ?thesis by simp
qed

lemma bytes_val_less: "bytes_val bs < 256 ^ length bs"
proof (induction bs)
  case (Cons b bs)
  have "unat b * 256 ^ length bs \<le> 255 * 256 ^ length bs"
    using unat_u8_less [of b] by (intro mult_right_mono) (simp_all del: unat_u8_less)
  with Cons.IH show ?case by (simp only: bytes_val_simps length_Cons power_Suc)
qed simp

lemma cmp_bytes_val:
  assumes "length xs = length ys"
  shows "cmp_bytes xs ys = Less \<longleftrightarrow> bytes_val xs < bytes_val ys"
    and "cmp_bytes xs ys = Equal \<longleftrightarrow> xs = ys"
    and "cmp_bytes xs ys = Greater \<longleftrightarrow> bytes_val ys < bytes_val xs"
proof -
  have lt: "u * B + r < v * B + s" if "u < v" "r < B" for u v r s B :: nat
  proof -
    have "u * B + r < Suc u * B" using that(2) by simp
    also have "\<dots> \<le> v * B" using that(1) by (intro mult_right_mono) auto
    finally show ?thesis by simp
  qed
  have "(cmp_bytes xs ys = Less \<longleftrightarrow> bytes_val xs < bytes_val ys) \<and>
        (cmp_bytes xs ys = Equal \<longleftrightarrow> xs = ys) \<and>
        (cmp_bytes xs ys = Greater \<longleftrightarrow> bytes_val ys < bytes_val xs)"
    using assms
  proof (induction xs ys rule: list_induct2)
    case (Cons x xs y ys)
    consider "x < y" | "y < x" | "x = y" by force
    then show ?case
    proof cases
      case 1
      then have "bytes_val (x # xs) < bytes_val (y # ys)"
        using lt [of "unat x" "unat y" "bytes_val xs" "256 ^ length ys"] bytes_val_less [of xs] Cons.hyps
        by (simp add: word_less_nat_alt)
      with 1 show ?thesis by auto
    next
      case 2
      then have "bytes_val (y # ys) < bytes_val (x # xs)"
        using lt [of "unat y" "unat x" "bytes_val ys" "256 ^ length xs"] bytes_val_less [of ys] Cons.hyps
        by (simp add: word_less_nat_alt)
      with 2 show ?thesis by auto
    next
      case 3
      with Cons show ?thesis by simp
    qed
  qed simp
  then show "cmp_bytes xs ys = Less \<longleftrightarrow> bytes_val xs < bytes_val ys"
    and "cmp_bytes xs ys = Equal \<longleftrightarrow> xs = ys"
    and "cmp_bytes xs ys = Greater \<longleftrightarrow> bytes_val ys < bytes_val xs"
    by simp_all
qed

lemma id_val_inject [simp]: "id_val a = id_val b \<longleftrightarrow> a = b"
proof
  assume "id_val a = id_val b"
  then have "cmp_bytes (bytes a) (bytes b) \<noteq> Less" "cmp_bytes (bytes a) (bytes b) \<noteq> Greater"
    by (simp_all add: cmp_bytes_val id_val_def)
  then have "cmp_bytes (bytes a) (bytes b) = Equal" by (metis ordering.exhaust)
  then show "a = b" by (simp add: cmp_bytes_val bytes_inject)
qed simp

text \<open>Rust's \<open><\<close> and \<open>\<le>\<close> on ids are read off \<open>partial_cmp\<close>.\<close>

instantiation Id :: linorder
begin
definition less_Id :: "Id \<Rightarrow> Id \<Rightarrow> bool" where
  "less_Id a b \<longleftrightarrow> id_partial_cmp a b = Some Less"
definition less_eq_Id :: "Id \<Rightarrow> Id \<Rightarrow> bool" where
  "less_eq_Id a b \<longleftrightarrow> id_partial_cmp a b \<noteq> Some Greater"
instance
  by standard
    (auto simp: less_Id_def less_eq_Id_def id_partial_cmp_def cmp_bytes_val not_less simp flip: id_val_def)
end

lemma id_less_val: "a < b \<longleftrightarrow> id_val a < id_val b"
  by (simp add: less_Id_def id_partial_cmp_def cmp_bytes_val id_val_def)

lemma id_le_val: "a \<le> b \<longleftrightarrow> id_val a \<le> id_val b"
  by (simp add: less_eq_Id_def id_partial_cmp_def cmp_bytes_val id_val_def not_less)

text \<open>XOR distance satisfies the triangle inequality, because \<open>a XOR b \<le> a + b\<close>.\<close>

lemma nat_xor_le: "(m :: nat) XOR n \<le> m + n"
proof (induction m arbitrary: n rule: less_induct)
  case (less m)
  show ?case
  proof (cases "m = 0")
    case False
    then have IH: "(m div 2) XOR (n div 2) \<le> m div 2 + n div 2" by (intro less) simp
    have "m XOR n = of_bool (odd m \<noteq> odd n) + 2 * ((m div 2) XOR (n div 2))"
      by (rule xor_rec)
    also have "\<dots> \<le> of_bool (odd m \<noteq> odd n) + 2 * (m div 2 + n div 2)" using IH by simp
    also have "\<dots> \<le> m + n" by (cases "odd m"; cases "odd n") auto
    finally show ?thesis .
  qed simp
qed

lemma bytes_val_xor_le:
  "length xs = length ys \<Longrightarrow> bytes_val (map2 (XOR) xs ys) \<le> bytes_val xs + bytes_val ys"
proof (induction xs ys rule: list_induct2)
  case (Cons x xs y ys)
  have "unat (x XOR y) * 256 ^ length ys \<le> (unat x + unat y) * 256 ^ length ys"
    by (intro mult_right_mono) (simp_all add: unsigned_xor_eq nat_xor_le)
  with Cons show ?case by (simp add: algebra_simps)
qed simp

lemma id_xor_triangle: "id_val (id_xor a c) \<le> id_val (id_xor a b) + id_val (id_xor b c)"
proof -
  have "id_xor a c = id_xor (id_xor a b) (id_xor b c)"
    by (metis id_xor_assoc id_xor_cancel)
  then show ?thesis
    using bytes_val_xor_le [of "bytes (id_xor a b)" "bytes (id_xor b c)"]
    by (simp add: id_val_def bytes_id_xor [of "id_xor a b" "id_xor b c"])
qed

lemma id_val_zero_iff [simp]: "id_val i = 0 \<longleftrightarrow> i = id_zero"
proof -
  have "bytes_val (replicate n 0) = 0" for n by (induction n) auto
  then have "id_val id_zero = 0" by (simp add: id_val_def)
  then show ?thesis by (metis id_val_inject)
qed

section \<open>Common prefixes\<close>

definition byte_bits :: "u8 \<Rightarrow> bool list" where
  "byte_bits b = map (bit b) [7, 6, 5, 4, 3, 2, 1, 0]"

definition id_bits :: "Id \<Rightarrow> bool list" where
  "id_bits i = concat (map byte_bits (bytes i))"

text \<open>\<open>u8::leading_zeros\<close>.\<close>

definition leading_zeros :: "u8 \<Rightarrow> nat" where
  "leading_zeros b = length (takeWhile Not (byte_bits b))"

text \<open>The loop of \<open>matching_prefix_bits\<close>: stops after the first byte that is not zero.\<close>

fun sum_leading_zeros :: "u8 list \<Rightarrow> nat" where
  "sum_leading_zeros [] = 0"
| "sum_leading_zeros (b # bs) =
     leading_zeros b + (if leading_zeros b < 8 then 0 else sum_leading_zeros bs)"

definition matching_prefix_bits :: "Id \<Rightarrow> Id \<Rightarrow> nat" where
  "matching_prefix_bits a b = sum_leading_zeros (bytes (id_xor a b))"

lemma unat_bits:
  "unat (b :: u8) = of_bool (bit b 0) + 2 * (of_bool (bit b 1) + 2 * (of_bool (bit b 2) +
     2 * (of_bool (bit b 3) + 2 * (of_bool (bit b 4) + 2 * (of_bool (bit b 5) +
     2 * (of_bool (bit b 6) + 2 * of_bool (bit b 7)))))))"
proof -
  have "unat b = take_bit 8 (unat b)" by (simp add: take_bit_nat_eq_self)
  also have "\<dots> = horner_sum of_bool 2 (map (bit (unat b)) [0..<8])" by (simp add: horner_sum_bit_eq_take_bit)
  also have "map (bit (unat b)) [0..<8] = map (bit b) [0..<8]" by (simp add: bit_unsigned_iff)
  also have "[0..<8] = [0, 1, 2, 3, 4, 5, 6, 7 :: nat]" by code_simp
  finally show ?thesis by (simp only: list.map horner_sum_simps mult_zero_right add_0_right)
qed
lemma leading_zeros_facts:
  "leading_zeros b \<le> 8" "leading_zeros b = 8 \<longleftrightarrow> b = 0"
  "leading_zeros b < 8 \<Longrightarrow> 2 ^ (7 - leading_zeros b) \<le> unat b \<and> unat b < 2 ^ (8 - leading_zeros b)"
proof -
  have "b = 0 \<longleftrightarrow> unat b = 0" by (simp add: unat_eq_0)
  then show "leading_zeros b \<le> 8" "leading_zeros b = 8 \<longleftrightarrow> b = 0"
    by (auto simp: leading_zeros_def byte_bits_def unat_bits)
  show "2 ^ (7 - leading_zeros b) \<le> unat b \<and> unat b < 2 ^ (8 - leading_zeros b)" if "leading_zeros b < 8"
    using that by (auto simp: leading_zeros_def byte_bits_def unat_bits split: if_splits)
qed
lemma sum_leading_zeros_le: "sum_leading_zeros bs \<le> 8 * length bs"
  using leading_zeros_facts(1) by (induction bs) (auto simp: trans_le_add1 add_mono)

lemma leading_zeros_less:
  assumes "leading_zeros y < leading_zeros x" shows "x < y"
proof (cases "leading_zeros x = 8")
  case True
  then have "x = 0" by (simp add: leading_zeros_facts(2))
  moreover have "y \<noteq> 0" using assms leading_zeros_facts [of y] True by auto
  ultimately show ?thesis by (simp add: word_gt_0)
next
  case False
  then have "leading_zeros x < 8" using leading_zeros_facts(1) [of x] by simp
  then have "unat x < 2 ^ (8 - leading_zeros x)" by (simp add: leading_zeros_facts(3))
  also have "\<dots> \<le> (2::nat) ^ (7 - leading_zeros y)"
    using assms by (intro power_increasing) auto
  also have "\<dots> \<le> unat y" using assms leading_zeros_facts(1) [of x] leading_zeros_facts(3) [of y] by simp
  finally show ?thesis by (simp add: word_less_nat_alt)
qed

text \<open>More leading zeros means a smaller number, so a longer common prefix means a smaller distance.\<close>

lemma sum_leading_zeros_cmp:
  "length xs = length ys \<Longrightarrow> sum_leading_zeros ys < sum_leading_zeros xs \<Longrightarrow> cmp_bytes xs ys = Less"
proof (induction xs ys rule: list_induct2)
  case (Cons x xs y ys)
  consider "leading_zeros y < leading_zeros x" | "leading_zeros x = 8" "leading_zeros y = 8"
    using Cons.prems leading_zeros_facts(1) [of x] leading_zeros_facts(1) [of y]
    by (fastforce split: if_splits)
  then show ?case
  proof cases
    case 1
    then show ?thesis by (simp add: leading_zeros_less)
  next
    case 2
    with Cons show ?thesis by (simp add: leading_zeros_facts(2))
  qed
qed simp

lemma matching_prefix_bits_closer:
  "matching_prefix_bits b t < matching_prefix_bits a t \<Longrightarrow> id_xor a t < id_xor b t"
  by (simp add: matching_prefix_bits_def less_Id_def id_partial_cmp_def sum_leading_zeros_cmp)

lemma matching_prefix_bits_le: "matching_prefix_bits a b \<le> 160"
  using sum_leading_zeros_le [of "bytes (id_xor a b)"] by (simp add: matching_prefix_bits_def)

lemma matching_prefix_bits_commute: "matching_prefix_bits a b = matching_prefix_bits b a"
  by (simp add: matching_prefix_bits_def id_xor_commute)

lemma sum_leading_zeros_all: "sum_leading_zeros bs = 8 * length bs \<longleftrightarrow> bs = replicate (length bs) 0"
proof (induction bs)
  case (Cons b bs)
  then show ?case
    using leading_zeros_facts(1,2) [of b] sum_leading_zeros_le [of bs] by auto
qed simp

lemma matching_prefix_bits_full: "matching_prefix_bits a b = 160 \<longleftrightarrow> a = b"
proof -
  have "matching_prefix_bits a b = 160 \<longleftrightarrow> bytes (id_xor a b) = replicate 20 0"
    using sum_leading_zeros_all [of "bytes (id_xor a b)"] by (simp add: matching_prefix_bits_def)
  also have "\<dots> \<longleftrightarrow> id_xor a b = id_xor b b" by (metis Id_eqI bytes_id_zero id_xor_self)
  finally show ?thesis by (simp only: id_xor_right_inject)
qed

lemma matching_prefix_bits_less: "a \<noteq> b \<Longrightarrow> matching_prefix_bits a b < 160"
  using matching_prefix_bits_le [of a b] matching_prefix_bits_full [of a b] by linarith

text \<open>
  The reference definition: the length of the longest common prefix of the two bit strings.
\<close>

lemma length_byte_bits [simp]: "length (byte_bits b) = 8"
  by (simp add: byte_bits_def)

lemma byte_bits_inject: "byte_bits x = byte_bits y \<longleftrightarrow> x = y"
proof
  assume "byte_bits x = byte_bits y"
  then have "unat x = unat y" by (simp only: unat_bits) (simp add: byte_bits_def)
  then show "x = y" by (simp only: word_unat_eq_iff)
qed simp

lemma u8_xor_eq_0_iff: "(x :: u8) XOR y = 0 \<longleftrightarrow> x = y"
  by (auto simp: bit_eq_iff bit_xor_iff)

lemma lcp_append_eq: "longest_common_prefix (p @ xs) (p @ ys) = p @ longest_common_prefix xs ys"
  by (induction p) auto

lemma lcp_append_neq:
  "length p = length q \<Longrightarrow> p \<noteq> q \<Longrightarrow> longest_common_prefix (p @ xs) (q @ ys) = longest_common_prefix p q"
  by (induction p q rule: list_induct2) auto

lemma lcp_takeWhile:
  "length p = length q \<Longrightarrow>
   length (longest_common_prefix p q) = length (takeWhile Not (map2 (\<noteq>) p q))"
  by (induction p q rule: list_induct2) auto

lemma leading_zeros_xor:
  "leading_zeros (x XOR y) = length (longest_common_prefix (byte_bits x) (byte_bits y))"
  by (subst lcp_takeWhile) (simp_all add: leading_zeros_def byte_bits_def bit_xor_iff)

lemma sum_leading_zeros_lcp:
  "length xs = length ys \<Longrightarrow> sum_leading_zeros (map2 (XOR) xs ys) =
     length (longest_common_prefix (concat (map byte_bits xs)) (concat (map byte_bits ys)))"
proof (induction xs ys rule: list_induct2)
  case (Cons x xs y ys)
  show ?case
  proof (cases "x = y")
    case True
    then have "leading_zeros (x XOR y) = 8" by (simp add: leading_zeros_facts(2))
    then show ?thesis using True Cons.IH by (simp add: lcp_append_eq)
  next
    case False
    then have "leading_zeros (x XOR y) < 8"
      using leading_zeros_facts(1,2) [of "x XOR y"] by (metis le_neq_implies_less u8_xor_eq_0_iff)
    with False show ?thesis
      by (simp add: lcp_append_neq byte_bits_inject leading_zeros_xor)
  qed
qed simp

lemma matching_prefix_bits_lcp:
  "matching_prefix_bits a b = length (longest_common_prefix (id_bits a) (id_bits b))"
  by (simp add: matching_prefix_bits_def bytes_id_xor sum_leading_zeros_lcp id_bits_def)


section \<open>Mutants, and ids tied to an IP address (BEP 42)\<close>

text \<open>\<open>make_mutant\<close>; \<open>rnd\<close> is the id that \<open>from_random\<close> produced.\<close>

definition make_mutant :: "Id \<Rightarrow> nat \<Rightarrow> Id \<Rightarrow> Id res" where
  "make_mutant self identical_bytes rnd =
     (if identical_bytes = 0 \<or> ID_SIZE \<le> identical_bytes
      then Err (GeneralError ''identical_bytes must be in range (0, ID_SIZE)'')
      else Ok (mk_id (map (\<lambda>i. if i < identical_bytes then bytes self ! i else bytes rnd ! i) [0..<ID_SIZE])))"

record IdPrefixMagic =
  magic_prefix :: "u8 \<times> u8 \<times> u8"
  magic_suffix :: u8

definition magic_from_id :: "Id \<Rightarrow> IdPrefixMagic" where
  "magic_from_id i =
     \<lparr>magic_prefix = (bytes i ! 0, bytes i ! 1, bytes i ! 2), magic_suffix = bytes i ! (ID_SIZE - 1)\<rparr>"

text \<open>\<open>slice.try_into().expect(..)\<close> for a \<open>[u8; 3]\<close>: panics unless the slice has 3 bytes.\<close>

fun slice_to_array3 :: "u8 list \<Rightarrow> (u8 \<times> u8 \<times> u8) res" where
  "slice_to_array3 [a, b, c] = Ok (a, b, c)"
| "slice_to_array3 _ = Panic"

text \<open>
  \<open>IdPrefixMagic::from_ip\<close>, \<open>crc\<close> being \<open>crc32::checksum_castagnoli\<close>. The shift of the seed
  drops all but its three low bits. The IPv6 branch takes two bytes of the checksum where the
  array has three.
\<close>

fun magic_from_ip :: "(u8 list \<Rightarrow> u32) \<Rightarrow> IpAddr \<Rightarrow> u8 \<Rightarrow> IdPrefixMagic res" where
  "magic_from_ip crc (IpV4 ipv4) seed_r =
     (let r32 = ucast seed_r :: u32;
          magic = 0x030f3fff :: u32;
          ip_int = from_be (v4_octets ipv4) :: u32;
          nonsense = (ip_int AND magic) OR push_bit 29 r32;
          c = crc (be_bytes4 nonsense)
      in res_bind (slice_to_array3 (take 3 (be_bytes4 c)))
           (\<lambda>p. Ok \<lparr>magic_prefix = p, magic_suffix = seed_r\<rparr>))"
| "magic_from_ip crc (IpV6 ipv6) seed_r =
     (let r64 = ucast seed_r :: u64;
          magic = 0x0103070f1f3f7fff :: u64;
          ip_int = from_be (drop 8 (v6_octets ipv6)) :: u64;
          nonsense = (ip_int AND magic) OR push_bit 61 r64;
          c = crc (be_bytes8 nonsense)
      in res_bind (slice_to_array3 (take 2 (be_bytes4 c)))
           (\<lambda>p. Ok \<lparr>magic_prefix = p, magic_suffix = seed_r\<rparr>))"

text \<open>The hand-written \<open>PartialEq\<close>: only the top 21 bits of the prefix count.\<close>

definition magic_eq :: "IdPrefixMagic \<Rightarrow> IdPrefixMagic \<Rightarrow> bool" where
  "magic_eq a b =
     (case (magic_prefix a, magic_prefix b) of ((a0, a1, a2), (b0, b1, b2)) \<Rightarrow>
        a0 = b0 \<and> a1 = b1 \<and> a2 AND 0xf8 = b2 AND 0xf8 \<and> magic_suffix a = magic_suffix b)"

text \<open>\<open>Id::from_ip\<close>: \<open>r\<close>, \<open>g\<close> and \<open>rest\<close> are the bytes drawn from the generator.\<close>

definition id_from_ip :: "(u8 list \<Rightarrow> u32) \<Rightarrow> IpAddr \<Rightarrow> u8 \<Rightarrow> u8 \<Rightarrow> (nat \<Rightarrow> u8) \<Rightarrow> Id res" where
  "id_from_ip crc ip r g rest =
     res_bind (magic_from_ip crc ip r) (\<lambda>m.
       (case magic_prefix m of (p0, p1, p2) \<Rightarrow>
          Ok (mk_id ([p0, p1, (p2 AND 0xf8) OR (g AND 0x7)]
                     @ map rest [3..<ID_SIZE - 1] @ [r]))))"

definition is_valid_for_ip :: "(u8 list \<Rightarrow> u32) \<Rightarrow> Id \<Rightarrow> IpAddr \<Rightarrow> bool res" where
  "is_valid_for_ip crc self ip =
     (if is_loopback ip then Ok True
      else res_bind (magic_from_ip crc ip (bytes self ! (ID_SIZE - 1)))
             (\<lambda>expected. Ok (magic_eq expected (magic_from_id self))))"

lemma magic_from_ip_v4_ok: "\<exists>p. magic_from_ip crc (IpV4 a) r = Ok \<lparr>magic_prefix = p, magic_suffix = r\<rparr>"
  by (auto simp: be_bytes4_def Let_def)

lemma magic_from_ip_v6_panics: "magic_from_ip crc (IpV6 a) r = Panic"
  by (simp add: be_bytes4_def Let_def)

lemma is_valid_for_ip_v4_ok: "\<exists>v. is_valid_for_ip crc i (IpV4 a) = Ok v"
  using magic_from_ip_v4_ok [of crc a "bytes i ! 19"] by (auto simp: is_valid_for_ip_def)

lemma byte_mask_merge: "((p AND 0xf8) OR (g AND 0x7)) AND 0xf8 = p AND (0xf8 :: u8)"
  by (simp add: bit.conj_disj_distrib2 and.assoc)

lemma id_from_ip_valid:
  assumes "id_from_ip crc ip r g rest = Ok i"
  shows "is_valid_for_ip crc i ip = Ok True"
proof -
  obtain m where m: "magic_from_ip crc ip r = Ok m"
    using assms by (auto simp: id_from_ip_def)
  obtain p0 p1 p2 where p: "magic_prefix m = (p0, p1, p2)" by (cases "magic_prefix m") auto
  then have i: "i = mk_id ([p0, p1, (p2 AND 0xf8) OR (g AND 0x7)] @ map rest [3..<19] @ [r])"
    using assms m by (simp add: id_from_ip_def)
  have b: "bytes i = [p0, p1, (p2 AND 0xf8) OR (g AND 0x7)] @ map rest [3..<19] @ [r]"
    using i by simp
  have last: "bytes i ! 19 = r" by (simp add: b nth_append)
  have "magic_suffix m = r"
    using m by (cases ip) (auto simp: Let_def)
  then have "magic_eq m (magic_from_id i)"
    using p by (simp add: magic_eq_def magic_from_id_def last b byte_mask_merge)
  then show ?thesis using m by (simp add: is_valid_for_ip_def last)
qed

lemma make_mutant_prefix:
  assumes "make_mutant self n rnd = Ok m"
  shows "take n (bytes m) = take n (bytes self)" "drop n (bytes m) = drop n (bytes rnd)"
  using assms by (auto simp: make_mutant_def list_eq_iff_nth_eq split: if_splits)

lemma make_mutant_ok_iff: "(\<exists>m. make_mutant self n rnd = Ok m) \<longleftrightarrow> 0 < n \<and> n < 20"
  by (auto simp: make_mutant_def)

section \<open>Properties\<close>

text \<open>
  C34. \<open>matching_prefix_bits\<close> is the length of the longest common prefix of the two ids read as bit
  strings, and it orders ids the way the XOR metric does: of two ids, the one that shares the
  longer prefix with a target is strictly nearer to it.
\<close>

theorem prefix_bits_metric:
  shows "matching_prefix_bits a t = length (longest_common_prefix (id_bits a) (id_bits t)) \<and>
    (matching_prefix_bits b t < matching_prefix_bits a t \<longrightarrow> id_xor a t < id_xor b t) \<and>
    (matching_prefix_bits a t = 160 \<longleftrightarrow> a = t)"
  by (simp add: matching_prefix_bits_lcp [symmetric] matching_prefix_bits_closer matching_prefix_bits_full)

theorem prefix_bits_metric_witness:
  "id_xor (mk_id (replicate 20 1)) id_zero < id_xor (mk_id (replicate 20 255)) id_zero"
proof -
  have "matching_prefix_bits (mk_id (replicate 20 255)) id_zero < matching_prefix_bits (mk_id (replicate 20 1)) id_zero"
    by code_simp
  then show ?thesis
    using prefix_bits_metric [of "mk_id (replicate 20 1)" id_zero "mk_id (replicate 20 255)"] by blast
qed

text \<open>
  The XOR distance is a metric on ids, read as big-endian numbers: it is zero only between
  equal ids, symmetric, and satisfies the triangle inequality.
\<close>

lemma xor_distance_metric:
  "(id_val (id_xor a b) = 0 \<longleftrightarrow> a = b) \<and> id_val (id_xor a b) = id_val (id_xor b a) \<and>
   id_val (id_xor a c) \<le> id_val (id_xor a b) + id_val (id_xor b c)"
  by (metis id_val_zero_iff id_xor_commute id_xor_right_inject id_xor_self id_xor_triangle)

text \<open>
  C33. An id that \<open>from_ip\<close> produces for an address is valid for that address (BEP 42), for every
  checksum function and every choice of the random bytes; its last byte is the seed.
\<close>

theorem from_ip_is_valid:
  assumes "id_from_ip crc ip r g rest = Ok i"
  shows "is_valid_for_ip crc i ip = Ok True"
  by (rule id_from_ip_valid [OF assms])

theorem from_ip_is_valid_witness:
  "is_valid_for_ip (\<lambda>_. 0x5fbfbf98)
     (mk_id ([0x5f, 0xbf, 0xbb] @ map (\<lambda>_. 7) [3..<19] @ [1])) (IpV4 (Ipv4Addr 124 31 75 21)) = Ok True"
proof -
  have "id_from_ip (\<lambda>_. 0x5fbfbf98) (IpV4 (Ipv4Addr 124 31 75 21)) 1 3 (\<lambda>_. 7)
      = Ok (mk_id ([0x5f, 0xbf, 0xbb] @ map (\<lambda>_. 7) [3..<19] @ [1]))"
    by (simp add: id_from_ip_def be_bytes4_def Let_def)
  from from_ip_is_valid [OF this] show ?thesis .
qed

text \<open>
  For IPv6 addresses the BEP 42 code never succeeds: \<open>from_ip\<close> panics for every address, and
  \<open>is_valid_for_ip\<close> panics for every address but the loopback one, because the two bytes the IPv6
  branch takes do not convert to the three-byte prefix. For IPv4 the check always gives an answer.
\<close>

lemma ipv6_ids_panic:
  "id_from_ip crc (IpV6 a) r g rest = Panic \<and>
   is_valid_for_ip crc i (IpV6 a) = (if is_loopback (IpV6 a) then Ok True else Panic) \<and>
   (\<exists>v. is_valid_for_ip crc i (IpV4 b) = Ok v)"
  using magic_from_ip_v6_panics is_valid_for_ip_v4_ok by (simp add: id_from_ip_def is_valid_for_ip_def)

end
