(* ===== verification/Dht_Buckets.thy ===== *)
theory Dht_Buckets
  imports Dht_Id
begin

text \<open>
  \<open>src/storage/buckets.rs\<close>: the k-buckets of the routing table. The trait \<open>Bucketable\<close> is a
  table of its two accessors, \<open>Vec<Vec<T>>\<close> is a list of lists, a mutable reference into a bucket
  is the position it points to, and the unstable sort is the parameter \<open>srt\<close>. Reserved
  capacities have no observable effect and are left out.
\<close>

section \<open>Data and operations\<close>

record 'a bucketable =
  get_id :: "'a \<Rightarrow> Id"
  get_first_seen :: "'a \<Rightarrow> instant"

record 'a buckets =
  b_our_id :: Id
  b_buckets :: "'a list list"
  b_k :: nat

definition buckets_new :: "Id \<Rightarrow> nat \<Rightarrow> 'a buckets" where
  "buckets_new our_id k = \<lparr>b_our_id = our_id, b_buckets = [[]], b_k = k\<rparr>"

text \<open>
  \<open>get_dest_bucket_idx_for_id\<close>, for a table of \<open>n\<close> buckets; there is always at least one.
\<close>

definition dest_idx :: "Id \<Rightarrow> nat \<Rightarrow> Id \<Rightarrow> nat" where
  "dest_idx our_id n i = min (n - 1) (matching_prefix_bits our_id i)"

definition get_dest_bucket_idx_for_id :: "'a buckets \<Rightarrow> Id \<Rightarrow> nat" where
  "get_dest_bucket_idx_for_id b i = dest_idx (b_our_id b) (length (b_buckets b)) i"

text \<open>
  The inner loop of \<open>handle_bucket_overflow\<close>, from the last element of bucket \<open>idx\<close> down to the
  first: what belongs elsewhere is swapped out and pushed onto its own bucket.
\<close>

fun move_out :: "('a \<Rightarrow> nat) \<Rightarrow> nat \<Rightarrow> nat \<Rightarrow> 'a list list \<Rightarrow> 'a list list" where
  "move_out ideal idx 0 bs = bs"
| "move_out ideal idx (Suc i) bs =
     (let node = bs ! idx ! i; j = ideal node in
      if j \<noteq> idx
      then let bs1 = bs[idx := swap_remove i (bs ! idx)]
           in move_out ideal idx i (bs1[j := bs1 ! j @ [node]])
      else move_out ideal idx i bs)"

text \<open>\<open>get_dest_bucket_idx\<close>, and the order of \<open>sort_unstable_by_key (get_first_seen)\<close>.\<close>

definition get_dest_bucket_idx :: "'a bucketable \<Rightarrow> Id \<Rightarrow> nat \<Rightarrow> 'a \<Rightarrow> nat" where
  "get_dest_bucket_idx B our_id n item = dest_idx our_id n (get_id B item)"

definition by_first_seen :: "'a bucketable \<Rightarrow> 'a \<Rightarrow> 'a \<Rightarrow> bool" where
  "by_first_seen B a b \<longleftrightarrow> get_first_seen B a \<le> get_first_seen B b"

text \<open>The body of the outer loop, for a bucket over capacity.\<close>

definition overflow_step ::
  "'a bucketable \<Rightarrow> 'a sorter \<Rightarrow> Id \<Rightarrow> nat \<Rightarrow> nat \<Rightarrow> 'a list list \<Rightarrow> 'a list option
     \<Rightarrow> 'a list list \<times> 'a list option" where
  "overflow_step B srt our_id k idx bs chump =
     (let bs1 = (if idx = length bs - 1 then bs @ [[]] else bs);
          bs2 = move_out (get_dest_bucket_idx B our_id (length bs1)) idx (length (bs1 ! idx)) bs1
      in if k < length (bs2 ! idx)
         then let s = srt (by_first_seen B) (bs2 ! idx);
                  remainder = drop k s
              in (bs2[idx := take k s], map_option (\<lambda>c. c @ remainder) chump)
         else (bs2, chump))"

lemmas overflow_step_eq =
  overflow_step_def [unfolded get_dest_bucket_idx_def [abs_def] by_first_seen_def [abs_def]]

text \<open>
  Facts the termination proof needs: a step keeps the number of buckets or adds one, and a bucket
  that is deeper than any id can belong to is left alone.
\<close>

lemma length_move_out [simp, vec_simps]: "length (move_out ideal idx i bs) = length bs"
  by (induction i arbitrary: bs) (simp_all add: Let_def)

lemma move_out_untouched:
  "j \<noteq> idx \<Longrightarrow> (\<And>x. ideal x \<noteq> j) \<Longrightarrow> move_out ideal idx i bs ! j = bs ! j"
  by (induction i arbitrary: bs) (auto simp: Let_def)

lemma length_overflow_step:
  "length (fst (overflow_step B srt our k idx bs ch)) = length bs + of_bool (idx = length bs - 1)"
  by (simp add: overflow_step_eq Let_def)

lemma overflow_step_deep:
  assumes "j \<noteq> idx" and "160 < j"
  shows "fst (overflow_step B srt our k idx bs ch) ! j = (if idx = length bs - 1 then bs @ [[]] else bs) ! j"
proof -
  have "dest_idx our n i \<noteq> j" for n i
    using assms(2) matching_prefix_bits_le [of our i] by (auto simp: dest_idx_def)
  then show ?thesis using assms(1) by (auto simp: overflow_step_eq Let_def move_out_untouched)
qed

text \<open>
  The number of rounds left: while the table may still grow below depth 161 the index is bounded
  by 162, and deeper tables grow at most once more.
\<close>

definition overflow_rounds :: "nat \<Rightarrow> 'a list list \<Rightarrow> nat" where
  "overflow_rounds idx bs =
     (if length bs \<le> 161 then 162 else if last bs = [] then length bs else Suc (length bs)) - idx"

lemma overflow_step_rounds:
  assumes "idx < length bs" and "k < length (bs ! idx)"
  shows "overflow_rounds (Suc idx) (fst (overflow_step B srt our k idx bs ch)) < overflow_rounds idx bs"
proof -
  let ?r = "fst (overflow_step B srt our k idx bs ch)"
  have len: "length ?r = length bs + of_bool (idx = length bs - 1)" by (rule length_overflow_step)
  have ne: "bs \<noteq> []" using assms(1) by auto
  then have rne: "?r \<noteq> []" using len by (metis add_is_0 length_0_conv)
  show ?thesis
  proof (cases "idx = length bs - 1")
    case True
    have full: "last bs \<noteq> []" using assms(2) True ne by (auto simp: last_conv_nth)
    have "last ?r = []" if "161 \<le> length bs"
      using overflow_step_deep [of "length bs" idx B srt our k bs ch] that assms(1) True len rne
      by (simp add: last_conv_nth)
    then show ?thesis using True len full assms(1) by (auto simp: overflow_rounds_def)
  next
    case False
    have "last ?r = last bs" if "161 < length bs"
      using overflow_step_deep [of "length bs - 1" idx B srt our k bs ch] that False len rne ne
      by (simp add: last_conv_nth)
    then show ?thesis using False len assms(1) by (auto simp: overflow_rounds_def)
  qed
qed

text \<open>The outer loop: from bucket \<open>idx\<close> to the last one, which may move while it runs.\<close>

function overflow_loop ::
  "'a bucketable \<Rightarrow> 'a sorter \<Rightarrow> Id \<Rightarrow> nat \<Rightarrow> nat \<Rightarrow> 'a list list \<Rightarrow> 'a list option
     \<Rightarrow> 'a list list \<times> 'a list option" where
  "overflow_loop B srt our_id k idx bs chump =
     (if idx < length bs
      then if k < length (bs ! idx)
           then overflow_loop B srt our_id k (Suc idx)
                  (fst (overflow_step B srt our_id k idx bs chump))
                  (snd (overflow_step B srt our_id k idx bs chump))
           else overflow_loop B srt our_id k (Suc idx) bs chump
      else (bs, chump))"
  by pat_completeness auto
termination
proof (relation "measure (\<lambda>(B, srt, our, k, idx, bs, ch). overflow_rounds idx bs)", goal_cases)
  case (2 B srt our_id k idx bs chump)
  then show ?case by (simp add: case_prod_beta overflow_step_rounds)
next
  case (3 B srt our_id k idx bs chump)
  then show ?case by (auto simp: overflow_rounds_def)
qed simp

declare overflow_loop.simps [simp del]

definition handle_bucket_overflow ::
  "'a bucketable \<Rightarrow> 'a sorter \<Rightarrow> 'a buckets \<Rightarrow> nat \<Rightarrow> 'a list option \<Rightarrow> 'a buckets \<times> 'a list option" where
  "handle_bucket_overflow B srt b bucket_index chump =
     (let r = overflow_loop B srt (b_our_id b) (b_k b) bucket_index (b_buckets b) chump
      in (b\<lparr>b_buckets := fst r\<rparr>, snd r))"

text \<open>\<open>add\<close>: our own id is never stored. The chump list collects what no longer fits.\<close>

definition buckets_add ::
  "'a bucketable \<Rightarrow> 'a sorter \<Rightarrow> 'a buckets \<Rightarrow> 'a \<Rightarrow> 'a list option \<Rightarrow> 'a buckets \<times> 'a list option" where
  "buckets_add B srt b item chump =
     (if get_id B item = b_our_id b then (b, chump)
      else let d = get_dest_bucket_idx_for_id b (get_id B item);
               b1 = b\<lparr>b_buckets := (b_buckets b)[d := b_buckets b ! d @ [item]]\<rparr>
           in handle_bucket_overflow B srt b1 d chump)"

definition buckets_clear :: "'a buckets \<Rightarrow> 'a buckets" where
  "buckets_clear b = b\<lparr>b_buckets := [[]]\<rparr>"

definition buckets_set_id :: "'a buckets \<Rightarrow> Id \<Rightarrow> 'a buckets" where
  "buckets_set_id b new_id = (buckets_clear b)\<lparr>b_our_id := new_id\<rparr>"

text \<open>The first position of an id in a bucket: the search loop of \<open>contains\<close>, \<open>get_mut\<close>, \<open>remove\<close>.\<close>

fun find_pos :: "('a \<Rightarrow> bool) \<Rightarrow> 'a list \<Rightarrow> nat option" where
  "find_pos P [] = None"
| "find_pos P (x # xs) = (if P x then Some 0 else map_option Suc (find_pos P xs))"

definition buckets_contains :: "'a bucketable \<Rightarrow> 'a buckets \<Rightarrow> Id \<Rightarrow> bool" where
  "buckets_contains B b i =
     (let d = get_dest_bucket_idx_for_id b i
      in d < length (b_buckets b) \<and> list_ex (\<lambda>x. get_id B x = i) (b_buckets b ! d))"

definition buckets_get_mut :: "'a bucketable \<Rightarrow> 'a buckets \<Rightarrow> Id \<Rightarrow> (nat \<times> nat) option" where
  "buckets_get_mut B b i =
     (let d = get_dest_bucket_idx_for_id b i
      in if d < length (b_buckets b)
         then map_option (Pair d) (find_pos (\<lambda>x. get_id B x = i) (b_buckets b ! d)) else None)"

definition buckets_read :: "'a buckets \<Rightarrow> nat \<times> nat \<Rightarrow> 'a" where
  "buckets_read b r = b_buckets b ! fst r ! snd r"

definition buckets_write :: "'a buckets \<Rightarrow> nat \<times> nat \<Rightarrow> 'a \<Rightarrow> 'a buckets" where
  "buckets_write b r v =
     b\<lparr>b_buckets := (b_buckets b)[fst r := (b_buckets b ! fst r)[snd r := v]]\<rparr>"

definition buckets_remove :: "'a bucketable \<Rightarrow> 'a buckets \<Rightarrow> Id \<Rightarrow> 'a buckets \<times> 'a option" where
  "buckets_remove B b i =
     (case buckets_get_mut B b i of
        None \<Rightarrow> (b, None)
      | Some (d, p) \<Rightarrow>
          (b\<lparr>b_buckets := (b_buckets b)[d := swap_remove p (b_buckets b ! d)]\<rparr>,
           Some (b_buckets b ! d ! p)))"

definition buckets_retain :: "('a \<Rightarrow> bool) \<Rightarrow> 'a buckets \<Rightarrow> 'a buckets" where
  "buckets_retain f b = b\<lparr>b_buckets := map (filter f) (b_buckets b)\<rparr>"

definition buckets_values :: "'a buckets \<Rightarrow> 'a list" where
  "buckets_values b = concat (b_buckets b)"

definition buckets_count :: "'a buckets \<Rightarrow> nat" where
  "buckets_count b = sum_list (map length (b_buckets b))"

definition count_buckets :: "'a buckets \<Rightarrow> nat" where
  "count_buckets b = length (b_buckets b)"

text \<open>\<open>get_nearest_nodes\<close>: by XOR distance to \<open>i\<close>, the first \<open>k\<close>.\<close>

definition by_distance :: "'a bucketable \<Rightarrow> Id \<Rightarrow> 'a \<Rightarrow> 'a \<Rightarrow> bool" where
  "by_distance B i a b \<longleftrightarrow> id_xor (get_id B a) i \<le> id_xor (get_id B b) i"

definition not_excluded :: "'a bucketable \<Rightarrow> Id option \<Rightarrow> 'a \<Rightarrow> bool" where
  "not_excluded B exclude item \<longleftrightarrow> exclude = None \<or> exclude \<noteq> Some (get_id B item)"

definition buckets_get_nearest ::
  "'a bucketable \<Rightarrow> 'a sorter \<Rightarrow> 'a buckets \<Rightarrow> Id \<Rightarrow> Id option \<Rightarrow> 'a list" where
  "buckets_get_nearest B srt b i exclude =
     take (b_k b)
       (srt (by_distance B i) (filter (not_excluded B exclude) (buckets_values b)))"

section \<open>Well-formed tables\<close>

text \<open>
  Every item lies in the bucket its id selects, our own id is absent, and no bucket holds more than
  \<open>k\<close> items. The depth is bounded because an id other than ours shares at most 159 bits with it.
\<close>

definition placed :: "'a bucketable \<Rightarrow> Id \<Rightarrow> 'a list list \<Rightarrow> bool" where
  "placed B our_id bs \<longleftrightarrow>
     (\<forall>j < length bs. \<forall>x \<in> set (bs ! j). dest_idx our_id (length bs) (get_id B x) = j)"

definition table_inv :: "'a bucketable \<Rightarrow> Id \<Rightarrow> nat \<Rightarrow> nat \<Rightarrow> 'a list list \<Rightarrow> bool" where
  "table_inv B our_id k idx bs \<longleftrightarrow>
     bs \<noteq> [] \<and> length bs \<le> 161 \<and> placed B our_id bs \<and>
     (\<forall>x \<in> set (concat bs). get_id B x \<noteq> our_id) \<and>
     (\<forall>j < length bs. j < idx \<longrightarrow> length (bs ! j) \<le> k)"

definition wf_buckets :: "'a bucketable \<Rightarrow> 'a buckets \<Rightarrow> bool" where
  "wf_buckets B b \<longleftrightarrow>
     table_inv B (b_our_id b) (b_k b) (length (b_buckets b)) (b_buckets b)"

text \<open>Executable forms of the invariant.\<close>

definition item_placed :: "'a bucketable \<Rightarrow> Id \<Rightarrow> nat \<Rightarrow> nat \<Rightarrow> 'a \<Rightarrow> bool" where
  "item_placed B our_id n j x \<longleftrightarrow> dest_idx our_id n (get_id B x) = j"

definition not_ours :: "'a bucketable \<Rightarrow> Id \<Rightarrow> 'a \<Rightarrow> bool" where
  "not_ours B our_id x \<longleftrightarrow> get_id B x \<noteq> our_id"

lemma placed_code [code]:
  "placed B our bs = list_all (\<lambda>j. list_all (item_placed B our (length bs) j) (bs ! j)) [0..<length bs]"
  by (auto simp: placed_def list_all_iff item_placed_def)

lemma table_inv_code [code]:
  "table_inv B our k idx bs \<longleftrightarrow> bs \<noteq> [] \<and> length bs \<le> 161 \<and> placed B our bs \<and>
     list_all (not_ours B our) (concat bs) \<and> list_all (\<lambda>xs. length xs \<le> k) (take idx bs)"
proof -
  have "list_all (\<lambda>xs. length xs \<le> k) (take idx bs) \<longleftrightarrow> (\<forall>j < length bs. j < idx \<longrightarrow> length (bs ! j) \<le> k)"
    by (auto simp: list_all_length)
  then show ?thesis by (auto simp: table_inv_def list_all_iff not_ours_def)
qed

lemma placedD:
  "placed B our bs \<Longrightarrow> j < length bs \<Longrightarrow> x \<in> set (bs ! j) \<Longrightarrow> dest_idx our (length bs) (get_id B x) = j"
  by (simp add: placed_def)

lemma dest_idx_less [simp]: "0 < n \<Longrightarrow> dest_idx our n i < n"
  by (simp add: dest_idx_def)

text \<open>What the inner loop does to each bucket, up to the order of the items.\<close>

lemma move_out_spec:
  assumes "idx < length bs" and "\<And>x. ideal x < length bs" and "i \<le> length (bs ! idx)"
    and "\<And>p. i \<le> p \<Longrightarrow> p < length (bs ! idx) \<Longrightarrow> ideal (bs ! idx ! p) = idx"
    and "j < length bs"
  shows "mset (move_out ideal idx i bs ! j) =
    (if j = idx then filter_mset (\<lambda>x. ideal x = idx) (mset (bs ! idx))
     else mset (bs ! j) + filter_mset (\<lambda>x. ideal x = j) (mset (bs ! idx)))"
  using assms
proof (induction i arbitrary: bs)
  case 0
  then have all: "\<forall>x \<in> set (bs ! idx). ideal x = idx" by (auto simp: in_set_conv_nth)
  then have "filter_mset (\<lambda>x. ideal x = idx) (mset (bs ! idx)) = mset (bs ! idx)"
    by (intro filter_mset_all) auto
  moreover have "filter_mset (\<lambda>x. ideal x = j) (mset (bs ! idx)) = {#}" if "j \<noteq> idx"
    using all that by (intro filter_mset_none) auto
  ultimately show ?case by simp
next
  case (Suc i)
  let ?xs = "bs ! idx" and ?node = "bs ! idx ! i"
  show ?case
  proof (cases "ideal ?node = idx")
    case True
    have "ideal (?xs ! p) = idx" if "i \<le> p" "p < length ?xs" for p
      using Suc.prems(4) [of p] True that by (cases "p = i") auto
    then show ?thesis using Suc.IH [of bs] Suc.prems True by (simp add: Let_def)
  next
    case False
    let ?j = "ideal ?node"
    let ?ys = "swap_remove i ?xs"
    let ?bs = "bs[idx := ?ys, ?j := bs ! ?j @ [?node]]"
    have i: "i < length ?xs" using Suc.prems(3) by simp
    have eq: "move_out ideal idx (Suc i) bs = move_out ideal idx i ?bs"
      using False by (simp add: Let_def)
    have ys: "?bs ! idx = ?ys" using False Suc.prems(1) by simp
    have "ideal (?ys ! p) = idx" if p: "i \<le> p" "p < length ?ys" for p
    proof (cases "p = i")
      case True
      have "?ys ! p = last ?xs" using True p by (simp add: swap_remove_def)
      also have "\<dots> = ?xs ! (length ?xs - 1)" using i by (intro last_conv_nth) auto
      finally show ?thesis using Suc.prems(4) [of "length ?xs - 1"] True p by simp
    next
      case False
      then have "?ys ! p = ?xs ! p" using p by (simp add: swap_remove_def nth_butlast)
      then show ?thesis using Suc.prems(4) [of p] False p by simp
    qed
    then have IH: "mset (move_out ideal idx i ?bs ! j) =
      (if j = idx then filter_mset (\<lambda>x. ideal x = idx) (mset ?ys)
       else mset (?bs ! j) + filter_mset (\<lambda>x. ideal x = j) (mset ?ys))"
      using Suc.IH [of ?bs] Suc.prems(1,2,5) i ys by simp
    have xs: "mset ?xs = add_mset ?node (mset ?ys)" using mset_swap_remove [OF i] by simp
    show ?thesis
      using IH eq xs False Suc.prems(5) by (cases "j = ?j") auto
  qed
qed

lemma move_out_concat:
  assumes "idx < length bs" and "\<And>x. ideal x < length bs" and "i \<le> length (bs ! idx)"
  shows "mset (concat (move_out ideal idx i bs)) = mset (concat bs)"
  using assms
proof (induction i arbitrary: bs)
  case (Suc i)
  let ?node = "bs ! idx ! i"
  let ?bs1 = "bs[idx := swap_remove i (bs ! idx)]"
  show ?case
  proof (cases "ideal ?node = idx")
    case True
    with Suc show ?thesis by (simp add: Let_def)
  next
    case False
    have "mset (concat ?bs1) + mset (bs ! idx) = mset (concat bs) + mset (swap_remove i (bs ! idx))"
      using Suc.prems(1) by (rule concat_update_mset)
    moreover have "mset (bs ! idx) = add_mset ?node (mset (swap_remove i (bs ! idx)))"
      using mset_swap_remove [of i "bs ! idx"] Suc.prems(3) by simp
    ultimately have "add_mset ?node (mset (concat ?bs1)) = mset (concat bs)" by simp
    moreover have "mset (concat (?bs1[ideal ?node := ?bs1 ! ideal ?node @ [?node]]))
        = add_mset ?node (mset (concat ?bs1))"
      using concat_update_mset [of "ideal ?node" ?bs1 "?bs1 ! ideal ?node @ [?node]"] Suc.prems(2) by simp
    ultimately show ?thesis
      using False Suc.IH [of "?bs1[ideal ?node := ?bs1 ! ideal ?node @ [?node]]"] Suc.prems
      by (simp add: Let_def)
  qed
qed simp

text \<open>One round of the outer loop on a table that satisfies the invariant.\<close>

lemma overflow_step_spec:
  assumes srt: "sort_law srt" and inv: "table_inv B our k idx bs" and idx: "idx < length bs"
    and r: "r = overflow_step B srt our k idx bs ch"
  obtains ev where
    "length (fst r) = length bs + of_bool (idx = length bs - 1)"
    "placed B our (fst r)"
    "\<And>j. j < idx \<Longrightarrow> mset (fst r ! j) = mset (bs ! j)"
    "length (fst r ! idx) \<le> k"
    "mset (concat (fst r)) + mset ev = mset (concat bs)"
    "snd r = map_option (\<lambda>c. c @ ev) ch"
    "\<And>x. x \<in> set ev \<Longrightarrow> matching_prefix_bits our (get_id B x) = idx \<and> Suc idx < length (fst r) \<and>
        length (fst r ! idx) = k \<and> (\<forall>y \<in> set (fst r ! idx). get_first_seen B y \<le> get_first_seen B x)"
proof -
  define bs1 where "bs1 = (if idx = length bs - 1 then bs @ [[]] else bs)"
  define n where "n = length bs1"
  define ideal where "ideal = (\<lambda>x. dest_idx our n (get_id B x))"
  define bs2 where "bs2 = move_out ideal idx (length (bs1 ! idx)) bs1"
  define s where "s = srt (\<lambda>a b. get_first_seen B a \<le> get_first_seen B b) (bs2 ! idx)"
  define ev where "ev = (if k < length (bs2 ! idx) then drop k s else [])"
  have pl: "placed B our bs" and ne: "bs \<noteq> []" using inv by (auto simp: table_inv_def)
  have n: "Suc idx < n" "n = length bs + of_bool (idx = length bs - 1)"
    using idx by (auto simp: n_def bs1_def)
  have nth1: "bs1 ! j = (if j < length bs then bs ! j else [])" if "j < n" for j
    using that by (auto simp: n_def bs1_def nth_append)
  have ideal_less: "ideal x < n" for x
    unfolding ideal_def using n(1) by (intro dest_idx_less) simp
  have len2: "length bs2 = n" by (simp add: bs2_def n_def)
  have spec: "mset (bs2 ! j) =
    (if j = idx then filter_mset (\<lambda>x. ideal x = idx) (mset (bs ! idx))
     else mset (bs1 ! j) + filter_mset (\<lambda>x. ideal x = j) (mset (bs ! idx)))" if "j < n" for j
    using move_out_spec [of idx bs1 ideal "length (bs1 ! idx)" j] that idx n nth1 [of idx] ideal_less
    by (simp add: bs2_def n_def)
  have old: "ideal x = j \<or> (j = idx \<and> ideal x = length bs)"
    if "j < length bs" "x \<in> set (bs ! j)" for x j
    using placedD [OF pl that] that n by (auto simp: ideal_def dest_idx_def min_def split: if_splits)
  have set2: "ideal x = j" if j: "j < n" and x: "x \<in> set (bs2 ! j)" for x j
  proof -
    have "x \<in># (if j = idx then filter_mset (\<lambda>x. ideal x = idx) (mset (bs ! idx))
        else mset (bs1 ! j) + filter_mset (\<lambda>x. ideal x = j) (mset (bs ! idx)))"
      using x unfolding spec [OF j, symmetric] by simp
    then show ?thesis using old [of j x] nth1 [OF j] by (auto split: if_splits)
  qed
  have r': "fst r = (if k < length (bs2 ! idx) then bs2[idx := take k s] else bs2)"
    "snd r = map_option (\<lambda>c. c @ ev) ch"
    by (auto simp: r overflow_step_eq Let_def option.map_ident ev_def s_def bs2_def ideal_def n_def bs1_def)
  have s: "mset s = mset (bs2 ! idx)" "set s = set (bs2 ! idx)" "length s = length (bs2 ! idx)"
    using srt by (simp_all add: s_def sort_law_mset sort_law_set sort_law_length)
  have sorted: "sorted_wrt (\<lambda>a b. get_first_seen B a \<le> get_first_seen B b) s"
    using srt by (simp add: s_def sort_law_sorted)
  have ls: "length (fst r) = n" using r' len2 by simp
  show thesis
  proof (rule that [of ev])
    show "length (fst r) = length bs + of_bool (idx = length bs - 1)" using ls n by simp
    show "placed B our (fst r)"
      unfolding placed_def ls
    proof (intro allI impI ballI)
      fix j x assume j: "j < n" and x: "x \<in> set (fst r ! j)"
      have "x \<in> set (bs2 ! j)"
        using x j n s(2) r'(1) len2 by (cases "j = idx") (auto dest: in_set_takeD split: if_splits)
      then show "dest_idx our n (get_id B x) = j" using set2 [OF j] by (simp add: ideal_def)
    qed
    show "mset (fst r ! j) = mset (bs ! j)" if "j < idx" for j
    proof -
      have "filter_mset (\<lambda>x. ideal x = j) (mset (bs ! idx)) = {#}"
        using old [OF idx] that idx by (intro filter_mset_none) fastforce
      then show ?thesis using that idx n r'(1) nth1 [of j] by (simp add: spec)
    qed
    show "length (fst r ! idx) \<le> k" using r'(1) n s(3) len2 by auto
    have "mset (concat (bs2[idx := take k s])) + mset (drop k s) = mset (concat bs2)"
    proof (rule add_right_imp_eq [where a = "mset (take k s)"])
      have "mset (bs2 ! idx) = mset (take k s) + mset (drop k s)"
        using s(1) by (simp add: mset_take_drop)
      then show "mset (concat (bs2[idx := take k s])) + mset (drop k s) + mset (take k s)
          = mset (concat bs2) + mset (take k s)"
        using concat_update_mset [of idx bs2 "take k s"] n len2 by (simp add: ac_simps)
    qed
    then have "mset (concat (fst r)) + mset ev = mset (concat bs2)"
      by (simp add: ev_def r'(1))
    also have "\<dots> = mset (concat bs1)"
      unfolding bs2_def using n ideal_less by (intro move_out_concat) (auto simp: n_def)
    also have "\<dots> = mset (concat bs)" by (simp add: bs1_def)
    finally show "mset (concat (fst r)) + mset ev = mset (concat bs)" .
    show "snd r = map_option (\<lambda>c. c @ ev) ch" by (rule r'(2))
    fix x assume "x \<in> set ev"
    then have over: "k < length (bs2 ! idx)" and xd: "x \<in> set (drop k s)"
      by (auto simp: ev_def split: if_splits)
    have "ideal x = idx" using set2 [of idx x] xd s(2) n by (auto dest: in_set_dropD)
    then have "matching_prefix_bits our (get_id B x) = idx"
      using n(1) by (auto simp: ideal_def dest_idx_def)
    moreover have "fst r ! idx = take k s" using over r'(1) n len2 by simp
    moreover have "\<forall>y \<in> set (take k s). get_first_seen B y \<le> get_first_seen B x"
      using sorted_wrt_take_drop [OF sorted _ xd] by blast
    ultimately show "matching_prefix_bits our (get_id B x) = idx \<and> Suc idx < length (fst r) \<and>
        length (fst r ! idx) = k \<and> (\<forall>y \<in> set (fst r ! idx). get_first_seen B y \<le> get_first_seen B x)"
      using over s(3) n ls by simp
  qed
qed

text \<open>
  Why an item is turned away: its bucket is not the deepest one, is full, and holds nothing that
  was first seen later.
\<close>

definition turned_away :: "'a bucketable \<Rightarrow> Id \<Rightarrow> nat \<Rightarrow> 'a list list \<Rightarrow> 'a \<Rightarrow> bool" where
  "turned_away B our_id k bs x =
     (let i = matching_prefix_bits our_id (get_id B x)
      in Suc i < length bs \<and> length (bs ! i) = k \<and>
         (\<forall>y \<in> set (bs ! i). get_first_seen B y \<le> get_first_seen B x))"

lemma overflow_step_inv:
  assumes srt: "sort_law srt" and inv: "table_inv B our k idx bs" and idx: "idx < length bs"
    and over: "k < length (bs ! idx)" and r: "r = overflow_step B srt our k idx bs ch"
  shows "table_inv B our k (Suc idx) (fst r)"
proof -
  obtain ev where
    len: "length (fst r) = length bs + of_bool (idx = length bs - 1)" and
    pl: "placed B our (fst r)" and
    below: "\<And>j. j < idx \<Longrightarrow> mset (fst r ! j) = mset (bs ! j)" and
    lk: "length (fst r ! idx) \<le> k" and
    conc: "mset (concat (fst r)) + mset ev = mset (concat bs)"
    by (rule overflow_step_spec [OF srt inv idx r]) blast
  have "length bs < 161" if "idx = length bs - 1"
  proof -
    obtain x where x: "x \<in> set (bs ! idx)" using over by (cases "bs ! idx") auto
    then have "get_id B x \<noteq> our" using inv idx by (auto simp: table_inv_def)
    then have "matching_prefix_bits our (get_id B x) < 160" by (metis matching_prefix_bits_less)
    moreover have "dest_idx our (length bs) (get_id B x) = idx"
      using inv idx x by (auto simp: table_inv_def placed_def)
    ultimately show ?thesis using that idx by (auto simp: dest_idx_def min_def split: if_splits)
  qed
  then have "length (fst r) \<le> 161" using len inv by (auto simp: table_inv_def)
  moreover have "set (concat (fst r)) \<subseteq> set (concat bs)"
    using conc by (metis mset_subset_eq_add_left set_mset_mono set_mset_mset)
  moreover have "length (fst r ! j) \<le> k" if "j < Suc idx" for j
  proof (cases "j = idx")
    case False
    then have "length (fst r ! j) = length (bs ! j)" using below [of j] that by (metis less_SucE size_mset)
    then show ?thesis using inv that False idx by (auto simp: table_inv_def)
  qed (use lk in simp)
  moreover have "fst r \<noteq> []" using len idx by auto
  ultimately show ?thesis using pl inv by (auto simp: table_inv_def)
qed

lemma overflow_loop_spec:
  assumes "sort_law srt" and "table_inv B our k idx bs"
  shows "\<exists>ev. table_inv B our k (length (fst (overflow_loop B srt our k idx bs ch)))
                (fst (overflow_loop B srt our k idx bs ch)) \<and>
    mset (concat (fst (overflow_loop B srt our k idx bs ch))) + mset ev = mset (concat bs) \<and>
    snd (overflow_loop B srt our k idx bs ch) = map_option (\<lambda>c. c @ ev) ch \<and>
    length bs \<le> length (fst (overflow_loop B srt our k idx bs ch)) \<and>
    (\<forall>j < idx. j < length bs \<longrightarrow> mset (fst (overflow_loop B srt our k idx bs ch) ! j) = mset (bs ! j)) \<and>
    (\<forall>x \<in> set ev. turned_away B our k (fst (overflow_loop B srt our k idx bs ch)) x)"
  using assms
proof (induction B srt our k idx bs ch rule: overflow_loop.induct)
  case (1 B srt our k idx bs ch)
  consider (over) "idx < length bs" "k < length (bs ! idx)"
    | (fits) "idx < length bs" "\<not> k < length (bs ! idx)" | (stop) "\<not> idx < length bs" by blast
  then show ?case
  proof cases
    case over
    let ?r = "overflow_step B srt our k idx bs ch"
    let ?q = "overflow_loop B srt our k (Suc idx) (fst ?r) (snd ?r)"
    have eq: "overflow_loop B srt our k idx bs ch = ?q"
      using over by (subst overflow_loop.simps) simp
    obtain ev where
      len: "length (fst ?r) = length bs + of_bool (idx = length bs - 1)" and
      below: "\<And>j. j < idx \<Longrightarrow> mset (fst ?r ! j) = mset (bs ! j)" and
      conc: "mset (concat (fst ?r)) + mset ev = mset (concat bs)" and
      ch: "snd ?r = map_option (\<lambda>c. c @ ev) ch" and
      away: "\<And>x. x \<in> set ev \<Longrightarrow> matching_prefix_bits our (get_id B x) = idx \<and> Suc idx < length (fst ?r) \<and>
        length (fst ?r ! idx) = k \<and> (\<forall>y \<in> set (fst ?r ! idx). get_first_seen B y \<le> get_first_seen B x)"
      by (rule overflow_step_spec [OF "1.prems" over(1) refl]) blast
    obtain ev' where
      q: "table_inv B our k (length (fst ?q)) (fst ?q)"
      "mset (concat (fst ?q)) + mset ev' = mset (concat (fst ?r))"
      "snd ?q = map_option (\<lambda>c. c @ ev') (snd ?r)"
      "length (fst ?r) \<le> length (fst ?q)"
      "\<And>j. j < Suc idx \<Longrightarrow> j < length (fst ?r) \<Longrightarrow> mset (fst ?q ! j) = mset (fst ?r ! j)"
      "\<And>x. x \<in> set ev' \<Longrightarrow> turned_away B our k (fst ?q) x"
      using "1.IH"(1) [OF over "1.prems"(1) overflow_step_inv [OF "1.prems" over refl]] by blast
    have "mset (fst ?q ! idx) = mset (fst ?r ! idx)" using q(5) [of idx] over(1) len by simp
    then have same: "set (fst ?q ! idx) = set (fst ?r ! idx)" "length (fst ?q ! idx) = length (fst ?r ! idx)"
      by (metis set_mset_mset, metis size_mset)
    have "turned_away B our k (fst ?q) x" if "x \<in> set (ev @ ev')" for x
    proof (cases "x \<in> set ev")
      case True
      then show ?thesis using away [OF True] q(4) same by (simp add: turned_away_def Let_def)
    qed (use that q(6) in auto)
    moreover have "mset (concat (fst ?q)) + mset (ev @ ev') = mset (concat bs)"
      by (simp add: ac_simps flip: q(2) conc)
    moreover have "snd ?q = map_option (\<lambda>c. c @ ev @ ev') ch"
      using q(3) ch by (simp add: option.map_comp comp_def)
    moreover have "mset (fst ?q ! j) = mset (bs ! j)" if "j < idx" "j < length bs" for j
      using q(5) [of j] below [of j] that len by simp
    ultimately show ?thesis unfolding eq using q(1,4) len by (intro exI [of _ "ev @ ev'"]) auto
  next
    case fits
    have eq: "overflow_loop B srt our k idx bs ch = overflow_loop B srt our k (Suc idx) bs ch"
      using fits by (subst overflow_loop.simps) simp
    have "table_inv B our k (Suc idx) bs"
      using "1.prems"(2) fits by (auto simp: table_inv_def less_Suc_eq)
    from "1.IH"(2) [OF fits "1.prems"(1) this] show ?thesis unfolding eq by (metis less_SucI)
  next
    case stop
    then have "overflow_loop B srt our k idx bs ch = (bs, ch)"
      by (subst overflow_loop.simps) simp
    with "1.prems" stop show ?thesis
      by (intro exI [of _ "[]"]) (auto simp: table_inv_def option.map_ident)
  qed
qed

section \<open>What each operation does\<close>

lemma wf_buckets_new [simp]: "wf_buckets B (buckets_new our k)"
  by (simp add: wf_buckets_def buckets_new_def table_inv_def placed_def)

lemma wf_buckets_clear [simp]: "wf_buckets B (buckets_clear b)"
  by (simp add: wf_buckets_def buckets_clear_def table_inv_def placed_def)

lemma wf_buckets_set_id [simp]: "wf_buckets B (buckets_set_id b i)"
  by (simp add: wf_buckets_def buckets_set_id_def buckets_clear_def table_inv_def placed_def)

lemma buckets_values_simps [simp]:
  "buckets_values (buckets_new our k) = []" "buckets_values (buckets_clear b) = []"
  "buckets_values (buckets_set_id b i) = []"
  by (simp_all add: buckets_values_def buckets_new_def buckets_set_id_def buckets_clear_def)

lemma buckets_count_values: "buckets_count b = length (buckets_values b)"
  by (simp add: buckets_count_def buckets_values_def length_concat)

lemma wf_buckets_nonempty: "wf_buckets B b \<Longrightarrow> b_buckets b \<noteq> []"
  by (simp add: wf_buckets_def table_inv_def)

lemma wf_dest_less [simp]: "wf_buckets B b \<Longrightarrow> get_dest_bucket_idx_for_id b i < length (b_buckets b)"
  by (simp add: get_dest_bucket_idx_for_id_def wf_buckets_nonempty)

lemma wf_not_our_id: "wf_buckets B b \<Longrightarrow> x \<in> set (buckets_values b) \<Longrightarrow> get_id B x \<noteq> b_our_id b"
  by (auto simp: wf_buckets_def table_inv_def buckets_values_def)

lemma buckets_count_bound:
  assumes "wf_buckets B b" shows "buckets_count b \<le> 161 * b_k b"
proof -
  have "\<forall>xs \<in> set (b_buckets b). length xs \<le> b_k b"
    using assms by (auto simp: wf_buckets_def table_inv_def in_set_conv_nth)
  then have "sum_list (map length (b_buckets b)) \<le> sum_list (map (\<lambda>_. b_k b) (b_buckets b))"
    by (intro sum_list_mono) auto
  also have "\<dots> = length (b_buckets b) * b_k b" by (simp add: sum_list_triv)
  also have "\<dots> \<le> 161 * b_k b" using assms by (simp add: wf_buckets_def table_inv_def)
  finally show ?thesis by (simp add: buckets_count_def)
qed

lemma wf_find_bucket:
  assumes "wf_buckets B b" and "x \<in> set (buckets_values b)"
  shows "x \<in> set (b_buckets b ! get_dest_bucket_idx_for_id b (get_id B x))"
  using assms
  by (auto simp: wf_buckets_def table_inv_def placed_def buckets_values_def
      get_dest_bucket_idx_for_id_def in_set_conv_nth [of _ "b_buckets b"])

lemma buckets_values_memI:
  "d < length (b_buckets b) \<Longrightarrow> x \<in> set (b_buckets b ! d) \<Longrightarrow> x \<in> set (buckets_values b)"
  by (auto simp: buckets_values_def)

lemma buckets_add_spec:
  assumes srt: "sort_law srt" and wf: "wf_buckets B b"
  obtains ev where
    "wf_buckets B (fst (buckets_add B srt b item ch))"
    "b_our_id (fst (buckets_add B srt b item ch)) = b_our_id b"
    "b_k (fst (buckets_add B srt b item ch)) = b_k b"
    "mset (buckets_values (fst (buckets_add B srt b item ch))) + mset ev =
       mset (buckets_values b) + (if get_id B item = b_our_id b then {#} else {#item#})"
    "snd (buckets_add B srt b item ch) = map_option (\<lambda>c. c @ ev) ch"
    "\<And>x. x \<in> set ev \<Longrightarrow>
       turned_away B (b_our_id b) (b_k b) (b_buckets (fst (buckets_add B srt b item ch))) x"
proof (cases "get_id B item = b_our_id b")
  case True
  then show ?thesis
    using wf by (intro that [of "[]"]) (simp_all add: buckets_add_def option.map_ident)
next
  case False
  let ?our = "b_our_id b" and ?k = "b_k b"
  define d where "d = get_dest_bucket_idx_for_id b (get_id B item)"
  define bs where "bs = (b_buckets b)[d := b_buckets b ! d @ [item]]"
  let ?r = "overflow_loop B srt ?our ?k d bs ch"
  have d: "d < length (b_buckets b)" using wf by (simp add: d_def)
  have inv: "table_inv B ?our ?k (length (b_buckets b)) (b_buckets b)"
    using wf by (simp add: wf_buckets_def)
  have "placed B ?our bs"
    unfolding placed_def
  proof (intro allI impI ballI)
    fix j x assume "j < length bs" "x \<in> set (bs ! j)"
    then show "dest_idx ?our (length bs) (get_id B x) = j"
      using inv d by (cases "j = d")
        (auto simp: bs_def table_inv_def placed_def d_def get_dest_bucket_idx_for_id_def)
  qed
  moreover have "mset (concat bs) = add_mset item (mset (concat (b_buckets b)))"
    using concat_update_mset [OF d, of "b_buckets b ! d @ [item]"] by (simp add: bs_def)
  moreover from this have "set (concat bs) = insert item (set (concat (b_buckets b)))"
    by (metis set_mset_add_mset_insert set_mset_mset)
  ultimately have "table_inv B ?our ?k d bs"
    using inv False d by (auto simp: table_inv_def bs_def)
  then obtain ev where ev: "table_inv B ?our ?k (length (fst ?r)) (fst ?r)"
    "mset (concat (fst ?r)) + mset ev = mset (concat bs)"
    "snd ?r = map_option (\<lambda>c. c @ ev) ch" "\<forall>x \<in> set ev. turned_away B ?our ?k (fst ?r) x"
    using overflow_loop_spec [OF srt, of B ?our ?k d bs ch] by blast
  have add: "buckets_add B srt b item ch = (b\<lparr>b_buckets := fst ?r\<rparr>, snd ?r)"
    using False by (simp add: buckets_add_def handle_bucket_overflow_def Let_def d_def bs_def)
  show ?thesis
    using ev False \<open>mset (concat bs) = _\<close>
    by (intro that [of ev]) (simp_all add: add wf_buckets_def buckets_values_def)
qed

text \<open>
  An addition turns away one item at most: no bucket held more than \<open>k\<close> items of one prefix
  length before, and the bucket of an item turned away is still full.
\<close>

lemma concat_only:
  assumes "j < length xss" and "\<And>i. i < length xss \<Longrightarrow> i \<noteq> j \<Longrightarrow> xss ! i = []"
  shows "concat xss = xss ! j"
proof -
  have "concat (take j xss) = []" "concat (drop (Suc j) xss) = []"
    using assms by (auto simp: in_set_conv_nth)
  then show ?thesis using id_take_nth_drop [OF assms(1)]
    by (metis append.right_neutral append_Nil concat.simps(2) concat_append)
qed

definition of_prefix :: "'a bucketable \<Rightarrow> Id \<Rightarrow> nat \<Rightarrow> 'a \<Rightarrow> bool" where
  "of_prefix B our_id i x \<longleftrightarrow> matching_prefix_bits our_id (get_id B x) = i"

lemma prefix_count:
  assumes wf: "wf_buckets B b"
  shows "size (filter_mset (of_prefix B (b_our_id b) i) (mset (buckets_values b))) \<le> b_k b"
proof -
  let ?P = "of_prefix B (b_our_id b) i" and ?bs = "b_buckets b"
  let ?j = "min i (length ?bs - 1)"
  have j: "?j < length ?bs" using wf_buckets_nonempty [OF wf] by (simp add: min_less_iff_disj)
  have "filter ?P (?bs ! l) = []" if l: "l < length ?bs" "l \<noteq> ?j" for l
  proof -
    have "dest_idx (b_our_id b) (length ?bs) (get_id B x) = l" if "x \<in> set (?bs ! l)" for x
      using wf l(1) that by (auto simp: wf_buckets_def table_inv_def placed_def)
    then show ?thesis using l(2) by (fastforce simp: filter_empty_conv of_prefix_def dest_idx_def)
  qed
  then have "filter ?P (concat ?bs) = map (filter ?P) ?bs ! ?j"
    unfolding filter_concat using j by (intro concat_only) simp_all
  then have "length (filter ?P (concat ?bs)) \<le> length (?bs ! ?j)" using j by simp
  also have "\<dots> \<le> b_k b" using wf j by (simp add: wf_buckets_def table_inv_def)
  finally show ?thesis by (simp add: buckets_values_def flip: mset_filter)
qed

lemma turned_away_full:
  assumes wf: "wf_buckets B b" and away: "turned_away B (b_our_id b) (b_k b) (b_buckets b) x"
  shows "b_k b \<le> size (filter_mset (of_prefix B (b_our_id b) (matching_prefix_bits (b_our_id b) (get_id B x)))
    (mset (buckets_values b)))"
proof -
  define i where "i = matching_prefix_bits (b_our_id b) (get_id B x)"
  let ?bs = "b_buckets b"
  have i: "Suc i < length ?bs" "length (?bs ! i) = b_k b"
    using away by (simp_all add: turned_away_def i_def Let_def)
  have "dest_idx (b_our_id b) (length ?bs) (get_id B y) = i" if "y \<in> set (?bs ! i)" for y
    using wf i(1) that by (auto simp: wf_buckets_def table_inv_def placed_def)
  then have "filter (of_prefix B (b_our_id b) i) (?bs ! i) = ?bs ! i"
    using i(1) by (fastforce simp: filter_id_conv of_prefix_def dest_idx_def min_def split: if_splits)
  then have "mset (?bs ! i) \<subseteq># filter_mset (of_prefix B (b_our_id b) i) (mset (concat ?bs))"
    using concat_update_mset [of i ?bs "[]"] i(1)
    by (metis Suc_lessD filter_union_mset mset.simps(1) add.right_neutral mset_filter mset_subset_eq_add_right)
  then have "size (mset (?bs ! i)) \<le> size (filter_mset (of_prefix B (b_our_id b) i) (mset (concat ?bs)))"
    by (rule size_mset_mono)
  then show ?thesis using i(2) by (simp add: buckets_values_def i_def)
qed

lemma one_turned_away:
  assumes wf: "wf_buckets B b" "wf_buckets B b'" and same: "b_our_id b' = b_our_id b" "b_k b' = b_k b"
    and eq: "mset (buckets_values b') + mset ev = mset (buckets_values b) + mset new" and new: "length new \<le> 1"
    and away: "\<And>x. x \<in> set ev \<Longrightarrow> turned_away B (b_our_id b) (b_k b) (b_buckets b') x"
  shows "length ev \<le> length new"
proof (cases ev)
  case (Cons x xs)
  let ?our = "b_our_id b"
  have count: "size (filter_mset (of_prefix B ?our i) (mset ev)) \<le> size (filter_mset (of_prefix B ?our i) (mset new))"
    if "y \<in> set ev" "i = matching_prefix_bits ?our (get_id B y)" for i y
  proof -
    have "size (filter_mset (of_prefix B ?our i) (mset (buckets_values b') + mset ev))
        = size (filter_mset (of_prefix B ?our i) (mset (buckets_values b) + mset new))" by (simp only: eq)
    moreover have "b_k b \<le> size (filter_mset (of_prefix B ?our i) (mset (buckets_values b')))"
      using turned_away_full [OF wf(2), of y] away [OF that(1)] same that(2) by simp
    moreover have "size (filter_mset (of_prefix B ?our i) (mset (buckets_values b))) \<le> b_k b"
      by (rule prefix_count [OF wf(1)])
    ultimately show ?thesis by simp
  qed
  have "of_prefix B ?our (matching_prefix_bits ?our (get_id B y)) z"
    if "y \<in> set ev" "z \<in> set new" for y z
  proof -
    have "y \<in># filter_mset (of_prefix B ?our (matching_prefix_bits ?our (get_id B y))) (mset ev)"
      using that(1) by (simp add: of_prefix_def)
    then have "0 < size (filter_mset (of_prefix B ?our (matching_prefix_bits ?our (get_id B y))) (mset ev))"
      by (metis empty_iff nonempty_has_size set_mset_empty)
    then have "0 < size (filter_mset (of_prefix B ?our (matching_prefix_bits ?our (get_id B y))) (mset new))"
      using count [OF that(1) refl] by simp
    then show ?thesis using new that(2)
      by (cases new) (auto split: if_splits)
  qed
  moreover have "new \<noteq> []"
    using count [of x] Cons by (auto simp: of_prefix_def)
  then obtain z where z: "z \<in> set new" by (cases new) auto
  ultimately have "filter (of_prefix B ?our (matching_prefix_bits ?our (get_id B x))) ev = ev"
    using Cons by (intro filter_True) (unfold of_prefix_def, metis list.set_intros(1))
  then have "mset ev = filter_mset (of_prefix B ?our (matching_prefix_bits ?our (get_id B x))) (mset ev)"
    by (metis mset_filter)
  then have "size (mset ev) \<le> size (mset new)"
    using count [of x, OF _ refl] Cons by (metis list.set_intros(1) order_trans size_filter_mset_lesseq)
  then show ?thesis by simp
qed simp

lemma find_pos_None: "find_pos P xs = None \<longleftrightarrow> (\<forall>x \<in> set xs. \<not> P x)"
  by (induction xs) auto

lemma find_pos_Some: "find_pos P xs = Some p \<Longrightarrow> p < length xs \<and> P (xs ! p) \<and> (\<forall>q < p. \<not> P (xs ! q))"
proof (induction xs arbitrary: p)
  case (Cons x xs)
  then show ?case by (auto simp: less_Suc_eq_0_disj split: if_splits)
qed simp

lemma buckets_get_mut_None:
  assumes "wf_buckets B b"
  shows "buckets_get_mut B b i = None \<longleftrightarrow> (\<forall>x \<in> set (buckets_values b). get_id B x \<noteq> i)"
proof -
  let ?d = "get_dest_bucket_idx_for_id b i"
  have d: "?d < length (b_buckets b)" using assms by simp
  have "buckets_get_mut B b i = None \<longleftrightarrow> (\<forall>x \<in> set (b_buckets b ! ?d). get_id B x \<noteq> i)"
    using d by (simp add: buckets_get_mut_def Let_def find_pos_None)
  also have "\<dots> \<longleftrightarrow> (\<forall>x \<in> set (buckets_values b). get_id B x \<noteq> i)"
    using wf_find_bucket [OF assms] buckets_values_memI [OF d] by blast
  finally show ?thesis .
qed

lemma buckets_get_mut_Some:
  assumes "buckets_get_mut B b i = Some (d, p)"
  shows "d = get_dest_bucket_idx_for_id b i" "d < length (b_buckets b)" "p < length (b_buckets b ! d)"
    "get_id B (buckets_read b (d, p)) = i"
  using assms find_pos_Some [of "\<lambda>x. get_id B x = i" "b_buckets b ! d" p]
  by (auto simp: buckets_get_mut_def Let_def buckets_read_def split: if_splits)

lemma buckets_contains_get_mut:
  "buckets_contains B b i \<longleftrightarrow> buckets_get_mut B b i \<noteq> None"
  by (simp add: buckets_contains_def buckets_get_mut_def Let_def list_ex_iff find_pos_None
      del: not_None_eq)

lemma buckets_write_mset:
  assumes "d < length (b_buckets b)" and "p < length (b_buckets b ! d)"
  shows "add_mset (buckets_read b (d, p)) (mset (buckets_values (buckets_write b (d, p) v)))
       = add_mset v (mset (buckets_values b))"
proof -
  have "add_mset (b_buckets b ! d ! p) (mset ((b_buckets b ! d)[p := v])) = add_mset v (mset (b_buckets b ! d))"
    using assms(2) by (simp add: mset_update)
  then have "mset (concat ((b_buckets b)[d := (b_buckets b ! d)[p := v]])) + mset (b_buckets b ! d)
      + {#b_buckets b ! d ! p#} = mset (concat (b_buckets b)) + {#v#} + mset (b_buckets b ! d)"
    using concat_update_mset [OF assms(1), of "(b_buckets b ! d)[p := v]"] by (simp add: ac_simps)
  then show ?thesis by (simp add: buckets_write_def buckets_values_def buckets_read_def)
qed

lemma wf_buckets_update:
  assumes wf: "wf_buckets B b" and d: "d < length (b_buckets b)" and len: "length xs \<le> b_k b"
    and ids: "\<And>x. x \<in> set xs \<Longrightarrow> \<exists>y \<in> set (b_buckets b ! d). get_id B x = get_id B y"
  shows "wf_buckets B (b\<lparr>b_buckets := (b_buckets b)[d := xs]\<rparr>)"
proof -
  let ?bs = "(b_buckets b)[d := xs]"
  have item: "dest_idx (b_our_id b) (length (b_buckets b)) (get_id B x) = j \<and> get_id B x \<noteq> b_our_id b"
    if "j < length (b_buckets b)" "x \<in> set (?bs ! j)" for j x
  proof -
    have "x \<in> set xs \<and> j = d \<or> x \<in> set (b_buckets b ! j)"
      using that d by (auto simp: nth_list_update split: if_splits)
    then obtain y where "y \<in> set (b_buckets b ! j)" "get_id B x = get_id B y"
      using ids by blast
    then show ?thesis using wf that(1) by (auto simp: wf_buckets_def table_inv_def placed_def)
  qed
  have "get_id B x \<noteq> b_our_id b" if x: "x \<in> set (concat ?bs)" for x
  proof -
    obtain j where "j < length ?bs" "x \<in> set (?bs ! j)"
      using x by (auto simp: in_set_conv_nth [of _ ?bs])
    then show ?thesis using item by simp
  qed
  moreover have "placed B (b_our_id b) ?bs" using item by (simp add: placed_def)
  moreover have "length (?bs ! j) \<le> b_k b" if "j < length ?bs" for j
    using wf len that by (cases "j = d") (auto simp: wf_buckets_def table_inv_def)
  ultimately show ?thesis using wf by (simp add: wf_buckets_def table_inv_def)
qed

lemma wf_buckets_write:
  assumes wf: "wf_buckets B b" and d: "d < length (b_buckets b)" and p: "p < length (b_buckets b ! d)"
    and v: "get_id B v = get_id B (buckets_read b (d, p))"
  shows "wf_buckets B (buckets_write b (d, p) v)"
  unfolding buckets_write_def fst_conv snd_conv
proof (rule wf_buckets_update [OF wf d])
  show "length ((b_buckets b ! d)[p := v]) \<le> b_k b"
    using wf d by (auto simp: wf_buckets_def table_inv_def)
  show "\<exists>y \<in> set (b_buckets b ! d). get_id B x = get_id B y" if "x \<in> set ((b_buckets b ! d)[p := v])" for x
  proof -
    have "x = v \<or> x \<in> set (b_buckets b ! d)" using that set_update_subset_insert by fastforce
    then show ?thesis using v p nth_mem [OF p] by (auto simp: buckets_read_def)
  qed
qed

lemma buckets_remove_spec:
  assumes wf: "wf_buckets B b"
  shows "wf_buckets B (fst (buckets_remove B b i))"
    and "b_our_id (fst (buckets_remove B b i)) = b_our_id b" "b_k (fst (buckets_remove B b i)) = b_k b"
    and "snd (buckets_remove B b i) = None \<longleftrightarrow> (\<forall>x \<in> set (buckets_values b). get_id B x \<noteq> i)"
    and "snd (buckets_remove B b i) = None \<Longrightarrow> fst (buckets_remove B b i) = b"
    and "snd (buckets_remove B b i) = Some x \<Longrightarrow> get_id B x = i \<and>
      add_mset x (mset (buckets_values (fst (buckets_remove B b i)))) = mset (buckets_values b)"
proof -
  show "snd (buckets_remove B b i) = None \<longleftrightarrow> (\<forall>x \<in> set (buckets_values b). get_id B x \<noteq> i)"
    using buckets_get_mut_None [OF wf, of i] by (auto simp: buckets_remove_def split: option.splits)
  show "snd (buckets_remove B b i) = None \<Longrightarrow> fst (buckets_remove B b i) = b"
    "b_our_id (fst (buckets_remove B b i)) = b_our_id b" "b_k (fst (buckets_remove B b i)) = b_k b"
    by (auto simp: buckets_remove_def split: option.splits)
  show "wf_buckets B (fst (buckets_remove B b i))"
  proof (cases "buckets_get_mut B b i")
    case (Some r)
    obtain d p where r: "r = (d, p)" by (cases r)
    note g = buckets_get_mut_Some [OF Some [unfolded r]]
    have "wf_buckets B (b\<lparr>b_buckets := (b_buckets b)[d := swap_remove p (b_buckets b ! d)]\<rparr>)"
    proof (rule wf_buckets_update [OF wf g(2)])
      show "length (swap_remove p (b_buckets b ! d)) \<le> b_k b"
        using wf g(2) by (auto simp: wf_buckets_def table_inv_def le_diff_conv intro: le_SucI)
      show "\<exists>y \<in> set (b_buckets b ! d). get_id B x = get_id B y"
        if "x \<in> set (swap_remove p (b_buckets b ! d))" for x
        using that set_swap_remove_subset [OF g(3)] by auto
    qed
    then show ?thesis using Some r by (simp add: buckets_remove_def)
  qed (simp add: buckets_remove_def wf)
  show "get_id B x = i \<and>
      add_mset x (mset (buckets_values (fst (buckets_remove B b i)))) = mset (buckets_values b)"
    if removed: "snd (buckets_remove B b i) = Some x"
  proof -
    obtain d p where g: "buckets_get_mut B b i = Some (d, p)" and x: "x = b_buckets b ! d ! p"
      using removed by (cases "buckets_get_mut B b i") (auto simp: buckets_remove_def case_prod_beta)
    note g' = buckets_get_mut_Some [OF g]
    have split: "mset (b_buckets b ! d) = add_mset x (mset (swap_remove p (b_buckets b ! d)))"
      using mset_swap_remove [OF g'(3)] x by simp
    have "add_mset x (mset (concat ((b_buckets b)[d := swap_remove p (b_buckets b ! d)])))
        = mset (concat (b_buckets b))"
      using concat_update_mset [OF g'(2), of "swap_remove p (b_buckets b ! d)"] unfolding split by simp
    then show ?thesis
      using g x g'(4) by (simp add: buckets_remove_def buckets_values_def buckets_read_def)
  qed
qed

lemma buckets_retain_values [simp]: "buckets_values (buckets_retain f b) = filter f (buckets_values b)"
  by (simp add: buckets_retain_def buckets_values_def filter_concat)

lemma wf_buckets_retain:
  assumes "wf_buckets B b" shows "wf_buckets B (buckets_retain f b)"
proof -
  have "length (filter f (b_buckets b ! j)) \<le> b_k b" if "j < length (b_buckets b)" for j
  proof -
    have "length (b_buckets b ! j) \<le> b_k b" using assms that by (simp add: wf_buckets_def table_inv_def)
    then show ?thesis using length_filter_le le_trans by blast
  qed
  then show ?thesis
    using assms by (auto simp: wf_buckets_def buckets_retain_def table_inv_def placed_def)
qed

lemma buckets_retain_ids [simp]:
  "b_our_id (buckets_retain f b) = b_our_id b" "b_k (buckets_retain f b) = b_k b"
  by (simp_all add: buckets_retain_def)

lemma buckets_remove_ids:
  assumes "wf_buckets B b" and "distinct (map (get_id B) (buckets_values b))"
  shows "\<forall>x \<in> set (buckets_values (fst (buckets_remove B b i))). get_id B x \<noteq> i"
proof (cases "snd (buckets_remove B b i)")
  case None
  then show ?thesis using buckets_remove_spec(4,5) [OF assms(1), of i] by simp
next
  case (Some x)
  note r = buckets_remove_spec(6) [OF assms(1) Some]
  then have "mset (map (get_id B) (buckets_values b)) =
      mset (map (get_id B) (x # buckets_values (fst (buckets_remove B b i))))"
    by (metis mset.simps(2) mset_map)
  then have "distinct (map (get_id B) (x # buckets_values (fst (buckets_remove B b i))))"
    using assms(2) by (metis mset_eq_imp_distinct_iff)
  then show ?thesis using r by (metis distinct.simps(2) image_eqI list.set_map list.simps(9))
qed

text \<open>\<open>get_nearest_nodes\<close> against its contract: sorted, of the right length, and nothing nearer left out.\<close>

definition distance :: "'a bucketable \<Rightarrow> Id \<Rightarrow> 'a \<Rightarrow> Id" where
  "distance B i x = id_xor (get_id B x) i"

definition eligible :: "'a bucketable \<Rightarrow> Id option \<Rightarrow> 'a list \<Rightarrow> 'a list" where
  "eligible B exclude xs = filter (\<lambda>x. exclude \<noteq> Some (get_id B x)) xs"

lemma buckets_get_nearest_spec:
  assumes srt: "sort_law srt"
  obtains rest where
    "mset (buckets_get_nearest B srt b i ex) + mset rest = mset (eligible B ex (buckets_values b))"
    "sorted_wrt (\<lambda>a c. distance B i a \<le> distance B i c) (buckets_get_nearest B srt b i ex)"
    "length (buckets_get_nearest B srt b i ex) = min (b_k b) (length (eligible B ex (buckets_values b)))"
    "\<And>x y. x \<in> set (buckets_get_nearest B srt b i ex) \<Longrightarrow> y \<in> set rest \<Longrightarrow> distance B i x \<le> distance B i y"
proof -
  define el where "el = eligible B ex (buckets_values b)"
  define s where "s = srt (\<lambda>a c. distance B i a \<le> distance B i c) el"
  have "filter (not_excluded B ex) (buckets_values b) = el"
    unfolding el_def eligible_def by (rule filter_cong) (auto simp: not_excluded_def)
  then have eq: "buckets_get_nearest B srt b i ex = take (b_k b) s"
    by (simp add: buckets_get_nearest_def s_def distance_def by_distance_def [abs_def])
  have s: "mset s = mset el" "sorted_wrt (\<lambda>a c. distance B i a \<le> distance B i c) s" "length s = length el"
    using srt by (simp_all add: s_def sort_law_mset sort_law_sorted sort_law_length)
  show thesis
  proof (rule that [of "drop (b_k b) s"])
    show "mset (buckets_get_nearest B srt b i ex) + mset (drop (b_k b) s) = mset (eligible B ex (buckets_values b))"
      using s(1) by (simp add: eq mset_take_drop el_def)
    show "sorted_wrt (\<lambda>a c. distance B i a \<le> distance B i c) (buckets_get_nearest B srt b i ex)"
      unfolding eq using s(2) by (rule sorted_wrt_take)
    show "length (buckets_get_nearest B srt b i ex) = min (b_k b) (length (eligible B ex (buckets_values b)))"
      using s(3) by (simp add: eq el_def)
    show "distance B i x \<le> distance B i y"
      if "x \<in> set (buckets_get_nearest B srt b i ex)" "y \<in> set (drop (b_k b) s)" for x y
      using sorted_wrt_take_drop [OF s(2)] that unfolding eq by blast
  qed
qed

section \<open>Properties\<close>

text \<open>Concrete tables: our id is 0, and the ids \<open>sample_id a b\<close> differ from it in their first two bytes.\<close>

definition pair_bucketable :: "(Id \<times> instant) bucketable" where
  "pair_bucketable = \<lparr>get_id = fst, get_first_seen = snd\<rparr>"

definition sample_id :: "u8 \<Rightarrow> u8 \<Rightarrow> Id" where
  "sample_id a b = mk_id (a # b # replicate 18 0)"

definition sample_table :: "(Id \<times> instant) buckets" where
  "sample_table =
     fold (\<lambda>x b. fst (buckets_add pair_bucketable insertion_sort b x None))
       [(sample_id 129 0, 5), (sample_id 130 0, 3), (sample_id 1 0, 9)] (buckets_new id_zero 2)"

lemma sample_table_wf: "wf_buckets pair_bucketable sample_table"
  by code_simp

lemma sample_in_table:
  "sample_id 1 0 \<in> get_id pair_bucketable ` set (buckets_values sample_table)"
  "sample_id 3 0 \<notin> get_id pair_bucketable ` set (buckets_values sample_table)"
  by code_simp+

text \<open>
  C21. Adding an item keeps the routing table well formed, for any sort: every item in the bucket its
  id selects, our own id absent, at most \<open>k\<close> items in each bucket, never more than 161 buckets and
  so never more than \<open>161 * k\<close> items.
\<close>

theorem buckets_add_wf:
  assumes "sort_law srt" and "wf_buckets B b"
  shows "wf_buckets B (fst (buckets_add B srt b item ch)) \<and>
    buckets_count (fst (buckets_add B srt b item ch)) \<le> 161 * b_k b"
proof -
  have wf: "wf_buckets B (fst (buckets_add B srt b item ch))"
    and k: "b_k (fst (buckets_add B srt b item ch)) = b_k b"
    by (rule buckets_add_spec [OF assms], assumption)+
  show ?thesis using wf buckets_count_bound [OF wf] k by simp
qed

theorem buckets_add_wf_witness:
  "wf_buckets pair_bucketable (fst (buckets_add pair_bucketable insertion_sort sample_table (sample_id 131 0, 1) None))"
  using buckets_add_wf [OF sort_law_insertion_sort sample_table_wf] by blast

text \<open>
  C22. No item is lost by \<open>add\<close>: the table and the items turned away are together the old items and
  the new one, and the chump list receives exactly the items turned away. An item is turned away
  only from a bucket that is full, is not the deepest, and holds nothing first seen later.
\<close>

theorem buckets_add_conserves:
  assumes "sort_law srt" and "wf_buckets B b" and "get_id B item \<noteq> b_our_id b"
  shows "\<exists>ev. mset (buckets_values (fst (buckets_add B srt b item ch))) + mset ev
        = add_mset item (mset (buckets_values b)) \<and>
      snd (buckets_add B srt b item ch) = map_option (\<lambda>c. c @ ev) ch \<and>
      (\<forall>x \<in> set ev. turned_away B (b_our_id b) (b_k b)
         (b_buckets (fst (buckets_add B srt b item ch))) x)"
  by (rule buckets_add_spec [OF assms(1,2), of item ch]) (use assms(3) in auto)

theorem buckets_add_conserves_witness:
  "\<exists>ev. mset (buckets_values (fst (buckets_add pair_bucketable insertion_sort sample_table (sample_id 131 0, 4) (Some [])))) + mset ev
        = add_mset (sample_id 131 0, 4) (mset (buckets_values sample_table)) \<and>
      snd (buckets_add pair_bucketable insertion_sort sample_table (sample_id 131 0, 4) (Some [])) = Some ev \<and>
      ev = [(sample_id 129 0, 5)]"
proof -
  have "get_id pair_bucketable (sample_id 131 0, 4) \<noteq> b_our_id sample_table" by code_simp
  from buckets_add_conserves [OF sort_law_insertion_sort sample_table_wf this, of "Some []"]
  show ?thesis
  proof (elim exE conjE, intro exI conjI)
    fix ev
    assume "snd (buckets_add pair_bucketable insertion_sort sample_table (sample_id 131 0, 4) (Some [])) = map_option (\<lambda>c. c @ ev) (Some [])"
    moreover have "snd (buckets_add pair_bucketable insertion_sort sample_table (sample_id 131 0, 4) (Some [])) = Some [(sample_id 129 0, 5)]"
      by code_simp
    ultimately show "ev = [(sample_id 129 0, 5)]" by simp
  qed auto
qed

text \<open>
  On a well-formed table the search of one bucket finds every stored id: \<open>contains\<close> and
  \<open>get_mut\<close> agree with membership in \<open>values\<close>, and \<open>remove\<close> takes out exactly one item of that id.
\<close>

lemma buckets_lookup_complete:
  assumes "wf_buckets B b"
  shows "(buckets_contains B b i \<longleftrightarrow> i \<in> get_id B ` set (buckets_values b)) \<and>
    (buckets_get_mut B b i \<noteq> None \<longleftrightarrow> i \<in> get_id B ` set (buckets_values b)) \<and>
    (case buckets_remove B b i of
       (b', None) \<Rightarrow> b' = b \<and> i \<notin> get_id B ` set (buckets_values b)
     | (b', Some x) \<Rightarrow> get_id B x = i \<and> wf_buckets B b' \<and>
         add_mset x (mset (buckets_values b')) = mset (buckets_values b))"
proof -
  obtain b' o' where r: "buckets_remove B b i = (b', o')" by (cases "buckets_remove B b i")
  note spec = buckets_remove_spec [OF assms, of i, unfolded r fst_conv snd_conv]
  have "buckets_get_mut B b i \<noteq> None \<longleftrightarrow> i \<in> get_id B ` set (buckets_values b)"
    using buckets_get_mut_None [OF assms, of i] by auto
  moreover have "o' = None \<longleftrightarrow> i \<notin> get_id B ` set (buckets_values b)" using spec(4) by auto
  ultimately show ?thesis
    unfolding buckets_contains_get_mut r using spec(1,5,6) by (simp split: option.split)
qed

text \<open>
  C23. \<open>get_nearest_nodes\<close> returns, ordered by XOR distance, \<open>min k n\<close> of the \<open>n\<close> stored items that are
  not the excluded one, and every such item it leaves out is at least as far as all it returns.
\<close>

theorem buckets_nearest_correct:
  assumes "sort_law srt"
  shows "\<exists>rest. mset (buckets_get_nearest B srt b i ex) + mset rest
        = mset (filter (\<lambda>x. ex \<noteq> Some (get_id B x)) (buckets_values b)) \<and>
      sorted_wrt (\<lambda>x y. id_xor (get_id B x) i \<le> id_xor (get_id B y) i) (buckets_get_nearest B srt b i ex) \<and>
      length (buckets_get_nearest B srt b i ex)
        = min (b_k b) (length (filter (\<lambda>x. ex \<noteq> Some (get_id B x)) (buckets_values b))) \<and>
      (\<forall>x \<in> set (buckets_get_nearest B srt b i ex). \<forall>y \<in> set rest.
         id_xor (get_id B x) i \<le> id_xor (get_id B y) i)"
  by (rule buckets_get_nearest_spec [OF assms, of B b i ex, unfolded eligible_def distance_def]) blast

theorem buckets_nearest_correct_witness:
  "length (buckets_get_nearest pair_bucketable insertion_sort sample_table (sample_id 1 0) None) = 2"
proof -
  have "b_k sample_table = 2" "length (buckets_values sample_table) = 3" by code_simp+
  then show ?thesis
    using buckets_nearest_correct [OF sort_law_insertion_sort, of pair_bucketable sample_table "sample_id 1 0" None]
    by auto
qed

end
