(* ===== verification/Dht_Nodes.thy ===== *)
theory Dht_Nodes
  imports Dht_Buckets Dht_Net
begin

text \<open>
  \<open>src/common/node.rs\<close>, \<open>src/storage/node_wrapper.rs\<close> and \<open>src/storage/node_bucket_storage.rs\<close>:
  the nodes of the network, the times at which they were seen and verified, and the node storage
  made of two bucket tables. The clock readings of an operation are its arguments, in the order
  the code takes them. The trait \<open>NodeStorage\<close> is the record \<open>node_storage_ops\<close> of its methods;
  its contract is the locale \<open>node_storage\<close>.
\<close>

section \<open>Nodes\<close>

datatype Node = Node (node_id: Id) (node_address: SocketAddr)

record NodeWrapper =
  nw_node :: Node
  nw_first_seen :: instant
  nw_last_seen :: instant
  nw_last_verified :: "instant option"

definition nw_new :: "Node \<Rightarrow> instant \<Rightarrow> NodeWrapper" where
  "nw_new n now =
     \<lparr>nw_node = n, nw_first_seen = now, nw_last_seen = now, nw_last_verified = None\<rparr>"

definition nw_id :: "NodeWrapper \<Rightarrow> Id" where
  "nw_id w = node_id (nw_node w)"

definition nw_bucketable :: "NodeWrapper bucketable" where
  "nw_bucketable = \<lparr>get_id = nw_id, get_first_seen = nw_first_seen\<rparr>"

lemma nw_bucketable_sel [simp]:
  "get_id nw_bucketable = nw_id" "get_first_seen nw_bucketable = nw_first_seen"
  by (simp_all add: nw_bucketable_def)

section \<open>The bucket storage\<close>

record NodeBucketStorage =
  verified :: "NodeWrapper buckets"
  unverified :: "NodeWrapper buckets"

definition nbs_new :: "Id \<Rightarrow> nat \<Rightarrow> NodeBucketStorage" where
  "nbs_new our_id k = \<lparr>verified = buckets_new our_id k, unverified = buckets_new our_id k\<rparr>"

definition add_or_update_last_seen ::
  "NodeWrapper sorter \<Rightarrow> NodeBucketStorage \<Rightarrow> Node \<Rightarrow> instant \<Rightarrow> NodeBucketStorage" where
  "add_or_update_last_seen srt s node now =
     (case buckets_get_mut nw_bucketable (verified s) (node_id node) of
        Some r \<Rightarrow>
          s\<lparr>verified := buckets_write (verified s) r
              ((buckets_read (verified s) r)\<lparr>nw_last_seen := now\<rparr>)\<rparr>
      | None \<Rightarrow>
         (case buckets_get_mut nw_bucketable (unverified s) (node_id node) of
            Some r \<Rightarrow>
              s\<lparr>unverified := buckets_write (unverified s) r
                  ((buckets_read (unverified s) r)\<lparr>nw_last_seen := now\<rparr>)\<rparr>
          | None \<Rightarrow>
              s\<lparr>unverified := fst (buckets_add nw_bucketable srt (unverified s) (nw_new node now) None)\<rparr>))"

text \<open>
  What a promotion into the verified table does: whatever no longer fits there is offered, item by
  item, to the unverified one.
\<close>

definition demote_all ::
  "NodeWrapper sorter \<Rightarrow> NodeWrapper list \<Rightarrow> NodeWrapper buckets \<Rightarrow> NodeWrapper buckets" where
  "demote_all srt chump_list u =
     fold (\<lambda>item u. fst (buckets_add nw_bucketable srt u item None)) chump_list u"

definition add_verified ::
  "NodeWrapper sorter \<Rightarrow> NodeWrapper buckets \<Rightarrow> NodeWrapper buckets \<Rightarrow> NodeWrapper \<Rightarrow> NodeBucketStorage" where
  "add_verified srt v u item =
     (let r = buckets_add nw_bucketable srt v item (Some [])
      in \<lparr>verified = fst r, unverified = demote_all srt (the (snd r)) u\<rparr>)"

text \<open>\<open>now\<close> is read on entry, \<open>now'\<close> by \<open>NodeWrapper::new\<close>.\<close>

definition add_or_update_verified ::
  "NodeWrapper sorter \<Rightarrow> NodeBucketStorage \<Rightarrow> Node \<Rightarrow> instant \<Rightarrow> instant \<Rightarrow> NodeBucketStorage" where
  "add_or_update_verified srt s node now now' =
     (case buckets_remove nw_bucketable (unverified s) (node_id node) of
        (u, Some item) \<Rightarrow>
          add_verified srt (verified s) u (item\<lparr>nw_last_seen := now, nw_last_verified := Some now\<rparr>)
      | (u, None) \<Rightarrow>
         (case buckets_get_mut nw_bucketable (verified s) (node_id node) of
            Some r \<Rightarrow>
              (let w0 = buckets_read (verified s) r;
                   w1 = w0\<lparr>nw_last_verified := Some (nw_last_seen w0)\<rparr>;
                   w2 = w1\<lparr>nw_last_seen := now\<rparr>;
                   w3 = w2\<lparr>nw_last_verified := Some now\<rparr>
               in s\<lparr>verified := buckets_write (verified s) r w3\<rparr>)
          | None \<Rightarrow>
              add_verified srt (verified s) u
                ((nw_new node now')\<lparr>nw_last_seen := now, nw_last_verified := Some now\<rparr>)))"

definition nbs_add_or_update ::
  "NodeWrapper sorter \<Rightarrow> NodeBucketStorage \<Rightarrow> Node \<Rightarrow> bool \<Rightarrow> instant \<Rightarrow> instant \<Rightarrow> NodeBucketStorage" where
  "nbs_add_or_update srt s node is_verified now now' =
     (if is_verified then add_or_update_verified srt s node now now'
      else add_or_update_last_seen srt s node now)"

definition nbs_clear :: "NodeBucketStorage \<Rightarrow> NodeBucketStorage" where
  "nbs_clear s = \<lparr>verified = buckets_clear (verified s), unverified = buckets_clear (unverified s)\<rparr>"

definition nbs_count :: "NodeBucketStorage \<Rightarrow> nat \<times> nat" where
  "nbs_count s = (buckets_count (unverified s), buckets_count (verified s))"

definition nbs_get_all_unverified :: "NodeBucketStorage \<Rightarrow> NodeWrapper list" where
  "nbs_get_all_unverified s = buckets_values (unverified s)"

definition nbs_get_all_verified :: "NodeBucketStorage \<Rightarrow> NodeWrapper list" where
  "nbs_get_all_verified s = buckets_values (verified s)"

definition nbs_get_nearest_nodes ::
  "NodeWrapper sorter \<Rightarrow> NodeBucketStorage \<Rightarrow> Id \<Rightarrow> Id option \<Rightarrow> Node list" where
  "nbs_get_nearest_nodes srt s i exclude =
     map nw_node (buckets_get_nearest nw_bucketable srt (verified s) i exclude)"

text \<open>\<open>prune\<close>: the two closures, and the two readings of the clock.\<close>

definition keep_verified :: "instant \<Rightarrow> NodeWrapper \<Rightarrow> bool" where
  "keep_verified t nw = (case nw_last_verified nw of Some lv \<Rightarrow> t \<le> lv | None \<Rightarrow> False)"

definition keep_unverified :: "instant \<Rightarrow> instant \<Rightarrow> NodeWrapper \<Rightarrow> bool" where
  "keep_unverified t unverified_time nw =
     ((case nw_last_verified nw of Some lv \<Rightarrow> t \<le> lv | None \<Rightarrow> False) \<or>
      (t \<le> nw_last_seen nw \<and> unverified_time \<le> nw_last_seen nw))"

definition nbs_prune ::
  "NodeBucketStorage \<Rightarrow> duration \<Rightarrow> duration \<Rightarrow> instant \<Rightarrow> instant \<Rightarrow> NodeBucketStorage" where
  "nbs_prune s grace_period unverified_grace_period now now' =
     (case instant_checked_sub now grace_period of
        None \<Rightarrow> s
      | Some t \<Rightarrow>
         (case instant_checked_sub now' unverified_grace_period of
            None \<Rightarrow> s
          | Some ut \<Rightarrow>
              \<lparr>verified = buckets_retain (keep_verified t) (verified s),
               unverified = buckets_retain (keep_unverified t ut) (unverified s)\<rparr>))"

definition nbs_set_id :: "NodeBucketStorage \<Rightarrow> Id \<Rightarrow> NodeBucketStorage" where
  "nbs_set_id s new_id =
     \<lparr>verified = buckets_set_id (verified s) new_id, unverified = buckets_set_id (unverified s) new_id\<rparr>"

section \<open>The invariant\<close>

text \<open>
  Both tables are well formed for the same id, and no id is stored twice, within a table or across
  the two; what is in the verified table has a time of verification.
\<close>

definition nbs_all :: "NodeBucketStorage \<Rightarrow> NodeWrapper list" where
  "nbs_all s = buckets_values (verified s) @ buckets_values (unverified s)"

definition nbs_inv :: "NodeBucketStorage \<Rightarrow> bool" where
  "nbs_inv s \<longleftrightarrow>
     wf_buckets nw_bucketable (verified s) \<and> wf_buckets nw_bucketable (unverified s) \<and>
     b_our_id (verified s) = b_our_id (unverified s) \<and> b_k (verified s) = b_k (unverified s) \<and>
     distinct (map nw_id (nbs_all s)) \<and>
     (\<forall>w \<in> set (buckets_values (verified s)). nw_last_verified w \<noteq> None)"

lemma distinct_map_mset_subset:
  assumes "distinct (map f xs)" and "mset ys \<subseteq># mset xs"
  shows "distinct (map f ys)"
proof -
  obtain zs where "mset xs = mset ys + mset zs"
    using assms(2) by (metis ex_mset subset_mset.add_diff_inverse)
  then have "mset (map f xs) = mset (map f (ys @ zs))" by (simp only: mset_map mset_append)
  then have "distinct (map f (ys @ zs))" using assms(1) by (metis mset_eq_imp_distinct_iff)
  then show ?thesis by simp
qed

lemma nbs_inv_new [simp]: "nbs_inv (nbs_new our k)"
proof -
  have "b_our_id (buckets_new our k) = our" "b_k (buckets_new our k) = k" by (simp_all add: buckets_new_def)
  then show ?thesis by (simp add: nbs_inv_def nbs_new_def nbs_all_def)
qed

lemma nbs_inv_clear:
  assumes "nbs_inv s" shows "nbs_inv (nbs_clear s)"
  using assms by (simp add: nbs_inv_def nbs_clear_def nbs_all_def) (simp add: buckets_clear_def)

lemma nbs_inv_set_id:
  assumes "nbs_inv s" shows "nbs_inv (nbs_set_id s i)"
  using assms by (simp add: nbs_inv_def nbs_set_id_def nbs_all_def) (simp add: buckets_set_id_def buckets_clear_def)

lemma nbs_inv_retain:
  assumes "nbs_inv s"
  shows "nbs_inv \<lparr>verified = buckets_retain f (verified s), unverified = buckets_retain g (unverified s)\<rparr>"
proof -
  have "mset (filter f (buckets_values (verified s)) @ filter g (buckets_values (unverified s))) \<subseteq># mset (nbs_all s)"
    unfolding nbs_all_def mset_append mset_filter by (intro subset_mset.add_mono multiset_filter_subset)
  moreover have "distinct (map nw_id (nbs_all s))" using assms by (simp add: nbs_inv_def)
  ultimately have "distinct (map nw_id (filter f (buckets_values (verified s)) @ filter g (buckets_values (unverified s))))"
    by (rule distinct_map_mset_subset [rotated])
  then show ?thesis
    using assms unfolding nbs_inv_def nbs_all_def by (simp add: wf_buckets_retain)
qed

lemma nbs_inv_prune:
  assumes "nbs_inv s" shows "nbs_inv (nbs_prune s g ug t t')"
  using assms by (simp add: nbs_prune_def nbs_inv_retain split: option.split)

section \<open>Adding a node\<close>

lemma demote_all_spec:
  assumes "sort_law srt" and "wf_buckets nw_bucketable u"
  shows "wf_buckets nw_bucketable (demote_all srt c u) \<and> b_our_id (demote_all srt c u) = b_our_id u \<and>
    b_k (demote_all srt c u) = b_k u \<and>
    mset (buckets_values (demote_all srt c u)) \<subseteq># mset (buckets_values u) + mset c"
  using assms(2)
proof (induction c arbitrary: u)
  case (Cons x c)
  define u' where "u' = fst (buckets_add nw_bucketable srt u x None)"
  obtain ev where u': "wf_buckets nw_bucketable u'" "b_our_id u' = b_our_id u" "b_k u' = b_k u"
    "mset (buckets_values u') + mset ev =
      mset (buckets_values u) + (if nw_id x = b_our_id u then {#} else {#x#})"
    by (rule buckets_add_spec [OF assms(1) Cons.prems, of x None]) (auto simp: u'_def)
  have "mset (buckets_values u') \<subseteq># mset (buckets_values u') + mset ev" by simp
  also have "\<dots> \<subseteq># mset (buckets_values u) + {#x#}" unfolding u'(4) by simp
  finally have sub: "mset (buckets_values u') \<subseteq># mset (buckets_values u) + {#x#}" .
  have step: "demote_all srt (x # c) u = demote_all srt c u'" by (simp add: demote_all_def u'_def)
  note IH = Cons.IH [OF u'(1)]
  have "mset (buckets_values (demote_all srt c u')) \<subseteq># mset (buckets_values u') + mset c" using IH by blast
  also have "\<dots> \<subseteq># mset (buckets_values u) + {#x#} + mset c" using sub by (intro subset_mset.add_mono) auto
  finally show ?case using IH u' by (simp add: step)
qed (simp add: demote_all_def)

lemma add_verified_spec:
  assumes srt: "sort_law srt" and v: "wf_buckets nw_bucketable v" and u: "wf_buckets nw_bucketable u"
    and same: "b_our_id v = b_our_id u" "b_k v = b_k u"
    and dist: "distinct (map nw_id (item # buckets_values v @ buckets_values u))"
    and lv: "\<forall>w \<in> set (item # buckets_values v). nw_last_verified w \<noteq> None"
  shows "nbs_inv (add_verified srt v u item)"
    and "mset (nbs_all (add_verified srt v u item)) \<subseteq># add_mset item (mset (buckets_values v @ buckets_values u))"
    and "set (buckets_values (verified (add_verified srt v u item))) \<subseteq> insert item (set (buckets_values v))"
    and "b_our_id (verified (add_verified srt v u item)) = b_our_id v"
    and "b_k (verified (add_verified srt v u item)) = b_k v"
proof -
  define r where "r = buckets_add nw_bucketable srt v item (Some [])"
  obtain ev where r: "wf_buckets nw_bucketable (fst r)" "b_our_id (fst r) = b_our_id v" "b_k (fst r) = b_k v"
    "mset (buckets_values (fst r)) + mset ev =
      mset (buckets_values v) + (if nw_id item = b_our_id v then {#} else {#item#})"
    "snd r = Some ev"
    by (rule buckets_add_spec [OF srt v, of item "Some []"]) (auto simp: r_def)
  have eq: "add_verified srt v u item = \<lparr>verified = fst r, unverified = demote_all srt ev u\<rparr>"
    using r(5) by (simp add: add_verified_def Let_def r_def)
  have d: "wf_buckets nw_bucketable (demote_all srt ev u)" "b_our_id (demote_all srt ev u) = b_our_id u"
    "b_k (demote_all srt ev u) = b_k u"
    "mset (buckets_values (demote_all srt ev u)) \<subseteq># mset (buckets_values u) + mset ev"
    using demote_all_spec [OF srt u, of ev] by blast+
  have both: "mset (buckets_values (fst r)) + mset ev \<subseteq># add_mset item (mset (buckets_values v))"
    unfolding r(4) by simp
  have "mset (nbs_all (add_verified srt v u item)) \<subseteq># mset (buckets_values (fst r)) + (mset (buckets_values u) + mset ev)"
    unfolding eq nbs_all_def by (simp add: d(4))
  also have "\<dots> \<subseteq># add_mset item (mset (buckets_values v)) + mset (buckets_values u)"
    using both by (simp add: ac_simps subset_mset.add_left_mono)
  finally show all: "mset (nbs_all (add_verified srt v u item)) \<subseteq># add_mset item (mset (buckets_values v @ buckets_values u))"
    by simp
  have "mset (buckets_values (fst r)) \<subseteq># mset (buckets_values (fst r)) + mset ev" by simp
  also note both
  also have "add_mset item (mset (buckets_values v)) = mset (item # buckets_values v)" by simp
  finally have "mset (buckets_values (fst r)) \<subseteq># mset (item # buckets_values v)" .
  then have sub: "set (buckets_values (fst r)) \<subseteq> insert item (set (buckets_values v))"
    by (metis list.simps(15) set_mset_mono set_mset_mset)
  then show "set (buckets_values (verified (add_verified srt v u item))) \<subseteq> insert item (set (buckets_values v))"
    by (simp add: eq)
  have "distinct (map nw_id (nbs_all (add_verified srt v u item)))"
    using all by (intro distinct_map_mset_subset [OF dist]) simp
  then show "nbs_inv (add_verified srt v u item)"
    using r d same lv sub by (auto simp: nbs_inv_def eq)
  show "b_our_id (verified (add_verified srt v u item)) = b_our_id v"
    "b_k (verified (add_verified srt v u item)) = b_k v"
    by (simp_all add: eq r)
qed

text \<open>Updating a stored record in place.\<close>

lemma nbs_write:
  assumes wf: "wf_buckets nw_bucketable b" and g: "buckets_get_mut nw_bucketable b i = Some r"
    and w: "w = buckets_read b r" and v: "nw_id v = nw_id w"
  shows "w \<in> set (buckets_values b)" "nw_id w = i" "wf_buckets nw_bucketable (buckets_write b r v)"
    and "set (buckets_values (buckets_write b r v)) \<subseteq> insert v (set (buckets_values b))"
    and "mset (map nw_id (buckets_values (buckets_write b r v))) = mset (map nw_id (buckets_values b))"
    and "b_our_id (buckets_write b r v) = b_our_id b" "b_k (buckets_write b r v) = b_k b"
proof -
  obtain d p where r: "r = (d, p)" by (cases r)
  note g' = buckets_get_mut_Some [OF g [unfolded r]]
  show "w \<in> set (buckets_values b)"
    using g'(2,3) by (auto simp: w r buckets_read_def intro: buckets_values_memI)
  show "nw_id w = i" using g'(4) by (simp add: w r)
  show "wf_buckets nw_bucketable (buckets_write b r v)"
    unfolding r using wf g'(2,3) v by (intro wf_buckets_write) (simp_all add: w r)
  have m: "add_mset w (mset (buckets_values (buckets_write b r v))) = add_mset v (mset (buckets_values b))"
    using buckets_write_mset [OF g'(2,3), of v] by (simp add: w r)
  then have "set_mset (add_mset w (mset (buckets_values (buckets_write b r v)))) = set_mset (add_mset v (mset (buckets_values b)))"
    by simp
  then show "set (buckets_values (buckets_write b r v)) \<subseteq> insert v (set (buckets_values b))" by auto
  have "image_mset nw_id (add_mset w (mset (buckets_values (buckets_write b r v)))) = image_mset nw_id (add_mset v (mset (buckets_values b)))"
    by (simp only: m)
  then show "mset (map nw_id (buckets_values (buckets_write b r v))) = mset (map nw_id (buckets_values b))"
    using v by simp
  show "b_our_id (buckets_write b r v) = b_our_id b" "b_k (buckets_write b r v) = b_k b"
    by (simp_all add: buckets_write_def)
qed

lemma nbs_inv_ids:
  assumes "nbs_inv s" and "wf_buckets nw_bucketable v" and "wf_buckets nw_bucketable u"
    and "b_our_id v = b_our_id (verified s)" "b_k v = b_k (verified s)"
    and "b_our_id u = b_our_id (unverified s)" "b_k u = b_k (unverified s)"
    and "mset (map nw_id (buckets_values v)) = mset (map nw_id (buckets_values (verified s)))"
    and "mset (map nw_id (buckets_values u)) = mset (map nw_id (buckets_values (unverified s)))"
    and "\<forall>w \<in> set (buckets_values v). nw_last_verified w \<noteq> None"
  shows "nbs_inv \<lparr>verified = v, unverified = u\<rparr>"
proof -
  have "mset (map nw_id (buckets_values v @ buckets_values u)) = mset (map nw_id (nbs_all s))"
    unfolding nbs_all_def map_append mset_append by (simp only: assms(8,9))
  then have "distinct (map nw_id (buckets_values v @ buckets_values u))"
    using assms(1) by (metis mset_eq_imp_distinct_iff nbs_inv_def)
  then show ?thesis using assms by (simp add: nbs_inv_def nbs_all_def)
qed

text \<open>
  What an addition may change: \<open>w'\<close> is a record of the new storage that was not in the old one. It
  is about the added id, just seen, and has the stored address if there was a record of the id.
\<close>

definition fresh_record :: "NodeBucketStorage \<Rightarrow> Node \<Rightarrow> instant \<Rightarrow> NodeWrapper \<Rightarrow> bool" where
  "fresh_record s n now w' \<longleftrightarrow>
     nw_id w' = node_id n \<and> nw_last_seen w' = now \<and>
     (if node_id n \<in> nw_id ` set (nbs_all s) then nw_node w' \<in> nw_node ` set (nbs_all s) else nw_node w' = n)"

lemma fresh_recordI:
  assumes "w \<in> set (nbs_all s)" and "nw_id w = node_id n" and "nw_id v = nw_id w"
    and "nw_node v = nw_node w" and "nw_last_seen v = now"
  shows "fresh_record s n now v"
proof -
  have "node_id n \<in> nw_id ` set (nbs_all s)" using assms(1,2) by (metis image_eqI)
  then show ?thesis using assms by (auto simp: fresh_record_def)
qed

definition add_post :: "NodeBucketStorage \<Rightarrow> Node \<Rightarrow> bool \<Rightarrow> instant \<Rightarrow> NodeBucketStorage \<Rightarrow> bool" where
  "add_post s n is_verified now s' \<longleftrightarrow>
     nbs_inv s' \<and> b_our_id (verified s') = b_our_id (verified s) \<and> b_k (verified s') = b_k (verified s) \<and>
     (\<forall>w \<in> set (nbs_all s'). w \<in> set (nbs_all s) \<or> fresh_record s n now w) \<and>
     (\<forall>w \<in> set (buckets_values (verified s')). w \<in> set (buckets_values (verified s)) \<or>
        nw_id w = node_id n \<and>
        (if is_verified then nw_last_verified w = Some now
         else \<exists>w0 \<in> set (buckets_values (verified s)). w = w0\<lparr>nw_last_seen := now\<rparr>))"

lemma nw_new_sel [simp]:
  "nw_id (nw_new n t) = node_id n" "nw_node (nw_new n t) = n"
  "nw_last_seen (nw_new n t) = t" "nw_last_verified (nw_new n t) = None"
  by (simp_all add: nw_new_def nw_id_def)

lemma nw_id_update [simp]:
  "nw_id (w\<lparr>nw_last_seen := a\<rparr>) = nw_id w" "nw_id (w\<lparr>nw_last_verified := b\<rparr>) = nw_id w"
  by (simp_all add: nw_id_def)

lemma nbs_inv_parts:
  assumes "nbs_inv s"
  shows "wf_buckets nw_bucketable (verified s)" "wf_buckets nw_bucketable (unverified s)"
    "b_our_id (unverified s) = b_our_id (verified s)" "b_k (unverified s) = b_k (verified s)"
    "distinct (map nw_id (nbs_all s))"
    "w \<in> set (buckets_values (verified s)) \<Longrightarrow> nw_last_verified w \<noteq> None"
  using assms by (simp_all add: nbs_inv_def)

lemma nbs_update_eq:
  "(s :: NodeBucketStorage)\<lparr>verified := v\<rparr> = \<lparr>verified = v, unverified = unverified s\<rparr>"
  "(s :: NodeBucketStorage)\<lparr>unverified := u\<rparr> = \<lparr>verified = verified s, unverified = u\<rparr>"
  by simp_all

lemma update_verified_post:
  assumes inv: "nbs_inv s" and g: "buckets_get_mut nw_bucketable (verified s) (node_id n) = Some r"
    and w: "w = buckets_read (verified s) r"
    and v: "v = (if is_verified then w\<lparr>nw_last_seen := now, nw_last_verified := Some now\<rparr> else w\<lparr>nw_last_seen := now\<rparr>)"
  shows "add_post s n is_verified now (s\<lparr>verified := buckets_write (verified s) r v\<rparr>)"
proof -
  have id: "nw_id v = nw_id w" "nw_node v = nw_node w" "nw_last_seen v = now" using v by auto
  note wr = nbs_write [OF nbs_inv_parts(1) [OF inv] g w id(1)]
  note parts = nbs_inv_parts [OF inv]
  have "nw_last_verified x \<noteq> None" if "x \<in> set (buckets_values (buckets_write (verified s) r v))" for x
    using that wr(4) parts(6) [of x] parts(6) [OF wr(1)] v by auto
  then have "nbs_inv \<lparr>verified = buckets_write (verified s) r v, unverified = unverified s\<rparr>"
    by (intro nbs_inv_ids [OF inv wr(3) parts(2) wr(6,7) refl refl wr(5) refl]) blast
  moreover have "fresh_record s n now v"
    using wr(1,2) id by (intro fresh_recordI [of w]) (simp_all add: nbs_all_def)
  moreover have "if is_verified then nw_last_verified v = Some now
      else \<exists>w0 \<in> set (buckets_values (verified s)). v = w0\<lparr>nw_last_seen := now\<rparr>"
    using wr(1) v by auto
  moreover have "x \<in> set (buckets_values (verified s)) \<or> x = v"
    if "x \<in> set (buckets_values (buckets_write (verified s) r v))" for x
    using that wr(4) by blast
  ultimately show ?thesis
    using wr(2,6,7) id(1) unfolding add_post_def nbs_all_def nbs_update_eq
    by (metis NodeBucketStorage.select_convs Un_iff set_append)
qed

lemma update_unverified_post:
  assumes inv: "nbs_inv s" and g: "buckets_get_mut nw_bucketable (unverified s) (node_id n) = Some r"
    and w: "w = buckets_read (unverified s) r"
  shows "add_post s n False now (s\<lparr>unverified := buckets_write (unverified s) r (w\<lparr>nw_last_seen := now\<rparr>)\<rparr>)"
proof -
  let ?v = "w\<lparr>nw_last_seen := now\<rparr>"
  have id: "nw_id ?v = nw_id w" by simp
  note wr = nbs_write [OF nbs_inv_parts(2) [OF inv] g w id]
  note parts = nbs_inv_parts [OF inv]
  have "nbs_inv \<lparr>verified = verified s, unverified = buckets_write (unverified s) r ?v\<rparr>"
    using parts(6) by (intro nbs_inv_ids [OF inv parts(1) wr(3) refl refl wr(6,7) refl wr(5)]) blast
  moreover have "fresh_record s n now ?v"
    using wr(1,2) by (intro fresh_recordI [of w]) (simp_all add: nbs_all_def)
  ultimately show ?thesis
    using wr(4) unfolding add_post_def nbs_all_def nbs_update_eq by auto
qed

lemma new_unverified_post:
  assumes srt: "sort_law srt" and inv: "nbs_inv s"
    and v: "buckets_get_mut nw_bucketable (verified s) (node_id n) = None"
    and u: "buckets_get_mut nw_bucketable (unverified s) (node_id n) = None"
  shows "add_post s n False now
    (s\<lparr>unverified := fst (buckets_add nw_bucketable srt (unverified s) (nw_new n now) None)\<rparr>)"
proof -
  define u' where "u' = fst (buckets_add nw_bucketable srt (unverified s) (nw_new n now) None)"
  note parts = nbs_inv_parts [OF inv]
  have new: "node_id n \<notin> nw_id ` set (nbs_all s)"
    using buckets_get_mut_None [OF parts(1), of "node_id n"] buckets_get_mut_None [OF parts(2), of "node_id n"] u v
    by (auto simp: nbs_all_def)
  have u': "demote_all srt [nw_new n now] (unverified s) = u'" by (simp add: demote_all_def u'_def)
  note d = demote_all_spec [OF srt parts(2), of "[nw_new n now]", unfolded u']
  have sub: "mset (buckets_values (verified s) @ buckets_values u') \<subseteq># mset (nw_new n now # nbs_all s)"
    using d by (simp add: nbs_all_def)
  have "distinct (map nw_id (nw_new n now # nbs_all s))" using parts(5) new by simp
  then have "distinct (map nw_id (buckets_values (verified s) @ buckets_values u'))"
    using sub by (rule distinct_map_mset_subset)
  then have "nbs_inv (s\<lparr>unverified := u'\<rparr>)"
    using d parts by (auto simp: nbs_inv_def nbs_all_def)
  moreover have "fresh_record s n now (nw_new n now)" using new by (simp add: fresh_record_def)
  moreover have "set (buckets_values (verified s) @ buckets_values u') \<subseteq> insert (nw_new n now) (set (nbs_all s))"
    using sub by (metis list.simps(15) set_mset_mono set_mset_mset)
  ultimately show ?thesis
    unfolding add_post_def u'_def [symmetric] by (auto simp: nbs_all_def)
qed

lemma add_verified_post:
  assumes srt: "sort_law srt" and inv: "nbs_inv s"
    and u: "wf_buckets nw_bucketable u" "b_our_id u = b_our_id (unverified s)" "b_k u = b_k (unverified s)"
    and mem: "set (buckets_values u) \<subseteq> set (buckets_values (unverified s))"
    and dist: "distinct (map nw_id (item # buckets_values (verified s) @ buckets_values u))"
    and item: "nw_last_verified item = Some now" "fresh_record s n now item"
  shows "add_post s n True now (add_verified srt (verified s) u item)"
proof -
  note parts = nbs_inv_parts [OF inv]
  have lv: "\<forall>w \<in> set (item # buckets_values (verified s)). nw_last_verified w \<noteq> None"
    using item(1) parts(6) by auto
  have same: "b_our_id (verified s) = b_our_id u" "b_k (verified s) = b_k u"
    using u parts by simp_all
  note av = add_verified_spec [OF srt parts(1) u(1) same dist lv]
  have "set (nbs_all (add_verified srt (verified s) u item)) \<subseteq> insert item (set (buckets_values (verified s) @ buckets_values u))"
    using av(2) by (metis set_mset_add_mset_insert set_mset_mono set_mset_mset)
  also have "\<dots> \<subseteq> insert item (set (nbs_all s))" using mem by (auto simp: nbs_all_def)
  finally show ?thesis
    using av(1,3,4,5) item unfolding add_post_def fresh_record_def by auto
qed

lemma nbs_add_or_update_post:
  assumes srt: "sort_law srt" and inv: "nbs_inv s"
  shows "add_post s n is_verified now (nbs_add_or_update srt s n is_verified now now')"
proof (cases is_verified)
  case False
  then show ?thesis
    using update_verified_post [OF inv _ refl refl, where is_verified = False]
      update_unverified_post [OF inv _ refl] new_unverified_post [OF srt inv]
    by (simp add: nbs_add_or_update_def add_or_update_last_seen_def split: option.split)
next
  case True
  note parts = nbs_inv_parts [OF inv]
  obtain u ro where r: "buckets_remove nw_bucketable (unverified s) (node_id n) = (u, ro)"
    by (cases "buckets_remove nw_bucketable (unverified s) (node_id n)")
  note rem = buckets_remove_spec [OF parts(2), of "node_id n", unfolded r fst_conv snd_conv]
  show ?thesis
  proof (cases ro)
    case (Some w)
    let ?item = "w\<lparr>nw_last_seen := now, nw_last_verified := Some now\<rparr>"
    have w: "nw_id w = node_id n" "add_mset w (mset (buckets_values u)) = mset (buckets_values (unverified s))"
      using rem(6) [OF Some] by simp_all
    then have all: "mset (nbs_all s) = mset (w # buckets_values (verified s) @ buckets_values u)"
      by (simp add: nbs_all_def flip: w(2))
    have mem: "set (buckets_values u) \<subseteq> set (buckets_values (unverified s))" "w \<in> set (nbs_all s)"
      using w(2) all by (metis set_mset_add_mset_insert set_mset_mset subset_insertI, metis list.set_intros(1) mset_eq_setD)
    have "mset (map nw_id (nbs_all s)) = mset (map nw_id (w # buckets_values (verified s) @ buckets_values u))"
      using all by (simp only: mset_map)
    then have "distinct (map nw_id (w # buckets_values (verified s) @ buckets_values u))"
      using parts(5) by (metis mset_eq_imp_distinct_iff)
    then have dist: "distinct (map nw_id (?item # buckets_values (verified s) @ buckets_values u))" by simp
    have "fresh_record s n now ?item" using w(1) mem(2) by (intro fresh_recordI [of w]) simp_all
    then have "add_post s n True now (add_verified srt (verified s) u ?item)"
      using mem dist by (intro add_verified_post [OF srt inv rem(1,2,3)]) simp_all
    then show ?thesis
      using True Some r by (simp add: nbs_add_or_update_def add_or_update_verified_def)
  next
    case None
    then have u: "u = unverified s" "\<forall>x \<in> set (buckets_values (unverified s)). nw_id x \<noteq> node_id n"
      using rem(4,5) by simp_all
    show ?thesis
    proof (cases "buckets_get_mut nw_bucketable (verified s) (node_id n)")
      case g: (Some p)
      then show ?thesis
        using True None r update_verified_post [OF inv g refl refl, where is_verified = True]
        by (simp add: nbs_add_or_update_def add_or_update_verified_def Let_def)
    next
      case g: None
      let ?item = "(nw_new n now')\<lparr>nw_last_seen := now, nw_last_verified := Some now\<rparr>"
      have new: "node_id n \<notin> nw_id ` set (nbs_all s)"
        using u(2) g buckets_get_mut_None [OF parts(1), of "node_id n"] by (auto simp: nbs_all_def)
      have "distinct (map nw_id (?item # nbs_all s))" using parts(5) new by simp
      moreover have "fresh_record s n now ?item" using new by (simp add: fresh_record_def)
      ultimately have "add_post s n True now (add_verified srt (verified s) (unverified s) ?item)"
        by (intro add_verified_post [OF srt inv parts(2) refl refl]) (simp_all add: nbs_all_def)
      then show ?thesis
        using True None r g u by (simp add: nbs_add_or_update_def add_or_update_verified_def)
    qed
  qed
qed

section \<open>The trait \<open>NodeStorage\<close>\<close>

record 's node_storage_ops =
  ns_add_or_update :: "'s \<Rightarrow> Node \<Rightarrow> bool \<Rightarrow> instant \<Rightarrow> instant \<Rightarrow> 's"
  ns_clear :: "'s \<Rightarrow> 's"
  ns_count :: "'s \<Rightarrow> nat \<times> nat"
  ns_get_all_unverified :: "'s \<Rightarrow> NodeWrapper list"
  ns_get_all_verified :: "'s \<Rightarrow> NodeWrapper list"
  ns_get_nearest_nodes :: "'s \<Rightarrow> Id \<Rightarrow> Id option \<Rightarrow> Node list"
  ns_prune :: "'s \<Rightarrow> duration \<Rightarrow> duration \<Rightarrow> instant \<Rightarrow> instant \<Rightarrow> 's"
  ns_set_id :: "'s \<Rightarrow> Id \<Rightarrow> 's"

text \<open>What happens to a storage, with the clock readings of each call.\<close>

datatype ns_event =
    AddOrUpdate Node bool instant instant
  | ClearNodes
  | Prune duration duration instant instant
  | SetId Id

fun ns_step :: "'s node_storage_ops \<Rightarrow> 's \<Rightarrow> ns_event \<Rightarrow> 's" where
  "ns_step N s (AddOrUpdate n v t t') = ns_add_or_update N s n v t t'"
| "ns_step N s ClearNodes = ns_clear N s"
| "ns_step N s (Prune g ug t t') = ns_prune N s g ug t t'"
| "ns_step N s (SetId i) = ns_set_id N s i"

definition ns_run :: "'s node_storage_ops \<Rightarrow> 's \<Rightarrow> ns_event list \<Rightarrow> 's" where
  "ns_run N s evs = foldl (ns_step N) s evs"

text \<open>The ids a history marked verified, and the nodes it reported.\<close>

fun verified_in :: "ns_event list \<Rightarrow> Id set" where
  "verified_in [] = {}"
| "verified_in (AddOrUpdate n v t t' # evs) = (if v then {node_id n} else {}) \<union> verified_in evs"
| "verified_in (e # evs) = verified_in evs"

fun reports :: "ns_event list \<Rightarrow> Node set" where
  "reports [] = {}"
| "reports (AddOrUpdate n v t t' # evs) = insert n (reports evs)"
| "reports (e # evs) = reports evs"

lemma reports_append [simp]: "reports (evs @ evs') = reports evs \<union> reports evs'"
  by (induction evs rule: reports.induct) auto

text \<open>The nodes in a storage.\<close>

definition ns_known :: "'s node_storage_ops \<Rightarrow> 's \<Rightarrow> Node set" where
  "ns_known N s = nw_node ` set (ns_get_all_verified N s @ ns_get_all_unverified N s)"

locale node_storage =
  fixes N :: "'s node_storage_ops" and ns_inv :: "'s \<Rightarrow> bool"
  assumes inv_add: "ns_inv s \<Longrightarrow> ns_inv (ns_add_or_update N s n v t t')"
    and inv_clear: "ns_inv s \<Longrightarrow> ns_inv (ns_clear N s)"
    and inv_prune: "ns_inv s \<Longrightarrow> ns_inv (ns_prune N s g ug t t')"
    and inv_set_id: "ns_inv s \<Longrightarrow> ns_inv (ns_set_id N s i)"
    and distinct_ids: "ns_inv s \<Longrightarrow>
      distinct (map nw_id (ns_get_all_verified N s @ ns_get_all_unverified N s))"
    and count_law: "ns_inv s \<Longrightarrow>
      ns_count N s = (length (ns_get_all_unverified N s), length (ns_get_all_verified N s))"
    and add_verified_ids: "ns_inv s \<Longrightarrow> w \<in> set (ns_get_all_verified N (ns_add_or_update N s n v t t')) \<Longrightarrow>
      nw_id w \<in> nw_id ` set (ns_get_all_verified N s) \<or> (v \<and> nw_id w = node_id n)"
    and clear_verified: "ns_get_all_verified N (ns_clear N s) = []"
    and prune_verified: "ns_inv s \<Longrightarrow>
      set (ns_get_all_verified N (ns_prune N s g ug t t')) \<subseteq> set (ns_get_all_verified N s)"
    and set_id_verified: "ns_inv s \<Longrightarrow>
      set (ns_get_all_verified N (ns_set_id N s i)) \<subseteq> set (ns_get_all_verified N s)"
    and nearest_law: "ns_inv s \<Longrightarrow> n \<in> set (ns_get_nearest_nodes N s i ex) \<Longrightarrow>
      n \<in> nw_node ` set (ns_get_all_verified N s) \<and> ex \<noteq> Some (node_id n)"
begin

lemma inv_step: "ns_inv s \<Longrightarrow> ns_inv (ns_step N s e)"
  by (cases e) (simp_all add: inv_add inv_clear inv_prune inv_set_id)

lemma inv_run: "ns_inv s \<Longrightarrow> ns_inv (ns_run N s evs)"
  by (induction evs arbitrary: s) (simp_all add: ns_run_def inv_step)

lemma step_verified_ids:
  assumes "ns_inv s" and "w \<in> set (ns_get_all_verified N (ns_step N s e))"
  shows "nw_id w \<in> nw_id ` set (ns_get_all_verified N s) \<union> verified_in [e]"
proof (cases e)
  case (AddOrUpdate n v t t')
  then show ?thesis using add_verified_ids [OF assms(1), of w n v t t'] assms(2) by auto
next
  case ClearNodes
  then show ?thesis using assms(2) clear_verified by simp
next
  case (Prune g ug t t')
  then show ?thesis using assms(2) prune_verified [OF assms(1), of g ug t t'] by auto
next
  case (SetId i)
  then show ?thesis using assms(2) set_id_verified [OF assms(1), of i] by auto
qed

lemma verified_in_Cons: "verified_in (e # evs) = verified_in [e] \<union> verified_in evs"
  by (cases e) auto

lemma run_verified_ids:
  "ns_inv s \<Longrightarrow> w \<in> set (ns_get_all_verified N (ns_run N s evs)) \<Longrightarrow>
   nw_id w \<in> nw_id ` set (ns_get_all_verified N s) \<union> verified_in evs"
proof (induction evs arbitrary: s)
  case (Cons e evs)
  have "nw_id w \<in> nw_id ` set (ns_get_all_verified N (ns_step N s e)) \<union> verified_in evs"
    using Cons.IH [of "ns_step N s e"] Cons.prems inv_step by (simp add: ns_run_def)
  then show ?case
    using step_verified_ids [OF Cons.prems(1), of _ e] unfolding verified_in_Cons [of e evs] by fastforce
qed (simp add: ns_run_def)

lemma run_nearest_ids:
  assumes "ns_inv s" and "n \<in> set (ns_get_nearest_nodes N (ns_run N s evs) i ex)"
  shows "node_id n \<in> nw_id ` set (ns_get_all_verified N s) \<union> verified_in evs"
proof -
  obtain w where "w \<in> set (ns_get_all_verified N (ns_run N s evs))" "n = nw_node w"
    using nearest_law [OF inv_run [OF assms(1)] assms(2)] by auto
  then show ?thesis using run_verified_ids [OF assms(1)] by (auto simp: nw_id_def)
qed

end

text \<open>A storage that makes no nodes up: all it knows was reported to it.\<close>

locale node_table = node_storage +
  assumes add_known: "ns_inv s \<Longrightarrow> ns_known N (ns_add_or_update N s n v t t') \<subseteq> insert n (ns_known N s)"
    and clear_known: "ns_known N (ns_clear N s) = {}"
    and prune_known: "ns_known N (ns_prune N s g ug t t') \<subseteq> ns_known N s"
    and set_id_known: "ns_inv s \<Longrightarrow> ns_known N (ns_set_id N s i) \<subseteq> ns_known N s"
begin

lemma step_known: "ns_inv s \<Longrightarrow> ns_known N (ns_step N s e) \<subseteq> ns_known N s \<union> reports [e]"
  using add_known clear_known prune_known set_id_known by (cases e) auto

lemma run_known: "ns_inv s \<Longrightarrow> ns_known N (ns_run N s evs) \<subseteq> ns_known N s \<union> reports evs"
proof (induction evs arbitrary: s)
  case (Cons e evs)
  have "ns_known N (ns_run N s (e # evs)) \<subseteq> ns_known N (ns_step N s e) \<union> reports evs"
    using Cons.IH [OF inv_step [OF Cons.prems]] by (simp add: ns_run_def)
  moreover have "reports (e # evs) = reports [e] \<union> reports evs" by (cases e) auto
  ultimately show ?case using step_known [OF Cons.prems, of e] by blast
qed (simp add: ns_run_def)

lemma nearest_known: "ns_inv s \<Longrightarrow> set (ns_get_nearest_nodes N s i ex) \<subseteq> ns_known N s"
  using nearest_law by (fastforce simp: ns_known_def)

end

text \<open>\<open>NodeBucketStorage\<close> provides the trait.\<close>

definition nbs_ops :: "NodeWrapper sorter \<Rightarrow> NodeBucketStorage node_storage_ops" where
  "nbs_ops srt =
     \<lparr>ns_add_or_update = nbs_add_or_update srt, ns_clear = nbs_clear, ns_count = nbs_count,
      ns_get_all_unverified = nbs_get_all_unverified, ns_get_all_verified = nbs_get_all_verified,
      ns_get_nearest_nodes = nbs_get_nearest_nodes srt, ns_prune = nbs_prune, ns_set_id = nbs_set_id\<rparr>"

lemma nbs_ops_sel [simp]:
  "ns_add_or_update (nbs_ops srt) = nbs_add_or_update srt" "ns_clear (nbs_ops srt) = nbs_clear"
  "ns_count (nbs_ops srt) = nbs_count" "ns_get_all_unverified (nbs_ops srt) = nbs_get_all_unverified"
  "ns_get_all_verified (nbs_ops srt) = nbs_get_all_verified"
  "ns_get_nearest_nodes (nbs_ops srt) = nbs_get_nearest_nodes srt"
  "ns_prune (nbs_ops srt) = nbs_prune" "ns_set_id (nbs_ops srt) = nbs_set_id"
  by (simp_all add: nbs_ops_def)

lemma nbs_nearest_mem:
  assumes "sort_law srt" and "n \<in> set (nbs_get_nearest_nodes srt s i ex)"
  shows "\<exists>w \<in> set (buckets_values (verified s)). n = nw_node w \<and> ex \<noteq> Some (nw_id w)"
proof -
  obtain rest where "mset (buckets_get_nearest nw_bucketable srt (verified s) i ex) + mset rest
      = mset (eligible nw_bucketable ex (buckets_values (verified s)))"
    by (rule buckets_get_nearest_spec [OF assms(1)]) blast
  then have "set (buckets_get_nearest nw_bucketable srt (verified s) i ex) \<subseteq> set (eligible nw_bucketable ex (buckets_values (verified s)))"
    by (metis mset_subset_eq_add_left set_mset_mono set_mset_mset)
  then show ?thesis using assms(2) by (auto simp: nbs_get_nearest_nodes_def eligible_def)
qed

lemma nbs_prune_subset: "set (buckets_values (verified (nbs_prune s g ug t t'))) \<subseteq> set (buckets_values (verified s))"
  by (auto simp: nbs_prune_def split: option.split)

lemma nbs_node_storage: "sort_law srt \<Longrightarrow> node_storage (nbs_ops srt) nbs_inv"
proof (unfold_locales, goal_cases)
  case (1 s n v t t')
  then show ?case using nbs_add_or_update_post by (simp add: add_post_def)
next
  case (7 s w n v t t')
  then show ?case
    using nbs_add_or_update_post [OF 7(1,2), of n v t t']
    by (auto simp: add_post_def nbs_get_all_verified_def split: if_splits)
next
  case (2 s)
  then show ?case by (simp add: nbs_inv_clear)
next
  case (4 s i)
  then show ?case by (simp add: nbs_inv_set_id)
next
  case (5 s)
  then show ?case using nbs_inv_parts(5) [OF 5(2)]
    by (simp only: nbs_ops_sel nbs_get_all_verified_def nbs_get_all_unverified_def nbs_all_def)
next
  case (11 s n i ex)
  then show ?case using nbs_nearest_mem [OF 11(1), of n s i ex]
    by (auto simp: nbs_get_all_verified_def nw_id_def)
qed (simp_all add: nbs_inv_prune nbs_count_def nbs_get_all_verified_def nbs_get_all_unverified_def buckets_count_values nbs_clear_def
    nbs_set_id_def nbs_prune_subset)

lemma nbs_known: "ns_known (nbs_ops srt) s = nw_node ` set (nbs_all s)"
  by (simp add: ns_known_def nbs_all_def nbs_get_all_verified_def nbs_get_all_unverified_def)

lemma fresh_record_node: "fresh_record s n now w \<Longrightarrow> nw_node w \<in> insert n (nw_node ` set (nbs_all s))"
  by (auto simp: fresh_record_def split: if_splits)

lemma nbs_node_table: "sort_law srt \<Longrightarrow> node_table (nbs_ops srt) nbs_inv"
proof (intro node_table.intro node_table_axioms.intro, goal_cases)
  case 1
  then show ?case by (rule nbs_node_storage)
next
  case (2 s n v t t')
  then have "\<forall>w \<in> set (nbs_all (nbs_add_or_update srt s n v t t')). w \<in> set (nbs_all s) \<or> fresh_record s n t w"
    using nbs_add_or_update_post [OF 2] by (simp add: add_post_def)
  then show ?case unfolding nbs_known nbs_ops_sel using fresh_record_node by blast
next
  case (4 s g ug t t')
  show ?case unfolding nbs_known nbs_ops_sel by (auto simp: nbs_prune_def nbs_all_def split: option.split)
qed (auto simp: nbs_known nbs_clear_def nbs_set_id_def nbs_all_def)

interpretation nbs: node_table "nbs_ops insertion_sort" nbs_inv
  by (rule nbs_node_table [OF sort_law_insertion_sort])

section \<open>Properties\<close>

definition sample_addr :: "u8 \<Rightarrow> SocketAddr" where
  "sample_addr a = SockV4 (Ipv4Addr 10 0 0 a) 6881"

definition sample_node :: "u8 \<Rightarrow> u8 \<Rightarrow> Node" where
  "sample_node i a = Node (sample_id i 0) (sample_addr a)"

text \<open>
  What a report makes of a record: its address stays, \<open>last_seen\<close> is now, and a verified report
  sets \<open>last_verified\<close> too.
\<close>

definition report_on :: "bool \<Rightarrow> instant \<Rightarrow> NodeWrapper \<Rightarrow> NodeWrapper" where
  "report_on is_verified now w =
     (if is_verified then w\<lparr>nw_last_seen := now, nw_last_verified := Some now\<rparr> else w\<lparr>nw_last_seen := now\<rparr>)"

text \<open>
  A table that was given the records \<open>M\<close>: it holds all of them but those of our own id and those in
  \<open>lost\<close>, at most one, for which its bucket had no room.
\<close>

definition holds_after :: "NodeWrapper buckets \<Rightarrow> NodeWrapper multiset \<Rightarrow> NodeWrapper multiset \<Rightarrow> bool" where
  "holds_after b M lost \<longleftrightarrow>
     mset (buckets_values b) + lost = filter_mset (\<lambda>w. nw_id w \<noteq> b_our_id b) M \<and> size lost \<le> 1 \<and>
     (\<forall>w \<in># lost. turned_away nw_bucketable (b_our_id b) (b_k b) (b_buckets b) w)"

lemma filter_not_ours:
  assumes "wf_buckets nw_bucketable b"
  shows "filter_mset (\<lambda>w. nw_id w \<noteq> b_our_id b) (mset (buckets_values b)) = mset (buckets_values b)"
proof -
  have "filter (\<lambda>w. nw_id w \<noteq> b_our_id b) (buckets_values b) = buckets_values b"
    using wf_not_our_id [OF assms] by (intro filter_True) auto
  then show ?thesis by (metis mset_filter)
qed

lemma add_holds_after:
  assumes srt: "sort_law srt" and wf: "wf_buckets nw_bucketable b"
  shows "\<exists>ev. holds_after (fst (buckets_add nw_bucketable srt b w ch)) (add_mset w (mset (buckets_values b))) (mset ev) \<and>
    snd (buckets_add nw_bucketable srt b w ch) = map_option (\<lambda>c. c @ ev) ch \<and> length ev \<le> 1"
proof -
  define r where "r = buckets_add nw_bucketable srt b w ch"
  define new where "new = (if nw_id w = b_our_id b then [] else [w])"
  obtain ev where r: "wf_buckets nw_bucketable (fst r)" "b_our_id (fst r) = b_our_id b" "b_k (fst r) = b_k b"
    "mset (buckets_values (fst r)) + mset ev =
      mset (buckets_values b) + (if nw_id w = b_our_id b then {#} else {#w#})"
    "snd r = map_option (\<lambda>c. c @ ev) ch"
    "\<And>x. x \<in> set ev \<Longrightarrow> turned_away nw_bucketable (b_our_id b) (b_k b) (b_buckets (fst r)) x"
    by (rule buckets_add_spec [OF srt wf, of w ch]) (simp add: r_def)
  then have eq: "mset (buckets_values (fst r)) + mset ev = mset (buckets_values b) + mset new"
    by (simp add: new_def)
  have "length new \<le> 1" by (simp add: new_def)
  then have "length ev \<le> length new"
    using one_turned_away [OF wf r(1-3) eq _ r(6)] by blast
  then have "length ev \<le> 1" by (simp add: new_def split: if_splits)
  moreover have "holds_after (fst r) (add_mset w (mset (buckets_values b))) (mset ev)"
    using r filter_not_ours [OF wf] \<open>length ev \<le> 1\<close> by (simp add: holds_after_def new_def)
  ultimately show ?thesis using r(5) by (auto simp: r_def)
qed

lemma demote_holds_after:
  assumes "sort_law srt" and "wf_buckets nw_bucketable u" and "length ev \<le> 1"
  shows "\<exists>lost. holds_after (demote_all srt ev u) (mset (buckets_values u) + mset ev) lost \<and> size lost \<le> length ev"
proof (cases ev)
  case Nil
  then show ?thesis using filter_not_ours [OF assms(2)]
    by (intro exI [of _ "{#}"]) (simp add: demote_all_def holds_after_def)
next
  case (Cons w ws)
  then have "ev = [w]" using assms(3) by simp
  then show ?thesis using add_holds_after [OF assms(1,2), of w None] by (fastforce simp: demote_all_def)
qed

lemma add_verified_holds_after:
  assumes "sort_law srt" and "wf_buckets nw_bucketable v" and "wf_buckets nw_bucketable u"
  shows "\<exists>out lost. holds_after (verified (add_verified srt v u w)) (add_mset w (mset (buckets_values v))) out \<and>
    holds_after (unverified (add_verified srt v u w)) (mset (buckets_values u) + out) lost \<and> size lost \<le> size out"
proof -
  obtain ev where ev: "holds_after (fst (buckets_add nw_bucketable srt v w (Some []))) (add_mset w (mset (buckets_values v))) (mset ev)"
    "snd (buckets_add nw_bucketable srt v w (Some [])) = Some ev" "length ev \<le> 1"
    using add_holds_after [OF assms(1,2), of w "Some []"] by auto
  obtain lost where "holds_after (demote_all srt ev u) (mset (buckets_values u) + mset ev) lost" "size lost \<le> length ev"
    using demote_holds_after [OF assms(1,3) ev(3)] by blast
  then show ?thesis using ev by (intro exI [of _ "mset ev"] exI [of _ lost]) (simp add: add_verified_def Let_def)
qed

text \<open>The record of an id in a table is the only one, and an update in place replaces it.\<close>

lemma table_record:
  assumes "wf_buckets nw_bucketable b" and "distinct (map nw_id (buckets_values b))"
    and "w \<in> set (buckets_values b)" and "nw_id w = i"
  shows "\<exists>r. buckets_get_mut nw_bucketable b i = Some r \<and> buckets_read b r = w \<and>
    (\<forall>v. mset (buckets_values (buckets_write b r v)) = add_mset v (mset (buckets_values b) - {#w#}))"
proof -
  obtain r where r: "buckets_get_mut nw_bucketable b i = Some r"
    using buckets_get_mut_None [OF assms(1), of i] assms(3,4) by (cases "buckets_get_mut nw_bucketable b i") auto
  obtain d p where dp: "r = (d, p)" by (cases r)
  note g = buckets_get_mut_Some [OF r [unfolded dp]]
  have "buckets_read b r \<in> set (buckets_values b)" "nw_id (buckets_read b r) = i"
    using g by (auto simp: dp buckets_read_def intro: buckets_values_memI)
  then have same: "buckets_read b r = w" using assms(2-4) by (metis distinct_map inj_onD)
  have "mset (buckets_values (buckets_write b r v)) = add_mset v (mset (buckets_values b) - {#w#})" for v
  proof -
    have "add_mset w (mset (buckets_values (buckets_write b r v))) = add_mset v (mset (buckets_values b))"
      using buckets_write_mset [OF g(2,3), of v] same dp by simp
    then show ?thesis using assms(3)
      by (metis add_mset_remove_trivial diff_union_swap2 set_mset_mset)
  qed
  then show ?thesis using r same by blast
qed

lemma table_removes:
  assumes "wf_buckets nw_bucketable b" and "distinct (map nw_id (buckets_values b))"
    and "w \<in> set (buckets_values b)" and "nw_id w = i"
  shows "\<exists>u. buckets_remove nw_bucketable b i = (u, Some w) \<and> wf_buckets nw_bucketable u \<and>
    mset (buckets_values u) = mset (buckets_values b) - {#w#}"
proof -
  obtain u ro where r: "buckets_remove nw_bucketable b i = (u, ro)" by (cases "buckets_remove nw_bucketable b i")
  note rem = buckets_remove_spec [OF assms(1), of i, unfolded r fst_conv snd_conv]
  obtain x where x: "ro = Some x" using rem(4) assms(3,4) by (cases ro) auto
  have m: "nw_id x = i" "add_mset x (mset (buckets_values u)) = mset (buckets_values b)"
    using rem(6) [OF x] by simp_all
  then have "x \<in> set (buckets_values b)" by (metis set_mset_mset union_single_eq_member)
  then have "x = w" using assms(2-4) m(1) by (metis distinct_map inj_onD)
  then show ?thesis using r x rem(1) m(2) by (metis add_mset_remove_trivial)
qed

text \<open>
  C24. What a report does to the storage, in every case. The storage stays consistent, and so do our id and
  the bucket size. A record in the verified table is replaced there by what the
  report makes of it, its address kept, and nothing else changes. So is a record in the unverified
  table by an unverified report; a verified one moves it, so updated, to the verified table. An
  unknown node gets a new record, in the table the report asks for (never for our own id).
  A table that takes a record in holds it afterwards together with all it held, except for at most
  one record that its full bucket turned away; the verified table's goes to the unverified one,
  the unverified table's is lost.
\<close>

theorem node_storage_add_contract:
  assumes "sort_law srt" and "nbs_inv s"
    and "s' = nbs_add_or_update srt s n is_verified now now'"
  defines "V \<equiv> mset (buckets_values (verified s))" and "U \<equiv> mset (buckets_values (unverified s))"
  shows "nbs_inv s' \<and> b_our_id (verified s') = b_our_id (verified s) \<and> b_k (verified s') = b_k (verified s) \<and>
    (\<forall>w \<in># V. nw_id w = node_id n \<longrightarrow>
       mset (buckets_values (verified s')) = add_mset (report_on is_verified now w) (V - {#w#}) \<and>
       unverified s' = unverified s) \<and>
    (\<forall>w \<in># U. nw_id w = node_id n \<longrightarrow>
       (if is_verified
        then \<exists>out lost. holds_after (verified s') (add_mset (report_on True now w) V) out \<and>
               holds_after (unverified s') (U - {#w#} + out) lost \<and> size lost \<le> size out
        else verified s' = verified s \<and>
             mset (buckets_values (unverified s')) = add_mset (report_on False now w) (U - {#w#}))) \<and>
    (node_id n \<notin> nw_id ` set_mset (V + U) \<longrightarrow>
       (if is_verified
        then \<exists>out lost. holds_after (verified s') (add_mset (report_on True now (nw_new n now')) V) out \<and>
               holds_after (unverified s') (U + out) lost \<and> size lost \<le> size out
        else verified s' = verified s \<and>
             (\<exists>lost. holds_after (unverified s') (add_mset (nw_new n now) U) lost)))"
proof -
  note parts = nbs_inv_parts [OF assms(2)]
  have dv: "distinct (map nw_id (buckets_values (verified s)))"
    and du: "distinct (map nw_id (buckets_values (unverified s)))"
    and cross: "nw_id ` set (buckets_values (verified s)) \<inter> nw_id ` set (buckets_values (unverified s)) = {}"
    using parts(5) by (simp_all add: nbs_all_def)
  note getv = buckets_get_mut_None [OF parts(1), of "node_id n", simplified]
  note getu = buckets_get_mut_None [OF parts(2), of "node_id n", simplified]
  note rem = buckets_remove_spec [OF parts(2), of "node_id n", simplified]
  have remu: "buckets_remove nw_bucketable (unverified s) (node_id n) = (unverified s, None)"
    if "\<forall>x \<in> set (buckets_values (unverified s)). nw_id x \<noteq> node_id n"
    using rem(4,5) that by (cases "buckets_remove nw_bucketable (unverified s) (node_id n)") auto
  have "nbs_inv s' \<and> b_our_id (verified s') = b_our_id (verified s) \<and> b_k (verified s') = b_k (verified s)"
    using nbs_add_or_update_post [OF assms(1,2)] unfolding assms(3) add_post_def by blast
  moreover have "mset (buckets_values (verified s')) = add_mset (report_on is_verified now w) (V - {#w#}) \<and>
      unverified s' = unverified s"
    if w: "w \<in># V" "nw_id w = node_id n" for w
  proof -
    have wV: "w \<in> set (buckets_values (verified s))" using w(1) by (simp add: V_def)
    obtain r where r: "buckets_get_mut nw_bucketable (verified s) (node_id n) = Some r" "buckets_read (verified s) r = w"
      "\<And>v. mset (buckets_values (buckets_write (verified s) r v)) = add_mset v (V - {#w#})"
      using table_record [OF parts(1) dv wV w(2)] by (auto simp: V_def)
    have "\<forall>x \<in> set (buckets_values (unverified s)). nw_id x \<noteq> node_id n" using cross wV w(2) by force
    from remu [OF this] show ?thesis
      by (simp add: assms(3) nbs_add_or_update_def add_or_update_verified_def add_or_update_last_seen_def
          r Let_def report_on_def)
  qed
  moreover have "if is_verified
        then \<exists>out lost. holds_after (verified s') (add_mset (report_on True now w) V) out \<and>
               holds_after (unverified s') (U - {#w#} + out) lost \<and> size lost \<le> size out
        else verified s' = verified s \<and>
             mset (buckets_values (unverified s')) = add_mset (report_on False now w) (U - {#w#})"
    if w: "w \<in># U" "nw_id w = node_id n" for w
  proof -
    have wU: "w \<in> set (buckets_values (unverified s))" using w(1) by (simp add: U_def)
    obtain r where r: "buckets_get_mut nw_bucketable (unverified s) (node_id n) = Some r" "buckets_read (unverified s) r = w"
      "\<And>v. mset (buckets_values (buckets_write (unverified s) r v)) = add_mset v (U - {#w#})"
      using table_record [OF parts(2) du wU w(2)] by (auto simp: U_def)
    obtain u where u: "buckets_remove nw_bucketable (unverified s) (node_id n) = (u, Some w)"
      "wf_buckets nw_bucketable u" "mset (buckets_values u) = U - {#w#}"
      using table_removes [OF parts(2) du wU w(2)] by (auto simp: U_def)
    have "buckets_get_mut nw_bucketable (verified s) (node_id n) = None" using getv cross wU w(2) by force
    then show ?thesis
      using add_verified_holds_after [OF assms(1) parts(1) u(2), of "report_on True now w"] r
      by (simp add: assms(3) nbs_add_or_update_def add_or_update_verified_def add_or_update_last_seen_def
          u report_on_def V_def)
  qed
  moreover have "if is_verified
        then \<exists>out lost. holds_after (verified s') (add_mset (report_on True now (nw_new n now')) V) out \<and>
               holds_after (unverified s') (U + out) lost \<and> size lost \<le> size out
        else verified s' = verified s \<and>
             (\<exists>lost. holds_after (unverified s') (add_mset (nw_new n now) U) lost)"
    if new: "node_id n \<notin> nw_id ` set_mset (V + U)"
  proof -
    have newu: "\<forall>x \<in> set (buckets_values (unverified s)). nw_id x \<noteq> node_id n"
      and "\<forall>x \<in> set (buckets_values (verified s)). nw_id x \<noteq> node_id n"
      using new by (force simp: V_def U_def)+
    then have "buckets_get_mut nw_bucketable (verified s) (node_id n) = None"
      "buckets_get_mut nw_bucketable (unverified s) (node_id n) = None"
      using getv getu by blast+
    with remu [OF newu] show ?thesis
      using add_verified_holds_after [OF assms(1) parts(1,2), of "report_on True now (nw_new n now')"]
        add_holds_after [OF assms(1) parts(2), of "nw_new n now" None]
      by (auto simp: assms(3) nbs_add_or_update_def add_or_update_verified_def add_or_update_last_seen_def
          report_on_def V_def U_def)
  qed
  ultimately show ?thesis by blast
qed

theorem node_storage_add_contract_witness:
  "\<exists>out lost. holds_after (verified (nbs_add_or_update insertion_sort (nbs_new id_zero 8) (sample_node 1 1) True 5 6))
       {#report_on True 5 (nw_new (sample_node 1 1) 6)#} out \<and>
     holds_after (unverified (nbs_add_or_update insertion_sort (nbs_new id_zero 8) (sample_node 1 1) True 5 6)) out lost"
  using node_storage_add_contract [OF sort_law_insertion_sort nbs_inv_new refl,
      of id_zero 8 "sample_node 1 1" True 5 6]
  by (auto simp: nbs_new_def)

text \<open>
  Over any history of additions, prunings, resets and changes of our id, the storage stays
  consistent and \<open>get_nearest_nodes\<close>, whose answer is what we send to others, contains only nodes
  whose id was reported as verified in that history, and never the excluded id.
\<close>

lemma nearest_nodes_were_verified:
  assumes "sort_law srt"
    and "n \<in> set (nbs_get_nearest_nodes srt (ns_run (nbs_ops srt) (nbs_new our k) evs) i ex)"
  shows "nbs_inv (ns_run (nbs_ops srt) (nbs_new our k) evs) \<and>
    node_id n \<in> verified_in evs \<and> ex \<noteq> Some (node_id n)"
proof -
  note ns = nbs_node_storage [OF assms(1)]
  have inv: "nbs_inv (ns_run (nbs_ops srt) (nbs_new our k) evs)"
    by (rule node_storage.inv_run [OF ns nbs_inv_new])
  have empty: "nbs_get_all_verified (nbs_new our k) = []"
    by (simp add: nbs_get_all_verified_def nbs_new_def)
  have mem: "n \<in> set (ns_get_nearest_nodes (nbs_ops srt) (ns_run (nbs_ops srt) (nbs_new our k) evs) i ex)"
    using assms(2) by simp
  show ?thesis
    using inv node_storage.run_nearest_ids [OF ns nbs_inv_new mem] node_storage.nearest_law [OF ns inv mem]
    by (simp add: empty)
qed

text \<open>
  C25. \<open>prune\<close> with both horizons representable keeps exactly the verified nodes verified since
  \<open>now - grace\<close>, and of the unverified ones those verified since then or seen since both horizons;
  when a horizon lies before the start of the clock it changes nothing. In particular an unverified
  node seen within its own grace period is still dropped when the other period is shorter.
\<close>

theorem prune_horizons:
  assumes "s' = nbs_prune s g ug now now'"
  shows "(if g \<le> now \<and> ug \<le> now'
     then buckets_values (verified s') =
            filter (\<lambda>w. \<exists>lv. nw_last_verified w = Some lv \<and> now \<le> lv + g) (buckets_values (verified s)) \<and>
          buckets_values (unverified s') =
            filter (\<lambda>w. (\<exists>lv. nw_last_verified w = Some lv \<and> now \<le> lv + g) \<or>
                     (now \<le> nw_last_seen w + g \<and> now' \<le> nw_last_seen w + ug)) (buckets_values (unverified s))
     else s' = s) \<and>
    (nbs_inv s \<longrightarrow> nbs_inv s')"
proof (cases "g \<le> now \<and> ug \<le> now'")
  case True
  have "keep_verified (now - g) = (\<lambda>w. \<exists>lv. nw_last_verified w = Some lv \<and> now \<le> lv + g)"
    by (rule ext) (auto simp: keep_verified_def le_diff_conv split: option.split)
  moreover have "keep_unverified (now - g) (now' - ug) = (\<lambda>w. (\<exists>lv. nw_last_verified w = Some lv \<and> now \<le> lv + g) \<or>
      (now \<le> nw_last_seen w + g \<and> now' \<le> nw_last_seen w + ug))"
    by (rule ext) (auto simp: keep_unverified_def le_diff_conv split: option.split)
  ultimately show ?thesis
    using True assms nbs_inv_retain by (simp add: nbs_prune_def instant_checked_sub_def)
next
  case False
  then have "s' = s" by (auto simp: assms nbs_prune_def instant_checked_sub_def)
  then show ?thesis using False by auto
qed

theorem prune_horizons_witness:
  "buckets_values (unverified (nbs_prune
     (nbs_add_or_update insertion_sort (nbs_new id_zero 8) (sample_node 1 1) False 5 6) 2 20 30 30)) = []"
proof -
  let ?s = "nbs_add_or_update insertion_sort (nbs_new id_zero 8) (sample_node 1 1) False 5 6"
  have "buckets_values (unverified ?s) = [nw_new (sample_node 1 1) 5]" by code_simp
  then show ?thesis using prune_horizons [of _ ?s 2 20 30 30, OF refl] by simp
qed

end
