(* ===== verification/Dht_Messages.thy ===== *)
theory Dht_Messages
  imports Dht_Nodes
begin

text \<open>
  The message types of \<open>src/packets/public.rs\<close> (what the program works with) and of
  \<open>src/packets/internal.rs\<close> (what serde maps to bencoded dictionaries), the sender of a message
  and the match between responses and requests. Every argument struct is a datatype of one
  constructor with the struct's fields in order; a \<open>String\<close> is the list of its UTF-8 bytes.
\<close>

type_synonym bytes = "u8 list"
type_synonym i64 = "64 word" \<comment> \<open>read with \<open>sint\<close>\<close>

section \<open>Public messages\<close>

datatype PingRequestArguments =
  PingRequestArguments (ping_requester_id: Id)

datatype FindNodeRequestArguments =
  FindNodeRequestArguments (find_target: Id) (find_requester_id: Id)

datatype GetPeersRequestArguments =
  GetPeersRequestArguments (gp_info_hash: Id) (gp_requester_id: Id)

datatype SampleInfoHashesRequestArguments =
  SampleInfoHashesRequestArguments (sih_target: Id) (sih_requester_id: Id)

datatype AnnouncePeerRequestArguments =
  AnnouncePeerRequestArguments (ap_requester_id: Id) (ap_info_hash: Id) (ap_port: u16)
    (ap_implied_port: "bool option") (ap_token: bytes)

datatype GetPeersResponseValues = Nodes "Node list" | Peers "SocketAddr list"

datatype PingResponseArguments =
  PingResponseArguments (ping_responder_id: Id)

datatype FindNodeResponseArguments =
  FindNodeResponseArguments (find_responder_id: Id) (find_nodes: "Node list")

datatype GetPeersResponseArguments =
  GetPeersResponseArguments (gp_responder_id: Id) (gp_token: bytes) (gp_values: GetPeersResponseValues)

datatype SampleInfoHashesResponseArguments =
  SampleInfoHashesResponseArguments (sih_responder_id: Id) (sih_interval: duration)
    (sih_nodes: "Node list") (sih_samples: "Id list") (sih_num: i32)

datatype ErrorSpecific = ErrorSpecific (error_code: i32) (error_description: bytes)

datatype RequestSpecific =
    PingRequest PingRequestArguments
  | FindNodeRequest FindNodeRequestArguments
  | GetPeersRequest GetPeersRequestArguments
  | SampleInfoHashesRequest SampleInfoHashesRequestArguments
  | AnnouncePeerRequest AnnouncePeerRequestArguments

datatype ResponseSpecific =
    PingResponse PingResponseArguments
  | FindNodeResponse FindNodeResponseArguments
  | GetPeersResponse GetPeersResponseArguments
  | SampleInfoHashesResponse SampleInfoHashesResponseArguments

datatype MessageType =
    Request RequestSpecific
  | Response ResponseSpecific
  | Error ErrorSpecific

record Message =
  transaction_id :: bytes
  version :: "bytes option"
  requester_ip :: "SocketAddr option"
  message_type :: MessageType
  read_only :: "bool option"

text \<open>\<open>get_author_id\<close>: every message but an error names its sender.\<close>

fun request_author :: "RequestSpecific \<Rightarrow> Id" where
  "request_author (AnnouncePeerRequest a) = ap_requester_id a"
| "request_author (FindNodeRequest a) = find_requester_id a"
| "request_author (GetPeersRequest a) = gp_requester_id a"
| "request_author (PingRequest a) = ping_requester_id a"
| "request_author (SampleInfoHashesRequest a) = sih_requester_id a"

fun response_author :: "ResponseSpecific \<Rightarrow> Id" where
  "response_author (FindNodeResponse a) = find_responder_id a"
| "response_author (GetPeersResponse a) = gp_responder_id a"
| "response_author (PingResponse a) = ping_responder_id a"
| "response_author (SampleInfoHashesResponse a) = sih_responder_id a"

fun get_author_id :: "Message \<Rightarrow> Id option" where
  "get_author_id m =
     (case message_type m of
        Request r \<Rightarrow> Some (request_author r)
      | Response r \<Rightarrow> Some (response_author r)
      | Error e \<Rightarrow> None)"

declare get_author_id.simps [simp del]

text \<open>\<open>response_matches_request\<close>: ping and announce_peer responses look the same.\<close>

fun response_matches_request :: "ResponseSpecific \<Rightarrow> RequestSpecific \<Rightarrow> bool" where
  "response_matches_request (PingResponse a) (PingRequest b) = True"
| "response_matches_request (PingResponse a) (AnnouncePeerRequest b) = True"
| "response_matches_request (FindNodeResponse a) (FindNodeRequest b) = True"
| "response_matches_request (GetPeersResponse a) (GetPeersRequest b) = True"
| "response_matches_request (SampleInfoHashesResponse a) (SampleInfoHashesRequest b) = True"
| "response_matches_request _ _ = False"

section \<open>Internal messages\<close>

datatype DHTPingArguments = DHTPingArguments bytes
datatype DHTFindNodeArguments = DHTFindNodeArguments bytes bytes
datatype DHTGetPeersArguments = DHTGetPeersArguments bytes bytes
datatype DHTSampleInfoHashesRequestArguments = DHTSampleInfoHashesRequestArguments bytes bytes

text \<open>Fields: id, info_hash, port, token, implied_port.\<close>

datatype DHTAnnouncePeerRequestArguments =
  DHTAnnouncePeerRequestArguments bytes bytes u16 bytes "u8 option"

datatype DHTPingResponseArguments = DHTPingResponseArguments bytes
datatype DHTFindNodeResponseArguments = DHTFindNodeResponseArguments bytes bytes

text \<open>Fields: id, token, nodes, values.\<close>

datatype DHTGetPeersResponseArguments =
  DHTGetPeersResponseArguments bytes bytes "bytes option" "bytes list option"

text \<open>Fields: id, interval, nodes, num, samples.\<close>

datatype DHTSampleInfoHashesResponseArguments =
  DHTSampleInfoHashesResponseArguments bytes i32 bytes i32 bytes

datatype DHTRequestSpecific =
    DHTPingReq DHTPingArguments
  | DHTFindNodeReq DHTFindNodeArguments
  | DHTGetPeersReq DHTGetPeersArguments
  | DHTAnnouncePeerReq DHTAnnouncePeerRequestArguments
  | DHTSampleInfoHashesReq DHTSampleInfoHashesRequestArguments

datatype DHTResponseSpecific =
    DHTGetPeersRes DHTGetPeersResponseArguments
  | DHTSampleInfoHashesRes DHTSampleInfoHashesResponseArguments
  | DHTFindNodeRes DHTFindNodeResponseArguments
  | DHTPingRes DHTPingResponseArguments

text \<open>\<open>serde_bencode::value::Value\<close>.\<close>

datatype Value =
    VBytes bytes
  | VInt i64
  | VList "Value list"
  | VDict "(bytes \<times> Value) list"

datatype DHTErrorSpecific = DHTErrorSpecific "Value list"

datatype DHTMessageVariant =
    DHTRequest DHTRequestSpecific
  | DHTResponse DHTResponseSpecific
  | DHTError DHTErrorSpecific

record DHTMessage =
  d_transaction_id :: bytes
  d_version :: "bytes option"
  d_variant :: DHTMessageVariant
  d_ip :: "bytes option"
  d_read_only :: "i32 option"

section \<open>UTF-8\<close>

text \<open>\<open>str::from_utf8\<close>: the well-formed byte sequences of the Unicode standard.\<close>

definition utf8_cont :: "u8 \<Rightarrow> bool" where
  "utf8_cont b \<longleftrightarrow> 0x80 \<le> b \<and> b \<le> 0xBF"

fun valid_utf8 :: "bytes \<Rightarrow> bool" where
  "valid_utf8 [] = True"
| "valid_utf8 (a # xs) =
     (if a \<le> 0x7F then valid_utf8 xs
      else if 0xC2 \<le> a \<and> a \<le> 0xDF then
        (case xs of b # ys \<Rightarrow> utf8_cont b \<and> valid_utf8 ys | [] \<Rightarrow> False)
      else if 0xE0 \<le> a \<and> a \<le> 0xEF then
        (case xs of b # c # ys \<Rightarrow>
             utf8_cont b \<and> utf8_cont c \<and> (a = 0xE0 \<longrightarrow> 0xA0 \<le> b) \<and> (a = 0xED \<longrightarrow> b \<le> 0x9F) \<and> valid_utf8 ys
         | _ \<Rightarrow> False)
      else if 0xF0 \<le> a \<and> a \<le> 0xF4 then
        (case xs of b # c # d # ys \<Rightarrow>
             utf8_cont b \<and> utf8_cont c \<and> utf8_cont d \<and> (a = 0xF0 \<longrightarrow> 0x90 \<le> b) \<and> (a = 0xF4 \<longrightarrow> b \<le> 0x8F) \<and>
             valid_utf8 ys
         | _ \<Rightarrow> False)
      else False)"

lemma response_matches_request_iff:
  "response_matches_request res req \<longleftrightarrow>
     (case req of
        PingRequest a \<Rightarrow> \<exists>b. res = PingResponse b
      | AnnouncePeerRequest a \<Rightarrow> \<exists>b. res = PingResponse b
      | FindNodeRequest a \<Rightarrow> \<exists>b. res = FindNodeResponse b
      | GetPeersRequest a \<Rightarrow> \<exists>b. res = GetPeersResponse b
      | SampleInfoHashesRequest a \<Rightarrow> \<exists>b. res = SampleInfoHashesResponse b)"
  by (cases res; cases req) simp_all

end
