(* ===== verification/Dht_Wire.thy ===== *)
theory Dht_Wire
  imports Dht_Messages
begin

text \<open>
  The conversions of \<open>src/packets/public.rs\<close> between messages and their serializable form, down to
  the compact encodings of addresses and nodes. The bencode library is outside the repository: its
  serializer and parser are the parameters \<open>ser\<close> and \<open>de\<close> of \<open>to_bytes\<close> and \<open>from_bytes\<close>.
\<close>

section \<open>Addresses and nodes\<close>

definition MAX_SCRAPE_INTERVAL :: nat where "MAX_SCRAPE_INTERVAL = 21600"

definition node4_byte_size :: nat where "node4_byte_size = ID_SIZE + 6"

definition bytes_to_sockaddr :: "bytes \<Rightarrow> SocketAddr res" where
  "bytes_to_sockaddr bs =
     (if length bs = 6
      then Ok (SockV4 (Ipv4Addr (bs ! 0) (bs ! 1) (bs ! 2) (bs ! 3)) (from_be (take 2 (drop 4 bs))))
      else if length bs = 18 then Err (PacketParseError ''IPv6 is not yet implemented'')
      else Err (PacketParseError ''Wrong number of bytes for sockaddr''))"

fun sockaddr_to_bytes :: "SocketAddr \<Rightarrow> bytes" where
  "sockaddr_to_bytes (SockV4 a p) = v4_octets a @ be_bytes2 p"
| "sockaddr_to_bytes (SockV6 a p f s) = v6_octets a @ be_bytes2 p"

text \<open>The loop over whole entries; \<open>n\<close> of them are left.\<close>

fun nodes4_loop :: "nat \<Rightarrow> bytes \<Rightarrow> Node list res" where
  "nodes4_loop 0 bs = Ok []"
| "nodes4_loop (Suc n) bs =
     res_bind (id_from_bytes (take ID_SIZE bs)) (\<lambda>i.
     res_bind (bytes_to_sockaddr (take 6 (drop ID_SIZE bs))) (\<lambda>a.
     res_bind (nodes4_loop n (drop node4_byte_size bs)) (\<lambda>ns.
       Ok (Node i a # ns))))"

definition bytes_to_nodes4 :: "bytes \<Rightarrow> Node list res" where
  "bytes_to_nodes4 bs =
     (if length bs mod node4_byte_size \<noteq> 0
      then Err (PacketParseError ''Wrong number of bytes for nodes message'')
      else nodes4_loop (length bs div node4_byte_size) bs)"

definition nodes4_to_bytes :: "Node list \<Rightarrow> bytes" where
  "nodes4_to_bytes nodes =
     concat (map (\<lambda>n. id_to_vec (node_id n) @ sockaddr_to_bytes (node_address n)) nodes)"

definition peers_to_bytes :: "SocketAddr list \<Rightarrow> bytes list" where
  "peers_to_bytes peers = map sockaddr_to_bytes peers"

definition bytes_to_peers :: "bytes list \<Rightarrow> SocketAddr list res" where
  "bytes_to_peers bs = res_collect bytes_to_sockaddr bs"

fun samples_loop :: "nat \<Rightarrow> bytes \<Rightarrow> Id list res" where
  "samples_loop 0 bs = Ok []"
| "samples_loop (Suc n) bs =
     res_bind (id_from_bytes (take ID_SIZE bs)) (\<lambda>i.
     res_bind (samples_loop n (drop ID_SIZE bs)) (\<lambda>is. Ok (i # is)))"

definition bytes_to_samples :: "bytes \<Rightarrow> Id list res" where
  "bytes_to_samples bs =
     (if length bs mod ID_SIZE \<noteq> 0 then Err (PacketParseError ''Wrong sample length'')
      else samples_loop (length bs div ID_SIZE) bs)"

section \<open>\<open>into_serde_message\<close>\<close>

fun into_serde_request :: "RequestSpecific \<Rightarrow> DHTRequestSpecific" where
  "into_serde_request (PingRequest (PingRequestArguments rid)) =
     DHTPingReq (DHTPingArguments (id_to_vec rid))"
| "into_serde_request (FindNodeRequest (FindNodeRequestArguments target rid)) =
     DHTFindNodeReq (DHTFindNodeArguments (id_to_vec rid) (id_to_vec target))"
| "into_serde_request (GetPeersRequest (GetPeersRequestArguments info_hash rid)) =
     DHTGetPeersReq (DHTGetPeersArguments (id_to_vec rid) (id_to_vec info_hash))"
| "into_serde_request (SampleInfoHashesRequest (SampleInfoHashesRequestArguments target rid)) =
     DHTSampleInfoHashesReq (DHTSampleInfoHashesRequestArguments (id_to_vec rid) (id_to_vec target))"
| "into_serde_request (AnnouncePeerRequest (AnnouncePeerRequestArguments rid info_hash port implied token)) =
     DHTAnnouncePeerReq (DHTAnnouncePeerRequestArguments (id_to_vec rid) (id_to_vec info_hash) port token
       (case implied of None \<Rightarrow> None | Some b \<Rightarrow> Some (if b then 1 else 0)))"

fun into_serde_response :: "ResponseSpecific \<Rightarrow> DHTResponseSpecific" where
  "into_serde_response (FindNodeResponse (FindNodeResponseArguments rid nodes)) =
     DHTFindNodeRes (DHTFindNodeResponseArguments (id_to_vec rid) (nodes4_to_bytes nodes))"
| "into_serde_response (GetPeersResponse (GetPeersResponseArguments rid token vals)) =
     DHTGetPeersRes (DHTGetPeersResponseArguments (id_to_vec rid) token
       (case vals of Nodes nodes \<Rightarrow> Some (nodes4_to_bytes nodes) | _ \<Rightarrow> None)
       (case vals of Peers peers \<Rightarrow> Some (peers_to_bytes peers) | _ \<Rightarrow> None))"
| "into_serde_response (PingResponse (PingResponseArguments rid)) =
     DHTPingRes (DHTPingResponseArguments (id_to_vec rid))"
| "into_serde_response (SampleInfoHashesResponse (SampleInfoHashesResponseArguments rid interval nodes samples num)) =
     DHTSampleInfoHashesRes (DHTSampleInfoHashesResponseArguments (id_to_vec rid)
       (word_of_nat (min MAX_SCRAPE_INTERVAL (dur_as_secs interval)))
       (nodes4_to_bytes nodes) num (concat (map id_to_vec samples)))"

fun into_serde_variant :: "MessageType \<Rightarrow> DHTMessageVariant" where
  "into_serde_variant (Request req) = DHTRequest (into_serde_request req)"
| "into_serde_variant (Response res) = DHTResponse (into_serde_response res)"
| "into_serde_variant (Error (ErrorSpecific code description)) =
     DHTError (DHTErrorSpecific [VInt (scast code), VBytes description])"

definition into_serde_message :: "Message \<Rightarrow> DHTMessage" where
  "into_serde_message m =
     \<lparr>d_transaction_id = transaction_id m, d_version = version m,
      d_variant = into_serde_variant (message_type m),
      d_ip = map_option sockaddr_to_bytes (requester_ip m),
      d_read_only = map_option (\<lambda>ro. if ro then 1 else 0) (read_only m)\<rparr>"

section \<open>\<open>from_serde_message\<close>\<close>

fun from_serde_request :: "DHTRequestSpecific \<Rightarrow> RequestSpecific res" where
  "from_serde_request (DHTAnnouncePeerReq (DHTAnnouncePeerRequestArguments i info_hash port token implied)) =
     res_bind (id_from_bytes i) (\<lambda>rid.
     res_bind (id_from_bytes info_hash) (\<lambda>ih.
       Ok (AnnouncePeerRequest (AnnouncePeerRequestArguments rid ih port
             (case implied of None \<Rightarrow> None | Some b \<Rightarrow> Some (b \<noteq> 0)) token))))"
| "from_serde_request (DHTFindNodeReq (DHTFindNodeArguments i target)) =
     res_bind (id_from_bytes i) (\<lambda>rid.
     res_bind (id_from_bytes target) (\<lambda>t. Ok (FindNodeRequest (FindNodeRequestArguments t rid))))"
| "from_serde_request (DHTGetPeersReq (DHTGetPeersArguments i info_hash)) =
     res_bind (id_from_bytes i) (\<lambda>rid.
     res_bind (id_from_bytes info_hash) (\<lambda>ih. Ok (GetPeersRequest (GetPeersRequestArguments ih rid))))"
| "from_serde_request (DHTPingReq (DHTPingArguments i)) =
     res_bind (id_from_bytes i) (\<lambda>rid. Ok (PingRequest (PingRequestArguments rid)))"
| "from_serde_request (DHTSampleInfoHashesReq (DHTSampleInfoHashesRequestArguments i target)) =
     res_bind (id_from_bytes i) (\<lambda>rid.
     res_bind (id_from_bytes target) (\<lambda>t.
       Ok (SampleInfoHashesRequest (SampleInfoHashesRequestArguments t rid))))"

text \<open>\<open>interval as u64\<close> extends the sign of the \<open>i32\<close>.\<close>

fun from_serde_response :: "DHTResponseSpecific \<Rightarrow> ResponseSpecific res" where
  "from_serde_response (DHTFindNodeRes (DHTFindNodeResponseArguments i nodes)) =
     res_bind (id_from_bytes i) (\<lambda>rid.
     res_bind (bytes_to_nodes4 nodes) (\<lambda>ns. Ok (FindNodeResponse (FindNodeResponseArguments rid ns))))"
| "from_serde_response (DHTGetPeersRes (DHTGetPeersResponseArguments i token nodes vals)) =
     res_bind (id_from_bytes i) (\<lambda>rid.
     res_bind
       (case vals of
          Some v \<Rightarrow> res_bind (bytes_to_peers v) (\<lambda>ps. Ok (Peers ps))
        | None \<Rightarrow>
           (case nodes of
              Some n \<Rightarrow> res_bind (bytes_to_nodes4 n) (\<lambda>ns. Ok (Nodes ns))
            | None \<Rightarrow> Ok (Nodes [])))
       (\<lambda>v. Ok (GetPeersResponse (GetPeersResponseArguments rid token v))))"
| "from_serde_response (DHTPingRes (DHTPingResponseArguments i)) =
     res_bind (id_from_bytes i) (\<lambda>rid. Ok (PingResponse (PingResponseArguments rid)))"
| "from_serde_response (DHTSampleInfoHashesRes (DHTSampleInfoHashesResponseArguments i interval nodes num samples)) =
     res_bind (id_from_bytes i) (\<lambda>rid.
     res_bind (bytes_to_nodes4 nodes) (\<lambda>ns.
     res_bind (bytes_to_samples samples) (\<lambda>ss.
       Ok (SampleInfoHashesResponse (SampleInfoHashesResponseArguments rid
             (dur_from_secs (unat (scast interval :: u64))) ns ss num)))))"

text \<open>\<open>i64\<close> to \<open>i32\<close> by \<open>try_into\<close>.\<close>

definition i64_try_into_i32 :: "i64 \<Rightarrow> i32 res" where
  "i64_try_into_i32 w =
     (if i32_min \<le> sint w \<and> sint w \<le> i32_max then Ok (scast w)
      else Err (PacketParseError ''out of range integral type conversion attempted''))"

definition from_serde_error :: "DHTErrorSpecific \<Rightarrow> ErrorSpecific res" where
  "from_serde_error e =
     (case e of DHTErrorSpecific error_info \<Rightarrow>
      if length error_info < 2
      then Err (PacketParseError ''Error packet should have at least 2 elements'')
      else
        res_bind
          (case error_info ! 0 of
             VInt code \<Rightarrow> i64_try_into_i32 code
           | _ \<Rightarrow> Err (PacketParseError ''Expected error code as first element''))
          (\<lambda>code.
        res_bind
          (case error_info ! 1 of
             VBytes desc \<Rightarrow>
               (if valid_utf8 desc then Ok desc else Err (PacketParseError ''invalid utf-8''))
           | _ \<Rightarrow> Err (PacketParseError ''Expected description as second element''))
          (\<lambda>desc. Ok (ErrorSpecific code desc))))"

fun from_serde_variant :: "DHTMessageVariant \<Rightarrow> MessageType res" where
  "from_serde_variant (DHTRequest req) = res_bind (from_serde_request req) (\<lambda>r. Ok (Request r))"
| "from_serde_variant (DHTResponse res) = res_bind (from_serde_response res) (\<lambda>r. Ok (Response r))"
| "from_serde_variant (DHTError err) = res_bind (from_serde_error err) (\<lambda>e. Ok (Error e))"

definition from_serde_message :: "DHTMessage \<Rightarrow> Message res" where
  "from_serde_message m =
     res_bind (case d_ip m of Some ip \<Rightarrow> res_bind (bytes_to_sockaddr ip) (\<lambda>a. Ok (Some a)) | None \<Rightarrow> Ok None)
       (\<lambda>rip. res_bind (from_serde_variant (d_variant m)) (\<lambda>v.
          Ok \<lparr>transaction_id = d_transaction_id m, version = d_version m, requester_ip = rip,
              message_type = v,
              read_only = map_option (\<lambda>ro. 1 \<le> sint ro) (d_read_only m)\<rparr>))"

definition to_bytes :: "(DHTMessage \<Rightarrow> bytes res) \<Rightarrow> Message \<Rightarrow> bytes res" where
  "to_bytes ser m = ser (into_serde_message m)"

definition from_bytes :: "(bytes \<Rightarrow> DHTMessage res) \<Rightarrow> bytes \<Rightarrow> Message res" where
  "from_bytes de bs = res_bind (de bs) from_serde_message"

section \<open>Encodings are inverted by the parsers\<close>

lemma length_sockaddr_to_bytes [simp]:
  "length (sockaddr_to_bytes a) = (if sock_is_v4 a then 6 else 18)"
  by (cases a) simp_all

lemma bytes_to_sockaddr_v4 [simp]:
  "sock_is_v4 a \<Longrightarrow> bytes_to_sockaddr (sockaddr_to_bytes a) = Ok a"
proof -
  assume "sock_is_v4 a"
  then obtain x p where a: "a = SockV4 x p" by (auto simp: sock_is_v4_iff)
  have "length (be_bytes2 p) = 2" by simp
  then show ?thesis by (cases x) (simp add: a bytes_to_sockaddr_def)
qed

lemma bytes_to_sockaddr_v6:
  "\<not> sock_is_v4 a \<Longrightarrow> bytes_to_sockaddr (sockaddr_to_bytes a) = Err (PacketParseError ''IPv6 is not yet implemented'')"
  by (simp add: bytes_to_sockaddr_def)

lemma length6: "length bs = 6 \<Longrightarrow> \<exists>a b c d e f. bs = [a, b, c, d, e, f]"
  by (auto simp: numeral_eq_Suc length_Suc_conv)

lemma sockaddr_to_bytes_parsed:
  assumes "bytes_to_sockaddr bs = Ok a" shows "sockaddr_to_bytes a = bs" "sock_is_v4 a"
proof -
  have "length bs = 6" using assms by (auto simp: bytes_to_sockaddr_def split: if_splits)
  then obtain x y z w e f where "bs = [x, y, z, w, e, f]" using length6 by blast
  then show "sockaddr_to_bytes a = bs" "sock_is_v4 a"
    using assms by (auto simp: bytes_to_sockaddr_def)
qed

definition nodes_v4 :: "Node list \<Rightarrow> bool" where
  "nodes_v4 ns \<longleftrightarrow> list_all (\<lambda>n. sock_is_v4 (node_address n)) ns"

lemma length_nodes4_to_bytes: "nodes_v4 ns \<Longrightarrow> length (nodes4_to_bytes ns) = length ns * 26"
  by (induction ns) (simp_all add: nodes4_to_bytes_def nodes_v4_def)

lemma nodes4_loop_encoded: "nodes_v4 ns \<Longrightarrow> nodes4_loop (length ns) (nodes4_to_bytes ns) = Ok ns"
proof (induction ns)
  case (Cons n ns)
  have "nodes4_to_bytes (n # ns) =
      id_to_vec (node_id n) @ sockaddr_to_bytes (node_address n) @ nodes4_to_bytes ns"
    by (simp add: nodes4_to_bytes_def)
  moreover have "sock_is_v4 (node_address n)" "nodes_v4 ns" using Cons.prems by (simp_all add: nodes_v4_def)
  ultimately show ?case
    using Cons.IH by (cases n) (simp add: node4_byte_size_def)
qed (simp add: nodes4_to_bytes_def)

lemma bytes_to_nodes4_encoded [simp]:
  assumes "nodes_v4 ns" shows "bytes_to_nodes4 (nodes4_to_bytes ns) = Ok ns"
  using nodes4_loop_encoded [OF assms] by (simp add: bytes_to_nodes4_def length_nodes4_to_bytes [OF assms] node4_byte_size_def)

lemma id_from_bytes_Ok: "id_from_bytes bs = Ok i \<Longrightarrow> bytes i = bs"
  by (auto simp: id_from_bytes_def split: if_splits)

lemma nodes4_loop_parsed:
  "nodes4_loop n bs = Ok ns \<Longrightarrow> length bs = n * 26 \<Longrightarrow>
     nodes4_to_bytes ns = bs \<and> length ns = n \<and> nodes_v4 ns"
proof (induction n arbitrary: bs ns)
  case (Suc n)
  obtain i a ns' where p: "id_from_bytes (take 20 bs) = Ok i"
    "bytes_to_sockaddr (take 6 (drop 20 bs)) = Ok a" "nodes4_loop n (drop 26 bs) = Ok ns'" "ns = Node i a # ns'"
    using Suc.prems(1) by (auto simp: node4_byte_size_def)
  have IH: "nodes4_to_bytes ns' = drop 26 bs \<and> length ns' = n \<and> nodes_v4 ns'"
    using Suc.IH [OF p(3)] Suc.prems(2) by simp
  have "bytes i = take 20 bs"
    using p(1) Suc.prems(2) by (intro id_from_bytes_Ok)
  moreover have "bs = take 20 bs @ take 6 (drop 20 bs) @ drop 26 bs"
    using append_take_drop_id [of 20 bs] append_take_drop_id [of 6 "drop 20 bs"] by simp
  ultimately have "nodes4_to_bytes ns = bs"
    using sockaddr_to_bytes_parsed(1) [OF p(2)] IH by (simp add: p(4) nodes4_to_bytes_def id_to_vec_def)
  then show ?case using IH p(4) sockaddr_to_bytes_parsed(2) [OF p(2)] by (simp add: nodes_v4_def)
qed (simp add: nodes4_to_bytes_def nodes_v4_def)

lemma samples_loop_encoded: "samples_loop (length ids) (concat (map id_to_vec ids)) = Ok ids"
  by (induction ids) simp_all

lemma length_samples: "length (concat (map id_to_vec ids)) = length ids * 20"
  by (induction ids) simp_all

lemma bytes_to_samples_encoded [simp]: "bytes_to_samples (concat (map id_to_vec ids)) = Ok ids"
  using samples_loop_encoded [of ids] by (simp add: bytes_to_samples_def length_samples)

lemma bytes_to_peers_encoded [simp]:
  "list_all sock_is_v4 ps \<Longrightarrow> bytes_to_peers (peers_to_bytes ps) = Ok ps"
  using res_collect_map_Ok [of ps bytes_to_sockaddr sockaddr_to_bytes "\<lambda>x. x"]
  by (simp add: bytes_to_peers_def peers_to_bytes_def list_all_iff)

lemma scrape_interval [simp]:
  "dur_from_secs (unat (scast (word_of_nat (min MAX_SCRAPE_INTERVAL n) :: i32) :: u64)) = dur_from_secs (min MAX_SCRAPE_INTERVAL n)"
proof -
  define k where "k = min MAX_SCRAPE_INTERVAL n"
  have k: "k \<le> 21600" by (simp add: k_def MAX_SCRAPE_INTERVAL_def)
  have "sint (word_of_nat k :: i32) = int k"
    using k by (simp add: signed_of_nat signed_take_bit_int_eq_self)
  then have "(scast (word_of_nat k :: i32) :: u64) = word_of_nat k" by (simp add: scast_eq)
  moreover have "unat (word_of_nat k :: u64) = k" using k by (simp add: unat_of_nat take_bit_nat_eq_self)
  ultimately show ?thesis unfolding k_def [symmetric] by simp
qed

lemma i64_try_into_i32_scast [simp]: "i64_try_into_i32 (scast (w :: i32)) = Ok w"
proof -
  have "sint (scast w :: i64) = sint w" by (rule sint_up_scast) (simp add: is_up)
  moreover have "- (2 ^ 31) \<le> sint w" "sint w < 2 ^ 31" using sint_ge [of w] sint_less [of w] by simp_all
  moreover have "(scast (scast w :: i64) :: i32) = w" by (simp add: scast_up_scast_id is_up)
  ultimately show ?thesis by (simp add: i64_try_into_i32_def i32_min_def i32_max_def)
qed

section \<open>Messages survive the wire\<close>

text \<open>
  What the compact encodings can carry: IPv4 addresses only, and text. What is lost: the sampling
  interval is cut to whole seconds and at most six hours.
\<close>

fun response_wire_ok :: "ResponseSpecific \<Rightarrow> bool" where
  "response_wire_ok (FindNodeResponse a) = nodes_v4 (find_nodes a)"
| "response_wire_ok (GetPeersResponse a) =
     (case gp_values a of Nodes ns \<Rightarrow> nodes_v4 ns | Peers ps \<Rightarrow> list_all sock_is_v4 ps)"
| "response_wire_ok (PingResponse a) = True"
| "response_wire_ok (SampleInfoHashesResponse a) = nodes_v4 (sih_nodes a)"

fun type_wire_ok :: "MessageType \<Rightarrow> bool" where
  "type_wire_ok (Request r) = True"
| "type_wire_ok (Response r) = response_wire_ok r"
| "type_wire_ok (Error e) = valid_utf8 (error_description e)"

definition wire_ok :: "Message \<Rightarrow> bool" where
  "wire_ok m \<longleftrightarrow> type_wire_ok (message_type m) \<and>
     (case requester_ip m of None \<Rightarrow> True | Some a \<Rightarrow> sock_is_v4 a)"

fun clamp_response :: "ResponseSpecific \<Rightarrow> ResponseSpecific" where
  "clamp_response (SampleInfoHashesResponse (SampleInfoHashesResponseArguments rid interval nodes samples num)) =
     SampleInfoHashesResponse (SampleInfoHashesResponseArguments rid
       (dur_from_secs (min MAX_SCRAPE_INTERVAL (dur_as_secs interval))) nodes samples num)"
| "clamp_response r = r"

fun clamp_type :: "MessageType \<Rightarrow> MessageType" where
  "clamp_type (Response r) = Response (clamp_response r)"
| "clamp_type t = t"

definition clamp_message :: "Message \<Rightarrow> Message" where
  "clamp_message m = m\<lparr>message_type := clamp_type (message_type m)\<rparr>"

lemma request_roundtrip [simp]: "from_serde_request (into_serde_request r) = Ok r"
proof (cases r)
  case (AnnouncePeerRequest a)
  then show ?thesis by (cases a) (simp split: option.split)
next
  case (PingRequest a)
  then show ?thesis by (cases a) simp
next
  case (FindNodeRequest a)
  then show ?thesis by (cases a) simp
next
  case (GetPeersRequest a)
  then show ?thesis by (cases a) simp
next
  case (SampleInfoHashesRequest a)
  then show ?thesis by (cases a) simp
qed

lemma response_roundtrip [simp]:
  "response_wire_ok r \<Longrightarrow> from_serde_response (into_serde_response r) = Ok (clamp_response r)"
proof (cases r)
  case (SampleInfoHashesResponse a)
  then show "response_wire_ok r \<Longrightarrow> ?thesis" by (cases a) (simp add: id_to_vec_def)
next
  case (GetPeersResponse a)
  then show "response_wire_ok r \<Longrightarrow> ?thesis" by (cases a) (simp split: GetPeersResponseValues.splits)
next
  case (PingResponse a)
  then show "response_wire_ok r \<Longrightarrow> ?thesis" by (cases a) simp
next
  case (FindNodeResponse a)
  then show "response_wire_ok r \<Longrightarrow> ?thesis" by (cases a) simp
qed

lemma variant_roundtrip [simp]:
  assumes "type_wire_ok t" shows "from_serde_variant (into_serde_variant t) = Ok (clamp_type t)"
proof (cases t)
  case (Error e)
  then show ?thesis using assms by (cases e) (simp add: from_serde_error_def)
qed (use assms in simp_all)

lemma message_roundtrip:
  assumes "wire_ok m" shows "from_serde_message (into_serde_message m) = Ok (clamp_message m)"
proof -
  have "(case map_option sockaddr_to_bytes (requester_ip m) of
      Some ip \<Rightarrow> res_bind (bytes_to_sockaddr ip) (\<lambda>a. Ok (Some a)) | None \<Rightarrow> Ok None) = Ok (requester_ip m)"
    using assms by (simp add: wire_ok_def split: option.splits)
  moreover have "map_option ((\<lambda>ro. 1 \<le> sint ro) \<circ> (\<lambda>ro. if ro then 1 else 0 :: i32)) (read_only m) = read_only m"
    by (cases "read_only m") auto
  ultimately show ?thesis
    using assms by (simp add: from_serde_message_def into_serde_message_def wire_ok_def clamp_message_def option.map_comp)
qed

text \<open>No input makes the parser panic.\<close>

lemma id_from_bytes_no_panic [simp]: "id_from_bytes bs \<noteq> Panic"
  by (simp add: id_from_bytes_def)

lemma bytes_to_sockaddr_no_panic [simp]: "bytes_to_sockaddr bs \<noteq> Panic"
  by (simp add: bytes_to_sockaddr_def)

lemma nodes4_loop_no_panic [simp]: "nodes4_loop n bs \<noteq> Panic"
  by (induction n arbitrary: bs) auto

lemma samples_loop_no_panic [simp]: "samples_loop n bs \<noteq> Panic"
  by (induction n arbitrary: bs) auto

lemma parsers_no_panic [simp]:
  "bytes_to_nodes4 bs \<noteq> Panic" "bytes_to_samples bs \<noteq> Panic" "bytes_to_peers ps \<noteq> Panic"
  by (simp_all add: bytes_to_nodes4_def bytes_to_samples_def bytes_to_peers_def res_collect_no_Panic)

lemma from_serde_request_no_panic [simp]: "from_serde_request r \<noteq> Panic"
  by (induction r rule: from_serde_request.induct) auto

lemma from_serde_response_no_panic [simp]: "from_serde_response r \<noteq> Panic"
  by (induction r rule: from_serde_response.induct) (auto split: option.splits)

lemma from_serde_error_no_panic [simp]: "from_serde_error e \<noteq> Panic"
  by (auto simp: from_serde_error_def i64_try_into_i32_def split: DHTErrorSpecific.splits Value.splits if_splits)

lemma from_serde_variant_no_panic [simp]: "from_serde_variant v \<noteq> Panic"
  by (cases v) auto

lemma from_serde_message_no_panic [simp]: "from_serde_message d \<noteq> Panic"
  by (auto simp: from_serde_message_def split: option.splits)

lemma from_serde_ip_v4:
  "from_serde_message d = Ok m \<Longrightarrow> requester_ip m = Some a \<Longrightarrow> sock_is_v4 a"
  by (auto simp: from_serde_message_def split: option.splits dest: sockaddr_to_bytes_parsed(2))

lemma from_serde_response_wire_ok: "from_serde_response d = Ok r \<Longrightarrow> response_wire_ok r"
proof (induction d rule: from_serde_response.induct)
  case (1 i nodes)
  then show ?case by (auto simp: bytes_to_nodes4_def node4_byte_size_def mult.commute dest!: nodes4_loop_parsed split: if_splits)
next
  case (2 i token nodes vals)
  have peers: "bytes_to_peers bs = Ok ps \<Longrightarrow> list_all sock_is_v4 ps" for bs ps
    unfolding bytes_to_peers_def
    by (induction bs arbitrary: ps) (auto dest: sockaddr_to_bytes_parsed(2))
  show ?case using 2 
    by (auto simp: bytes_to_nodes4_def node4_byte_size_def mult.commute nodes_v4_def dest!: nodes4_loop_parsed peers split: if_splits option.splits)
next
  case (4 i interval nodes num samples)
  then show ?case by (auto simp: bytes_to_nodes4_def node4_byte_size_def mult.commute dest!: nodes4_loop_parsed split: if_splits)
qed auto

lemma from_serde_error_utf8: "from_serde_error e = Ok x \<Longrightarrow> valid_utf8 (error_description x)"
  by (auto simp: from_serde_error_def split: DHTErrorSpecific.splits Value.splits if_splits)

lemma from_serde_message_wire_ok:
  assumes "from_serde_message d = Ok m" shows "wire_ok m"
proof -
  obtain v where v: "from_serde_variant (d_variant d) = Ok v" "message_type m = v"
    using assms by (auto simp: from_serde_message_def split: option.splits)
  have "type_wire_ok v"
    using v(1) by (cases "d_variant d") (auto dest: from_serde_response_wire_ok from_serde_error_utf8)
  then show ?thesis using v from_serde_ip_v4 [OF assms] by (auto simp: wire_ok_def split: option.split)
qed

lemma nodes4_loop_total: "length bs = n * 26 \<Longrightarrow> \<exists>ns. nodes4_loop n bs = Ok ns \<and> length ns = n"
proof (induction n arbitrary: bs)
  case (Suc n)
  then have "length (drop 26 bs) = n * 26" by simp
  from Suc.IH [OF this] obtain ns where "nodes4_loop n (drop 26 bs) = Ok ns" "length ns = n" by blast
  moreover have "length (take 20 bs) = 20" "length (take 6 (drop 20 bs)) = 6" using Suc.prems by auto
  ultimately show ?case by (simp add: node4_byte_size_def bytes_to_sockaddr_def)
qed simp

lemma length_nodes4_mixed:
  "length (nodes4_to_bytes ns) = length (filter (\<lambda>n. sock_is_v4 (node_address n)) ns) * 26
     + length (filter (\<lambda>n. \<not> sock_is_v4 (node_address n)) ns) * 38"
  by (induction ns) (simp_all add: nodes4_to_bytes_def)

section \<open>Properties\<close>

text \<open>
  What is sent is what is received: a message whose addresses are IPv4 and whose error text is
  a string comes back unchanged from \<open>to_bytes\<close> followed by \<open>from_bytes\<close>, with the sampling interval
  cut to whole seconds and at most six hours. \<open>ser\<close> and \<open>de\<close> are the bencode library, of which only
  that it reads back what it wrote for this message is used.
\<close>

lemma message_wire_roundtrip:
  assumes "wire_ok m" and "to_bytes ser m = Ok bs"
    and "\<forall>bs. ser (into_serde_message m) = Ok bs \<longrightarrow> de bs = Ok (into_serde_message m)"
  shows "from_bytes de bs = Ok (m\<lparr>message_type := clamp_type (message_type m)\<rparr>)"
  using assms message_roundtrip [OF assms(1)]
  by (simp add: to_bytes_def from_bytes_def clamp_message_def)

definition sample_message :: Message where
  "sample_message =
     \<lparr>transaction_id = [1, 2], version = None, requester_ip = Some (SockV4 (Ipv4Addr 1 2 3 4) 80),
      message_type = Response (FindNodeResponse (FindNodeResponseArguments id_zero
        [Node (sample_id 1 2) (SockV4 (Ipv4Addr 5 6 7 8) 6881)])), read_only = Some True\<rparr>"

text \<open>
  C27. No message from the network can make the conversion panic, and every message it accepts is one
  that we can send on unchanged: IPv4 addresses only and valid text. Accepting it again after
  sending it gives the same message, up to the interval.
\<close>

theorem parser_total_and_canonical:
  "from_serde_message d \<noteq> Panic \<and>
   (\<forall>m. from_serde_message d = Ok m \<longrightarrow>
      wire_ok m \<and> from_serde_message (into_serde_message m) = Ok (clamp_message m))"
  using from_serde_message_wire_ok message_roundtrip by auto

theorem parser_total_and_canonical_witness:
  "from_serde_message (into_serde_message sample_message) = Ok sample_message \<and> wire_ok sample_message"
proof -
  have "wire_ok sample_message" by (simp add: wire_ok_def sample_message_def nodes_v4_def)
  then have "from_serde_message (into_serde_message sample_message) = Ok (clamp_message sample_message)"
    by (rule message_roundtrip)
  moreover have "clamp_message sample_message = sample_message"
    by (simp add: clamp_message_def sample_message_def)
  ultimately show ?thesis using parser_total_and_canonical [of "into_serde_message sample_message"] by simp
qed

text \<open>
  The compact node format is exact: \<open>bytes_to_nodes4\<close> accepts precisely the byte strings that
  \<open>nodes4_to_bytes\<close> produces for IPv4 nodes, and recovers those nodes.
\<close>

lemma compact_nodes_exact:
  "bytes_to_nodes4 bs = Ok ns \<longleftrightarrow> bs = nodes4_to_bytes ns \<and> nodes_v4 ns"
proof
  assume "bytes_to_nodes4 bs = Ok ns"
  then have "length bs = (length bs div 26) * 26" "nodes4_loop (length bs div 26) bs = Ok ns"
    by (auto simp: bytes_to_nodes4_def node4_byte_size_def split: if_splits)
  then show "bs = nodes4_to_bytes ns \<and> nodes_v4 ns"
    using nodes4_loop_parsed by auto
next
  assume "bs = nodes4_to_bytes ns \<and> nodes_v4 ns"
  then show "bytes_to_nodes4 bs = Ok ns" by simp
qed

text \<open>A list of 38-byte entries divides into 26-byte ones only if its length is a multiple of thirteen.\<close>

lemma v6_entries_cut: "(n * 38) mod 26 = 0 \<longleftrightarrow> 13 dvd (n :: nat)"
proof -
  have "(n * 38) mod 26 = 0 \<longleftrightarrow> 2 * 13 dvd 2 * (n * 19)" by (simp add: dvd_eq_mod_eq_0 mult.commute)
  also have "\<dots> \<longleftrightarrow> 13 dvd n * 19" by (simp only: nat_mult_dvd_cancel1 zero_less_numeral)
  also have "\<dots> \<longleftrightarrow> 13 dvd n" by (rule coprime_dvd_mult_left_iff) (simp add: coprime_iff_gcd_eq_1 gcd_non_0_nat)
  finally show ?thesis .
qed

text \<open>
  C39. IPv6 addresses are written but not readable: an encoded IPv6 address is always refused, and a
  node list with an IPv6 node in it never comes back as it was. Its entries of 38 bytes are cut
  into 26-byte ones, so the list is refused unless the number of IPv6 nodes is a multiple of
  thirteen; then it is misread: every thirteen IPv6 nodes give nineteen nodes that
  nobody sent.
\<close>

theorem ipv6_not_readable:
  assumes "\<exists>n \<in> set ns. \<not> sock_is_v4 (node_address n)" and "\<not> sock_is_v4 a"
  defines "four \<equiv> length (filter (\<lambda>n. sock_is_v4 (node_address n)) ns)"
    and "six \<equiv> length (filter (\<lambda>n. \<not> sock_is_v4 (node_address n)) ns)"
  shows "bytes_to_sockaddr (sockaddr_to_bytes a) = Err (PacketParseError ''IPv6 is not yet implemented'') \<and>
    bytes_to_nodes4 (nodes4_to_bytes ns) \<noteq> Ok ns \<and>
    (if 13 dvd six
     then \<exists>ns'. bytes_to_nodes4 (nodes4_to_bytes ns) = Ok ns' \<and> 13 * length ns' = 13 * four + 19 * six
     else \<exists>e. bytes_to_nodes4 (nodes4_to_bytes ns) = Err e)"
proof -
  have len: "length (nodes4_to_bytes ns) = four * 26 + six * 38"
    unfolding four_def six_def by (rule length_nodes4_mixed)
  have "length ns = four + six" unfolding four_def six_def by (rule sum_length_filter_compl [symmetric])
  moreover have "0 < six" unfolding six_def using assms(1) by (simp add: filter_empty_conv)
  moreover have cut: "(four * 26 + six * 38) mod 26 = 0 \<longleftrightarrow> 13 dvd six" using v6_entries_cut [of six] by simp
  moreover have "\<exists>ns'. bytes_to_nodes4 (nodes4_to_bytes ns) = Ok ns' \<and> 13 * length ns' = 13 * four + 19 * six"
    if d: "13 dvd six"
  proof -
    obtain k where "six = 13 * k" using d by (rule dvdE)
    then show ?thesis using nodes4_loop_total [of "nodes4_to_bytes ns" "four + 19 * k"] len cut
      by (auto simp: bytes_to_nodes4_def node4_byte_size_def)
  qed
  ultimately show ?thesis
    using bytes_to_sockaddr_v6 [OF assms(2)] by (auto simp: bytes_to_nodes4_def len node4_byte_size_def)
qed

theorem ipv6_not_readable_witness:
  "\<exists>e. bytes_to_nodes4 (nodes4_to_bytes
      [Node id_zero (SockV4 (Ipv4Addr 1 2 3 4) 80), Node id_zero (SockV6 (Ipv6Addr 5) 80 0 0)]) = Err e"
  using ipv6_not_readable [of
      "[Node id_zero (SockV4 (Ipv4Addr 1 2 3 4) 80), Node id_zero (SockV6 (Ipv6Addr 5) 80 0 0)]"
      "SockV6 (Ipv6Addr 5) 80 0 0"]
  by (simp add: numeral_eq_Suc)

end
