(* ===== verification/Dht_Builder.thy ===== *)
theory Dht_Builder
  imports Dht_Wire
begin

text \<open>
  \<open>src/packets/builder.rs\<close>: the message builder, a record of optional fields with one setter for each,
  and the eleven kinds of message it builds. The bytes of a random transaction id are arguments.
  The fields of a struct expression are evaluated in the order they are written, which fixes
  which missing field is reported.
\<close>

section \<open>The builder and its setters\<close>

datatype BuilderMessageType =
    BPingRequest | BPingResponse | BFindNodeRequest | BFindNodeResponse
  | BGetPeersRequest | BGetPeersResponse | BAnnouncePeerRequest | BAnnouncePeerResponse
  | BSampleInfoHashesRequest | BSampleInfoHashesResponse | BError

record MessageBuilder =
  mb_message_type :: BuilderMessageType
  mb_transaction_id :: "bytes option"
  mb_version :: "bytes option"
  mb_requester_ip :: "SocketAddr option"
  mb_read_only :: "bool option"
  mb_sender_id :: "Id option"
  mb_target :: "Id option"
  mb_port :: "u16 option"
  mb_implied_port :: "bool option"
  mb_token :: "bytes option"
  mb_nodes :: "Node list option"
  mb_peers :: "SocketAddr list option"
  mb_interval :: "duration option"
  mb_samples :: "Id list option"
  mb_num_infohashes :: "nat option"
  mb_code :: "i32 option"
  mb_description :: "bytes option"

definition builder_new :: "BuilderMessageType \<Rightarrow> MessageBuilder" where
  "builder_new ty =
     \<lparr>mb_message_type = ty, mb_transaction_id = None, mb_version = None, mb_requester_ip = None,
      mb_read_only = None, mb_sender_id = None, mb_target = None, mb_port = None,
      mb_implied_port = None, mb_token = None, mb_nodes = None, mb_peers = None, mb_interval = None,
      mb_samples = None, mb_num_infohashes = None, mb_code = None, mb_description = None\<rparr>"

definition set_transaction_id :: "bytes \<Rightarrow> MessageBuilder \<Rightarrow> MessageBuilder" where
  "set_transaction_id t b = b\<lparr>mb_transaction_id := Some t\<rparr>"

definition set_version :: "bytes \<Rightarrow> MessageBuilder \<Rightarrow> MessageBuilder" where
  "set_version v b = b\<lparr>mb_version := Some v\<rparr>"

definition set_requester_ip :: "SocketAddr \<Rightarrow> MessageBuilder \<Rightarrow> MessageBuilder" where
  "set_requester_ip a b = b\<lparr>mb_requester_ip := Some a\<rparr>"

definition set_read_only :: "bool \<Rightarrow> MessageBuilder \<Rightarrow> MessageBuilder" where
  "set_read_only r b = b\<lparr>mb_read_only := Some r\<rparr>"

definition set_sender_id :: "Id \<Rightarrow> MessageBuilder \<Rightarrow> MessageBuilder" where
  "set_sender_id i b = b\<lparr>mb_sender_id := Some i\<rparr>"

definition set_target :: "Id \<Rightarrow> MessageBuilder \<Rightarrow> MessageBuilder" where
  "set_target i b = b\<lparr>mb_target := Some i\<rparr>"

definition set_port :: "u16 \<Rightarrow> MessageBuilder \<Rightarrow> MessageBuilder" where
  "set_port p b = b\<lparr>mb_port := Some p\<rparr>"

definition set_implied_port :: "bool \<Rightarrow> MessageBuilder \<Rightarrow> MessageBuilder" where
  "set_implied_port i b = b\<lparr>mb_implied_port := Some i\<rparr>"

definition set_token :: "bytes \<Rightarrow> MessageBuilder \<Rightarrow> MessageBuilder" where
  "set_token t b = b\<lparr>mb_token := Some t\<rparr>"

definition set_nodes :: "Node list \<Rightarrow> MessageBuilder \<Rightarrow> MessageBuilder" where
  "set_nodes ns b = b\<lparr>mb_nodes := Some ns\<rparr>"

definition set_peers :: "SocketAddr list \<Rightarrow> MessageBuilder \<Rightarrow> MessageBuilder" where
  "set_peers ps b = b\<lparr>mb_peers := Some ps\<rparr>"

definition set_interval :: "duration \<Rightarrow> MessageBuilder \<Rightarrow> MessageBuilder" where
  "set_interval d b = b\<lparr>mb_interval := Some d\<rparr>"

definition set_samples :: "Id list \<Rightarrow> MessageBuilder \<Rightarrow> MessageBuilder" where
  "set_samples ss b = b\<lparr>mb_samples := Some ss\<rparr>"

definition set_num_infohashes :: "nat \<Rightarrow> MessageBuilder \<Rightarrow> MessageBuilder" where
  "set_num_infohashes n b = b\<lparr>mb_num_infohashes := Some n\<rparr>"

definition set_code :: "i32 \<Rightarrow> MessageBuilder \<Rightarrow> MessageBuilder" where
  "set_code c b = b\<lparr>mb_code := Some c\<rparr>"

definition set_description :: "bytes \<Rightarrow> MessageBuilder \<Rightarrow> MessageBuilder" where
  "set_description d b = b\<lparr>mb_description := Some d\<rparr>"

lemmas builder_setters =
  set_transaction_id_def set_version_def set_requester_ip_def set_read_only_def set_sender_id_def
  set_target_def set_port_def set_implied_port_def set_token_def set_nodes_def set_peers_def
  set_interval_def set_samples_def set_num_infohashes_def set_code_def set_description_def

section \<open>Building\<close>

definition required_or_error :: "string \<Rightarrow> 'a option \<Rightarrow> 'a res" where
  "required_or_error name field =
     (case field of None \<Rightarrow> Err (BuilderMissingFieldError name) | Some x \<Rightarrow> Ok x)"

definition build_request_common ::
  "MessageBuilder \<Rightarrow> u8 \<times> u8 \<Rightarrow> RequestSpecific res \<Rightarrow> Message res" where
  "build_request_common b rng x =
     (let tid = (case mb_transaction_id b of Some t \<Rightarrow> t | None \<Rightarrow> [fst rng, snd rng])
      in res_bind x (\<lambda>req.
           Ok \<lparr>transaction_id = tid, version = mb_version b, requester_ip = None,
               message_type = Request req, read_only = mb_read_only b\<rparr>))"

definition build_response_common :: "MessageBuilder \<Rightarrow> ResponseSpecific res \<Rightarrow> Message res" where
  "build_response_common b x =
     res_bind (required_or_error ''transaction_id'' (mb_transaction_id b)) (\<lambda>tid.
     res_bind x (\<lambda>rsp.
       Ok \<lparr>transaction_id = tid, version = mb_version b, requester_ip = mb_requester_ip b,
           message_type = Response rsp, read_only = None\<rparr>))"

definition build_ping_request :: "MessageBuilder \<Rightarrow> u8 \<times> u8 \<Rightarrow> Message res" where
  "build_ping_request b rng = build_request_common b rng
     (res_bind (required_or_error ''sender_id'' (mb_sender_id b)) (\<lambda>i.
        Ok (PingRequest (PingRequestArguments i))))"

definition build_ping_response :: "MessageBuilder \<Rightarrow> Message res" where
  "build_ping_response b = build_response_common b
     (res_bind (required_or_error ''sender_id'' (mb_sender_id b)) (\<lambda>i.
        Ok (PingResponse (PingResponseArguments i))))"

definition build_find_node_request :: "MessageBuilder \<Rightarrow> u8 \<times> u8 \<Rightarrow> Message res" where
  "build_find_node_request b rng = build_request_common b rng
     (res_bind (required_or_error ''sender_id'' (mb_sender_id b)) (\<lambda>i.
      res_bind (required_or_error ''target'' (mb_target b)) (\<lambda>t.
        Ok (FindNodeRequest (FindNodeRequestArguments t i)))))"

definition build_find_node_response :: "MessageBuilder \<Rightarrow> Message res" where
  "build_find_node_response b = build_response_common b
     (res_bind (required_or_error ''sender_id'' (mb_sender_id b)) (\<lambda>i.
      res_bind (required_or_error ''nodes'' (mb_nodes b)) (\<lambda>ns.
        Ok (FindNodeResponse (FindNodeResponseArguments i ns)))))"

definition build_get_peers_request :: "MessageBuilder \<Rightarrow> u8 \<times> u8 \<Rightarrow> Message res" where
  "build_get_peers_request b rng = build_request_common b rng
     (res_bind (required_or_error ''sender_id'' (mb_sender_id b)) (\<lambda>i.
      res_bind (required_or_error ''target'' (mb_target b)) (\<lambda>t.
        Ok (GetPeersRequest (GetPeersRequestArguments t i)))))"

definition build_get_peers_response :: "MessageBuilder \<Rightarrow> Message res" where
  "build_get_peers_response b = build_response_common b
     (res_bind (required_or_error ''sender_id'' (mb_sender_id b)) (\<lambda>i.
      res_bind (required_or_error ''token'' (mb_token b)) (\<lambda>tok.
      res_bind
        (case mb_peers b of
           Some ps \<Rightarrow> Ok (Peers ps)
         | None \<Rightarrow>
            (case mb_nodes b of
               Some ns \<Rightarrow> Ok (Nodes ns)
             | None \<Rightarrow> Err (BuilderMissingFieldError ''peers or nodes'')))
        (\<lambda>v. Ok (GetPeersResponse (GetPeersResponseArguments i tok v))))))"

definition build_announce_peer_request :: "MessageBuilder \<Rightarrow> u8 \<times> u8 \<Rightarrow> Message res" where
  "build_announce_peer_request b rng = build_request_common b rng
     (res_bind (required_or_error ''sender_id'' (mb_sender_id b)) (\<lambda>i.
      res_bind (required_or_error ''target'' (mb_target b)) (\<lambda>t.
      res_bind (required_or_error ''token'' (mb_token b)) (\<lambda>tok.
      let port = (case mb_port b of Some p \<Rightarrow> p | None \<Rightarrow> 0) in
      res_bind
        (case mb_implied_port b of
           Some implied_port \<Rightarrow>
             (if \<not> implied_port \<and> mb_port b = None
              then Err (BuilderInvalidComboError ''implied_port must be true or port must be specified'')
              else Ok (Some implied_port))
         | None \<Rightarrow> (case mb_port b of Some p \<Rightarrow> Ok None | None \<Rightarrow> Ok (Some True)))
        (\<lambda>ip. Ok (AnnouncePeerRequest (AnnouncePeerRequestArguments i t port ip tok)))))))"

definition build_announce_peer_response :: "MessageBuilder \<Rightarrow> Message res" where
  "build_announce_peer_response b = build_ping_response b"

definition build_sample_infohashes_request :: "MessageBuilder \<Rightarrow> u8 \<times> u8 \<Rightarrow> Message res" where
  "build_sample_infohashes_request b rng = build_request_common b rng
     (res_bind (required_or_error ''sender_id'' (mb_sender_id b)) (\<lambda>i.
      res_bind (required_or_error ''target'' (mb_target b)) (\<lambda>t.
        Ok (SampleInfoHashesRequest (SampleInfoHashesRequestArguments t i)))))"

text \<open>\<open>num.try_into().unwrap()\<close> for \<open>usize\<close> to \<open>i32\<close>.\<close>

definition usize_to_i32_unwrap :: "nat \<Rightarrow> i32 res" where
  "usize_to_i32_unwrap n = (if int n \<le> i32_max then Ok (word_of_nat n) else Panic)"

definition build_sample_infohashes_response :: "MessageBuilder \<Rightarrow> Message res" where
  "build_sample_infohashes_response b = build_response_common b
     (res_bind (required_or_error ''sender_id'' (mb_sender_id b)) (\<lambda>i.
      res_bind (required_or_error ''interval'' (mb_interval b)) (\<lambda>d.
      res_bind (required_or_error ''nodes'' (mb_nodes b)) (\<lambda>ns.
      res_bind (case mb_num_infohashes b of
                  Some n \<Rightarrow> usize_to_i32_unwrap n
                | None \<Rightarrow> Err (BuilderMissingFieldError ''num_infohashes'')) (\<lambda>num.
      res_bind (required_or_error ''samples'' (mb_samples b)) (\<lambda>ss.
        Ok (SampleInfoHashesResponse (SampleInfoHashesResponseArguments i d ns ss num))))))))"

definition build_error :: "MessageBuilder \<Rightarrow> Message res" where
  "build_error b =
     res_bind (required_or_error ''transaction_id'' (mb_transaction_id b)) (\<lambda>tid.
     res_bind (required_or_error ''code'' (mb_code b)) (\<lambda>c.
     res_bind (required_or_error ''description'' (mb_description b)) (\<lambda>d.
       Ok \<lparr>transaction_id = tid, version = None, requester_ip = None,
           message_type = Error (ErrorSpecific c d), read_only = None\<rparr>)))"

definition build :: "MessageBuilder \<Rightarrow> u8 \<times> u8 \<Rightarrow> Message res" where
  "build b rng =
     (case mb_message_type b of
        BPingRequest \<Rightarrow> build_ping_request b rng
      | BPingResponse \<Rightarrow> build_ping_response b
      | BFindNodeRequest \<Rightarrow> build_find_node_request b rng
      | BFindNodeResponse \<Rightarrow> build_find_node_response b
      | BGetPeersRequest \<Rightarrow> build_get_peers_request b rng
      | BGetPeersResponse \<Rightarrow> build_get_peers_response b
      | BAnnouncePeerRequest \<Rightarrow> build_announce_peer_request b rng
      | BAnnouncePeerResponse \<Rightarrow> build_announce_peer_response b
      | BSampleInfoHashesRequest \<Rightarrow> build_sample_infohashes_request b rng
      | BSampleInfoHashesResponse \<Rightarrow> build_sample_infohashes_response b
      | BError \<Rightarrow> build_error b)"

section \<open>What is required, and what comes out\<close>

lemma required_or_error_simps [simp]:
  "required_or_error name f = Ok x \<longleftrightarrow> f = Some x"
  "required_or_error name f \<noteq> Panic"
  "required_or_error name f = Err e \<longleftrightarrow> f = None \<and> e = BuilderMissingFieldError name"
  by (auto simp: required_or_error_def split: option.split)

text \<open>The fields each kind of message requires, in the order they are looked at.\<close>

definition requirements :: "MessageBuilder \<Rightarrow> (string \<times> bool) list" where
  "requirements b =
     (let tid = (''transaction_id'', mb_transaction_id b \<noteq> None);
          sender = (''sender_id'', mb_sender_id b \<noteq> None);
          target = (''target'', mb_target b \<noteq> None);
          token = (''token'', mb_token b \<noteq> None);
          nodes = (''nodes'', mb_nodes b \<noteq> None)
      in case mb_message_type b of
           BPingRequest \<Rightarrow> [sender]
         | BPingResponse \<Rightarrow> [tid, sender]
         | BFindNodeRequest \<Rightarrow> [sender, target]
         | BFindNodeResponse \<Rightarrow> [tid, sender, nodes]
         | BGetPeersRequest \<Rightarrow> [sender, target]
         | BGetPeersResponse \<Rightarrow>
             [tid, sender, token, (''peers or nodes'', mb_peers b \<noteq> None \<or> mb_nodes b \<noteq> None)]
         | BAnnouncePeerRequest \<Rightarrow> [sender, target, token]
         | BAnnouncePeerResponse \<Rightarrow> [tid, sender]
         | BSampleInfoHashesRequest \<Rightarrow> [sender, target]
         | BSampleInfoHashesResponse \<Rightarrow>
             [tid, sender, (''interval'', mb_interval b \<noteq> None), nodes,
              (''num_infohashes'', mb_num_infohashes b \<noteq> None), (''samples'', mb_samples b \<noteq> None)]
         | BError \<Rightarrow> [tid, (''code'', mb_code b \<noteq> None), (''description'', mb_description b \<noteq> None)])"

definition first_missing :: "MessageBuilder \<Rightarrow> string option" where
  "first_missing b = map_option fst (find (\<lambda>p. \<not> snd p) (requirements b))"

definition bad_combo :: "MessageBuilder \<Rightarrow> bool" where
  "bad_combo b \<longleftrightarrow>
     mb_message_type b = BAnnouncePeerRequest \<and> mb_implied_port b = Some False \<and> mb_port b = None"

definition num_too_big :: "MessageBuilder \<Rightarrow> bool" where
  "num_too_big b \<longleftrightarrow> mb_message_type b = BSampleInfoHashesResponse \<and>
     (case mb_num_infohashes b of None \<Rightarrow> False | Some n \<Rightarrow> i32_max < int n)"

lemmas build_defs =
  build_def build_ping_request_def build_ping_response_def build_find_node_request_def
  build_find_node_response_def build_get_peers_request_def build_get_peers_response_def
  build_announce_peer_request_def build_announce_peer_response_def
  build_sample_infohashes_request_def build_sample_infohashes_response_def build_error_def
  build_request_common_def build_response_common_def

lemma request_common_Ok:
  "build_request_common b rng x = Ok m \<longleftrightarrow> (\<exists>q. x = Ok q \<and>
     m = \<lparr>transaction_id = (case mb_transaction_id b of Some t \<Rightarrow> t | None \<Rightarrow> [fst rng, snd rng]),
          version = mb_version b, requester_ip = None, message_type = Request q, read_only = mb_read_only b\<rparr>)"
  by (auto simp: build_request_common_def)

lemma response_common_Ok:
  "build_response_common b x = Ok m \<longleftrightarrow> (\<exists>q t. x = Ok q \<and> mb_transaction_id b = Some t \<and>
     m = \<lparr>transaction_id = t, version = mb_version b, requester_ip = mb_requester_ip b,
          message_type = Response q, read_only = None\<rparr>)"
  by (auto simp: build_response_common_def)

definition expected_outcome :: "MessageBuilder \<Rightarrow> Message res \<Rightarrow> bool" where
  "expected_outcome b r \<longleftrightarrow>
     (if num_too_big b \<and> first_missing b \<in> {None, Some ''samples''} then r = Panic
      else case first_missing b of
        Some f \<Rightarrow> r = Err (BuilderMissingFieldError f)
      | None \<Rightarrow>
          if bad_combo b
          then r = Err (BuilderInvalidComboError ''implied_port must be true or port must be specified'')
          else \<exists>m. r = Ok m)"

lemma build_outcome: "expected_outcome b (build b rng)"
proof (cases "mb_message_type b")
  case BSampleInfoHashesResponse
  then show ?thesis
    by (auto simp: expected_outcome_def build_defs first_missing_def requirements_def required_or_error_def
        num_too_big_def bad_combo_def usize_to_i32_unwrap_def split: option.splits)
qed (auto simp: expected_outcome_def build_defs first_missing_def requirements_def required_or_error_def
      num_too_big_def bad_combo_def Let_def split: option.splits)

text \<open>The kind of a message, as the builder names it; an announce_peer response is a ping response.\<close>

fun built_as :: "MessageType \<Rightarrow> BuilderMessageType" where
  "built_as (Request (PingRequest a)) = BPingRequest"
| "built_as (Request (FindNodeRequest a)) = BFindNodeRequest"
| "built_as (Request (GetPeersRequest a)) = BGetPeersRequest"
| "built_as (Request (AnnouncePeerRequest a)) = BAnnouncePeerRequest"
| "built_as (Request (SampleInfoHashesRequest a)) = BSampleInfoHashesRequest"
| "built_as (Response (PingResponse a)) = BPingResponse"
| "built_as (Response (FindNodeResponse a)) = BFindNodeResponse"
| "built_as (Response (GetPeersResponse a)) = BGetPeersResponse"
| "built_as (Response (SampleInfoHashesResponse a)) = BSampleInfoHashesResponse"
| "built_as (Error e) = BError"

fun answer_kind :: "BuilderMessageType \<Rightarrow> BuilderMessageType option" where
  "answer_kind BPingRequest = Some BPingResponse"
| "answer_kind BFindNodeRequest = Some BFindNodeResponse"
| "answer_kind BGetPeersRequest = Some BGetPeersResponse"
| "answer_kind BAnnouncePeerRequest = Some BAnnouncePeerResponse"
| "answer_kind BSampleInfoHashesRequest = Some BSampleInfoHashesResponse"
| "answer_kind _ = None"

lemma build_common_fields:
  assumes "build b rng = Ok m"
  shows "transaction_id m = (case mb_transaction_id b of Some t \<Rightarrow> t | None \<Rightarrow> [fst rng, snd rng])"
    and "get_author_id m = (if mb_message_type b = BError then None else mb_sender_id b)"
    and "version m = (if mb_message_type b = BError then None else mb_version b)"
    and "built_as (message_type m) =
      (if mb_message_type b = BAnnouncePeerResponse then BPingResponse else mb_message_type b)"
    and "requester_ip m \<noteq> None \<Longrightarrow> requester_ip m = mb_requester_ip b \<and> (\<exists>r. message_type m = Response r)"
    and "read_only m \<noteq> None \<Longrightarrow> read_only m = mb_read_only b \<and> (\<exists>r. message_type m = Request r)"
  using assms
  by (cases "mb_message_type b";
      auto simp: build_defs get_author_id.simps Let_def split: option.splits if_splits)+

lemma built_announce_port:
  assumes "build b rng = Ok m" and "message_type m = Request (AnnouncePeerRequest a)"
  shows "ap_port a = (case mb_port b of Some p \<Rightarrow> p | None \<Rightarrow> 0)"
    and "ap_implied_port a = (if mb_implied_port b = None \<and> mb_port b = None then Some True else mb_implied_port b)"
    and "mb_port b = None \<Longrightarrow> ap_implied_port a = Some True"
proof -
  have "mb_message_type b = BAnnouncePeerRequest"
    using build_common_fields(4) [OF assms(1)] assms(2) by (auto split: if_splits)
  then show "ap_port a = (case mb_port b of Some p \<Rightarrow> p | None \<Rightarrow> 0)"
    "ap_implied_port a = (if mb_implied_port b = None \<and> mb_port b = None then Some True else mb_implied_port b)"
    "mb_port b = None \<Longrightarrow> ap_implied_port a = Some True"
    using assms by (auto simp: build_defs Let_def split: option.splits if_splits)
qed

lemma built_answer_matches:
  assumes "build b rng = Ok m" and "build b' rng' = Ok m'"
    and "answer_kind (mb_message_type b) = Some (mb_message_type b')"
    and "message_type m = Request q" and "message_type m' = Response r"
  shows "response_matches_request r q"
  using build_common_fields(4) [OF assms(1)] build_common_fields(4) [OF assms(2)] assms(3-5)
  by (cases q; cases r) (auto split: if_splits)

section \<open>Properties\<close>

text \<open>
  C37. \<open>build\<close> succeeds exactly when every field its kind of message requires is set; otherwise it
  reports the first one missing. An announce without port that also denies the implied port is
  refused. The one panic: a sample response whose number of info hashes does not fit an \<open>i32\<close>.
\<close>

theorem build_outcomes:
  "((\<exists>m. build b rng = Ok m) \<longleftrightarrow> first_missing b = None \<and> \<not> bad_combo b \<and> \<not> num_too_big b) \<and>
   (build b rng = Panic \<longleftrightarrow> num_too_big b \<and> first_missing b \<in> {None, Some ''samples''}) \<and>
   (\<forall>f. build b rng = Err (BuilderMissingFieldError f) \<longleftrightarrow>
      first_missing b = Some f \<and> \<not> (num_too_big b \<and> f = ''samples'')) \<and>
   ((\<exists>t. build b rng = Err (BuilderInvalidComboError t)) \<longleftrightarrow> first_missing b = None \<and> bad_combo b)"
proof -
  have "\<not> (bad_combo b \<and> num_too_big b)" by (auto simp: bad_combo_def num_too_big_def)
  then show ?thesis
    using build_outcome [of b rng] unfolding expected_outcome_def
    by (auto split: if_splits option.splits)
qed

text \<open>
  What the payload of a built message must hold, by its kind. Where a get_peers answer is given
  both peers and nodes the peers win; an announce without port carries port zero and asks for the
  implied port.
\<close>

definition carries_fields :: "MessageBuilder \<Rightarrow> MessageType \<Rightarrow> bool" where
  "carries_fields b mt \<longleftrightarrow>
     (case mt of
        Request (PingRequest a) \<Rightarrow> mb_sender_id b = Some (ping_requester_id a)
      | Request (FindNodeRequest a) \<Rightarrow>
          mb_target b = Some (find_target a) \<and> mb_sender_id b = Some (find_requester_id a)
      | Request (GetPeersRequest a) \<Rightarrow>
          mb_target b = Some (gp_info_hash a) \<and> mb_sender_id b = Some (gp_requester_id a)
      | Request (SampleInfoHashesRequest a) \<Rightarrow>
          mb_target b = Some (sih_target a) \<and> mb_sender_id b = Some (sih_requester_id a)
      | Request (AnnouncePeerRequest a) \<Rightarrow>
          mb_sender_id b = Some (ap_requester_id a) \<and> mb_target b = Some (ap_info_hash a) \<and>
          mb_token b = Some (ap_token a) \<and>
          (case mb_port b of
             Some p \<Rightarrow> ap_port a = p \<and> ap_implied_port a = mb_implied_port b
           | None \<Rightarrow> ap_port a = 0 \<and> ap_implied_port a = Some True)
      | Response (PingResponse a) \<Rightarrow> mb_sender_id b = Some (ping_responder_id a)
      | Response (FindNodeResponse a) \<Rightarrow>
          mb_sender_id b = Some (find_responder_id a) \<and> mb_nodes b = Some (find_nodes a)
      | Response (GetPeersResponse a) \<Rightarrow>
          mb_sender_id b = Some (gp_responder_id a) \<and> mb_token b = Some (gp_token a) \<and>
          (case mb_peers b of
             Some ps \<Rightarrow> gp_values a = Peers ps
           | None \<Rightarrow> \<exists>ns. mb_nodes b = Some ns \<and> gp_values a = Nodes ns)
      | Response (SampleInfoHashesResponse a) \<Rightarrow>
          mb_sender_id b = Some (sih_responder_id a) \<and> mb_interval b = Some (sih_interval a) \<and>
          mb_nodes b = Some (sih_nodes a) \<and> mb_samples b = Some (sih_samples a) \<and>
          map_option int (mb_num_infohashes b) = Some (sint (sih_num a))
      | Error e \<Rightarrow> mb_code b = Some (error_code e) \<and> mb_description b = Some (error_description e))"

lemma built_envelope:
  assumes "build b rng = Ok m"
  shows "requester_ip m = (case message_type m of Response _ \<Rightarrow> mb_requester_ip b | _ \<Rightarrow> None)"
    and "read_only m = (case message_type m of Request _ \<Rightarrow> mb_read_only b | _ \<Rightarrow> None)"
  using assms
  by (cases "mb_message_type b"; auto simp: build_defs Let_def split: option.splits if_splits)+

lemma usize_to_i32_unwrap_Ok: "usize_to_i32_unwrap n = Ok w \<Longrightarrow> sint w = int n"
  by (auto simp: usize_to_i32_unwrap_def i32_max_def signed_of_nat signed_take_bit_int_eq_self split: if_splits)

lemma built_carries_fields:
  assumes "build b rng = Ok m"
  shows "carries_fields b (message_type m)"
  using assms
  by (cases "mb_message_type b";
      auto simp: build_defs carries_fields_def Let_def dest!: usize_to_i32_unwrap_Ok
           split: option.splits if_splits)

text \<open>
  C38. What is built is what was asked for. The kind of message is the builder's; the transaction
  id is the given one (two random bytes otherwise); the payload holds every field of the builder
  that the kind of message has (\<open>carries_fields\<close>); the version is kept except in errors, the
  requester's address exactly in responses and the read-only flag exactly in requests.
  A built answer is accepted as the response to a built request of the corresponding kind.
\<close>

theorem build_contents:
  assumes "build b rng = Ok m"
  shows "built_as (message_type m) =
      (if mb_message_type b = BAnnouncePeerResponse then BPingResponse else mb_message_type b) \<and>
    transaction_id m = (case mb_transaction_id b of Some t \<Rightarrow> t | None \<Rightarrow> [fst rng, snd rng]) \<and>
    carries_fields b (message_type m) \<and>
    get_author_id m = (if mb_message_type b = BError then None else mb_sender_id b) \<and>
    version m = (if mb_message_type b = BError then None else mb_version b) \<and>
    requester_ip m = (case message_type m of Response _ \<Rightarrow> mb_requester_ip b | _ \<Rightarrow> None) \<and>
    read_only m = (case message_type m of Request _ \<Rightarrow> mb_read_only b | _ \<Rightarrow> None) \<and>
    (\<forall>q r b' rng' m'. message_type m = Request q \<and> build b' rng' = Ok m' \<and> message_type m' = Response r \<and>
       answer_kind (mb_message_type b) = Some (mb_message_type b') \<longrightarrow> response_matches_request r q)"
proof (intro conjI allI impI)
  show "carries_fields b (message_type m)" by (rule built_carries_fields [OF assms])
  show "requester_ip m = (case message_type m of Response _ \<Rightarrow> mb_requester_ip b | _ \<Rightarrow> None)"
    and "read_only m = (case message_type m of Request _ \<Rightarrow> mb_read_only b | _ \<Rightarrow> None)"
    by (rule built_envelope [OF assms])+
qed (use build_common_fields [OF assms] built_answer_matches [OF assms] in auto)

theorem build_contents_witness:
  "\<exists>m. build (set_token [7] (set_target (sample_id 3 4) (set_sender_id (sample_id 1 2)
          (builder_new BAnnouncePeerRequest)))) (8, 9) = Ok m \<and>
     transaction_id m = [8, 9] \<and> get_author_id m = Some (sample_id 1 2)"
proof -
  let ?b = "set_token [7] (set_target (sample_id 3 4) (set_sender_id (sample_id 1 2) (builder_new BAnnouncePeerRequest)))"
  have fields: "mb_message_type ?b = BAnnouncePeerRequest" "mb_transaction_id ?b = None"
    "mb_sender_id ?b = Some (sample_id 1 2)"
    by (simp_all add: builder_setters builder_new_def)
  have "\<exists>m. build ?b (8, 9) = Ok m"
    by (simp add: builder_setters builder_new_def build_defs required_or_error_def Let_def)
  then obtain m where m: "build ?b (8, 9) = Ok m" ..
  from build_contents [OF m] m fields show ?thesis by auto
qed

end
