(* ===== verification/Dht_Requests.thy ===== *)
theory Dht_Requests
  imports Dht_Builder "HOL-Library.AList"
begin

text \<open>
  \<open>src/storage/outbound_request_storage.rs\<close> (with \<open>src/common/transaction_id.rs\<close>): the requests we have
  sent and not yet seen answered, keyed by transaction id. The hash map is an association list
  without duplicate keys; the sending half of a notification channel is the number of the channel.
\<close>

section \<open>Operations\<close>

type_synonym TransactionId = bytes

record RequestInfo =
  ri_addr :: SocketAddr
  ri_id :: "Id option"
  ri_packet :: Message
  ri_created_at :: instant
  ri_response_channel :: "nat option"

definition request_info_new ::
  "SocketAddr \<Rightarrow> Id option \<Rightarrow> Message \<Rightarrow> nat option \<Rightarrow> instant \<Rightarrow> RequestInfo" where
  "request_info_new addr i packet response_channel now =
     \<lparr>ri_addr = addr, ri_id = i, ri_packet = packet, ri_created_at = now,
      ri_response_channel = response_channel\<rparr>"

type_synonym OutboundRequestStorage = "(TransactionId \<times> RequestInfo) list"

definition ors_new :: OutboundRequestStorage where "ors_new = []"

definition add_request :: "OutboundRequestStorage \<Rightarrow> RequestInfo \<Rightarrow> OutboundRequestStorage" where
  "add_request s info = AList.update (transaction_id (ri_packet info)) info s"

definition get_matching_request_info ::
  "OutboundRequestStorage \<Rightarrow> Message \<Rightarrow> SocketAddr \<Rightarrow> RequestInfo option" where
  "get_matching_request_info s msg src_addr =
     (case message_type msg of
        Response res_specific \<Rightarrow>
         (case map_of s (transaction_id msg) of
            Some info \<Rightarrow>
             (if ri_addr info = src_addr
              then let response_sender_id = get_author_id msg in
                if ri_id info = None \<or> (response_sender_id \<noteq> None \<and> the (ri_id info) = the response_sender_id)
                then (case message_type (ri_packet info) of
                        Request req_specific \<Rightarrow>
                          (if response_matches_request res_specific req_specific then Some info else None)
                      | _ \<Rightarrow> None)
                else None
              else None)
          | None \<Rightarrow> None)
      | _ \<Rightarrow> None)"

definition take_matching_request_info ::
  "OutboundRequestStorage \<Rightarrow> Message \<Rightarrow> SocketAddr \<Rightarrow> OutboundRequestStorage \<times> RequestInfo option" where
  "take_matching_request_info s response src_addr =
     (if get_matching_request_info s response src_addr \<noteq> None
      then (AList.delete (transaction_id response) s, map_of s (transaction_id response))
      else (s, None))"

definition prune_older_than ::
  "OutboundRequestStorage \<Rightarrow> duration \<Rightarrow> instant \<Rightarrow> OutboundRequestStorage" where
  "prune_older_than s d now =
     (case instant_checked_sub now d of
        None \<Rightarrow> s
      | Some t \<Rightarrow> filter (\<lambda>(k, v). t \<le> ri_created_at v) s)"

definition ors_len :: "OutboundRequestStorage \<Rightarrow> nat" where "ors_len s = length s"

definition ors_is_empty :: "OutboundRequestStorage \<Rightarrow> bool" where "ors_is_empty s \<longleftrightarrow> s = []"

section \<open>Which responses are accepted\<close>

text \<open>The specification: the response answers that very request.\<close>

definition answers :: "Message \<Rightarrow> SocketAddr \<Rightarrow> RequestInfo \<Rightarrow> bool" where
  "answers msg src info \<longleftrightarrow>
     transaction_id msg = transaction_id (ri_packet info) \<and> ri_addr info = src \<and>
     (ri_id info = None \<or> ri_id info = get_author_id msg) \<and>
     (\<exists>r q. message_type msg = Response r \<and> message_type (ri_packet info) = Request q \<and>
        response_matches_request r q)"

text \<open>Keys are the transaction ids of the stored packets, without repetition.\<close>

definition ors_inv :: "OutboundRequestStorage \<Rightarrow> bool" where
  "ors_inv s \<longleftrightarrow> distinct (map fst s) \<and> (\<forall>(k, v) \<in> set s. k = transaction_id (ri_packet v))"

lemma ors_inv_new [simp]: "ors_inv ors_new"
  by (simp add: ors_inv_def ors_new_def)

lemma update_memD: "x \<in> set (AList.update k v s) \<Longrightarrow> x = (k, v) \<or> x \<in> set s"
  by (induction s) (auto split: if_splits)

lemma ors_inv_add: "ors_inv s \<Longrightarrow> ors_inv (add_request s info)"
  by (auto simp: ors_inv_def add_request_def distinct_update dest!: update_memD)

lemma ors_inv_delete: "ors_inv s \<Longrightarrow> ors_inv (AList.delete k s)"
  using AList.distinct_delete [of s k] by (auto simp: ors_inv_def AList.delete_eq)

lemma ors_inv_prune: "ors_inv s \<Longrightarrow> ors_inv (prune_older_than s d now)"
  by (auto simp: ors_inv_def prune_older_than_def distinct_map_filter split: option.split)

lemma response_author_Some: "message_type m = Response r \<Longrightarrow> get_author_id m = Some (response_author r)"
  by (simp add: get_author_id.simps)

lemma get_matching_iff:
  assumes "ors_inv s"
  shows "get_matching_request_info s msg src = Some info \<longleftrightarrow>
    (transaction_id msg, info) \<in> set s \<and> answers msg src info"
proof -
  have mem: "map_of s (transaction_id msg) = Some info \<longleftrightarrow> (transaction_id msg, info) \<in> set s" for info
    using assms by (simp add: ors_inv_def)
  show ?thesis
  proof (cases "message_type msg")
    case (Response r)
    have key: "(transaction_id msg, info) \<in> set s \<Longrightarrow> transaction_id (ri_packet info) = transaction_id msg"
      using assms by (auto simp: ors_inv_def)
    show ?thesis
    proof (cases "map_of s (transaction_id msg)")
      case None
      then show ?thesis using mem [of info] by (simp add: get_matching_request_info_def Response)
    next
      case (Some i)
      then have mem': "(transaction_id msg, info) \<in> set s \<longleftrightarrow> i = info" using mem [of info] by auto
      have author: "get_author_id msg = Some (response_author r)" by (rule response_author_Some [OF Response])
      have "get_matching_request_info s msg src = Some info \<longleftrightarrow> i = info \<and> ri_addr i = src \<and>
          (ri_id i = None \<or> the (ri_id i) = response_author r) \<and>
          (\<exists>q. message_type (ri_packet i) = Request q \<and> response_matches_request r q)"
        by (auto simp: get_matching_request_info_def Response Some author split: MessageType.splits)
      moreover have "(ri_id i = None \<or> the (ri_id i) = response_author r) \<longleftrightarrow>
          (ri_id i = None \<or> ri_id i = get_author_id msg)"
        unfolding author by (cases "ri_id i") simp_all
      ultimately show ?thesis
        unfolding mem' answers_def using key mem' Response by auto
    qed
  qed (auto simp: get_matching_request_info_def answers_def)
qed

lemma take_matching_Some:
  assumes "ors_inv s" and "take_matching_request_info s msg src = (s', Some info)"
  shows "(transaction_id msg, info) \<in> set s" "answers msg src info"
    "s' = AList.delete (transaction_id msg) s" "ors_inv s'"
proof -
  obtain info' where g: "get_matching_request_info s msg src = Some info'"
    using assms(2) by (auto simp: take_matching_request_info_def split: if_splits)
  note i = g [unfolded get_matching_iff [OF assms(1)]]
  have "map_of s (transaction_id msg) = Some info'" using i assms(1) by (simp add: ors_inv_def)
  then have "info' = info" and s': "s' = AList.delete (transaction_id msg) s"
    using assms(2) g by (auto simp: take_matching_request_info_def)
  then show "(transaction_id msg, info) \<in> set s" "answers msg src info"
    "s' = AList.delete (transaction_id msg) s" "ors_inv s'"
    using i ors_inv_delete [OF assms(1)] by auto
qed

lemma take_matching_None:
  assumes "ors_inv s"
  shows "snd (take_matching_request_info s msg src) = None \<longleftrightarrow>
    \<not> (\<exists>info. (transaction_id msg, info) \<in> set s \<and> answers msg src info)"
proof -
  have "snd (take_matching_request_info s msg src) = None \<longleftrightarrow> get_matching_request_info s msg src = None"
  proof (cases "get_matching_request_info s msg src")
    case (Some info)
    then have "map_of s (transaction_id msg) = Some info"
      using get_matching_iff [OF assms] assms by (simp add: ors_inv_def)
    then show ?thesis using Some by (simp add: take_matching_request_info_def)
  qed (simp add: take_matching_request_info_def)
  then show ?thesis using get_matching_iff [OF assms, of msg src] by (metis not_None_eq)
qed

lemma take_matching_None_same:
  "snd (take_matching_request_info s msg src) = None \<Longrightarrow> ors_inv s \<Longrightarrow> fst (take_matching_request_info s msg src) = s"
  using get_matching_iff [of s msg src]
  using take_matching_None [of s msg src] by (auto simp: take_matching_request_info_def split: if_splits)

section \<open>Properties\<close>

text \<open>
  C29. A response is accepted exactly when an outstanding request has its transaction id, was sent to
  the address the response comes from, names no other node id, and is of the matching kind. The
  request is then forgotten, so the same response cannot be accepted again; a response that is not
  accepted changes nothing.
\<close>

theorem response_acceptance:
  assumes "ors_inv s" and "take_matching_request_info s msg src = (s', r)"
  shows "(r \<noteq> None \<longleftrightarrow> (\<exists>info. (transaction_id msg, info) \<in> set s \<and> answers msg src info)) \<and>
    (\<forall>info. r = Some info \<longrightarrow> (transaction_id msg, info) \<in> set s \<and> answers msg src info) \<and>
    snd (take_matching_request_info s' msg src) = None \<and> (r = None \<longrightarrow> s' = s) \<and> ors_inv s'"
proof (cases r)
  case None
  then show ?thesis
    using take_matching_None [OF assms(1), of msg src] take_matching_None_same [of s msg src] assms by simp
next
  case (Some info)
  note t = take_matching_Some [OF assms(1) assms(2) [unfolded Some]]
  have "snd (take_matching_request_info s' msg src) = None"
    unfolding take_matching_None [OF t(4)] using t(3) by (auto simp: AList.delete_eq)
  then show ?thesis using Some t by auto
qed

definition sample_request :: Message where
  "sample_request =
     \<lparr>transaction_id = [1, 2], version = None, requester_ip = None,
      message_type = Request (FindNodeRequest (FindNodeRequestArguments id_zero id_zero)), read_only = None\<rparr>"

definition sample_storage :: OutboundRequestStorage where
  "sample_storage =
     add_request ors_new (request_info_new (sample_addr 1) None sample_request (Some 0) 5)"

theorem response_acceptance_witness:
  "snd (take_matching_request_info sample_storage sample_message (sample_addr 1)) \<noteq> None \<and>
   snd (take_matching_request_info sample_storage sample_message (sample_addr 2)) = None"
proof -
  have inv: "ors_inv sample_storage" by (simp add: sample_storage_def ors_inv_add)
  have mem: "sample_storage = [([1, 2], request_info_new (sample_addr 1) None sample_request (Some 0) 5)]"
    by (simp add: sample_storage_def add_request_def ors_new_def sample_request_def request_info_new_def)
  have ans: "answers sample_message src (request_info_new (sample_addr 1) None sample_request (Some 0) 5) \<longleftrightarrow> src = sample_addr 1" for src
    by (auto simp: answers_def sample_message_def sample_request_def request_info_new_def)
  have iff: "snd (take_matching_request_info sample_storage sample_message src) \<noteq> None \<longleftrightarrow> src = sample_addr 1" for src
    using response_acceptance [OF inv surjective_pairing, of sample_message src] ans [of src]
    by (auto simp: mem sample_message_def)
  have "sample_addr 1 \<noteq> sample_addr 2" by (simp add: sample_addr_def)
  then show ?thesis using iff by metis
qed

end
