(* ===== verification/Dht_Socket.thy ===== *)
theory Dht_Socket
  imports Dht_Requests
begin

text \<open>
  \<open>src/dht/socket.rs\<close>: the socket wrapper. Its tasks share the request storage and two queues; a
  message sent on a bounded \<open>mpsc\<close> channel is appended to the queue once there is room; a sender may
  give up before (\<open>EvStore\<close> with no \<open>EvQueue\<close>). A notification channel is a number; what is sent on it is recorded in
  \<open>so_delivered\<close> unless its receiver was dropped. A background task that leaves its loop drops its
  end of its channel. One turn of each loop is a function; \<open>sock_reach\<close> interleaves them.
\<close>

section \<open>State\<close>

datatype io_error = PermissionDenied | OtherIo

type_synonym MessagePair = "Message \<times> SocketAddr"

record Socket =
  so_requests :: OutboundRequestStorage
  so_outgoing :: "MessagePair list"
  so_out_alive :: bool
  so_incoming :: "MessagePair list"
  so_in_alive :: bool
  so_recv_open :: bool
  so_next_chan :: nat
  so_delivered :: "(nat \<times> Message) list"
  so_abandoned :: "nat list"

definition socket_new :: Socket where
  "socket_new =
     \<lparr>so_requests = ors_new, so_outgoing = [], so_out_alive = True, so_incoming = [],
      so_in_alive = True, so_recv_open = True, so_next_chan = 0, so_delivered = [], so_abandoned = []\<rparr>"

section \<open>Sending\<close>

text \<open>
  \<open>send_to\<close> has two halves, between which it may have to wait for room in the queue of 128 messages.
  The first stores a request, and only a request, with a new channel on which its answer will come.
\<close>

definition store_request ::
  "Socket \<Rightarrow> Message \<Rightarrow> SocketAddr \<Rightarrow> Id option \<Rightarrow> instant \<Rightarrow> Socket \<times> nat option" where
  "store_request s to_send dest dest_id now =
     (case message_type to_send of
        Request r \<Rightarrow>
          (s\<lparr>so_requests := add_request (so_requests s)
               (request_info_new dest dest_id to_send (Some (so_next_chan s)) now),
             so_next_chan := Suc (so_next_chan s)\<rparr>, Some (so_next_chan s))
      | _ \<Rightarrow> (s, None))"

definition send_queue_size :: nat where "send_queue_size = 128"

definition queue_full :: "Socket \<Rightarrow> bool" where
  "queue_full s \<longleftrightarrow> so_out_alive s \<and> send_queue_size \<le> length (so_outgoing s)"

text \<open>The second half, once there is room: the message goes to the outgoing task, if that still runs.\<close>

definition enqueue_message :: "Socket \<Rightarrow> Message \<Rightarrow> SocketAddr \<Rightarrow> Socket \<times> unit res" where
  "enqueue_message s to_send dest =
     (if so_out_alive s then (s\<lparr>so_outgoing := so_outgoing s @ [(to_send, dest)]\<rparr>, Ok ())
      else (s, Err (GeneralError ''channel closed'')))"

text \<open>Both halves in a row; the result is the channel of the answer.\<close>

definition ds_send_to ::
  "Socket \<Rightarrow> Message \<Rightarrow> SocketAddr \<Rightarrow> Id option \<Rightarrow> instant \<Rightarrow> Socket \<times> nat option res" where
  "ds_send_to s to_send dest dest_id now =
     (let (s1, to_ret) = store_request s to_send dest dest_id now;
          (s2, r) = enqueue_message s1 to_send dest
      in (s2, res_bind r (\<lambda>_. Ok to_ret)))"

lemma ds_send_to_unfold:
  "ds_send_to s to_send dest dest_id now =
     (let (s1, to_ret) =
        (case message_type to_send of
           Request r \<Rightarrow>
             (s\<lparr>so_requests := add_request (so_requests s)
                  (request_info_new dest dest_id to_send (Some (so_next_chan s)) now),
                so_next_chan := Suc (so_next_chan s)\<rparr>, Some (so_next_chan s))
         | _ \<Rightarrow> (s, None))
      in if so_out_alive s1
         then (s1\<lparr>so_outgoing := so_outgoing s1 @ [(to_send, dest)]\<rparr>, Ok to_ret)
         else (s1, Err (GeneralError ''channel closed'')))"
  by (simp add: ds_send_to_def store_request_def enqueue_message_def Let_def case_prod_beta split: MessageType.split)

text \<open>
  \<open>background_io_outgoing_single\<close> with a message in the queue: \<open>io\<close> is what the operating system
  answers, the second component the datagram handed to it.
\<close>

definition background_io_outgoing_single ::
  "bool \<Rightarrow> (DHTMessage \<Rightarrow> bytes res) \<Rightarrow> io_error option \<Rightarrow> MessagePair \<Rightarrow> (bytes \<times> SocketAddr) list \<times> unit res" where
  "background_io_outgoing_single linux ser io p =
     (case to_bytes ser (fst p) of
        Ok bs \<Rightarrow>
          ([(bs, snd p)],
           case io of
             None \<Rightarrow> Ok ()
           | Some e \<Rightarrow>
               if linux \<and> e = PermissionDenied
               then Err (ConntrackError ''send_to resulted in PermissionDenied. Is conntrack table full?'')
               else Err (GeneralError ''io error''))
      | Err e \<Rightarrow> ([], Err e)
      | Panic \<Rightarrow> ([], Panic))"

text \<open>One turn of the outgoing loop: any error but a conntrack one ends the task.\<close>

definition outgoing_turn ::
  "bool \<Rightarrow> (DHTMessage \<Rightarrow> bytes res) \<Rightarrow> io_error option \<Rightarrow> Socket \<Rightarrow> Socket \<times> (bytes \<times> SocketAddr) list" where
  "outgoing_turn linux ser io s =
     (case so_outgoing s of
        [] \<Rightarrow> (s, [])
      | p # rest \<Rightarrow>
          (let r = background_io_outgoing_single linux ser io p;
               s1 = s\<lparr>so_outgoing := rest\<rparr>
           in (case snd r of
                 Ok u \<Rightarrow> s1
               | Err (ConntrackError e) \<Rightarrow> s1
               | _ \<Rightarrow> s1\<lparr>so_out_alive := False\<rparr>, fst r)))"

section \<open>Receiving\<close>

text \<open>\<open>response_channel.send\<close>: fails, with a warning only, when the receiver is gone.\<close>

definition notify :: "Socket \<Rightarrow> nat option \<Rightarrow> Message \<Rightarrow> Socket" where
  "notify s ch m =
     (case ch of
        None \<Rightarrow> s
      | Some c \<Rightarrow> if c \<in> set (so_abandoned s) then s else s\<lparr>so_delivered := so_delivered s @ [(c, m)]\<rparr>)"

definition forward :: "Socket \<Rightarrow> MessagePair \<Rightarrow> Socket \<times> unit res" where
  "forward s p =
     (if so_recv_open s then (s\<lparr>so_incoming := so_incoming s @ [p]\<rparr>, Ok ())
      else (s, Err (GeneralError ''channel closed'')))"

definition recv_buffer_size :: nat where "recv_buffer_size = 2048"

text \<open>
  \<open>background_io_incoming_single\<close>: \<open>d\<close> is the datagram and its sender, or the error of \<open>recv_from\<close>.
\<close>

definition background_io_incoming_single ::
  "(bytes \<Rightarrow> DHTMessage res) \<Rightarrow> (bytes \<times> SocketAddr) option \<Rightarrow> Socket \<Rightarrow> Socket \<times> unit res" where
  "background_io_incoming_single de d s =
     (case d of
        None \<Rightarrow> (s, Err (SocketRecvError ''recv_from''))
      | Some (datagram, sender) \<Rightarrow>
         (case from_bytes de (take recv_buffer_size datagram) of
            Err e \<Rightarrow> (s, Err e)
          | Panic \<Rightarrow> (s, Panic)
          | Ok message \<Rightarrow>
             (case message_type message of
                Response r \<Rightarrow>
                  (case take_matching_request_info (so_requests s) message sender of
                     (reqs, Some info) \<Rightarrow>
                       forward (notify (s\<lparr>so_requests := reqs\<rparr>) (ri_response_channel info) message)
                         (message, sender)
                   | (reqs, None) \<Rightarrow> (s\<lparr>so_requests := reqs\<rparr>, Ok ()))
              | _ \<Rightarrow> forward s (message, sender))))"

text \<open>One turn of the incoming loop; \<open>ignore\<close> is \<open>should_ignore_error\<close>.\<close>

definition incoming_turn ::
  "bool \<Rightarrow> (bytes \<Rightarrow> DHTMessage res) \<Rightarrow> (bytes \<times> SocketAddr) option \<Rightarrow> Socket \<Rightarrow> Socket" where
  "incoming_turn ignore de d s =
     (let (s1, r) = background_io_incoming_single de d s
      in case r of
           Ok u \<Rightarrow> s1
         | Err (PacketParseError e) \<Rightarrow> s1
         | Err (SocketRecvError e) \<Rightarrow> if ignore then s1 else s1\<lparr>so_in_alive := False\<rparr>
         | _ \<Rightarrow> s1\<lparr>so_in_alive := False\<rparr>)"

text \<open>\<open>recv_from\<close> of the application, with a message waiting or the channel closed.\<close>

definition ds_recv_from :: "Socket \<Rightarrow> (Socket \<times> MessagePair res) option" where
  "ds_recv_from s =
     (case so_incoming s of
        p # rest \<Rightarrow> Some (s\<lparr>so_incoming := rest\<rparr>, Ok p)
      | [] \<Rightarrow>
          if so_in_alive s then None
          else Some (s, Err (GeneralError ''Can't recv_from as background I/O task channel has closed'')))"

text \<open>One turn of \<open>request_cleanup\<close>.\<close>

definition request_cleanup_turn :: "Socket \<Rightarrow> instant \<Rightarrow> Socket" where
  "request_cleanup_turn s now = s\<lparr>so_requests := prune_older_than (so_requests s) (dur_from_secs 10) now\<rparr>"

section \<open>Interleaving\<close>

datatype sock_event =
    EvSend Message SocketAddr "Id option" instant
  | EvStore Message SocketAddr "Id option" instant
  | EvQueue Message SocketAddr
  | EvOutgoing "io_error option"
  | EvDatagram "(bytes \<times> SocketAddr) option"
  | EvRecv
  | EvCleanup instant
  | EvAbandon nat

text \<open>The response a datagram is accepted as, if it is.\<close>

definition accepted ::
  "(bytes \<Rightarrow> DHTMessage res) \<Rightarrow> Socket \<Rightarrow> (bytes \<times> SocketAddr) option \<Rightarrow> MessagePair list" where
  "accepted de s d =
     (case d of
        None \<Rightarrow> []
      | Some (datagram, sender) \<Rightarrow>
         (case from_bytes de (take recv_buffer_size datagram) of
            Ok m \<Rightarrow> if snd (take_matching_request_info (so_requests s) m sender) \<noteq> None then [(m, sender)] else []
          | _ \<Rightarrow> []))"

text \<open>
  \<open>sock_reach s evs acc\<close>: from a new socket, the events \<open>evs\<close> lead to \<open>s\<close>, having accepted the
  responses \<open>acc\<close>. The halves of a \<open>send_to\<close> that has to wait are the events \<open>EvStore\<close> and \<open>EvQueue\<close>;
  the second never comes when the sender gives up.
\<close>

inductive sock_reach ::
  "bool \<Rightarrow> bool \<Rightarrow> (DHTMessage \<Rightarrow> bytes res) \<Rightarrow> (bytes \<Rightarrow> DHTMessage res)
     \<Rightarrow> Socket \<Rightarrow> sock_event list \<Rightarrow> MessagePair list \<Rightarrow> bool"
  for linux ignore ser de where
  start: "sock_reach linux ignore ser de socket_new [] []"
| send: "sock_reach linux ignore ser de s evs acc \<Longrightarrow>
    sock_reach linux ignore ser de (fst (ds_send_to s m dest did now)) (evs @ [EvSend m dest did now]) acc"
| store: "sock_reach linux ignore ser de s evs acc \<Longrightarrow>
    sock_reach linux ignore ser de (fst (store_request s m dest did now)) (evs @ [EvStore m dest did now]) acc"
| queue: "sock_reach linux ignore ser de s evs acc \<Longrightarrow>
    sock_reach linux ignore ser de (fst (enqueue_message s m dest)) (evs @ [EvQueue m dest]) acc"
| outgoing: "sock_reach linux ignore ser de s evs acc \<Longrightarrow> so_out_alive s \<Longrightarrow> so_outgoing s \<noteq> [] \<Longrightarrow>
    sock_reach linux ignore ser de (fst (outgoing_turn linux ser io s)) (evs @ [EvOutgoing io]) acc"
| incoming: "sock_reach linux ignore ser de s evs acc \<Longrightarrow> so_in_alive s \<Longrightarrow>
    sock_reach linux ignore ser de (incoming_turn ignore de d s) (evs @ [EvDatagram d]) (acc @ accepted de s d)"
| recv: "sock_reach linux ignore ser de s evs acc \<Longrightarrow> ds_recv_from s = Some (s', r) \<Longrightarrow>
    sock_reach linux ignore ser de s' (evs @ [EvRecv]) acc"
| cleanup: "sock_reach linux ignore ser de s evs acc \<Longrightarrow>
    sock_reach linux ignore ser de (request_cleanup_turn s now) (evs @ [EvCleanup now]) acc"
| abandon: "sock_reach linux ignore ser de s evs acc \<Longrightarrow>
    sock_reach linux ignore ser de (s\<lparr>so_abandoned := c # so_abandoned s\<rparr>) (evs @ [EvAbandon c]) acc"

section \<open>What a turn of the incoming loop does\<close>

definition is_response :: "Message \<Rightarrow> bool" where
  "is_response m \<longleftrightarrow> (\<exists>r. message_type m = Response r)"

lemma forward_fields [simp]:
  "so_requests (fst (forward s p)) = so_requests s" "so_delivered (fst (forward s p)) = so_delivered s"
  "set (so_incoming (fst (forward s p))) \<subseteq> insert p (set (so_incoming s))"
  by (auto simp: forward_def)

lemma notify_fields [simp]:
  "so_requests (notify s c m) = so_requests s" "so_incoming (notify s c m) = so_incoming s"
  "set (so_delivered (notify s c m)) \<subseteq> set (so_delivered s) \<union> {(c', m') |c' m'. c = Some c' \<and> m' = m}"
  by (auto simp: notify_def split: option.split)

text \<open>The loop around the single turn changes nothing but the liveness of the task.\<close>

lemma incoming_turn_fields [simp]:
  "so_requests (incoming_turn ig de d s) = so_requests (fst (background_io_incoming_single de d s))"
  "so_incoming (incoming_turn ig de d s) = so_incoming (fst (background_io_incoming_single de d s))"
  "so_delivered (incoming_turn ig de d s) = so_delivered (fst (background_io_incoming_single de d s))"
  by (auto simp: incoming_turn_def Let_def split: prod.split res.split RustyDHTError.split)

lemma take_matching_nonresponse:
  "\<not> is_response m \<Longrightarrow> take_matching_request_info reqs m src = (reqs, None)"
  by (auto simp: take_matching_request_info_def get_matching_request_info_def is_response_def split: MessageType.splits)

lemma incoming_cases:
  assumes inv: "ors_inv (so_requests s)"
  obtains
    (none) "accepted de s d = []"
      "so_requests (incoming_turn ig de d s) = so_requests s"
      "so_delivered (incoming_turn ig de d s) = so_delivered s"
      "\<And>m src. (m, src) \<in> set (so_incoming (incoming_turn ig de d s)) \<Longrightarrow> is_response m \<Longrightarrow> (m, src) \<in> set (so_incoming s)"
  | (some) m src info where "accepted de s d = [(m, src)]"
      "(transaction_id m, info) \<in> set (so_requests s)" "answers m src info"
      "so_requests (incoming_turn ig de d s) = AList.delete (transaction_id m) (so_requests s)"
      "\<And>c m'. (c, m') \<in> set (so_delivered (incoming_turn ig de d s)) \<Longrightarrow> (c, m') \<in> set (so_delivered s) \<or> m' = m"
      "\<And>p. p \<in> set (so_incoming (incoming_turn ig de d s)) \<Longrightarrow> p \<in> set (so_incoming s) \<or> p = (m, src)"
proof (cases "case d of None \<Rightarrow> Err (GeneralError []) | Some (b, src) \<Rightarrow> from_bytes de (take recv_buffer_size b)")
  case (Ok m)
  then obtain b src where d: "d = Some (b, src)" and fb: "from_bytes de (take recv_buffer_size b) = Ok m"
    by (auto split: option.splits)
  obtain reqs r where t: "take_matching_request_info (so_requests s) m src = (reqs, r)"
    by (cases "take_matching_request_info (so_requests s) m src")
  show thesis
  proof (cases r)
    case None
    have reqs: "reqs = so_requests s" using take_matching_None_same [OF _ inv, of m src] t None by simp
    show thesis
    proof (rule none)
      show "accepted de s d = []" by (simp add: accepted_def d fb t None)
      show "so_requests (incoming_turn ig de d s) = so_requests s"
        "so_delivered (incoming_turn ig de d s) = so_delivered s"
        by (auto simp: background_io_incoming_single_def d fb t None reqs split: MessageType.split)
      show "(m', src') \<in> set (so_incoming s)"
        if "(m', src') \<in> set (so_incoming (incoming_turn ig de d s))" "is_response m'" for m' src'
        using that
        by (auto simp: background_io_incoming_single_def d fb t None reqs is_response_def
            split: MessageType.splits dest!: subsetD [OF forward_fields(3)])
    qed
  next
    case (Some info)
    note tk = take_matching_Some [OF inv t [unfolded Some]]
    obtain q where q: "message_type m = Response q" using tk(2) by (auto simp: answers_def)
    define s1 where "s1 = notify (s\<lparr>so_requests := reqs\<rparr>) (ri_response_channel info) m"
    have turn: "fst (background_io_incoming_single de d s) = fst (forward s1 (m, src))"
      by (simp add: background_io_incoming_single_def d fb t Some q s1_def)
    show thesis
    proof (rule some [OF _ tk(1,2)])
      show "accepted de s d = [(m, src)]" by (simp add: accepted_def d fb t Some)
      show "so_requests (incoming_turn ig de d s) = AList.delete (transaction_id m) (so_requests s)"
        by (simp add: turn s1_def tk(3))
      show "(c, m') \<in> set (so_delivered s) \<or> m' = m"
        if "(c, m') \<in> set (so_delivered (incoming_turn ig de d s))" for c m'
        using that notify_fields(3) [of "s\<lparr>so_requests := reqs\<rparr>" "ri_response_channel info" m]
        by (auto simp: turn s1_def)
      show "p \<in> set (so_incoming s) \<or> p = (m, src)" if "p \<in> set (so_incoming (incoming_turn ig de d s))" for p
        using that forward_fields(3) [of s1 "(m, src)"] by (auto simp: turn s1_def)
    qed
  qed
next
  case (Err e)
  then have "accepted de s d = []" "fst (background_io_incoming_single de d s) = s"
    by (auto simp: accepted_def background_io_incoming_single_def split: option.splits)
  then show thesis by (intro none) simp_all
next
  case Panic
  then have "accepted de s d = []" "fst (background_io_incoming_single de d s) = s"
    by (auto simp: accepted_def background_io_incoming_single_def split: option.splits)
  then show thesis by (intro none) simp_all
qed

section \<open>Only sent requests are answered, and each once\<close>

fun sent_by :: "sock_event \<Rightarrow> (Message \<times> SocketAddr \<times> Id option) list" where
  "sent_by (EvSend m dest did now) =
     (case message_type m of Request r \<Rightarrow> [(m, dest, did)] | _ \<Rightarrow> [])"
| "sent_by (EvStore m dest did now) =
     (case message_type m of Request r \<Rightarrow> [(m, dest, did)] | _ \<Rightarrow> [])"
| "sent_by _ = []"

definition sent_requests :: "sock_event list \<Rightarrow> (Message \<times> SocketAddr \<times> Id option) list" where
  "sent_requests evs = concat (map sent_by evs)"

definition answers_sent :: "Message \<Rightarrow> SocketAddr \<Rightarrow> Message \<times> SocketAddr \<times> Id option \<Rightarrow> bool" where
  "answers_sent m src p = (case p of (q, dest, did) \<Rightarrow> answers m src (request_info_new dest did q None 0))"

definition sock_inv :: "Socket \<Rightarrow> sock_event list \<Rightarrow> MessagePair list \<Rightarrow> bool" where
  "sock_inv s evs acc \<longleftrightarrow>
     ors_inv (so_requests s) \<and>
     (\<forall>(t, i) \<in> set (so_requests s). (ri_packet i, ri_addr i, ri_id i) \<in> set (sent_requests evs)) \<and>
     (\<forall>(m, src) \<in> set acc. \<exists>q \<in> set (sent_requests evs). answers_sent m src q) \<and>
     (\<forall>t. length (filter (\<lambda>p. transaction_id (fst p) = t) acc) + of_bool (t \<in> fst ` set (so_requests s))
        \<le> length (filter (\<lambda>q. transaction_id (fst q) = t) (sent_requests evs))) \<and>
     (\<forall>(m, src) \<in> set (so_incoming s). is_response m \<longrightarrow> (m, src) \<in> set acc) \<and>
     (\<forall>(c, m) \<in> set (so_delivered s). \<exists>src. (m, src) \<in> set acc)"

lemma sent_requests_snoc [simp]: "sent_requests (evs @ [e]) = sent_requests evs @ sent_by e"
  by (simp add: sent_requests_def)

lemma sock_inv_new: "sock_inv socket_new [] []"
  by (simp add: sock_inv_def socket_new_def ors_new_def ors_inv_def)

text \<open>Steps that leave storage and deliveries alone, or only shrink the storage.\<close>

lemma sock_inv_mono:
  assumes "sock_inv s evs acc" and "ors_inv (so_requests s')" and "set (so_requests s') \<subseteq> set (so_requests s)"
    and "so_delivered s' = so_delivered s" and "set (so_incoming s') \<subseteq> set (so_incoming s)"
    and "sent_by e = []"
  shows "sock_inv s' (evs @ [e]) acc"
proof -
  have "of_bool (t \<in> fst ` set (so_requests s')) \<le> (of_bool (t \<in> fst ` set (so_requests s)) :: nat)" for t
    using assms(3) by (auto simp: of_bool_def)
  then have "length (filter (\<lambda>p. transaction_id (fst p) = t) acc) + of_bool (t \<in> fst ` set (so_requests s'))
      \<le> length (filter (\<lambda>q. transaction_id (fst q) = t) (sent_requests evs))" for t
    using assms(1) unfolding sock_inv_def by (meson add_left_mono order_trans)
  then show ?thesis using assms unfolding sock_inv_def by auto
qed

lemma store_request_fields:
  "so_requests (fst (store_request s m dest did now)) =
     (if sent_by (EvStore m dest did now) = [] then so_requests s
      else add_request (so_requests s) (request_info_new dest did m (Some (so_next_chan s)) now))"
  "so_delivered (fst (store_request s m dest did now)) = so_delivered s"
  "so_incoming (fst (store_request s m dest did now)) = so_incoming s"
  by (auto simp: store_request_def split: MessageType.split)

lemma sock_inv_store:
  assumes "sock_inv s evs acc"
  shows "sock_inv (fst (store_request s m dest did now)) (evs @ [EvStore m dest did now]) acc"
proof (cases "sent_by (EvStore m dest did now) = []")
  case True
  then show ?thesis
    using assms store_request_fields [of s m dest did now]
    by (intro sock_inv_mono [OF assms]) (simp_all add: sock_inv_def)
next
  case False
  then have snt: "sent_by (EvStore m dest did now) = [(m, dest, did)]" by (auto split: MessageType.splits)
  let ?info = "request_info_new dest did m (Some (so_next_chan s)) now"
  have reqs: "so_requests (fst (store_request s m dest did now)) = add_request (so_requests s) ?info"
    using False by (simp add: store_request_fields(1))
  have mem: "x = (transaction_id m, ?info) \<or> x \<in> set (so_requests s)" if "x \<in> set (add_request (so_requests s) ?info)" for x
    using update_memD [of x "transaction_id m" ?info "so_requests s"] that
    by (auto simp: add_request_def request_info_new_def)
  have bound: "length (filter (\<lambda>p. transaction_id (fst p) = t) acc) + of_bool (t \<in> fst ` set (add_request (so_requests s) ?info))
      \<le> length (filter (\<lambda>q. transaction_id (fst q) = t) (sent_requests evs @ [(m, dest, did)]))" for t
  proof -
    have "t \<in> fst ` set (add_request (so_requests s) ?info) \<Longrightarrow> t = transaction_id m \<or> t \<in> fst ` set (so_requests s)"
      using mem by force
    moreover have "length (filter (\<lambda>p. transaction_id (fst p) = t) acc) + of_bool (t \<in> fst ` set (so_requests s))
        \<le> length (filter (\<lambda>q. transaction_id (fst q) = t) (sent_requests evs))"
      using assms by (simp add: sock_inv_def)
    ultimately show ?thesis
      by (cases "t = transaction_id m"; cases "t \<in> fst ` set (so_requests s)";
          cases "t \<in> fst ` set (add_request (so_requests s) ?info)") simp_all
  qed
  have stored: "(ri_packet i, ri_addr i, ri_id i) \<in> set (sent_requests evs @ [(m, dest, did)])"
    if "(t, i) \<in> set (add_request (so_requests s) ?info)" for t i
    using mem [OF that] assms by (auto simp: sock_inv_def request_info_new_def)
  have "ors_inv (add_request (so_requests s) ?info)" using assms by (simp add: sock_inv_def ors_inv_add)
  then show ?thesis
    using assms bound stored unfolding sock_inv_def reqs store_request_fields(2,3) sent_requests_snoc snt by auto
qed

lemma sock_inv_cong:
  assumes "so_requests s' = so_requests s" and "so_delivered s' = so_delivered s"
    and "so_incoming s' = so_incoming s" and "sent_requests evs' = sent_requests evs"
  shows "sock_inv s' evs' acc \<longleftrightarrow> sock_inv s evs acc"
  unfolding sock_inv_def assms by (rule refl)

lemma sock_inv_send:
  assumes "sock_inv s evs acc"
  shows "sock_inv (fst (ds_send_to s m dest did now)) (evs @ [EvSend m dest did now]) acc"
proof (rule sock_inv_cong [THEN iffD2])
  show "sock_inv (fst (store_request s m dest did now)) (evs @ [EvStore m dest did now]) acc"
    by (rule sock_inv_store [OF assms])
qed (simp_all add: ds_send_to_def enqueue_message_def case_prod_beta)

lemma answers_info: "answers m src i \<Longrightarrow> answers_sent m src (ri_packet i, ri_addr i, ri_id i)"
  by (simp add: answers_sent_def answers_def request_info_new_def)

lemma sock_inv_incoming:
  assumes "sock_inv s evs acc"
  shows "sock_inv (incoming_turn ig de d s) (evs @ [EvDatagram d]) (acc @ accepted de s d)"
proof -
  have inv: "ors_inv (so_requests s)" using assms by (simp add: sock_inv_def)
  show ?thesis
  proof (rule incoming_cases [OF inv, of de d ig], goal_cases)
    case none: 1
    then show ?thesis using assms unfolding sock_inv_def by (simp del: incoming_turn_fields) blast
  next
    case some: (2 m src info)
    let ?s' = "incoming_turn ig de d s"
    have i: "(ri_packet info, ri_addr info, ri_id info) \<in> set (sent_requests evs)"
      using assms some(2) by (auto simp: sock_inv_def)
    have "\<exists>q \<in> set (sent_requests evs). answers_sent m src q" using answers_info [OF some(3)] i by blast
    moreover have "length (filter (\<lambda>p. transaction_id (fst p) = t) (acc @ [(m, src)])) + of_bool (t \<in> fst ` set (so_requests ?s'))
        \<le> length (filter (\<lambda>q. transaction_id (fst q) = t) (sent_requests evs))" for t
    proof -
      have "length (filter (\<lambda>p. transaction_id (fst p) = t) acc) + of_bool (t \<in> fst ` set (so_requests s))
          \<le> length (filter (\<lambda>q. transaction_id (fst q) = t) (sent_requests evs))"
        using assms by (simp add: sock_inv_def)
      moreover have "transaction_id m \<in> fst ` set (so_requests s)" using some(2) by force
      moreover have "t \<in> fst ` set (so_requests ?s') \<longleftrightarrow> t \<noteq> transaction_id m \<and> t \<in> fst ` set (so_requests s)"
      proof -
        have "fst ` set (AList.delete (transaction_id m) (so_requests s)) = fst ` set (so_requests s) - {transaction_id m}"
          by (auto simp: AList.delete_eq)
        then show ?thesis unfolding some(4) by blast
      qed
      ultimately show ?thesis
        by (cases "t = transaction_id m"; cases "t \<in> fst ` set (so_requests s)") simp_all
    qed
    moreover have "ors_inv (so_requests ?s')" unfolding some(4) by (rule ors_inv_delete [OF inv])
    moreover have "\<forall>(t, i) \<in> set (so_requests ?s'). (ri_packet i, ri_addr i, ri_id i) \<in> set (sent_requests evs)"
      using assms unfolding some(4) by (auto simp: sock_inv_def AList.delete_eq)
    ultimately show ?thesis
      using assms some(1,5,6) unfolding sock_inv_def by (simp del: incoming_turn_fields) blast
  qed
qed

lemma outgoing_turn_fields:
  "so_requests (fst (outgoing_turn linux ser io s)) = so_requests s"
  "so_delivered (fst (outgoing_turn linux ser io s)) = so_delivered s"
  "so_incoming (fst (outgoing_turn linux ser io s)) = so_incoming s"
  by (auto simp: outgoing_turn_def Let_def split: list.split res.split RustyDHTError.split)

lemma prune_subset: "set (prune_older_than r d now) \<subseteq> set r"
  by (auto simp: prune_older_than_def split: option.split)

lemma sock_reach_inv: "sock_reach linux ignore ser de s evs acc \<Longrightarrow> sock_inv s evs acc"
proof (induction rule: sock_reach.induct)
  case (queue s evs acc m dest)
  then show ?case by (intro sock_inv_mono [OF queue.IH]) (auto simp: enqueue_message_def sock_inv_def)
next
  case (outgoing s evs acc io)
  then show ?case
    using outgoing_turn_fields [of linux ser io s] by (intro sock_inv_mono) (auto simp: sock_inv_def)
next
  case (recv s evs acc s' r)
  then have "so_requests s' = so_requests s" "so_delivered s' = so_delivered s"
    "set (so_incoming s') \<subseteq> set (so_incoming s)"
    by (auto simp: ds_recv_from_def split: list.splits if_splits)
  then show ?case using recv by (intro sock_inv_mono [OF recv.IH]) (auto simp: sock_inv_def)
next
  case (cleanup s evs acc now)
  then show ?case
    using prune_subset [of "so_requests s" "dur_from_secs 10" now] ors_inv_prune
    by (intro sock_inv_mono [OF cleanup.IH]) (auto simp: sock_inv_def request_cleanup_turn_def)
next
  case (abandon s evs acc c)
  then show ?case by (intro sock_inv_mono [OF abandon.IH]) (auto simp: sock_inv_def)
qed (simp_all only: sock_inv_new sock_inv_send sock_inv_store sock_inv_incoming)

section \<open>The outgoing task\<close>

lemma outgoing_turn_result:
  assumes "so_outgoing s = p # rest" and "to_bytes ser (fst p) = Ok bs"
  shows "snd (outgoing_turn linux ser io s) = [(bs, snd p)]"
    and "so_out_alive s \<Longrightarrow> so_out_alive (fst (outgoing_turn linux ser io s)) \<longleftrightarrow>
      io = None \<or> (linux \<and> io = Some PermissionDenied)"
  using assms
  by (cases io; simp add: outgoing_turn_def background_io_outgoing_single_def Let_def)+

lemma dead_send:
  assumes "\<not> so_out_alive s"
  shows "\<exists>e. snd (ds_send_to s m dest did now) = Err e"
    and "so_outgoing (fst (ds_send_to s m dest did now)) = so_outgoing s"
    and "\<not> so_out_alive (fst (ds_send_to s m dest did now))"
  using assms by (cases "message_type m"; simp add: ds_send_to_unfold Let_def)+

lemma notify_forward_alive [simp]:
  "so_out_alive (fst (forward s p)) = so_out_alive s" "so_out_alive (notify s c m) = so_out_alive s"
  by (auto simp: forward_def notify_def split: option.split)

lemma incoming_single_alive: "so_out_alive (fst (background_io_incoming_single de d s)) = so_out_alive s"
  by (auto simp: background_io_incoming_single_def split: option.split res.split MessageType.split prod.split)

lemma dead_turns [simp]:
  "so_out_alive (incoming_turn ig de d s) = so_out_alive s"
  "so_out_alive (request_cleanup_turn s now) = so_out_alive s"
  using incoming_single_alive [of de d s]
  by (auto simp: incoming_turn_def Let_def request_cleanup_turn_def split: prod.split res.split RustyDHTError.split)

section \<open>Properties\<close>

text \<open>
  C28. Whatever the interleaving of sends, datagrams, cleanups and dropped receivers: every response
  that reaches the application or a waiting sender answers a request that we sent to exactly that
  address, and never more responses are accepted for a transaction id than requests were sent with
  it. In particular a response is consumed at most once, and unsolicited ones are dropped. A request
  counts as sent once \<open>send_to\<close> has stored it, even when its sender then gave up waiting for room.
\<close>

theorem only_sent_requests_are_answered:
  assumes "sock_reach linux ignore ser de s evs acc"
  shows "(\<forall>(m, src) \<in> set acc. \<exists>q dest did. (q, dest, did) \<in> set (sent_requests evs) \<and> answers_sent m src (q, dest, did)) \<and>
    (\<forall>(m, src) \<in> set (so_incoming s). is_response m \<longrightarrow> (m, src) \<in> set acc) \<and>
    (\<forall>(c, m) \<in> set (so_delivered s). \<exists>src. (m, src) \<in> set acc) \<and>
    (\<forall>t. length (filter (\<lambda>p. transaction_id (fst p) = t) acc)
       \<le> length (filter (\<lambda>q. transaction_id (fst q) = t) (sent_requests evs)))"
proof -
  have inv: "sock_inv s evs acc" by (rule sock_reach_inv [OF assms])
  have "length (filter (\<lambda>p. transaction_id (fst p) = t) acc)
      \<le> length (filter (\<lambda>q. transaction_id (fst q) = t) (sent_requests evs))" for t
    using inv unfolding sock_inv_def by (meson add_leE)
  then show ?thesis using inv unfolding sock_inv_def by fastforce
qed

text \<open>A request, its answer, and the answer again.\<close>

definition sample_de :: "bytes \<Rightarrow> DHTMessage res" where
  "sample_de bs = Ok (into_serde_message sample_message)"

definition sample_socket :: Socket where
  "sample_socket = fst (ds_send_to socket_new sample_request (sample_addr 1) None 5)"

lemma sample_from_bytes: "from_bytes sample_de bs = Ok sample_message"
proof -
  have "wire_ok sample_message" by (simp add: wire_ok_def sample_message_def nodes_v4_def)
  from message_roundtrip [OF this] show ?thesis
    by (simp add: from_bytes_def sample_de_def clamp_message_def sample_message_def)
qed

lemma sample_socket_requests: "so_requests sample_socket = sample_storage"
  by (simp add: sample_socket_def ds_send_to_unfold sample_request_def sample_storage_def socket_new_def)

theorem only_sent_requests_are_answered_witness:
  "\<exists>s acc. sock_reach True False (\<lambda>_. Panic) sample_de s
      [EvSend sample_request (sample_addr 1) None 5, EvDatagram (Some ([], sample_addr 2))] acc \<and>
    length (filter (\<lambda>p. transaction_id (fst p) = [1, 2]) acc) \<le> 1"
proof -
  let ?d = "Some ([], sample_addr 2)"
  have "sock_reach True False (\<lambda>_. Panic) sample_de sample_socket ([] @ [EvSend sample_request (sample_addr 1) None 5]) []"
    unfolding sample_socket_def by (intro sock_reach.intros)
  moreover have "so_in_alive sample_socket"
    by (simp add: sample_socket_def ds_send_to_unfold sample_request_def socket_new_def)
  ultimately have reach: "sock_reach True False (\<lambda>_. Panic) sample_de (incoming_turn False sample_de ?d sample_socket)
      (([] @ [EvSend sample_request (sample_addr 1) None 5]) @ [EvDatagram ?d]) ([] @ accepted sample_de sample_socket ?d)"
    by (rule sock_reach.incoming)
  have "length (filter (\<lambda>p. transaction_id (fst p) = [1, 2]) ([] @ accepted sample_de sample_socket ?d)) \<le> 1"
    using only_sent_requests_are_answered [OF reach]
    by (auto simp: sent_requests_def sample_request_def dest: spec [of _ "[1, 2]"])
  with reach show ?thesis by auto
qed

text \<open>
  A send error other than a full connection-tracking table ends the outgoing task for good: from
  then on no message leaves and every \<open>send_to\<close> fails. A conntrack error on Linux only loses the
  one datagram, which was handed to the system as encoded.
\<close>

lemma outgoing_failure_is_final:
  "(so_outgoing s = p # rest \<and> to_bytes ser (fst p) = Ok bs \<longrightarrow>
     snd (outgoing_turn linux ser io s) = [(bs, snd p)] \<and>
     (so_out_alive s \<longrightarrow> (so_out_alive (fst (outgoing_turn linux ser io s)) \<longleftrightarrow>
        io = None \<or> (linux \<and> io = Some PermissionDenied)))) \<and>
   (\<not> so_out_alive s \<longrightarrow>
     (\<exists>e. snd (ds_send_to s m dest did now) = Err e) \<and>
     so_outgoing (fst (ds_send_to s m dest did now)) = so_outgoing s \<and>
     \<not> so_out_alive (fst (ds_send_to s m dest did now)) \<and>
     \<not> so_out_alive (incoming_turn ignore de d s) \<and> \<not> so_out_alive (request_cleanup_turn s now))"
  using outgoing_turn_result [of s p rest ser bs linux io] dead_send [of s m dest did now]
  by (simp add: dead_turns)

end
