(* ===== verification/Dht_Lru.thy ===== *)
theory Dht_Lru
  imports Dht_Prelude "HOL-Library.AList"
begin

text \<open>
  The interface of the \<open>lru\<close> crate's \<open>LruCache\<close> as the peer storage uses it. The crate is outside the
  repository, so its operations are a record of parameters; the locale \<open>lru_cache\<close> states their
  documented behaviour through \<open>iter\<close>, which lists the entries from the most to the least recently
  used. A reference implementation on lists shows that the laws can hold.
\<close>

section \<open>The interface\<close>

text \<open>
  \<open>get\<close> and \<open>get_mut\<close> promote the entry they find; a value changed through the reference that
  \<open>get_mut\<close> returned is written back by \<open>lru_write\<close>, which does not change the order.
\<close>

record ('k, 'v, 'c) lru_ops =
  lru_new :: "nat \<Rightarrow> 'c"
  lru_get :: "'c \<Rightarrow> 'k \<Rightarrow> 'c \<times> 'v option"
  lru_write :: "'c \<Rightarrow> 'k \<Rightarrow> 'v \<Rightarrow> 'c"
  lru_put :: "'c \<Rightarrow> 'k \<Rightarrow> 'v \<Rightarrow> 'c"
  lru_iter :: "'c \<Rightarrow> ('k \<times> 'v) list"

definition promote :: "'k \<Rightarrow> ('k \<times> 'v) list \<Rightarrow> ('k \<times> 'v) list" where
  "promote k xs = (case map_of xs k of None \<Rightarrow> xs | Some v \<Rightarrow> (k, v) # AList.delete k xs)"

definition overwrite :: "'k \<Rightarrow> 'v \<Rightarrow> ('k \<times> 'v) list \<Rightarrow> ('k \<times> 'v) list" where
  "overwrite k v xs = map (\<lambda>(k', v'). (k', if k' = k then v else v')) xs"

locale lru_cache =
  fixes L :: "('k, 'v, 'c) lru_ops" and ok :: "'c \<Rightarrow> bool" and cap :: "'c \<Rightarrow> nat"
  assumes ok_new: "0 < n \<Longrightarrow> ok (lru_new L n) \<and> cap (lru_new L n) = n \<and> lru_iter L (lru_new L n) = []"
    and ok_get: "ok c \<Longrightarrow> ok (fst (lru_get L c k)) \<and> cap (fst (lru_get L c k)) = cap c"
    and ok_write: "ok c \<Longrightarrow> ok (lru_write L c k v) \<and> cap (lru_write L c k v) = cap c"
    and ok_put: "ok c \<Longrightarrow> ok (lru_put L c k v) \<and> cap (lru_put L c k v) = cap c"
    and cap_pos: "ok c \<Longrightarrow> 0 < cap c"
    and keys_distinct: "ok c \<Longrightarrow> distinct (map fst (lru_iter L c))"
    and bounded: "ok c \<Longrightarrow> length (lru_iter L c) \<le> cap c"
    and get_value: "ok c \<Longrightarrow> snd (lru_get L c k) = map_of (lru_iter L c) k"
    and get_iter: "ok c \<Longrightarrow> lru_iter L (fst (lru_get L c k)) = promote k (lru_iter L c)"
    and write_iter: "ok c \<Longrightarrow> lru_iter L (lru_write L c k v) = overwrite k v (lru_iter L c)"
    and put_iter: "ok c \<Longrightarrow>
      lru_iter L (lru_put L c k v) = take (cap c) ((k, v) # AList.delete k (lru_iter L c))"
begin

lemma put_map_of:
  assumes "ok c"
  shows "map_of (lru_iter L (lru_put L c k v)) k = Some v"
  using cap_pos [OF assms] by (cases "cap c") (simp_all add: put_iter [OF assms])

lemma put_mem:
  assumes "ok c" and "(k', v') \<in> set (lru_iter L (lru_put L c k v))"
  shows "(k' = k \<and> v' = v) \<or> (k' \<noteq> k \<and> (k', v') \<in> set (lru_iter L c))"
proof -
  have "(k', v') \<in> set ((k, v) # AList.delete k (lru_iter L c))"
    using assms(2) unfolding put_iter [OF assms(1)] by (rule in_set_takeD)
  then show ?thesis by (auto simp: AList.delete_eq)
qed

lemma get_map_of:
  assumes "ok c"
  shows "map_of (lru_iter L (fst (lru_get L c k))) = map_of (lru_iter L c)"
  using get_iter [OF assms, of k]
  by (auto simp: promote_def delete_conv' fun_eq_iff split: option.splits)

lemma get_mem:
  assumes "ok c"
  shows "set (lru_iter L (fst (lru_get L c k))) = set (lru_iter L c)"
proof -
  have d: "distinct (map fst (lru_iter L c))" "distinct (map fst (lru_iter L (fst (lru_get L c k))))"
    using keys_distinct assms ok_get by blast+
  show ?thesis
    using map_of_inject_set [OF d(2,1)] get_map_of [OF assms, of k] by simp
qed

lemma write_map_of:
  assumes "ok c"
  shows "map_of (lru_iter L (lru_write L c k v)) =
    (\<lambda>x. if x = k \<and> map_of (lru_iter L c) k \<noteq> None then Some v else map_of (lru_iter L c) x)"
proof -
  have "map_of (overwrite k v xs) x = (if x = k \<and> map_of xs k \<noteq> None then Some v else map_of xs x)" for xs :: "('k \<times> 'v) list" and x
    by (induction xs) (auto simp: overwrite_def)
  then show ?thesis by (simp add: write_iter [OF assms] fun_eq_iff)
qed

end

section \<open>A reference implementation\<close>

text \<open>A cache is its capacity and its entries, the most recently used first.\<close>

definition list_lru :: "('k, 'v, nat \<times> ('k \<times> 'v) list) lru_ops" where
  "list_lru =
     \<lparr>lru_new = (\<lambda>n. (n, [])),
      lru_get = (\<lambda>(n, xs) k. ((n, promote k xs), map_of xs k)),
      lru_write = (\<lambda>(n, xs) k v. (n, overwrite k v xs)),
      lru_put = (\<lambda>(n, xs) k v. (n, take n ((k, v) # AList.delete k xs))),
      lru_iter = snd\<rparr>"

definition list_lru_ok :: "nat \<times> ('k \<times> 'v) list \<Rightarrow> bool" where
  "list_lru_ok c \<longleftrightarrow> 0 < fst c \<and> length (snd c) \<le> fst c \<and> distinct (map fst (snd c))"

lemma length_delete_present: "map_of xs k = Some v \<Longrightarrow> Suc (length (AList.delete k xs)) \<le> length xs"
  by (induction xs) (auto simp: AList.delete_eq less_Suc_eq_le intro: le_trans [OF length_filter_le])

lemma promote_ok:
  assumes "distinct (map fst xs)"
  shows "distinct (map fst (promote k xs))" "length (promote k xs) \<le> length xs"
  using assms length_delete_present [of xs k]
  by (auto simp: promote_def delete_keys distinct_removeAll simp flip: set_map split: option.splits)

lemma overwrite_simps [simp]:
  "length (overwrite k v xs) = length xs" "map fst (overwrite k v xs) = map fst xs"
  by (simp_all add: overwrite_def case_prod_beta comp_def)

interpretation list_lru: lru_cache list_lru list_lru_ok fst
proof (unfold_locales, goal_cases)
  case (2 c k)
  then show ?case using promote_ok [of "snd c" k] by (cases c) (auto simp: list_lru_def list_lru_ok_def)
next
  case (4 c k v)
  obtain n xs where c: "c = (n, xs)" by (cases c)
  have "distinct (map fst ((k, v) # AList.delete k xs))"
    using 4 by (simp add: c list_lru_ok_def delete_keys distinct_removeAll)
  then have "distinct (map fst (take n ((k, v) # AList.delete k xs)))"
    by (metis distinct_take take_map)
  then show ?case using 4 by (simp add: c list_lru_def list_lru_ok_def del: take_Cons)
qed (auto simp: list_lru_def list_lru_ok_def)

end
