(* ===== verification/Dht_PeerStorage.thy ===== *)
theory Dht_PeerStorage
  imports Dht_Lru Dht_Net Dht_Id
begin

text \<open>
  \<open>src/storage/peer_storage.rs\<close>: which peers announced themselves for which info hash. Two levels of
  LRU caches: swarms by info hash, and in each swarm the peers by address. \<open>O\<close> and \<open>I\<close> are the
  operations of the outer and the inner cache type. The \<open>RefCell\<close> is borrowed for the span of one
  method only, so a method that reads through it returns the changed state.
\<close>

section \<open>Operations\<close>

datatype PeerInfo = PeerInfo (pi_addr: SocketAddr) (pi_last_updated: instant)

record 'o PeerStorage =
  ps_peers :: 'o
  ps_max_peers_per_torrent :: nat

definition peer_storage_new ::
  "(Id, 'i, 'o) lru_ops \<Rightarrow> nat \<Rightarrow> nat \<Rightarrow> 'o PeerStorage" where
  "peer_storage_new OC max_torrents max_peers_per_torrent =
     \<lparr>ps_peers = lru_new OC max_torrents, ps_max_peers_per_torrent = max_peers_per_torrent\<rparr>"

definition ps_announce_peer ::
  "(Id, 'i, 'o) lru_ops \<Rightarrow> (SocketAddr, PeerInfo, 'i) lru_ops \<Rightarrow> 'o PeerStorage \<Rightarrow> Id \<Rightarrow> SocketAddr
     \<Rightarrow> instant \<Rightarrow> 'o PeerStorage" where
  "ps_announce_peer OC IC s info_hash peer_addr now =
     (case lru_get OC (ps_peers s) info_hash of
        (peers, Some swarm_lru) \<Rightarrow>
          s\<lparr>ps_peers := lru_write OC peers info_hash (lru_put IC swarm_lru peer_addr (PeerInfo peer_addr now))\<rparr>
      | (peers, None) \<Rightarrow>
          (let swarm_lru = lru_new IC (ps_max_peers_per_torrent s);
               swarm_lru = lru_put IC swarm_lru peer_addr (PeerInfo peer_addr now)
           in s\<lparr>ps_peers := lru_put OC peers info_hash swarm_lru\<rparr>))"

definition newer :: "instant option \<Rightarrow> PeerInfo \<Rightarrow> bool" where
  "newer newer_than p \<longleftrightarrow> (case newer_than of None \<Rightarrow> True | Some t \<Rightarrow> t < pi_last_updated p)"

definition ps_get_peers_info ::
  "(Id, 'i, 'o) lru_ops \<Rightarrow> (SocketAddr, PeerInfo, 'i) lru_ops \<Rightarrow> 'o PeerStorage \<Rightarrow> Id \<Rightarrow> instant option
     \<Rightarrow> 'o PeerStorage \<times> PeerInfo list" where
  "ps_get_peers_info OC IC s info_hash newer_than =
     (case lru_get OC (ps_peers s) info_hash of
        (peers, Some swarm_lru) \<Rightarrow>
          (s\<lparr>ps_peers := peers\<rparr>,
           map snd (filter (\<lambda>p. newer newer_than (snd p))
             (filter (\<lambda>p. is_v4 (sock_ip (fst p))) (lru_iter IC swarm_lru))))
      | (peers, None) \<Rightarrow> (s\<lparr>ps_peers := peers\<rparr>, []))"

definition ps_get_peers ::
  "(Id, 'i, 'o) lru_ops \<Rightarrow> (SocketAddr, PeerInfo, 'i) lru_ops \<Rightarrow> 'o PeerStorage \<Rightarrow> Id \<Rightarrow> instant option
     \<Rightarrow> 'o PeerStorage \<times> SocketAddr list" where
  "ps_get_peers OC IC s info_hash newer_than =
     (let (s', infos) = ps_get_peers_info OC IC s info_hash newer_than in (s', map pi_addr infos))"

definition ps_get_info_hashes :: "(Id, 'i, 'o) lru_ops \<Rightarrow> 'o PeerStorage \<Rightarrow> Id list" where
  "ps_get_info_hashes OC s = map fst (lru_iter OC (ps_peers s))"

section \<open>The two caches together\<close>

text \<open>The swarm of an info hash, as a set of announcements.\<close>

definition swarm_of ::
  "(Id, 'i, 'o) lru_ops \<Rightarrow> (SocketAddr, PeerInfo, 'i) lru_ops \<Rightarrow> 'o PeerStorage \<Rightarrow> Id \<Rightarrow> (SocketAddr \<times> PeerInfo) list" where
  "swarm_of OC IC s h = (case map_of (lru_iter OC (ps_peers s)) h of None \<Rightarrow> [] | Some c \<Rightarrow> lru_iter IC c)"

lemma swarm_of_mem:
  "x \<in> set (swarm_of OC IC s h) \<longleftrightarrow>
     (\<exists>c. map_of (lru_iter OC (ps_peers s)) h = Some c \<and> x \<in> set (lru_iter IC c))"
  by (cases "map_of (lru_iter OC (ps_peers s)) h") (simp_all add: swarm_of_def)

text \<open>A history of announcements.\<close>

definition announce_all ::
  "(Id, 'i, 'o) lru_ops \<Rightarrow> (SocketAddr, PeerInfo, 'i) lru_ops \<Rightarrow> 'o PeerStorage
     \<Rightarrow> (Id \<times> SocketAddr \<times> instant) list \<Rightarrow> 'o PeerStorage" where
  "announce_all OC IC s evs = foldl (\<lambda>s (h, a, t). ps_announce_peer OC IC s h a t) s evs"

locale peer_caches =
  outer: lru_cache OC ook ocap + inner: lru_cache IC iok icap
  for OC :: "(Id, 'i, 'o) lru_ops" and ook ocap
    and IC :: "(SocketAddr, PeerInfo, 'i) lru_ops" and iok icap
begin

definition swarm_ok :: "nat \<Rightarrow> 'i \<Rightarrow> bool" where
  "swarm_ok m c \<longleftrightarrow> iok c \<and> icap c = m \<and> (\<forall>x \<in> set (lru_iter IC c). pi_addr (snd x) = fst x)"

definition ps_inv :: "'o PeerStorage \<Rightarrow> bool" where
  "ps_inv s \<longleftrightarrow> ook (ps_peers s) \<and> 0 < ps_max_peers_per_torrent s \<and>
     (\<forall>x \<in> set (lru_iter OC (ps_peers s)). swarm_ok (ps_max_peers_per_torrent s) (snd x))"

lemma ps_inv_new: "0 < n \<Longrightarrow> 0 < m \<Longrightarrow> ps_inv (peer_storage_new OC n m)"
  using outer.ok_new [of n] by (simp add: ps_inv_def peer_storage_new_def)

lemma ps_inv_swarm:
  assumes "ps_inv s" and "map_of (lru_iter OC (ps_peers s)) h = Some c"
  shows "swarm_ok (ps_max_peers_per_torrent s) c"
  using assms map_of_SomeD [OF assms(2)] by (fastforce simp: ps_inv_def)

lemma swarm_after_put: "swarm_ok m c \<Longrightarrow> swarm_ok m (lru_put IC c a (PeerInfo a t))"
proof -
  assume c: "swarm_ok m c"
  then have ok: "iok c" by (simp add: swarm_ok_def)
  have "pi_addr (snd x) = fst x" if "x \<in> set (lru_iter IC (lru_put IC c a (PeerInfo a t)))" for x
    using inner.put_mem [OF ok, of "fst x" "snd x" a "PeerInfo a t"] that c by (fastforce simp: swarm_ok_def)
  then show ?thesis using inner.ok_put [OF ok] c by (simp add: swarm_ok_def)
qed

text \<open>What an announcement does, seen through the swarms.\<close>

lemma announce_cases:
  assumes "ps_inv s"
  obtains swarm where "swarm_ok (ps_max_peers_per_torrent s) swarm"
    "lru_iter IC swarm = swarm_of OC IC s h"
    "ps_inv (ps_announce_peer OC IC s h a t)"
    "map_of (lru_iter OC (ps_peers (ps_announce_peer OC IC s h a t))) h = Some (lru_put IC swarm a (PeerInfo a t))"
    "\<And>h' c. h' \<noteq> h \<Longrightarrow> map_of (lru_iter OC (ps_peers (ps_announce_peer OC IC s h a t))) h' = Some c \<Longrightarrow>
       map_of (lru_iter OC (ps_peers s)) h' = Some c"
    "ps_max_peers_per_torrent (ps_announce_peer OC IC s h a t) = ps_max_peers_per_torrent s"
    "ocap (ps_peers (ps_announce_peer OC IC s h a t)) = ocap (ps_peers s)"
proof -
  define m where "m = ps_max_peers_per_torrent s"
  define peers where "peers = fst (lru_get OC (ps_peers s) h)"
  have ok: "ook (ps_peers s)" "0 < m" using assms by (simp_all add: ps_inv_def m_def)
  have peers: "ook peers" "ocap peers = ocap (ps_peers s)"
    "map_of (lru_iter OC peers) = map_of (lru_iter OC (ps_peers s))"
    "set (lru_iter OC peers) = set (lru_iter OC (ps_peers s))"
    using outer.ok_get outer.get_map_of outer.get_mem ok(1) by (auto simp: peers_def)
  have got: "snd (lru_get OC (ps_peers s) h) = map_of (lru_iter OC (ps_peers s)) h"
    by (rule outer.get_value [OF ok(1)])
  show thesis
  proof (cases "map_of (lru_iter OC (ps_peers s)) h")
    case (Some c)
    note c = ps_inv_swarm [OF assms Some]
    let ?c' = "lru_put IC c a (PeerInfo a t)"
    have eq: "ps_announce_peer OC IC s h a t = s\<lparr>ps_peers := lru_write OC peers h ?c'\<rparr>"
      using got Some by (cases "lru_get OC (ps_peers s) h") (simp add: ps_announce_peer_def peers_def)
    have w: "map_of (lru_iter OC (lru_write OC peers h ?c')) =
        (\<lambda>x. if x = h then Some ?c' else map_of (lru_iter OC (ps_peers s)) x)"
      using outer.write_map_of [OF peers(1), of h ?c'] Some by (simp add: peers(3) fun_eq_iff)
    have put: "swarm_ok m ?c'" using c by (simp add: swarm_after_put m_def)
    have "swarm_ok m (snd x)" if x: "x \<in> set (lru_iter OC (lru_write OC peers h ?c'))" for x
    proof -
      have "snd x = ?c' \<or> x \<in> set (lru_iter OC (ps_peers s))"
        using x peers(4) by (auto simp: outer.write_iter [OF peers(1)] overwrite_def split: if_splits)
      then show ?thesis using put assms by (auto simp: ps_inv_def m_def)
    qed
    then have "ps_inv (ps_announce_peer OC IC s h a t)"
      using outer.ok_write [OF peers(1)] ok(2) by (auto simp: ps_inv_def eq m_def)
    then show thesis
      using c w outer.ok_write [OF peers(1)] peers(2) Some
      by (intro that [of c]) (auto simp: eq m_def swarm_of_def split: if_splits)
  next
    case None
    let ?c = "lru_new IC m"
    let ?c' = "lru_put IC ?c a (PeerInfo a t)"
    have new: "iok ?c" "icap ?c = m" "lru_iter IC ?c = []" using inner.ok_new [OF ok(2)] by auto
    have eq: "ps_announce_peer OC IC s h a t = s\<lparr>ps_peers := lru_put OC peers h ?c'\<rparr>"
      using got None by (cases "lru_get OC (ps_peers s) h") (simp add: ps_announce_peer_def peers_def m_def)
    have okn: "swarm_ok m ?c" using new by (simp add: swarm_ok_def)
    then have put: "swarm_ok m ?c'" by (rule swarm_after_put)
    have mem: "x = (h, ?c') \<or> x \<in> set (lru_iter OC (ps_peers s))"
      if "x \<in> set (lru_iter OC (lru_put OC peers h ?c'))" for x
      using outer.put_mem [OF peers(1), of "fst x" "snd x"] that peers(4) by (auto simp: prod_eq_iff)
    have "swarm_ok m (snd x)" if "x \<in> set (lru_iter OC (lru_put OC peers h ?c'))" for x
      using mem [OF that] put assms by (auto simp: ps_inv_def m_def)
    then have "ps_inv (ps_announce_peer OC IC s h a t)"
      using outer.ok_put [OF peers(1)] ok(2) by (simp add: ps_inv_def eq m_def)
    moreover have "map_of (lru_iter OC (ps_peers s)) h' = Some c2"
      if "h' \<noteq> h" "map_of (lru_iter OC (lru_put OC peers h ?c')) h' = Some c2" for h' c2
      using mem [OF map_of_SomeD [OF that(2)]] that(1) outer.keys_distinct [OF ok(1)]
      by (auto intro: map_of_is_SomeI)
    ultimately show thesis
      using new okn None outer.put_map_of [OF peers(1)] outer.ok_put [OF peers(1)] peers(2)
      by (intro that [of ?c]) (auto simp: eq m_def swarm_of_def)
  qed
qed

lemma get_peers_info_result:
  assumes "ps_inv s"
  shows "snd (ps_get_peers_info OC IC s h nt) =
      map snd (filter (\<lambda>p. is_v4 (sock_ip (fst p)) \<and> newer nt (snd p)) (swarm_of OC IC s h))"
    and "ps_inv (fst (ps_get_peers_info OC IC s h nt))"
    and "swarm_of OC IC (fst (ps_get_peers_info OC IC s h nt)) = swarm_of OC IC s"
proof -
  have ok: "ook (ps_peers s)" using assms by (simp add: ps_inv_def)
  obtain peers c where g: "lru_get OC (ps_peers s) h = (peers, c)" by (cases "lru_get OC (ps_peers s) h")
  have c: "c = map_of (lru_iter OC (ps_peers s)) h" using outer.get_value [OF ok, of h] g by simp
  have p: "ook peers" "map_of (lru_iter OC peers) = map_of (lru_iter OC (ps_peers s))"
    "set (lru_iter OC peers) = set (lru_iter OC (ps_peers s))"
    using outer.ok_get [OF ok, of h] outer.get_map_of [OF ok, of h] outer.get_mem [OF ok, of h] g by simp_all
  have eq: "fst (ps_get_peers_info OC IC s h nt) = s\<lparr>ps_peers := peers\<rparr>"
    by (simp add: ps_get_peers_info_def g split: option.split)
  show "snd (ps_get_peers_info OC IC s h nt) =
      map snd (filter (\<lambda>p. is_v4 (sock_ip (fst p)) \<and> newer nt (snd p)) (swarm_of OC IC s h))"
    by (simp add: ps_get_peers_info_def g c swarm_of_def conj_commute split: option.split)
  show "ps_inv (fst (ps_get_peers_info OC IC s h nt))"
    using assms p unfolding eq ps_inv_def by simp
  show "swarm_of OC IC (fst (ps_get_peers_info OC IC s h nt)) = swarm_of OC IC s"
    by (simp add: eq swarm_of_def p fun_eq_iff)
qed

lemma announce_swarm:
  assumes "ps_inv s" and "x \<in> set (swarm_of OC IC (ps_announce_peer OC IC s h a t) h')"
  shows "(h' = h \<and> x = (a, PeerInfo a t)) \<or> x \<in> set (swarm_of OC IC s h')"
proof -
  obtain swarm where w: "swarm_ok (ps_max_peers_per_torrent s) swarm"
    "lru_iter IC swarm = swarm_of OC IC s h"
    "map_of (lru_iter OC (ps_peers (ps_announce_peer OC IC s h a t))) h = Some (lru_put IC swarm a (PeerInfo a t))"
    "\<And>h' c. h' \<noteq> h \<Longrightarrow> map_of (lru_iter OC (ps_peers (ps_announce_peer OC IC s h a t))) h' = Some c \<Longrightarrow>
       map_of (lru_iter OC (ps_peers s)) h' = Some c"
    using announce_cases [OF assms(1), of h a t] by metis
  show ?thesis
  proof (cases "h' = h")
    case True
    then have "x \<in> set (lru_iter IC (lru_put IC swarm a (PeerInfo a t)))"
      using assms(2) w(3) by (simp add: swarm_of_def)
    then show ?thesis
      using inner.put_mem [of swarm "fst x" "snd x" a "PeerInfo a t"] w(1,2) True
      by (auto simp: swarm_ok_def prod_eq_iff)
  next
    case False
    then show ?thesis
      using assms(2) w(4) [OF False] unfolding swarm_of_mem by blast
  qed
qed

lemma announce_all_facts:
  assumes "ps_inv s"
  shows "ps_inv (announce_all OC IC s evs) \<and>
    ps_max_peers_per_torrent (announce_all OC IC s evs) = ps_max_peers_per_torrent s \<and>
    ocap (ps_peers (announce_all OC IC s evs)) = ocap (ps_peers s) \<and>
    (\<forall>h x. x \<in> set (swarm_of OC IC (announce_all OC IC s evs) h) \<longrightarrow>
       x \<in> set (swarm_of OC IC s h) \<or> (\<exists>t. (h, fst x, t) \<in> set evs \<and> snd x = PeerInfo (fst x) t))"
  using assms
proof (induction evs arbitrary: s)
  case (Cons e evs)
  obtain h a t where e: "e = (h, a, t)" by (cases e) auto
  define s1 where "s1 = ps_announce_peer OC IC s h a t"
  have s1: "ps_inv s1" "ps_max_peers_per_torrent s1 = ps_max_peers_per_torrent s"
    "ocap (ps_peers s1) = ocap (ps_peers s)"
    unfolding s1_def by (rule announce_cases [OF Cons.prems, of h a t]; assumption)+
  have run: "announce_all OC IC s (e # evs) = announce_all OC IC s1 evs"
    by (simp add: announce_all_def e s1_def)
  note IH = Cons.IH [OF s1(1)]
  have "x \<in> set (swarm_of OC IC s h') \<or> (\<exists>t. (h', fst x, t) \<in> set (e # evs) \<and> snd x = PeerInfo (fst x) t)"
    if "x \<in> set (swarm_of OC IC (announce_all OC IC s1 evs) h')" for h' x
  proof -
    have "x \<in> set (swarm_of OC IC s1 h') \<or> (\<exists>t. (h', fst x, t) \<in> set evs \<and> snd x = PeerInfo (fst x) t)"
      using IH that by blast
    then show ?thesis
      using announce_swarm [OF Cons.prems, of x h a t h'] unfolding s1_def [symmetric] e by auto
  qed
  then show ?case unfolding run using IH s1(2,3) by simp
qed (simp add: announce_all_def)

lemma swarm_bounded: "ps_inv s \<Longrightarrow> length (swarm_of OC IC s h) \<le> ps_max_peers_per_torrent s"
  using ps_inv_swarm [of s h] inner.bounded
  by (cases "map_of (lru_iter OC (ps_peers s)) h") (fastforce simp: swarm_of_def swarm_ok_def)+

lemma hashes_bounded: "ps_inv s \<Longrightarrow> length (ps_get_info_hashes OC s) \<le> ocap (ps_peers s) \<and> distinct (ps_get_info_hashes OC s)"
  using outer.bounded outer.keys_distinct by (simp add: ps_get_info_hashes_def ps_inv_def)

lemma get_peers_result:
  assumes "ps_inv s"
  shows "snd (ps_get_peers OC IC s h nt) =
    map fst (filter (\<lambda>p. is_v4 (sock_ip (fst p)) \<and> newer nt (snd p)) (swarm_of OC IC s h))"
proof -
  have "pi_addr (snd x) = fst x" if "x \<in> set (swarm_of OC IC s h)" for x
    using that ps_inv_swarm [OF assms, of h] unfolding swarm_of_mem swarm_ok_def by blast
  then show ?thesis
    using get_peers_info_result(1) [OF assms, of h nt]
    by (simp add: ps_get_peers_def case_prod_beta comp_def)
qed

lemma announced_in_swarm:
  assumes "ps_inv s"
  shows "(a, PeerInfo a t) \<in> set (swarm_of OC IC (ps_announce_peer OC IC s h a t) h)"
proof -
  obtain swarm where w: "swarm_ok (ps_max_peers_per_torrent s) swarm"
    "map_of (lru_iter OC (ps_peers (ps_announce_peer OC IC s h a t))) h = Some (lru_put IC swarm a (PeerInfo a t))"
    using announce_cases [OF assms, of h a t] by metis
  then show ?thesis unfolding swarm_of_mem using map_of_SomeD [OF inner.put_map_of] by (auto simp: swarm_ok_def)
qed

lemma announced_is_returned:
  assumes "ps_inv s" and "is_v4 (sock_ip a)" and "nt = None \<or> (\<exists>t0. nt = Some t0 \<and> t0 < t)"
  shows "a \<in> set (snd (ps_get_peers OC IC (ps_announce_peer OC IC s h a t) h nt))"
proof -
  have "ps_inv (ps_announce_peer OC IC s h a t)" using announce_cases [OF assms(1), of h a t] by metis
  moreover have "newer nt (PeerInfo a t)" using assms(3) by (auto simp: newer_def)
  ultimately show ?thesis using announced_in_swarm [OF assms(1), of a t h] assms(2) by (force simp: get_peers_result)
qed

end

interpretation list_peers: peer_caches list_lru list_lru_ok fst list_lru list_lru_ok fst
  by unfold_locales

lemma peer_caches_of:
  "lru_cache OC ook ocap \<Longrightarrow> lru_cache IC iok icap \<Longrightarrow> peer_caches OC ook ocap IC iok icap"
  by (rule peer_caches.intro)

section \<open>Properties\<close>

text \<open>
  Every address that \<open>get_peers\<close> returns for an info hash is an IPv4 address that was announced
  for that very info hash, after the given time if there is one. There are never more peers than
  the limit for a torrent nor more info hashes than the limit for torrents.
\<close>

lemma peers_were_announced:
  assumes "lru_cache OC ook ocap" and "lru_cache IC iok icap" and "0 < n" and "0 < m"
    and "s = announce_all OC IC (peer_storage_new OC n m) evs"
  shows "(\<forall>a \<in> set (snd (ps_get_peers OC IC s h nt)). is_v4 (sock_ip a) \<and>
      (\<exists>t. (h, a, t) \<in> set evs \<and> (\<forall>t0. nt = Some t0 \<longrightarrow> t0 < t))) \<and>
    length (snd (ps_get_peers OC IC s h nt)) \<le> m \<and> length (ps_get_info_hashes OC s) \<le> n"
proof -
  note pc = peer_caches_of [OF assms(1,2)]
  let ?s0 = "peer_storage_new OC n m"
  note new = lru_cache.ok_new [OF assms(1) assms(3)]
  have inv0: "peer_caches.ps_inv OC ook IC iok icap ?s0" by (rule peer_caches.ps_inv_new [OF pc assms(3,4)])
  note facts = peer_caches.announce_all_facts [OF pc inv0, of evs, folded assms(5)]
  have inv: "peer_caches.ps_inv OC ook IC iok icap s" using facts by blast
  have lim: "ps_max_peers_per_torrent s = m" "ocap (ps_peers s) = n"
    using facts new by (simp_all add: peer_storage_new_def)
  have none: "swarm_of OC IC ?s0 h = []" using new by (simp add: swarm_of_def peer_storage_new_def)
  show ?thesis
  proof (intro conjI ballI)
    fix a assume "a \<in> set (snd (ps_get_peers OC IC s h nt))"
    then obtain p where p: "(a, p) \<in> set (swarm_of OC IC s h)" "is_v4 (sock_ip a)" "newer nt p"
      unfolding peer_caches.get_peers_result [OF pc inv] by auto
    then obtain t where "(h, a, t) \<in> set evs" "p = PeerInfo a t" using facts none by fastforce
    then show "is_v4 (sock_ip a)" "\<exists>t. (h, a, t) \<in> set evs \<and> (\<forall>t0. nt = Some t0 \<longrightarrow> t0 < t)"
      using p(2,3) by (auto simp: newer_def)
  next
    show "length (snd (ps_get_peers OC IC s h nt)) \<le> m"
      unfolding peer_caches.get_peers_result [OF pc inv] length_map
      using peer_caches.swarm_bounded [OF pc inv, of h] lim length_filter_le le_trans by metis
    show "length (ps_get_info_hashes OC s) \<le> n"
      using peer_caches.hashes_bounded [OF pc inv] lim by simp
  qed
qed

text \<open>
  An IPv4 peer that has just announced itself is among the peers of that info hash, whatever was
  announced before, as long as the asked-for time is before the announcement.
\<close>

lemma announced_peer_is_found:
  assumes "lru_cache OC ook ocap" and "lru_cache IC iok icap" and "0 < n" and "0 < m"
    and "is_v4 (sock_ip a)" and "nt = None \<or> (\<exists>t0 < t. nt = Some t0)"
  shows "a \<in> set (snd (ps_get_peers OC IC
    (ps_announce_peer OC IC (announce_all OC IC (peer_storage_new OC n m) evs) h a t) h nt))"
proof -
  note pc = peer_caches_of [OF assms(1,2)]
  have "peer_caches.ps_inv OC ook IC iok icap (announce_all OC IC (peer_storage_new OC n m) evs)"
    using peer_caches.announce_all_facts [OF pc peer_caches.ps_inv_new [OF pc assms(3,4)]] by blast
  then show ?thesis
    using assms(5,6) by (intro peer_caches.announced_is_returned [OF pc]) auto
qed

end
