(* ===== verification/Dht_Throttler.thy ===== *)
theory Dht_Throttler
  imports Dht_Net Dht_Errors
begin

text \<open>
  \<open>src/storage/throttler.rs\<close>: the per-address packet counter with a fixed number of records. The two
  mutable references of the search loop are positions in the record array. The clock readings
  (of \<open>now: None\<close> and of \<open>clear\<close>) are arguments. \<open>usize\<close> has 64 bits.
\<close>

section \<open>Data and operations\<close>

definition usize_max :: nat where "usize_max = 2 ^ 64 - 1"

record ThrottlerRecord =
  tr_ip :: IpAddr
  tr_packets :: nat
  tr_expiration :: instant
  tr_creation :: instant

record Throttler =
  th_records :: "ThrottlerRecord list"
  th_rate_limit :: nat
  th_period :: duration
  th_naughty :: duration
  th_max_tracking :: duration

definition tr_default :: "instant \<Rightarrow> ThrottlerRecord" where
  "tr_default now =
     \<lparr>tr_ip = localhost_v4, tr_packets = 0, tr_expiration = now, tr_creation = now\<rparr>"

definition tr_clear :: "instant \<Rightarrow> ThrottlerRecord \<Rightarrow> ThrottlerRecord" where
  "tr_clear now r =
     r\<lparr>tr_ip := localhost_v4, tr_packets := 0, tr_expiration := now, tr_creation := now\<rparr>"

definition throttler_new ::
  "nat \<Rightarrow> nat \<Rightarrow> duration \<Rightarrow> duration \<Rightarrow> duration \<Rightarrow> instant \<Rightarrow> Throttler" where
  "throttler_new num_records rate_limit period naughty_timeout max_tracking now =
     \<lparr>th_records = replicate num_records (tr_default now), th_rate_limit = rate_limit,
      th_period = period, th_naughty = naughty_timeout, th_max_tracking = max_tracking\<rparr>"

text \<open>The search loop: the record of the address, and the saddest record met before it.\<close>

definition lamer :: "ThrottlerRecord \<Rightarrow> ThrottlerRecord \<Rightarrow> bool" where
  "lamer r lame \<longleftrightarrow> tr_packets r < tr_packets lame \<or>
     (tr_packets r = tr_packets lame \<and> tr_expiration r < tr_expiration lame)"

fun scan_records ::
  "IpAddr \<Rightarrow> ThrottlerRecord list \<Rightarrow> nat \<Rightarrow> (nat \<times> ThrottlerRecord) option
     \<Rightarrow> nat option \<times> (nat \<times> ThrottlerRecord) option" where
  "scan_records ip [] i lamest = (None, lamest)"
| "scan_records ip (r # rs) i lamest =
     (if tr_ip r = ip then (Some i, lamest)
      else scan_records ip rs (Suc i)
             (case lamest of
                Some (j, lame) \<Rightarrow> if lamer r lame then Some (i, r) else lamest
              | None \<Rightarrow> Some (i, r)))"

text \<open>\<open>Instant + Duration\<close>.\<close>

definition instant_plus :: "instant \<Rightarrow> duration \<Rightarrow> instant res" where
  "instant_plus t d = (case instant_checked_add t d of Some x \<Rightarrow> Ok x | None \<Rightarrow> Panic)"

definition saturating_packets :: "nat \<Rightarrow> nat \<Rightarrow> nat" where
  "saturating_packets a b = (if a + b \<le> usize_max then a + b else usize_max)"

definition set_record :: "Throttler \<Rightarrow> nat \<Rightarrow> ThrottlerRecord \<Rightarrow> Throttler" where
  "set_record t i r = t\<lparr>th_records := (th_records t)[i := r]\<rparr>"

text \<open>The common end of both branches: over the limit, the address is throttled.\<close>

definition throttle_if_over ::
  "Throttler \<Rightarrow> nat \<Rightarrow> ThrottlerRecord \<Rightarrow> instant \<Rightarrow> (Throttler \<times> bool) res" where
  "throttle_if_over t i r now =
     (if th_rate_limit t < tr_packets r
      then res_bind (instant_plus now (th_naughty t))
             (\<lambda>e. Ok (set_record t i (r\<lparr>tr_expiration := e\<rparr>), True))
      else Ok (set_record t i r, False))"

definition check_throttle ::
  "Throttler \<Rightarrow> IpAddr \<Rightarrow> instant option \<Rightarrow> nat option \<Rightarrow> instant \<Rightarrow> instant \<Rightarrow> (Throttler \<times> bool) res" where
  "check_throttle t ip now_opt count_opt clock clear_clock =
     (let now = (case now_opt of Some i \<Rightarrow> i | None \<Rightarrow> clock);
          cnt = (case count_opt of Some c \<Rightarrow> c | None \<Rightarrow> 1)
      in case scan_records ip (th_records t) 0 None of
           (Some i, _) \<Rightarrow>
             (let r = th_records t ! i in
              if (case instant_checked_duration_since now (tr_creation r) of
                    Some since_creation \<Rightarrow> th_max_tracking t < since_creation | None \<Rightarrow> False)
              then Ok (set_record t i (tr_clear clear_clock r), False)
              else if now < tr_expiration r
              then throttle_if_over t i (r\<lparr>tr_packets := saturating_packets (tr_packets r) cnt\<rparr>) now
              else res_bind (instant_plus now (th_period t))
                     (\<lambda>e. throttle_if_over t i (r\<lparr>tr_packets := cnt, tr_expiration := e\<rparr>) now))
         | (None, Some (i, r)) \<Rightarrow>
             res_bind (instant_plus now (th_period t))
               (\<lambda>e. throttle_if_over t i
                      (r\<lparr>tr_packets := cnt, tr_expiration := e, tr_ip := ip, tr_creation := now\<rparr>) now)
         | (None, None) \<Rightarrow> Panic)"

definition get_num_records :: "Throttler \<Rightarrow> nat" where
  "get_num_records t = length (th_records t)"

section \<open>The search\<close>

lemma scan_found:
  "scan_records ip rs i lam = (Some j, l) \<Longrightarrow> i \<le> j \<and> j - i < length rs \<and> tr_ip (rs ! (j - i)) = ip \<and>
     (\<forall>q < j - i. tr_ip (rs ! q) \<noteq> ip)"
proof (induction rs arbitrary: i lam)
  case (Cons r rs)
  show ?case
  proof (cases "tr_ip r = ip")
    case False
    then have "Suc i \<le> j \<and> j - Suc i < length rs \<and> tr_ip (rs ! (j - Suc i)) = ip \<and>
        (\<forall>q < j - Suc i. tr_ip (rs ! q) \<noteq> ip)"
      using Cons.prems by (intro Cons.IH) simp
    moreover from this have "j - i = Suc (j - Suc i)" by (simp add: Suc_diff_Suc Suc_le_eq)
    ultimately show ?thesis using False by (auto simp: less_Suc_eq_0_disj)
  qed (use Cons.prems in simp)
qed simp

lemma scan_found_0:
  "scan_records ip rs 0 None = (Some j, l) \<Longrightarrow> j < length rs \<and> tr_ip (rs ! j) = ip \<and> (\<forall>q < j. tr_ip (rs ! q) \<noteq> ip)"
  using scan_found [of ip rs 0 None j l] by simp

lemma scan_None: "fst (scan_records ip rs i lam) = None \<longleftrightarrow> ip \<notin> tr_ip ` set rs"
  by (induction rs arbitrary: i lam) auto

lemma lamer_trans: "\<not> lamer r l \<Longrightarrow> lamer r' l \<Longrightarrow> \<not> lamer r r'"
  by (auto simp: lamer_def)

text \<open>The saddest record is one, and no other record is sadder.\<close>

lemma scan_lamest:
  assumes "scan_records ip rs i lam = (None, Some (j, r))"
  shows "(lam = Some (j, r) \<or> i \<le> j \<and> j - i < length rs \<and> rs ! (j - i) = r) \<and>
    (\<forall>x \<in> set rs. \<not> lamer x r) \<and> (\<forall>p. lam = Some p \<longrightarrow> \<not> lamer (snd p) r)"
  using assms
proof (induction rs arbitrary: i lam)
  case (Cons x rs)
  let ?lam = "case lam of Some (j, lame) \<Rightarrow> if lamer x lame then Some (i, x) else lam | None \<Rightarrow> Some (i, x)"
  have "scan_records ip rs (Suc i) ?lam = (None, Some (j, r))"
    using Cons.prems by (simp split: if_splits)
  note IH = Cons.IH [OF this]
  have prev: "\<not> lamer (snd p) r" if "?lam = Some p" for p using IH that by blast
  have "(?lam = Some (j, r) \<longrightarrow> lam = Some (j, r) \<or> i = j \<and> x = r)"
    by (auto split: option.splits if_splits)
  moreover have "Suc i \<le> j \<longrightarrow> rs ! (j - Suc i) = (x # rs) ! (j - i)"
    by (metis Suc_diff_le diff_Suc_Suc nth_Cons_Suc)
  moreover have "\<not> lamer x r \<and> (\<forall>p. lam = Some p \<longrightarrow> \<not> lamer (snd p) r)"
  proof (cases lam)
    case (Some p)
    obtain k l where p: "p = (k, l)" by (cases p)
    then show ?thesis
      using prev Some by (cases "lamer x l") (auto dest: lamer_trans simp: lamer_def)
  next
    case None
    then show ?thesis using prev by simp
  qed
  moreover have "lam = Some (j, r) \<or> i \<le> j \<and> j - i < length (x # rs) \<and> (x # rs) ! (j - i) = r"
    using IH calculation(1,2) by (auto simp: Suc_le_eq)
  ultimately show ?case using IH by simp
qed (auto simp: lamer_def)

lemma scan_empty: "scan_records ip rs i lam = (None, None) \<longleftrightarrow> rs = [] \<and> lam = None"
  by (induction rs arbitrary: i lam) (auto split: option.splits)

section \<open>What a call does\<close>

text \<open>
  The outcome of a call: one record was rewritten, and the answer says whether it went over the
  limit. \<open>window_live\<close> tells whether the record of the address still counts.
\<close>

definition window_live :: "Throttler \<Rightarrow> ThrottlerRecord \<Rightarrow> instant \<Rightarrow> bool" where
  "window_live t r now \<longleftrightarrow> now < tr_expiration r \<and> now \<le> tr_creation r + th_max_tracking t"

definition tracks :: "Throttler \<Rightarrow> IpAddr \<Rightarrow> nat \<Rightarrow> bool" where
  "tracks t ip i \<longleftrightarrow> i < length (th_records t) \<and> tr_ip (th_records t ! i) = ip \<and>
     (\<forall>q < i. tr_ip (th_records t ! q) \<noteq> ip)"

lemma too_old_iff:
  "(case instant_checked_duration_since now c of Some d \<Rightarrow> m < d | None \<Rightarrow> False) \<longleftrightarrow> c + m < now"
  by (auto simp: instant_checked_duration_since_def)

lemma tracks_scan: "tracks t ip i \<Longrightarrow> \<exists>l. scan_records ip (th_records t) 0 None = (Some i, l)"
proof -
  assume tr: "tracks t ip i"
  then have "ip \<in> tr_ip ` set (th_records t)" by (auto simp: tracks_def)
  then obtain j l where s: "scan_records ip (th_records t) 0 None = (Some j, l)"
    using scan_None [of ip "th_records t" 0 None]
    by (cases "scan_records ip (th_records t) 0 None") (auto simp: fst_def)
  have "j = i"
    using scan_found_0 [OF s] tr unfolding tracks_def by (metis linorder_neqE_nat)
  with s show ?thesis by blast
qed

lemma set_record_simps [simp]:
  "th_rate_limit (set_record t i r) = th_rate_limit t" "th_period (set_record t i r) = th_period t"
  "th_naughty (set_record t i r) = th_naughty t" "th_max_tracking (set_record t i r) = th_max_tracking t"
  "th_records (set_record t i r) = (th_records t)[i := r]"
  by (simp_all add: set_record_def)

lemma instant_plus_ok [simp]: "t + d \<le> instant_max \<Longrightarrow> instant_plus t d = Ok (t + d)"
  by (simp add: instant_plus_def instant_checked_add_def)

lemma throttle_if_over_spec:
  assumes "now + th_naughty t \<le> instant_max"
  shows "throttle_if_over t i r now =
    Ok (set_record t i (r\<lparr>tr_expiration := (if th_rate_limit t < tr_packets r then now + th_naughty t else tr_expiration r)\<rparr>),
        th_rate_limit t < tr_packets r)"
  using assms by (simp add: throttle_if_over_def)

lemma check_tracked_live:
  assumes tr: "tracks t ip i" and r: "r = th_records t ! i" and live: "window_live t r now"
    and fits: "now + th_naughty t \<le> instant_max"
  shows "check_throttle t ip (Some now) (Some c) k k' =
    throttle_if_over t i (r\<lparr>tr_packets := saturating_packets (tr_packets r) c\<rparr>) now"
  using tracks_scan [OF tr] live r
  by (auto simp: check_throttle_def too_old_iff window_live_def Let_def)

lemma check_untracked:
  assumes new: "ip \<notin> tr_ip ` set (th_records t)" and ne: "th_records t \<noteq> []"
    and fits: "now + th_period t \<le> instant_max"
  obtains i r where "i < length (th_records t)" "r = th_records t ! i"
    "\<And>x. x \<in> set (th_records t) \<Longrightarrow> \<not> lamer x r"
    "check_throttle t ip (Some now) (Some c) k k' =
      throttle_if_over t i (r\<lparr>tr_packets := c, tr_expiration := now + th_period t, tr_ip := ip, tr_creation := now\<rparr>) now"
proof -
  obtain i r where s: "scan_records ip (th_records t) 0 None = (None, Some (i, r))"
    using scan_None [of ip "th_records t" 0 None] new ne scan_empty [of ip "th_records t" 0 None]
    by (cases "scan_records ip (th_records t) 0 None"; cases "snd (scan_records ip (th_records t) 0 None)") auto
  show thesis
    using scan_lamest [OF s] fits by (intro that [of i r]) (auto simp: check_throttle_def s)
qed

lemma saturating_packets_min: "saturating_packets a b = min usize_max (a + b)"
  by (auto simp: saturating_packets_def)

lemma tracks_set_record: "tracks t ip i \<Longrightarrow> tr_ip r = ip \<Longrightarrow> tracks (set_record t i r) ip i"
  by (auto simp: tracks_def)

definition same_config :: "Throttler \<Rightarrow> Throttler \<Rightarrow> bool" where
  "same_config t t' \<longleftrightarrow> th_rate_limit t' = th_rate_limit t \<and> th_period t' = th_period t \<and>
     th_naughty t' = th_naughty t \<and> th_max_tracking t' = th_max_tracking t \<and>
     length (th_records t') = length (th_records t)"

section \<open>One record per address\<close>

text \<open>Blank records carry the loopback address; every other address has at most one record.\<close>

definition unique_ips :: "Throttler \<Rightarrow> bool" where
  "unique_ips t \<longleftrightarrow> distinct (filter (\<lambda>ip. ip \<noteq> localhost_v4) (map tr_ip (th_records t)))"

lemma distinct_filter_update:
  assumes "distinct (filter P xs)" and "i < length xs" and "x = xs ! i \<or> x \<notin> set xs \<or> \<not> P x"
  shows "distinct (filter P (xs[i := x]))"
proof -
  have xs: "xs = take i xs @ xs ! i # drop (Suc i) xs" using assms(2) by (rule id_take_nth_drop)
  have "xs[i := x] = take i xs @ x # drop (Suc i) xs" using assms(2) by (rule upd_conv_take_nth_drop)
  moreover have "distinct (filter P (take i xs @ xs ! i # drop (Suc i) xs))" using assms(1) xs by simp
  moreover have "x = xs ! i \<or> \<not> P x \<or> x \<notin> set (take i xs) \<and> x \<notin> set (drop (Suc i) xs)"
    using assms(3) in_set_takeD in_set_dropD by metis
  ultimately show ?thesis by (auto split: if_splits)
qed

lemma unique_ips_set_record:
  assumes "unique_ips t" and "i < length (th_records t)"
    and "tr_ip r = tr_ip (th_records t ! i) \<or> tr_ip r \<notin> tr_ip ` set (th_records t) \<or> tr_ip r = localhost_v4"
  shows "unique_ips (set_record t i r)"
  using assms distinct_filter_update [of "\<lambda>ip. ip \<noteq> localhost_v4" "map tr_ip (th_records t)" i "tr_ip r"]
  by (auto simp: unique_ips_def map_update)

text \<open>
  What a call does to the records: it rewrites one, the record of the address if there is one and
  otherwise the saddest, which becomes the address's (or blank, when the record was too old) and
  has counted the \<open>n\<close> packets of the call.
\<close>

definition call_post :: "Throttler \<Rightarrow> IpAddr \<Rightarrow> nat \<Rightarrow> Throttler \<Rightarrow> bool" where
  "call_post t ip n t' \<longleftrightarrow> (\<exists>i r. i < length (th_records t) \<and> t' = set_record t i r \<and>
     (tr_ip r = localhost_v4 \<and> tr_packets r = 0 \<or> tr_ip r = ip \<and> min usize_max n \<le> tr_packets r) \<and>
     (if ip \<in> tr_ip ` set (th_records t)
      then tr_ip (th_records t ! i) = ip \<and> (tr_ip r = ip \<or> tr_ip r = localhost_v4)
      else tr_ip r = ip \<and> (\<forall>x \<in> set (th_records t). tr_packets (th_records t ! i) \<le> tr_packets x)))"

lemma throttle_if_over_total:
  assumes "now + th_naughty t \<le> instant_max"
  shows "\<exists>r' b. throttle_if_over t i r now = Ok (set_record t i r', b) \<and> tr_ip r' = tr_ip r \<and>
    tr_packets r' = tr_packets r"
  using throttle_if_over_spec [OF assms, of i r] by fastforce

lemma check_throttle_post:
  assumes ne: "th_records t \<noteq> []"
    and now: "now = (case now_opt of Some i \<Rightarrow> i | None \<Rightarrow> k)"
    and fits: "now + th_period t \<le> instant_max" "now + th_naughty t \<le> instant_max"
    and cnt: "cnt = (case c of Some c \<Rightarrow> c | None \<Rightarrow> 1)"
  shows "\<exists>t' b. check_throttle t ip now_opt c k k' = Ok (t', b) \<and> call_post t ip cnt t'"
proof -
  show ?thesis
  proof (cases "fst (scan_records ip (th_records t) 0 None)")
    case (Some i)
    then obtain l where s: "scan_records ip (th_records t) 0 None = (Some i, l)"
      by (cases "scan_records ip (th_records t) 0 None") auto
    note f = scan_found_0 [OF s]
    then have mem: "ip \<in> tr_ip ` set (th_records t)" by force
    define r where "r = th_records t ! i"
    have post: "call_post t ip cnt (set_record t i r')"
      if "tr_ip r' = localhost_v4 \<and> tr_packets r' = 0 \<or> tr_ip r' = ip \<and> min usize_max cnt \<le> tr_packets r'" for r'
      using f mem that unfolding call_post_def by auto
    consider "tr_creation r + th_max_tracking t < now"
      | "\<not> tr_creation r + th_max_tracking t < now" "now < tr_expiration r"
      | "\<not> tr_creation r + th_max_tracking t < now" "\<not> now < tr_expiration r" by blast
    then show ?thesis
    proof cases
      case 1
      then have "check_throttle t ip now_opt c k k' = Ok (set_record t i (tr_clear k' r), False)"
        by (simp add: check_throttle_def s too_old_iff r_def now)
      moreover have "call_post t ip cnt (set_record t i (tr_clear k' r))"
        by (rule post) (simp add: tr_clear_def)
      ultimately show ?thesis by blast
    next
      case 2
      then have "check_throttle t ip now_opt c k k' =
          throttle_if_over t i (r\<lparr>tr_packets := saturating_packets (tr_packets r) cnt\<rparr>) now"
        by (simp add: check_throttle_def s too_old_iff r_def now cnt Let_def)
      then show ?thesis
        using throttle_if_over_total [OF fits(2), of i "r\<lparr>tr_packets := saturating_packets (tr_packets r) cnt\<rparr>"] post f
        by (fastforce simp: r_def saturating_packets_min)
    next
      case 3
      then have "check_throttle t ip now_opt c k k' =
          throttle_if_over t i (r\<lparr>tr_packets := cnt, tr_expiration := now + th_period t\<rparr>) now"
        using fits(1) by (simp add: check_throttle_def s too_old_iff r_def now [symmetric] cnt Let_def)
      then show ?thesis
        using throttle_if_over_total [OF fits(2), of i "r\<lparr>tr_packets := cnt, tr_expiration := now + th_period t\<rparr>"] post f
        by (auto simp: r_def)
    qed
  next
    case None
    then have new: "ip \<notin> tr_ip ` set (th_records t)" by (simp add: scan_None)
    obtain i r where i: "i < length (th_records t)" "r = th_records t ! i"
      "\<And>x. x \<in> set (th_records t) \<Longrightarrow> \<not> lamer x r"
      "check_throttle t ip (Some now) (Some cnt) k k' =
        throttle_if_over t i (r\<lparr>tr_packets := cnt, tr_expiration := now + th_period t, tr_ip := ip, tr_creation := now\<rparr>) now"
      using check_untracked [OF new ne fits(1)] by blast
    have "check_throttle t ip now_opt c k k' = check_throttle t ip (Some now) (Some cnt) k k'"
      by (simp add: check_throttle_def now cnt)
    moreover have "call_post t ip cnt (set_record t i r')" if "tr_ip r' = ip" "tr_packets r' = cnt" for r'
    proof -
      have "\<forall>x \<in> set (th_records t). tr_packets (th_records t ! i) \<le> tr_packets x"
        using i(2,3) by (auto simp: lamer_def not_less [symmetric])
      then show ?thesis
        unfolding call_post_def using i(1) new that by (intro exI [of _ i] exI [of _ r']) simp
    qed
    ultimately show ?thesis
      using throttle_if_over_total [OF fits(2), of i "r\<lparr>tr_packets := cnt, tr_expiration := now + th_period t, tr_ip := ip, tr_creation := now\<rparr>"] i(4)
      by auto
  qed
qed

lemma call_post_unique: "unique_ips t \<Longrightarrow> call_post t ip n t' \<Longrightarrow> unique_ips t'"
  unfolding call_post_def by (auto intro!: unique_ips_set_record split: if_splits)

lemma call_post_config: "call_post t ip n t' \<Longrightarrow> same_config t t'"
  by (auto simp: call_post_def same_config_def)

section \<open>Several addresses at once\<close>

text \<open>A history of calls of any addresses: the address, the instant and the packet count given.\<close>

fun throttle_calls ::
  "Throttler \<Rightarrow> (IpAddr \<times> instant \<times> nat) list \<Rightarrow> (Throttler \<times> bool list) res" where
  "throttle_calls t [] = Ok (t, [])"
| "throttle_calls t ((ip, now, c) # calls) =
     res_bind (check_throttle t ip (Some now) (Some c) now now)
       (\<lambda>(t', b). res_bind (throttle_calls t' calls) (\<lambda>(t'', bs). Ok (t'', b # bs)))"

text \<open>The reference: all packets that an address sent in a history.\<close>

definition packets_of :: "IpAddr \<Rightarrow> (IpAddr \<times> instant \<times> nat) list \<Rightarrow> nat" where
  "packets_of ip calls = (\<Sum>(a, _, c) \<leftarrow> calls. if a = ip then c else 0)"

lemma packets_of_simps [simp]:
  "packets_of ip [] = 0"
  "packets_of ip ((a, now, c) # calls) = (if a = ip then c else 0) + packets_of ip calls"
  by (simp_all add: packets_of_def)

text \<open>
  Enough records: each is blank, with no packet counted, or belongs to one of the addresses
  \<open>A\<close>, of which there are no more than records.
\<close>

definition roomy :: "IpAddr set \<Rightarrow> Throttler \<Rightarrow> bool" where
  "roomy A t \<longleftrightarrow> unique_ips t \<and> finite A \<and> card A \<le> length (th_records t) \<and> localhost_v4 \<notin> A \<and>
     (\<forall>r \<in> set (th_records t). tr_ip r = localhost_v4 \<and> tr_packets r = 0 \<or> tr_ip r \<in> A \<and> 1 \<le> tr_packets r)"

text \<open>Then a new address finds a blank record.\<close>

lemma roomy_blank_left:
  assumes "roomy A t" and "ip \<in> A" and "ip \<notin> tr_ip ` set (th_records t)"
  shows "\<exists>x \<in> set (th_records t). tr_packets x = 0"
proof (rule ccontr)
  assume none: "\<not> (\<exists>x \<in> set (th_records t). tr_packets x = 0)"
  let ?ips = "map tr_ip (th_records t)"
  have sub: "set ?ips \<subseteq> A - {ip}" using none assms(1,3) by (fastforce simp: roomy_def)
  then have "filter (\<lambda>ip. ip \<noteq> localhost_v4) ?ips = ?ips"
    using assms(1) by (intro filter_True) (auto simp: roomy_def)
  then have "distinct ?ips" using assms(1) by (simp add: roomy_def unique_ips_def)
  then have "length (th_records t) = card (set ?ips)" by (metis distinct_card length_map)
  also have "\<dots> \<le> card (A - {ip})" using sub assms(1) by (intro card_mono) (auto simp: roomy_def)
  also have "\<dots> < card A" using assms(1,2) by (intro card_Diff1_less) (auto simp: roomy_def)
  finally show False using assms(1) by (simp add: roomy_def)
qed

text \<open>A call for an address leaves the records of all other addresses alone.\<close>

lemma roomy_call:
  assumes room: "roomy A t" and ip: "ip \<in> A" and n: "1 \<le> n"
    and post: "call_post t ip n t'"
  shows "roomy A t'"
    and "a \<in> A \<Longrightarrow> a \<noteq> ip \<Longrightarrow> tracks t a j \<Longrightarrow> tracks t' a j \<and> th_records t' ! j = th_records t ! j"
    and "a \<in> A \<Longrightarrow> a \<noteq> ip \<Longrightarrow> a \<notin> tr_ip ` set (th_records t) \<Longrightarrow> a \<notin> tr_ip ` set (th_records t')"
proof -
  obtain i r where i: "i < length (th_records t)" "t' = set_record t i r"
    and r: "tr_ip r = localhost_v4 \<and> tr_packets r = 0 \<or> tr_ip r = ip \<and> min usize_max n \<le> tr_packets r"
    and victim: "if ip \<in> tr_ip ` set (th_records t)
      then tr_ip (th_records t ! i) = ip \<and> (tr_ip r = ip \<or> tr_ip r = localhost_v4)
      else tr_ip r = ip \<and> (\<forall>x \<in> set (th_records t). tr_packets (th_records t ! i) \<le> tr_packets x)"
    using post unfolding call_post_def by blast
  have one: "1 \<le> min usize_max n" using n by (simp add: usize_max_def)
  have old: "tr_ip (th_records t ! i) = ip \<or> tr_ip (th_records t ! i) = localhost_v4"
  proof (cases "ip \<in> tr_ip ` set (th_records t)")
    case False
    then obtain x where "x \<in> set (th_records t)" "tr_packets x = 0"
      using roomy_blank_left [OF room ip] by blast
    then have "tr_packets (th_records t ! i) = 0" using victim False by fastforce
    moreover have "th_records t ! i \<in> set (th_records t)" using i(1) by simp
    ultimately show ?thesis using room by (fastforce simp: roomy_def)
  qed (use victim in simp)
  have "unique_ips t'" using room post by (auto simp: roomy_def intro: call_post_unique)
  then show "roomy A t'"
    using room i r one ip by (auto simp: roomy_def dest!: subsetD [OF set_update_subset_insert])
  show "tracks t' a j \<and> th_records t' ! j = th_records t ! j"
    if "a \<in> A" "a \<noteq> ip" "tracks t a j"
  proof -
    have a: "a \<noteq> localhost_v4" using room that(1) by (auto simp: roomy_def)
    have "i \<noteq> j" using old that(2,3) a by (auto simp: tracks_def)
    then show ?thesis using that i r a by (auto simp: tracks_def nth_list_update)
  qed
  show "a \<notin> tr_ip ` set (th_records t')" if "a \<in> A" "a \<noteq> ip" "a \<notin> tr_ip ` set (th_records t)"
    using that i r room by (auto simp: roomy_def dest!: subsetD [OF set_update_subset_insert])
qed

text \<open>What a history must satisfy: at least one packet per call, and deadlines the clock can hold.\<close>

definition callable :: "Throttler \<Rightarrow> IpAddr set \<Rightarrow> (IpAddr \<times> instant \<times> nat) list \<Rightarrow> bool" where
  "callable t A calls \<longleftrightarrow> (\<forall>(a, now, c) \<in> set calls. a \<in> A \<and> 1 \<le> c \<and> c \<le> usize_max \<and>
     now + th_period t \<le> instant_max \<and> now + th_naughty t \<le> instant_max)"

text \<open>The record of \<open>ip\<close> holds the count \<open>acc\<close> of a window that is open until \<open>e\<close>.\<close>

definition counting :: "Throttler \<Rightarrow> IpAddr \<Rightarrow> instant \<Rightarrow> instant \<Rightarrow> nat \<Rightarrow> bool" where
  "counting t ip t0 e acc \<longleftrightarrow> (\<exists>i. tracks t ip i \<and> tr_creation (th_records t ! i) = t0 \<and>
     e \<le> tr_expiration (th_records t ! i) \<and> tr_packets (th_records t ! i) = min usize_max acc)"

lemma counting_call:
  assumes "counting t ip t0 e acc" and "e \<le> now + th_naughty t" and "e \<le> t0 + th_max_tracking t"
    and "now < e" and "th_rate_limit t < usize_max" and "now + th_naughty t \<le> instant_max"
  shows "\<exists>t'. check_throttle t ip (Some now) (Some c) k k' = Ok (t', th_rate_limit t < acc + c) \<and>
    counting t' ip t0 e (acc + c)"
proof -
  obtain i where tr: "tracks t ip i" and rec: "tr_creation (th_records t ! i) = t0"
    "e \<le> tr_expiration (th_records t ! i)" "tr_packets (th_records t ! i) = min usize_max acc"
    using assms(1) by (auto simp: counting_def)
  define r where "r = th_records t ! i"
  define r1 where "r1 = r\<lparr>tr_packets := saturating_packets (tr_packets r) c\<rparr>"
  define over where "over \<longleftrightarrow> th_rate_limit t < tr_packets r1"
  define t1 where "t1 = set_record t i (r1\<lparr>tr_expiration := (if over then now + th_naughty t else tr_expiration r1)\<rparr>)"
  have live: "window_live t r now" using assms(2-4) rec by (auto simp: window_live_def r_def)
  have step: "check_throttle t ip (Some now) (Some c) k k' = Ok (t1, over)"
    using check_tracked_live [OF tr r_def live assms(6)] throttle_if_over_spec [OF assms(6)]
    by (simp add: r1_def t1_def over_def)
  have i: "i < length (th_records t)" "tr_ip r = ip" using tr by (auto simp: tracks_def r_def)
  have pk: "tr_packets r1 = min usize_max (acc + c)"
    using rec(3) by (simp add: r1_def saturating_packets_min flip: r_def)
  have "tracks t1 ip i" unfolding t1_def using tr i(2) by (intro tracks_set_record) (simp_all add: r1_def)
  then have "counting t1 ip t0 e (acc + c)"
    unfolding counting_def using i rec assms(2) pk
    by (intro exI [of _ i]) (auto simp: t1_def r1_def r_def)
  moreover have "over \<longleftrightarrow> th_rate_limit t < acc + c" using pk assms(5) by (auto simp: over_def)
  ultimately show ?thesis using step by auto
qed

lemma counting_starts:
  assumes "ip \<notin> tr_ip ` set (th_records t)" and "th_records t \<noteq> []" and "c \<le> usize_max"
    and "th_period t \<le> th_naughty t"
    and "now + th_period t \<le> instant_max" and "now + th_naughty t \<le> instant_max"
  shows "\<exists>t'. check_throttle t ip (Some now) (Some c) k k' = Ok (t', th_rate_limit t < c) \<and>
    counting t' ip now (now + th_period t) c"
proof -
  obtain i r where i: "i < length (th_records t)" "check_throttle t ip (Some now) (Some c) k k' =
      throttle_if_over t i (r\<lparr>tr_packets := c, tr_expiration := now + th_period t, tr_ip := ip, tr_creation := now\<rparr>) now"
    using check_untracked [OF assms(1,2,5)] by blast
  define r' where "r' = r\<lparr>tr_packets := c,
    tr_expiration := (if th_rate_limit t < c then now + th_naughty t else now + th_period t), tr_ip := ip, tr_creation := now\<rparr>"
  have "check_throttle t ip (Some now) (Some c) k k' = Ok (set_record t i r', th_rate_limit t < c)"
    using i(2) throttle_if_over_spec [OF assms(6)] by (cases r) (simp add: r'_def)
  moreover have "tr_ip (th_records t ! q) \<noteq> ip" if "q < i" for q
  proof -
    have "th_records t ! q \<in> set (th_records t)" using that i(1) by simp
    then show ?thesis using assms(1) by blast
  qed
  then have "tracks (set_record t i r') ip i" using i(1) by (auto simp: tracks_def r'_def)
  then have "counting (set_record t i r') ip now (now + th_period t) c"
    unfolding counting_def using i(1) assms(3,4) by (intro exI [of _ i]) (simp add: r'_def)
  ultimately show ?thesis by blast
qed

text \<open>
  One call in a history: it succeeds, leaves room and configuration, and keeps what is known of
  another address.
\<close>

lemma history_call:
  assumes "roomy A t" and "callable t A ((a, now, c) # calls)"
  shows "\<exists>t' b. check_throttle t a (Some now) (Some c) now now = Ok (t', b) \<and> roomy A t' \<and>
    same_config t t' \<and> callable t' A calls \<and>
    (ip \<in> A \<and> ip \<noteq> a \<longrightarrow> (counting t ip t0 e acc \<longrightarrow> counting t' ip t0 e acc) \<and>
       (ip \<notin> tr_ip ` set (th_records t) \<longrightarrow> ip \<notin> tr_ip ` set (th_records t')))"
proof -
  have c: "a \<in> A" "1 \<le> c" "now + th_period t \<le> instant_max" "now + th_naughty t \<le> instant_max"
    using assms(2) by (auto simp: callable_def)
  have "0 < card A" using assms(1) c(1) by (auto simp: roomy_def card_gt_0_iff)
  then have "th_records t \<noteq> []" using assms(1) by (auto simp: roomy_def)
  then obtain t' b where t': "check_throttle t a (Some now) (Some c) now now = Ok (t', b)" "call_post t a c t'"
    using check_throttle_post [where t = t and now = now and now_opt = "Some now" and c = "Some c" and cnt = c] c
    by fastforce
  note room = roomy_call [OF assms(1) c(1,2) t'(2)]
  have "same_config t t'" using t'(2) by (rule call_post_config)
  moreover from this have "callable t' A calls" using assms(2) by (simp add: callable_def same_config_def)
  moreover have "counting t' ip t0 e acc" if "counting t ip t0 e acc" "ip \<in> A" "ip \<noteq> a"
    using that room(2) [of ip] by (fastforce simp: counting_def)
  ultimately show ?thesis using t'(1) room(1,3) by blast
qed

text \<open>The answers an address gets, from an open window and from the start.\<close>

definition answers_count :: "IpAddr \<Rightarrow> nat \<Rightarrow> nat \<Rightarrow> (IpAddr \<times> instant \<times> nat) list \<Rightarrow> bool list \<Rightarrow> bool" where
  "answers_count ip limit acc calls bs \<longleftrightarrow> length bs = length calls \<and>
     (\<forall>k < length calls. fst (calls ! k) = ip \<longrightarrow> (bs ! k \<longleftrightarrow> limit < acc + packets_of ip (take (Suc k) calls)))"

lemma answers_count_Cons:
  "answers_count ip limit acc ((a, now, c) # calls) (b # bs) \<longleftrightarrow>
     (a = ip \<longrightarrow> (b \<longleftrightarrow> limit < acc + c)) \<and>
     answers_count ip limit (acc + (if a = ip then c else 0)) calls bs"
  by (auto simp: answers_count_def less_Suc_eq_0_disj add.assoc)

lemma counting_run:
  assumes "roomy A t" and "callable t A calls" and "ip \<in> A" and "counting t ip t0 e acc"
    and "e \<le> t0 + th_naughty t" and "e \<le> t0 + th_max_tracking t" and "th_rate_limit t < usize_max"
    and "\<forall>(a, now, c) \<in> set calls. a = ip \<longrightarrow> t0 \<le> now \<and> now < e"
  shows "\<exists>t' bs. throttle_calls t calls = Ok (t', bs) \<and> answers_count ip (th_rate_limit t) acc calls bs"
  using assms
proof (induction calls arbitrary: t acc)
  case (Cons call calls)
  obtain a now c where call: "call = (a, now, c)" by (cases call)
  obtain t' b where t': "check_throttle t a (Some now) (Some c) now now = Ok (t', b)" "roomy A t'"
    "same_config t t'" "callable t' A calls" and other: "ip \<noteq> a \<longrightarrow> counting t' ip t0 e acc"
    using history_call [OF Cons.prems(1), of a now c calls ip t0 e acc] Cons.prems(2,3,4) call by blast
  have "b = (th_rate_limit t < acc + c) \<and> counting t' ip t0 e (acc + c)" if "a = ip"
  proof -
    have "t0 \<le> now" "now < e" "now + th_naughty t \<le> instant_max"
      using Cons.prems(2,8) that call by (auto simp: callable_def)
    then show ?thesis
      using counting_call [OF Cons.prems(4), of now c now now] Cons.prems(5-7) t'(1) that by auto
  qed
  then have count: "counting t' ip t0 e (acc + (if a = ip then c else 0))"
    and b: "a = ip \<longrightarrow> b = (th_rate_limit t < acc + c)"
    using other by auto
  have "\<exists>t'' bs. throttle_calls t' calls = Ok (t'', bs) \<and>
      answers_count ip (th_rate_limit t') (acc + (if a = ip then c else 0)) calls bs"
    using Cons.IH [OF t'(2,4) Cons.prems(3) count] Cons.prems(5-8) t'(3) by (auto simp: same_config_def)
  then obtain t'' bs where "throttle_calls t' calls = Ok (t'', bs)"
    "answers_count ip (th_rate_limit t) (acc + (if a = ip then c else 0)) calls bs"
    using t'(3) by (auto simp: same_config_def)
  then show ?case using t'(1) b by (auto simp: call answers_count_Cons intro!: exI [of _ "b # bs"])
qed (simp add: answers_count_def)

lemma history_run:
  assumes "roomy A t" and "callable t A calls" and "ip \<in> A" and "ip \<notin> tr_ip ` set (th_records t)"
    and "th_period t \<le> th_naughty t" and "th_period t \<le> th_max_tracking t" and "th_rate_limit t < usize_max"
    and "filter (\<lambda>(a, _). a = ip) calls = (ip, t0, c0) # window"
    and "\<forall>(_, now, _) \<in> set window. t0 \<le> now \<and> now < t0 + th_period t"
  shows "\<exists>t' bs. throttle_calls t calls = Ok (t', bs) \<and> answers_count ip (th_rate_limit t) 0 calls bs"
  using assms
proof (induction calls arbitrary: t)
  case (Cons call calls)
  obtain a now c where call: "call = (a, now, c)" by (cases call)
  obtain t' b where t': "check_throttle t a (Some now) (Some c) now now = Ok (t', b)" "roomy A t'"
    "same_config t t'" "callable t' A calls" and other: "ip \<noteq> a \<longrightarrow> ip \<notin> tr_ip ` set (th_records t')"
    using history_call [OF Cons.prems(1), of a now c calls ip] Cons.prems(2,3,4) call by blast
  have cfg: "th_rate_limit t' = th_rate_limit t" "th_period t' = th_period t"
    "th_naughty t' = th_naughty t" "th_max_tracking t' = th_max_tracking t"
    using t'(3) by (simp_all add: same_config_def)
  show ?case
  proof (cases "a = ip")
    case True
    then have first: "now = t0" "c = c0" "filter (\<lambda>(a, _). a = ip) calls = window"
      using Cons.prems(8) call by auto
    have "0 < card A" using Cons.prems(1,3) by (auto simp: roomy_def card_gt_0_iff)
    then have "th_records t \<noteq> []" using Cons.prems(1) by (auto simp: roomy_def)
    moreover have "c \<le> usize_max" "now + th_period t \<le> instant_max" "now + th_naughty t \<le> instant_max"
      using Cons.prems(2) call by (auto simp: callable_def)
    ultimately have b: "b = (th_rate_limit t < c)" and count: "counting t' ip t0 (t0 + th_period t) c"
      using counting_starts [of ip t c now now now] Cons.prems(4,5) t'(1) True first by auto
    have "\<forall>(a, now, c) \<in> set calls. a = ip \<longrightarrow> t0 \<le> now \<and> now < t0 + th_period t"
      using Cons.prems(9) first(3) by (force simp flip: first(3))
    then have "\<exists>t'' bs. throttle_calls t' calls = Ok (t'', bs) \<and> answers_count ip (th_rate_limit t') c calls bs"
      by (intro counting_run [OF t'(2,4) Cons.prems(3) count]) (use Cons.prems(5-7) cfg in auto)
    then show ?thesis
      using t'(1) b cfg True by (auto simp: call answers_count_Cons intro!: exI [of _ "b # bs"])
  next
    case False
    then have "\<exists>t'' bs. throttle_calls t' calls = Ok (t'', bs) \<and> answers_count ip (th_rate_limit t') 0 calls bs"
      by (intro Cons.IH [OF t'(2,4) Cons.prems(3)]) (use Cons.prems(5-9) cfg call other in auto)
    then show ?thesis
      using t'(1) cfg False by (auto simp: call answers_count_Cons intro!: exI [of _ "b # bs"])
  qed
qed simp

section \<open>Properties\<close>

definition sample_throttler :: Throttler where
  "sample_throttler = throttler_new 2 3 10 30 100 0"

lemma sample_throttler_simps:
  "th_records sample_throttler = [tr_default 0, tr_default 0]" "th_rate_limit sample_throttler = 3"
  "th_period sample_throttler = 10" "th_naughty sample_throttler = 30" "th_max_tracking sample_throttler = 100"
  "tr_ip (tr_default t) = localhost_v4"
  by (simp_all add: sample_throttler_def throttler_new_def numeral_2_eq_2 tr_default_def)


text \<open>
  C31. The rate limit. A throttler with a record for each of the addresses that call it, whose calls
  may interleave in any way, answers an address as if it were alone: for all its calls within the
  counting period that its first call opens, the answer is "throttled" exactly when the packets it has
  sent so far, this call's included, exceed the limit; saturation of the counter never changes an
  answer. The period must not exceed the naughty timeout nor the tracking time. The bound on the
  number of addresses is needed: when more of them are active than there are records (32 by
  default), a new one takes over the record with the fewest packets and the address that had it
  starts counting again from nothing. The blank record's address is the loopback address, which
  must not be a caller.
\<close>

theorem throttle_counts_window:
  assumes "card (fst ` set calls) \<le> n" and "localhost_v4 \<notin> fst ` set calls"
    and "\<forall>(_, now, c) \<in> set calls. 1 \<le> c \<and> c \<le> usize_max \<and> now + period \<le> instant_max \<and> now + naughty \<le> instant_max"
    and "period \<le> naughty" and "period \<le> max_tracking" and "limit < usize_max"
    and "filter (\<lambda>(a, _). a = ip) calls = (ip, t0, c0) # window"
    and "\<forall>(_, now, _) \<in> set window. t0 \<le> now \<and> now < t0 + period"
  shows "\<exists>t' bs. throttle_calls (throttler_new n limit period naughty max_tracking start) calls = Ok (t', bs) \<and>
    length bs = length calls \<and>
    (\<forall>k < length calls. fst (calls ! k) = ip \<longrightarrow> (bs ! k \<longleftrightarrow> limit < packets_of ip (take (Suc k) calls)))"
proof -
  let ?t = "throttler_new n limit period naughty max_tracking start"
  have "(ip, t0, c0) \<in> set (filter (\<lambda>(a, _). a = ip) calls)" unfolding assms(7) by simp
  then have ip: "ip \<in> fst ` set calls" by force
  have "roomy (fst ` set calls) ?t"
    using assms(1,2) by (simp add: roomy_def throttler_new_def tr_default_def unique_ips_def)
  moreover have "callable ?t (fst ` set calls) calls"
    using assms(3) by (force simp: callable_def throttler_new_def)
  moreover from assms(2) ip have "ip \<noteq> localhost_v4" by metis
  then have "ip \<notin> tr_ip ` set (th_records ?t)" by (auto simp: throttler_new_def tr_default_def)
  ultimately have "\<exists>t' bs. throttle_calls ?t calls = Ok (t', bs) \<and> answers_count ip (th_rate_limit ?t) 0 calls bs"
    by (intro history_run [OF _ _ ip _ _ _ _ assms(7)]) (use assms in \<open>simp_all add: throttler_new_def\<close>)
  then show ?thesis by (auto simp: answers_count_def throttler_new_def)
qed

theorem throttle_counts_window_witness:
  "\<exists>t' b0 b1 b2 b3. throttle_calls (throttler_new 2 3 10 30 100 0)
     [(IpV4 (Ipv4Addr 1 2 3 4), 5, 2), (IpV4 (Ipv4Addr 5 6 7 8), 5, 9), (IpV4 (Ipv4Addr 1 2 3 4), 6, 1),
      (IpV4 (Ipv4Addr 1 2 3 4), 9, 1)] = Ok (t', [b0, b1, b2, b3]) \<and> \<not> b0 \<and> \<not> b2 \<and> b3"
proof -
  let ?ip = "IpV4 (Ipv4Addr 1 2 3 4)"
  let ?calls = "[(?ip, 5, 2), (IpV4 (Ipv4Addr 5 6 7 8), 5, 9), (?ip, 6, 1), (?ip, 9, 1)] :: (IpAddr \<times> instant \<times> nat) list"
  have "\<exists>t' bs. throttle_calls (throttler_new 2 3 10 30 100 0) ?calls = Ok (t', bs) \<and> length bs = length ?calls \<and>
    (\<forall>k < length ?calls. fst (?calls ! k) = ?ip \<longrightarrow> (bs ! k \<longleftrightarrow> 3 < packets_of ?ip (take (Suc k) ?calls)))"
    by (rule throttle_counts_window [where window = "[(?ip, 6, 1), (?ip, 9, 1)]" and ?c0.0 = 2 and ?t0.0 = 5])
      (simp_all add: usize_max_def instant_max_def nanos_per_sec_def localhost_v4_def insert_commute)
  then obtain t' bs where run: "throttle_calls (throttler_new 2 3 10 30 100 0) ?calls = Ok (t', bs)"
    and len: "length bs = 4"
    and ans: "\<And>k. k < 4 \<Longrightarrow> fst (?calls ! k) = ?ip \<Longrightarrow> bs ! k \<longleftrightarrow> 3 < packets_of ?ip (take (Suc k) ?calls)"
    by auto
  obtain b0 b1 b2 b3 where bs: "bs = [b0, b1, b2, b3]" using len by (auto simp: eval_nat_numeral length_Suc_conv)
  have "\<not> b0" "\<not> b2" "b3" using ans [of 0] ans [of 2] ans [of 3] by (simp_all add: bs)
  then show ?thesis using run bs by blast
qed

text \<open>
  C32. A call never panics while the clock can represent its deadlines and there is a record; it
  changes one record, keeps the number of records and the configuration, and never leaves two
  records for one address other than the blank one. A new address takes over a record with the
  fewest packets, so an address that is being throttled is only forgotten when no record has fewer.
\<close>

theorem check_throttle_contract:
  assumes "th_records t \<noteq> []" and "unique_ips t"
    and "now + th_period t \<le> instant_max" and "now + th_naughty t \<le> instant_max"
  shows "\<exists>t' b. check_throttle t ip (Some now) c k k' = Ok (t', b) \<and> same_config t t' \<and> unique_ips t' \<and>
    (\<exists>i < length (th_records t). \<exists>r. th_records t' = (th_records t)[i := r] \<and>
       (if ip \<in> tr_ip ` set (th_records t) then tr_ip (th_records t ! i) = ip
        else \<forall>x \<in> set (th_records t). tr_packets (th_records t ! i) \<le> tr_packets x))"
proof -
  obtain t' b where c: "check_throttle t ip (Some now) c k k' = Ok (t', b)" and post: "call_post t ip (case c of Some c \<Rightarrow> c | None \<Rightarrow> 1) t'"
    using check_throttle_post [OF assms(1) _ assms(3,4) refl, where now_opt = "Some now"] by fastforce
  have "same_config t t' \<and> unique_ips t'"
    using post assms(2) by (simp add: call_post_config call_post_unique)
  moreover have "\<exists>i < length (th_records t). \<exists>r. th_records t' = (th_records t)[i := r] \<and>
       (if ip \<in> tr_ip ` set (th_records t) then tr_ip (th_records t ! i) = ip
        else \<forall>x \<in> set (th_records t). tr_packets (th_records t ! i) \<le> tr_packets x)"
    using post unfolding call_post_def by (metis set_record_simps(5))
  ultimately show ?thesis using c by blast
qed

theorem check_throttle_contract_witness:
  "\<exists>t' b. check_throttle sample_throttler (IpV4 (Ipv4Addr 1 2 3 4)) (Some 7) None 7 7 = Ok (t', b) \<and>
     length (th_records t') = 2"
proof -
  have hyp: "th_records sample_throttler \<noteq> []" "unique_ips sample_throttler"
    "7 + th_period sample_throttler \<le> instant_max" "7 + th_naughty sample_throttler \<le> instant_max"
    and len: "length (th_records sample_throttler) = 2"
    by (simp_all add: sample_throttler_simps unique_ips_def instant_max_def nanos_per_sec_def)
  obtain t' b where "check_throttle sample_throttler (IpV4 (Ipv4Addr 1 2 3 4)) (Some 7) None 7 7 = Ok (t', b)"
    "same_config sample_throttler t'"
    using check_throttle_contract [OF hyp] by metis
  then show ?thesis using len by (simp add: same_config_def)
qed

end
