(* ===== verification/Dht_Settings.thy ===== *)
theory Dht_Settings
  imports Dht_Throttler Dht_IpSource Dht_Nodes
begin

text \<open>
  \<open>src/dht/dht_settings.rs\<close>: the configuration of a DHT node, its defaults and its builder, and
  \<open>src/dht/builder.rs\<close>, the builder of the node itself. An \<open>i32\<close> setting is an \<open>int\<close>, a \<open>u64\<close> or \<open>usize\<close>
  setting a \<open>nat\<close>.
\<close>

section \<open>Settings\<close>

record DHTSettings =
  cfg_token_secret_size :: nat
  cfg_max_peers_response :: nat
  cfg_max_sample_response :: nat
  cfg_min_sample_interval_secs :: int
  cfg_router_ping_interval_secs :: nat
  cfg_reverify_interval_secs :: nat
  cfg_reverify_grace_period_secs :: nat
  cfg_verify_grace_period_secs :: nat
  cfg_get_peers_freshness_secs :: nat
  cfg_find_nodes_interval_secs :: nat
  cfg_find_nodes_skip_count :: nat
  cfg_max_torrents :: nat
  cfg_max_peers_per_torrent :: nat
  cfg_ping_check_interval_secs :: nat
  cfg_outgoing_request_prune_secs :: nat
  cfg_outgoing_reqiest_check_interval_secs :: nat
  cfg_read_only :: bool
  cfg_routers :: "string list"
  cfg_throttle_packet_count :: nat
  cfg_throttle_period_secs :: nat
  cfg_throttle_naughty_timeout_secs :: nat
  cfg_throttle_max_tracking_secs :: nat

definition default_settings :: DHTSettings where
  "default_settings =
     \<lparr>cfg_token_secret_size = 10,
      cfg_max_peers_response = 128,
      cfg_max_sample_response = 50,
      cfg_min_sample_interval_secs = 10,
      cfg_router_ping_interval_secs = 900,
      cfg_reverify_interval_secs = 14 * 60,
      cfg_reverify_grace_period_secs = 15 * 60,
      cfg_verify_grace_period_secs = 60,
      cfg_get_peers_freshness_secs = 15 * 60,
      cfg_find_nodes_interval_secs = 33,
      cfg_find_nodes_skip_count = 32,
      cfg_max_torrents = 50,
      cfg_max_peers_per_torrent = 100,
      cfg_ping_check_interval_secs = 10,
      cfg_outgoing_request_prune_secs = 30,
      cfg_outgoing_reqiest_check_interval_secs = 30,
      cfg_read_only = False,
      cfg_routers = [''router.bittorrent.com:6881'', ''router.utorrent.com:6881'', ''dht.transmissionbt.com:6881''],
      cfg_throttle_packet_count = 10,
      cfg_throttle_period_secs = 6,
      cfg_throttle_naughty_timeout_secs = 60,
      cfg_throttle_max_tracking_secs = 86400\<rparr>"

text \<open>\<open>DHTSettingsBuilder\<close> holds the settings being built; one method for each property.\<close>

record DHTSettingsBuilder =
  sb_settings :: DHTSettings

definition settings_builder_new :: DHTSettingsBuilder where
  "settings_builder_new = \<lparr>sb_settings = default_settings\<rparr>"

definition with_token_secret_size :: "nat \<Rightarrow> DHTSettingsBuilder \<Rightarrow> DHTSettingsBuilder" where
  "with_token_secret_size v b = b\<lparr>sb_settings := (sb_settings b)\<lparr>cfg_token_secret_size := v\<rparr>\<rparr>"

definition with_max_peers_response :: "nat \<Rightarrow> DHTSettingsBuilder \<Rightarrow> DHTSettingsBuilder" where
  "with_max_peers_response v b = b\<lparr>sb_settings := (sb_settings b)\<lparr>cfg_max_peers_response := v\<rparr>\<rparr>"

definition with_max_sample_response :: "nat \<Rightarrow> DHTSettingsBuilder \<Rightarrow> DHTSettingsBuilder" where
  "with_max_sample_response v b = b\<lparr>sb_settings := (sb_settings b)\<lparr>cfg_max_sample_response := v\<rparr>\<rparr>"

definition with_min_sample_interval_secs :: "int \<Rightarrow> DHTSettingsBuilder \<Rightarrow> DHTSettingsBuilder" where
  "with_min_sample_interval_secs v b = b\<lparr>sb_settings := (sb_settings b)\<lparr>cfg_min_sample_interval_secs := v\<rparr>\<rparr>"

definition with_router_ping_interval_secs :: "nat \<Rightarrow> DHTSettingsBuilder \<Rightarrow> DHTSettingsBuilder" where
  "with_router_ping_interval_secs v b = b\<lparr>sb_settings := (sb_settings b)\<lparr>cfg_router_ping_interval_secs := v\<rparr>\<rparr>"

definition with_reverify_interval_secs :: "nat \<Rightarrow> DHTSettingsBuilder \<Rightarrow> DHTSettingsBuilder" where
  "with_reverify_interval_secs v b = b\<lparr>sb_settings := (sb_settings b)\<lparr>cfg_reverify_interval_secs := v\<rparr>\<rparr>"

definition with_reverify_grace_period_secs :: "nat \<Rightarrow> DHTSettingsBuilder \<Rightarrow> DHTSettingsBuilder" where
  "with_reverify_grace_period_secs v b = b\<lparr>sb_settings := (sb_settings b)\<lparr>cfg_reverify_grace_period_secs := v\<rparr>\<rparr>"

definition with_verify_grace_period_secs :: "nat \<Rightarrow> DHTSettingsBuilder \<Rightarrow> DHTSettingsBuilder" where
  "with_verify_grace_period_secs v b = b\<lparr>sb_settings := (sb_settings b)\<lparr>cfg_verify_grace_period_secs := v\<rparr>\<rparr>"

definition with_get_peers_freshness_secs :: "nat \<Rightarrow> DHTSettingsBuilder \<Rightarrow> DHTSettingsBuilder" where
  "with_get_peers_freshness_secs v b = b\<lparr>sb_settings := (sb_settings b)\<lparr>cfg_get_peers_freshness_secs := v\<rparr>\<rparr>"

definition with_find_nodes_interval_secs :: "nat \<Rightarrow> DHTSettingsBuilder \<Rightarrow> DHTSettingsBuilder" where
  "with_find_nodes_interval_secs v b = b\<lparr>sb_settings := (sb_settings b)\<lparr>cfg_find_nodes_interval_secs := v\<rparr>\<rparr>"

definition with_find_nodes_skip_count :: "nat \<Rightarrow> DHTSettingsBuilder \<Rightarrow> DHTSettingsBuilder" where
  "with_find_nodes_skip_count v b = b\<lparr>sb_settings := (sb_settings b)\<lparr>cfg_find_nodes_skip_count := v\<rparr>\<rparr>"

definition with_max_torrents :: "nat \<Rightarrow> DHTSettingsBuilder \<Rightarrow> DHTSettingsBuilder" where
  "with_max_torrents v b = b\<lparr>sb_settings := (sb_settings b)\<lparr>cfg_max_torrents := v\<rparr>\<rparr>"

definition with_max_peers_per_torrent :: "nat \<Rightarrow> DHTSettingsBuilder \<Rightarrow> DHTSettingsBuilder" where
  "with_max_peers_per_torrent v b = b\<lparr>sb_settings := (sb_settings b)\<lparr>cfg_max_peers_per_torrent := v\<rparr>\<rparr>"

definition with_ping_check_interval_secs :: "nat \<Rightarrow> DHTSettingsBuilder \<Rightarrow> DHTSettingsBuilder" where
  "with_ping_check_interval_secs v b = b\<lparr>sb_settings := (sb_settings b)\<lparr>cfg_ping_check_interval_secs := v\<rparr>\<rparr>"

definition with_outgoing_request_prune_secs :: "nat \<Rightarrow> DHTSettingsBuilder \<Rightarrow> DHTSettingsBuilder" where
  "with_outgoing_request_prune_secs v b = b\<lparr>sb_settings := (sb_settings b)\<lparr>cfg_outgoing_request_prune_secs := v\<rparr>\<rparr>"

definition with_outgoing_reqiest_check_interval_secs :: "nat \<Rightarrow> DHTSettingsBuilder \<Rightarrow> DHTSettingsBuilder" where
  "with_outgoing_reqiest_check_interval_secs v b = b\<lparr>sb_settings := (sb_settings b)\<lparr>cfg_outgoing_reqiest_check_interval_secs := v\<rparr>\<rparr>"

definition with_read_only :: "bool \<Rightarrow> DHTSettingsBuilder \<Rightarrow> DHTSettingsBuilder" where
  "with_read_only v b = b\<lparr>sb_settings := (sb_settings b)\<lparr>cfg_read_only := v\<rparr>\<rparr>"

definition with_routers :: "string list \<Rightarrow> DHTSettingsBuilder \<Rightarrow> DHTSettingsBuilder" where
  "with_routers v b = b\<lparr>sb_settings := (sb_settings b)\<lparr>cfg_routers := v\<rparr>\<rparr>"

definition with_throttle_packet_count :: "nat \<Rightarrow> DHTSettingsBuilder \<Rightarrow> DHTSettingsBuilder" where
  "with_throttle_packet_count v b = b\<lparr>sb_settings := (sb_settings b)\<lparr>cfg_throttle_packet_count := v\<rparr>\<rparr>"

definition with_throttle_period_secs :: "nat \<Rightarrow> DHTSettingsBuilder \<Rightarrow> DHTSettingsBuilder" where
  "with_throttle_period_secs v b = b\<lparr>sb_settings := (sb_settings b)\<lparr>cfg_throttle_period_secs := v\<rparr>\<rparr>"

definition with_throttle_naughty_timeout_secs :: "nat \<Rightarrow> DHTSettingsBuilder \<Rightarrow> DHTSettingsBuilder" where
  "with_throttle_naughty_timeout_secs v b = b\<lparr>sb_settings := (sb_settings b)\<lparr>cfg_throttle_naughty_timeout_secs := v\<rparr>\<rparr>"

definition with_throttle_max_tracking_secs :: "nat \<Rightarrow> DHTSettingsBuilder \<Rightarrow> DHTSettingsBuilder" where
  "with_throttle_max_tracking_secs v b = b\<lparr>sb_settings := (sb_settings b)\<lparr>cfg_throttle_max_tracking_secs := v\<rparr>\<rparr>"

definition settings_build :: "DHTSettingsBuilder \<Rightarrow> DHTSettings" where
  "settings_build b = sb_settings b"

text \<open>The throttler that \<open>accept_incoming_packets\<close> makes from the settings, with 32 records.\<close>

definition settings_throttler :: "DHTSettings \<Rightarrow> instant \<Rightarrow> Throttler" where
  "settings_throttler s now =
     throttler_new 32 (cfg_throttle_packet_count s) (dur_from_secs (cfg_throttle_period_secs s))
       (dur_from_secs (cfg_throttle_naughty_timeout_secs s)) (dur_from_secs (cfg_throttle_max_tracking_secs s)) now"

section \<open>\<open>DHTBuilder\<close>\<close>

text \<open>
  The boxed trait objects are the types \<open>'i\<close> and \<open>'n\<close>; \<open>box_ip\<close> and \<open>box_nodes\<close> put the default
  implementations into boxes. \<open>build\<close> resolves the defaults; its result is what \<open>DHT::new\<close> is called with.
\<close>

record ('i, 'n) DHTBuilder =
  db_initial_id :: "Id option"
  db_listen_addr :: "(Ipv4Addr \<times> u16) option"
  db_ip_source :: "'i option"
  db_route_table :: "'n option"
  db_settings :: "DHTSettings option"

definition dht_builder_new :: "('i, 'n) DHTBuilder" where
  "dht_builder_new =
     \<lparr>db_initial_id = None, db_listen_addr = None, db_ip_source = None, db_route_table = None, db_settings = None\<rparr>"

definition db_set_initial_id :: "Id \<Rightarrow> ('i, 'n) DHTBuilder \<Rightarrow> ('i, 'n) DHTBuilder" where
  "db_set_initial_id i b = b\<lparr>db_initial_id := Some i\<rparr>"

definition db_set_listen_addr :: "Ipv4Addr \<times> u16 \<Rightarrow> ('i, 'n) DHTBuilder \<Rightarrow> ('i, 'n) DHTBuilder" where
  "db_set_listen_addr a b = b\<lparr>db_listen_addr := Some a\<rparr>"

definition db_set_ip_source :: "'i \<Rightarrow> ('i, 'n) DHTBuilder \<Rightarrow> ('i, 'n) DHTBuilder" where
  "db_set_ip_source i b = b\<lparr>db_ip_source := Some i\<rparr>"

definition db_set_route_table :: "'n \<Rightarrow> ('i, 'n) DHTBuilder \<Rightarrow> ('i, 'n) DHTBuilder" where
  "db_set_route_table n b = b\<lparr>db_route_table := Some n\<rparr>"

definition db_set_settings :: "DHTSettings \<Rightarrow> ('i, 'n) DHTBuilder \<Rightarrow> ('i, 'n) DHTBuilder" where
  "db_set_settings s b = b\<lparr>db_settings := Some s\<rparr>"

record ('i, 'n) DHTConfig =
  dc_id :: "Id option"
  dc_socket_addr :: SocketAddr
  dc_ip4_source :: 'i
  dc_buckets :: 'n
  dc_settings :: DHTSettings

definition dht_builder_build ::
  "(IPV4Consensus \<Rightarrow> 'i) \<Rightarrow> (NodeBucketStorage \<Rightarrow> 'n) \<Rightarrow> ('i, 'n) DHTBuilder \<Rightarrow> ('i, 'n) DHTConfig" where
  "dht_builder_build box_ip box_nodes b =
     \<lparr>dc_id = db_initial_id b,
      dc_socket_addr =
        (case db_listen_addr b of Some (a, p) \<Rightarrow> SockV4 a p | None \<Rightarrow> SockV4 (Ipv4Addr 0 0 0 0) 6881),
      dc_ip4_source = (case db_ip_source b of Some i \<Rightarrow> i | None \<Rightarrow> box_ip (consensus_new 2 10)),
      dc_buckets = (case db_route_table b of Some n \<Rightarrow> n | None \<Rightarrow> box_nodes (nbs_new id_zero 8)),
      dc_settings = (case db_settings b of Some s \<Rightarrow> s | None \<Rightarrow> default_settings)\<rparr>"

end
