(* ===== verification/Dht_Core.thy ===== *)
theory Dht_Core
  imports Dht_Socket Dht_PeerStorage Dht_Settings
begin

text \<open>
  \<open>src/dht/dht.rs\<close> and \<open>src/dht/dht_event.rs\<close>: the node itself. \<open>DHTState\<close> is the locked state; a
  section under the lock is a function on it, an \<open>await\<close> on the socket is the call of the socket's
  operation. The boxed trait objects, the two cache types and the checksum are a record \<open>env\<close> of
  operations. Clock readings and random choices are arguments. \<open>Panic\<close> ends the task (and, when the
  lock is held, poisons it for the others).
\<close>

section \<open>State\<close>

datatype MessageReceivedEvent = MessageReceivedEvent (mre_message: Message)
datatype DHTEventType = MessageReceived MessageReceivedEvent
datatype DHTEvent = DHTEvent (event_type: DHTEventType)

text \<open>The sending end of an \<open>mpsc\<close> channel of capacity 32: what is queued, and whether the receiver is gone.\<close>

record Subscriber =
  sub_queue :: "DHTEvent list"
  sub_closed :: bool

definition subscriber_capacity :: nat where "subscriber_capacity = 32"

record ('i, 'n, 'o) DHTState =
  st_ip4_source :: 'i
  st_our_id :: Id
  st_buckets :: 'n
  st_peer_storage :: "'o PeerStorage"
  st_token_secret :: bytes
  st_old_token_secret :: bytes
  st_settings :: DHTSettings
  st_subscribers :: "Subscriber list"

record ('i, 'n, 'sw, 'o) dht_env =
  e_ip4 :: "'i ip4_source_ops"
  e_nodes :: "'n node_storage_ops"
  e_outer :: "(Id, 'sw, 'o) lru_ops"
  e_inner :: "(SocketAddr, PeerInfo, 'sw) lru_ops"
  e_crc :: "bytes \<Rightarrow> u32"

text \<open>\<open>make_token_secret\<close> and \<open>calculate_token\<close>: the checksum of the address and a secret.\<close>

definition make_token_secret :: "nat \<Rightarrow> (nat \<Rightarrow> u8) \<Rightarrow> bytes" where
  "make_token_secret n rng = map rng [0..<n]"

definition calculate_token :: "(bytes \<Rightarrow> u32) \<Rightarrow> SocketAddr \<Rightarrow> bytes \<Rightarrow> bytes" where
  "calculate_token crc remote secret = be_bytes4 (crc (ip_octets (sock_ip remote) @ secret))"

text \<open>
  \<open>DHT::new\<close>, the socket being bound: \<open>r, g, rest\<close> are the bytes \<open>Id::from_ip\<close> draws, \<open>random_id\<close> the id
  \<open>from_random\<close> gives.
\<close>

definition dht_new ::
  "('i, 'n, 'sw, 'o) dht_env \<Rightarrow> ('i, 'n) DHTConfig \<Rightarrow> u8 \<Rightarrow> u8 \<Rightarrow> (nat \<Rightarrow> u8) \<Rightarrow> Id \<Rightarrow> (nat \<Rightarrow> u8)
     \<Rightarrow> ('i, 'n, 'o) DHTState res" where
  "dht_new E c r g rest random_id rng =
     res_bind
       (case dc_id c of
          Some i \<Rightarrow> Ok i
        | None \<Rightarrow>
            res_bind (get_best_ipv4 (e_ip4 E) (dc_ip4_source c)) (\<lambda>best.
              case best of
                Some ip \<Rightarrow> id_from_ip (e_crc E) (IpV4 ip) r g rest
              | None \<Rightarrow> Ok random_id))
       (\<lambda>our_id.
          let settings = dc_settings c;
              token_secret = make_token_secret (cfg_token_secret_size settings) rng
          in Ok \<lparr>st_ip4_source = dc_ip4_source c, st_our_id = our_id,
                 st_buckets = ns_set_id (e_nodes E) (dc_buckets c) our_id,
                 st_peer_storage = peer_storage_new (e_outer E) (cfg_max_torrents settings) (cfg_max_peers_per_torrent settings),
                 st_token_secret = token_secret, st_old_token_secret = token_secret,
                 st_settings = settings, st_subscribers = []\<rparr>)"

text \<open>The accessors \<open>get_id\<close> and \<open>get_settings\<close>.\<close>

definition dht_get_id :: "('i, 'n, 'o) DHTState \<Rightarrow> Id" where
  "dht_get_id st = st_our_id st"

definition dht_get_settings :: "('i, 'n, 'o) DHTState \<Rightarrow> DHTSettings" where
  "dht_get_settings st = st_settings st"

definition dht_get_info_hashes ::
  "('i, 'n, 'sw, 'o) dht_env \<Rightarrow> ('i, 'n, 'o) DHTState \<Rightarrow> instant option \<Rightarrow> ('i, 'n, 'o) DHTState \<times> (Id \<times> PeerInfo list) list" where
  "dht_get_info_hashes E st newer_than =
     (let hashes = ps_get_info_hashes (e_outer E) (st_peer_storage st);
          (ps, infos) = foldl (\<lambda>(ps, acc) hash.
             let (ps', pi) = ps_get_peers_info (e_outer E) (e_inner E) ps hash newer_than
             in (ps', acc @ [(hash, pi)])) (st_peer_storage st, []) hashes
      in (st\<lparr>st_peer_storage := ps\<rparr>, filter (\<lambda>tup. snd tup \<noteq> []) infos))"

definition dht_get_nodes :: "('i, 'n, 'sw, 'o) dht_env \<Rightarrow> ('i, 'n, 'o) DHTState \<Rightarrow> NodeWrapper list" where
  "dht_get_nodes E st = ns_get_all_verified (e_nodes E) (st_buckets st)"

definition dht_subscribe :: "('i, 'n, 'o) DHTState \<Rightarrow> ('i, 'n, 'o) DHTState" where
  "dht_subscribe st = st\<lparr>st_subscribers := st_subscribers st @ [\<lparr>sub_queue = [], sub_closed = False\<rparr>]\<rparr>"

section \<open>Incoming requests\<close>

text \<open>What a handler reads from its surroundings: clocks, and the shuffle of the sample.\<close>

record handler_input =
  hi_seen :: instant
  hi_seen' :: instant
  hi_clock :: instant
  hi_send :: instant
  hi_shuffle :: "nat \<Rightarrow> Id list \<Rightarrow> Id list"

definition common_request_handling ::
  "('i, 'n, 'sw, 'o) dht_env \<Rightarrow> ('i, 'n, 'o) DHTState \<Rightarrow> SocketAddr \<Rightarrow> Message \<Rightarrow> handler_input
     \<Rightarrow> ('i, 'n, 'o) DHTState res" where
  "common_request_handling E st remote_addr msg inp =
     (case get_author_id msg of
        None \<Rightarrow> Err (PacketParseError ''Failed to extract sender's id'')
      | Some sender_id \<Rightarrow>
          res_bind (is_valid_for_ip (e_crc E) sender_id (sock_ip remote_addr)) (\<lambda>is_id_valid.
            let ro = (case Message.read_only msg of Some ro \<Rightarrow> ro | None \<Rightarrow> False)
            in if is_id_valid \<and> \<not> ro
               then Ok (st\<lparr>st_buckets :=
                      ns_add_or_update (e_nodes E) (st_buckets st) (Node sender_id remote_addr) False (hi_seen inp) (hi_seen' inp)\<rparr>)
               else Ok st))"

text \<open>The replies, built under the lock. Each returns the state and the reply, if there is one.\<close>

definition ping_reply ::
  "('i, 'n, 'o) DHTState \<Rightarrow> SocketAddr \<Rightarrow> Message \<Rightarrow> Message res" where
  "ping_reply st addr msg =
     build (set_requester_ip addr (set_transaction_id (transaction_id msg)
       (set_sender_id (st_our_id st) (builder_new BPingResponse)))) (0, 0)"

definition get_peers_reply ::
  "('i, 'n, 'sw, 'o) dht_env \<Rightarrow> ('i, 'n, 'o) DHTState \<Rightarrow> SocketAddr \<Rightarrow> Message \<Rightarrow> GetPeersRequestArguments
     \<Rightarrow> handler_input \<Rightarrow> ('i, 'n, 'o) DHTState \<times> Message res" where
  "get_peers_reply E st addr msg arguments inp =
     (let newer_than = instant_checked_sub (hi_clock inp) (dur_from_secs (cfg_get_peers_freshness_secs (st_settings st)));
          (ps, all_peers) = ps_get_peers (e_outer E) (e_inner E) (st_peer_storage st) (gp_info_hash arguments) newer_than;
          peers = take (cfg_max_peers_response (st_settings st)) all_peers;
          st1 = st\<lparr>st_peer_storage := ps\<rparr>;
          token = calculate_token (e_crc E) addr (st_token_secret st1);
          common = set_token token (set_requester_ip addr (set_transaction_id (transaction_id msg)
            (set_sender_id (st_our_id st1) (builder_new BGetPeersResponse))))
      in (st1,
          if length peers = 0
          then build (set_nodes (ns_get_nearest_nodes (e_nodes E) (st_buckets st1) (gp_info_hash arguments)
                 (Some (gp_requester_id arguments))) common) (0, 0)
          else build (set_peers peers common) (0, 0)))"

definition find_node_reply ::
  "('i, 'n, 'sw, 'o) dht_env \<Rightarrow> ('i, 'n, 'o) DHTState \<Rightarrow> SocketAddr \<Rightarrow> Message \<Rightarrow> FindNodeRequestArguments
     \<Rightarrow> Message res" where
  "find_node_reply E st addr msg arguments =
     build (set_nodes (ns_get_nearest_nodes (e_nodes E) (st_buckets st) (find_target arguments)
              (Some (find_requester_id arguments)))
       (set_requester_ip addr (set_transaction_id (transaction_id msg)
         (set_sender_id (st_our_id st) (builder_new BFindNodeResponse))))) (0, 0)"

definition announce_peer_reply ::
  "('i, 'n, 'sw, 'o) dht_env \<Rightarrow> ('i, 'n, 'o) DHTState \<Rightarrow> SocketAddr \<Rightarrow> Message \<Rightarrow> AnnouncePeerRequestArguments
     \<Rightarrow> handler_input \<Rightarrow> ('i, 'n, 'o) DHTState \<times> Message option res" where
  "announce_peer_reply E st addr msg arguments inp =
     (if ap_token arguments = calculate_token (e_crc E) addr (st_token_secret st) \<or>
         ap_token arguments = calculate_token (e_crc E) addr (st_old_token_secret st)
      then let sockaddr = (if ap_implied_port arguments = Some True then addr
                           else sock_set_port addr (ap_port arguments));
               st1 = st\<lparr>st_peer_storage := ps_announce_peer (e_outer E) (e_inner E) (st_peer_storage st)
                        (ap_info_hash arguments) sockaddr (hi_clock inp)\<rparr>
           in (st1, res_bind
                (build (set_requester_ip addr (set_transaction_id (transaction_id msg)
                  (set_sender_id (st_our_id st1) (builder_new BAnnouncePeerResponse)))) (0, 0))
                (\<lambda>m. Ok (Some m)))
      else (st, Ok None))"

text \<open>\<open>min_sample_interval_secs.try_into().unwrap()\<close> is from \<open>i32\<close> to \<open>u64\<close>.\<close>

definition sample_infohashes_reply ::
  "('i, 'n, 'sw, 'o) dht_env \<Rightarrow> ('i, 'n, 'o) DHTState \<Rightarrow> SocketAddr \<Rightarrow> Message \<Rightarrow> SampleInfoHashesRequestArguments
     \<Rightarrow> handler_input \<Rightarrow> Message res" where
  "sample_infohashes_reply E st addr msg arguments inp =
     (let nearest = ns_get_nearest_nodes (e_nodes E) (st_buckets st) (sih_target arguments) (Some (sih_requester_id arguments));
          all_hashes = ps_get_info_hashes (e_outer E) (st_peer_storage st);
          total_info_hashes = length all_hashes;
          info_hashes = hi_shuffle inp (cfg_max_sample_response (st_settings st)) all_hashes
      in if cfg_min_sample_interval_secs (st_settings st) < 0 then Panic
         else build (set_num_infohashes total_info_hashes (set_samples info_hashes (set_nodes nearest
                (set_interval (dur_from_secs (nat (cfg_min_sample_interval_secs (st_settings st))))
                  (set_requester_ip addr (set_transaction_id (transaction_id msg)
                    (set_sender_id (st_our_id st) (builder_new BSampleInfoHashesResponse)))))))) (0, 0))"

text \<open>
  The state and the reply of one request, in the order of the match. The lock is taken twice: by
  \<open>common_request_handling\<close> and by the section that makes the reply, \<open>request_reply\<close>. \<open>handle_request\<close> is
  the two in a row; other sections may run between them (\<open>Dht_System\<close>).
\<close>

definition request_reply ::
  "('i, 'n, 'sw, 'o) dht_env \<Rightarrow> ('i, 'n, 'o) DHTState \<Rightarrow> RequestSpecific \<Rightarrow> SocketAddr \<Rightarrow> Message
     \<Rightarrow> handler_input \<Rightarrow> ('i, 'n, 'o) DHTState \<times> Message option res" where
  "request_reply E st req addr msg inp =
     (case req of
        PingRequest a \<Rightarrow> (st, res_bind (ping_reply st addr msg) (\<lambda>m. Ok (Some m)))
      | GetPeersRequest a \<Rightarrow>
          (let (st1, r) = get_peers_reply E st addr msg a inp in (st1, res_bind r (\<lambda>m. Ok (Some m))))
      | FindNodeRequest a \<Rightarrow> (st, res_bind (find_node_reply E st addr msg a) (\<lambda>m. Ok (Some m)))
      | AnnouncePeerRequest a \<Rightarrow> announce_peer_reply E st addr msg a inp
      | SampleInfoHashesRequest a \<Rightarrow>
          (st, res_bind (sample_infohashes_reply E st addr msg a inp) (\<lambda>m. Ok (Some m))))"

definition handle_request ::
  "('i, 'n, 'sw, 'o) dht_env \<Rightarrow> ('i, 'n, 'o) DHTState \<Rightarrow> RequestSpecific \<Rightarrow> SocketAddr \<Rightarrow> Message
     \<Rightarrow> handler_input \<Rightarrow> ('i, 'n, 'o) DHTState \<times> Message option res" where
  "handle_request E st req addr msg inp =
     (case common_request_handling E st addr msg inp of
        Err e \<Rightarrow> (st, Err e)
      | Panic \<Rightarrow> (st, Panic)
      | Ok st1 \<Rightarrow> request_reply E st1 req addr msg inp)"

lemmas handle_request_unfold = handle_request_def [unfolded request_reply_def]

lemma handle_request_reply_section:
  "common_request_handling E st addr msg inp = Ok st1 \<Longrightarrow>
   handle_request E st req addr msg inp = request_reply E st1 req addr msg inp"
  by (simp add: handle_request_def)

definition accept_single_packet ::
  "('i, 'n, 'sw, 'o) dht_env \<Rightarrow> ('i, 'n, 'o) DHTState \<Rightarrow> Socket \<Rightarrow> Message \<Rightarrow> SocketAddr \<Rightarrow> handler_input
     \<Rightarrow> ('i, 'n, 'o) DHTState \<times> Socket \<times> unit res" where
  "accept_single_packet E st sock msg addr inp =
     (case message_type msg of
        Request req \<Rightarrow>
          (case handle_request E st req addr msg inp of
             (st1, Ok (Some reply)) \<Rightarrow>
               (case ds_send_to sock reply addr (Some (request_author req)) (hi_send inp) of
                  (sock1, Ok c) \<Rightarrow> (st1, sock1, Ok ())
                | (sock1, Err e) \<Rightarrow> (st1, sock1, Err e)
                | (sock1, Panic) \<Rightarrow> (st1, sock1, Panic))
           | (st1, Ok None) \<Rightarrow> (st1, sock, Ok ())
           | (st1, Err e) \<Rightarrow> (st1, sock, Err e)
           | (st1, Panic) \<Rightarrow> (st1, sock, Panic))
      | Response r \<Rightarrow> (st, sock, Ok ())
      | Error e \<Rightarrow> (st, sock, Ok ()))"

section \<open>The loop over incoming packets\<close>

text \<open>\<open>try_send\<close> to a subscriber; closed channels are dropped from the list.\<close>

definition try_send :: "DHTEvent \<Rightarrow> Subscriber \<Rightarrow> Subscriber" where
  "try_send event sub =
     (if length (sub_queue sub) < subscriber_capacity
      then sub\<lparr>sub_queue := sub_queue sub @ [event]\<rparr> else sub)"

definition send_packet_to_subscribers ::
  "('i, 'n, 'o) DHTState \<Rightarrow> Message \<Rightarrow> ('i, 'n, 'o) DHTState" where
  "send_packet_to_subscribers st msg =
     (let event = DHTEvent (MessageReceived (MessageReceivedEvent msg))
      in st\<lparr>st_subscribers := map (try_send event) (filter (\<lambda>s. \<not> sub_closed s) (st_subscribers st))\<rparr>)"

text \<open>
  The body of the loop of \<open>accept_incoming_packets\<close> for a packet received from the socket: throttling,
  the port check, the reply unless we are read-only, the event. \<open>clk\<close> and \<open>clk'\<close> are the throttler's
  clock readings.
\<close>

definition accept_body ::
  "('i, 'n, 'sw, 'o) dht_env \<Rightarrow> bool \<Rightarrow> Throttler \<Rightarrow> ('i, 'n, 'o) DHTState \<Rightarrow> Socket \<Rightarrow> MessagePair
     \<Rightarrow> handler_input \<Rightarrow> instant \<Rightarrow> instant \<Rightarrow> Throttler \<times> ('i, 'n, 'o) DHTState \<times> Socket \<times> unit res" where
  "accept_body E is_read_only thr st sock pkt inp clk clk' =
     (let (msg, addr) = pkt in
      case check_throttle thr (sock_ip addr) None None clk clk' of
        Ok (thr1, throttled) \<Rightarrow>
          (if throttled then (thr1, st, sock, Ok ())
           else if sock_port addr = 0 then (thr1, st, sock, Ok ())
           else
             (let (st1, sock1, r) =
                (if is_read_only then (st, sock, Ok ()) else accept_single_packet E st sock msg addr inp)
              in case r of
                   Ok u \<Rightarrow> (thr1, send_packet_to_subscribers st1 msg, sock1, Ok ())
                 | Err e \<Rightarrow> (thr1, st1, sock1, Err e)
                 | Panic \<Rightarrow> (thr1, st1, sock1, Panic)))
      | Err e \<Rightarrow> (thr, st, sock, Err e)
      | Panic \<Rightarrow> (thr, st, sock, Panic))"

text \<open>Which results of the body keep the loop running.\<close>

fun accept_continues :: "unit res \<Rightarrow> bool" where
  "accept_continues (Ok u) = True"
| "accept_continues (Err (PacketParseError e)) = True"
| "accept_continues (Err (ConntrackError e)) = True"
| "accept_continues r = False"

section \<open>Requests of our own\<close>

definition ip4_vote_helper ::
  "('i, 'n, 'sw, 'o) dht_env \<Rightarrow> ('i, 'n, 'o) DHTState \<Rightarrow> SocketAddr \<Rightarrow> Message \<Rightarrow> ('i, 'n, 'o) DHTState res" where
  "ip4_vote_helper E st addr msg =
     (case sock_ip addr of
        IpV4 their_ip \<Rightarrow>
          (case requester_ip msg of
             Some (SockV4 ours p) \<Rightarrow>
               res_bind (add_vote (e_ip4 E) (st_ip4_source st) their_ip ours) (\<lambda>src. Ok (st\<lparr>st_ip4_source := src\<rparr>))
           | _ \<Rightarrow> Ok st)
      | IpV6 a \<Rightarrow> Ok st)"

text \<open>\<open>common_send_and_handle_response\<close> up to the wait for the reply; the result is the channel.\<close>

definition send_own_request ::
  "Socket \<Rightarrow> Message \<Rightarrow> SocketAddr \<Rightarrow> Id option \<Rightarrow> instant \<Rightarrow> Socket \<times> nat res" where
  "send_own_request sock msg target target_id now =
     (case message_type msg of
        Request q \<Rightarrow>
          (case ds_send_to sock msg target target_id now of
             (sock1, Ok (Some ch)) \<Rightarrow> (sock1, Ok ch)
           | (sock1, Ok None) \<Rightarrow> (sock1, Err (GeneralError ''Didn't get a response channel after sending a request''))
           | (sock1, Err e) \<Rightarrow> (sock1, Err e)
           | (sock1, Panic) \<Rightarrow> (sock1, Panic))
      | _ \<Rightarrow> (sock, Err (GeneralError ''This method is only for sending requests'')))"

text \<open>The loop over the nodes of a find_node response; \<open>clk n\<close> are the clock readings for the \<open>n\<close>-th.\<close>

fun add_seen_nodes ::
  "('i, 'n, 'sw, 'o) dht_env \<Rightarrow> (nat \<Rightarrow> instant \<times> instant) \<Rightarrow> ('i, 'n, 'o) DHTState \<Rightarrow> Node list
     \<Rightarrow> ('i, 'n, 'o) DHTState res" where
  "add_seen_nodes E clk st [] = Ok st"
| "add_seen_nodes E clk st (node # nodes) =
     res_bind (is_valid_for_ip (e_crc E) (node_id node) (sock_ip (node_address node))) (\<lambda>v.
       add_seen_nodes E (\<lambda>n. clk (Suc n))
         (if v then st\<lparr>st_buckets := ns_add_or_update (e_nodes E) (st_buckets st) node False (fst (clk 0)) (snd (clk 0))\<rparr>
          else st) nodes)"

text \<open>
  The rest of \<open>common_send_and_handle_response\<close>, from what the notification channel gave: a reply, or
  \<open>None\<close> when its sender was dropped. A response is recorded in two sections under the lock:
  its author first, then the nodes it names; \<open>handle_own_response\<close> is the two in a row.
\<close>

definition record_responder ::
  "('i, 'n, 'sw, 'o) dht_env \<Rightarrow> ('i, 'n, 'o) DHTState \<Rightarrow> SocketAddr \<Rightarrow> Message \<Rightarrow> instant \<times> instant
     \<Rightarrow> ('i, 'n, 'o) DHTState res" where
  "record_responder E st target reply clk =
     res_bind (expect (get_author_id reply)) (\<lambda>their_id.
     res_bind (is_valid_for_ip (e_crc E) their_id (sock_ip target)) (\<lambda>id_is_valid.
       if id_is_valid
       then res_bind (ip4_vote_helper E st target reply) (\<lambda>st1.
         Ok (st1\<lparr>st_buckets :=
           ns_add_or_update (e_nodes E) (st_buckets st1) (Node their_id target) True (fst clk) (snd clk)\<rparr>))
       else Ok st))"

definition record_found_nodes ::
  "('i, 'n, 'sw, 'o) dht_env \<Rightarrow> ('i, 'n, 'o) DHTState \<Rightarrow> ResponseSpecific \<Rightarrow> (nat \<Rightarrow> instant \<times> instant)
     \<Rightarrow> ('i, 'n, 'o) DHTState res" where
  "record_found_nodes E st response_variant clk =
     (case response_variant of
        FindNodeResponse args \<Rightarrow> add_seen_nodes E clk st (find_nodes args)
      | _ \<Rightarrow> Ok st)"

definition handle_own_response ::
  "('i, 'n, 'sw, 'o) dht_env \<Rightarrow> ('i, 'n, 'o) DHTState \<Rightarrow> SocketAddr \<Rightarrow> Message option \<Rightarrow> (nat \<Rightarrow> instant \<times> instant)
     \<Rightarrow> ('i, 'n, 'o) DHTState res \<times> Message res" where
  "handle_own_response E st target received clk =
     (case received of
        None \<Rightarrow> (Ok st, Err (TimeoutError ''Response channel was cleaned up while we were waiting for a reply''))
      | Some reply \<Rightarrow>
         (case message_type reply of
            Response response_variant \<Rightarrow>
             (let st' = res_bind (record_responder E st target reply (clk 0))
                          (\<lambda>st1. record_found_nodes E st1 response_variant (\<lambda>n. clk (Suc n)))
              in (st', res_bind st' (\<lambda>_. Ok reply)))
          | _ \<Rightarrow> (Ok st, Err (GeneralError ''Received wrong Message type as response''))))"

lemma handle_own_response_unfold:
  "handle_own_response E st target received clk =
     (case received of
        None \<Rightarrow> (Ok st, Err (TimeoutError ''Response channel was cleaned up while we were waiting for a reply''))
      | Some reply \<Rightarrow>
         (case message_type reply of
            Response response_variant \<Rightarrow>
             (let st' =
                res_bind (expect (get_author_id reply)) (\<lambda>their_id.
                res_bind (is_valid_for_ip (e_crc E) their_id (sock_ip target)) (\<lambda>id_is_valid.
                res_bind
                  (if id_is_valid
                   then res_bind (ip4_vote_helper E st target reply) (\<lambda>st1.
                     Ok (st1\<lparr>st_buckets :=
                       ns_add_or_update (e_nodes E) (st_buckets st1) (Node their_id target) True (fst (clk 0)) (snd (clk 0))\<rparr>))
                   else Ok st)
                  (\<lambda>st2. case response_variant of
                     FindNodeResponse args \<Rightarrow> add_seen_nodes E (\<lambda>n. clk (Suc n)) st2 (find_nodes args)
                   | _ \<Rightarrow> Ok st2)))
              in (st', res_bind st' (\<lambda>_. Ok reply)))
          | _ \<Rightarrow> (Ok st, Err (GeneralError ''Received wrong Message type as response''))))"
proof -
  have assoc: "res_bind (res_bind x f) g = res_bind x (\<lambda>a. res_bind (f a) g)" for x f g
    by (cases x) simp_all
  show ?thesis
    unfolding handle_own_response_def record_responder_def record_found_nodes_def assoc by (rule refl)
qed

text \<open>The messages of \<open>ping_internal\<close> and \<open>find_node_internal\<close>.\<close>

definition ping_message :: "('i, 'n, 'o) DHTState \<Rightarrow> u8 \<times> u8 \<Rightarrow> Message res" where
  "ping_message st rng =
     build (set_read_only (cfg_read_only (st_settings st))
       (set_sender_id (st_our_id st) (builder_new BPingRequest))) rng"

definition find_node_message :: "('i, 'n, 'o) DHTState \<Rightarrow> Id \<Rightarrow> u8 \<times> u8 \<Rightarrow> Message res" where
  "find_node_message st target rng =
     build (set_target target (set_read_only (cfg_read_only (st_settings st))
       (set_sender_id (st_our_id st) (builder_new BFindNodeRequest)))) rng"

section \<open>Periodic tasks\<close>

definition rotate_token_secrets :: "('i, 'n, 'o) DHTState \<Rightarrow> (nat \<Rightarrow> u8) \<Rightarrow> ('i, 'n, 'o) DHTState" where
  "rotate_token_secrets st rng =
     (let new_token_secret = make_token_secret (cfg_token_secret_size (st_settings st)) rng
      in st\<lparr>st_old_token_secret := st_token_secret st, st_token_secret := new_token_secret\<rparr>)"

text \<open>One turn of \<open>periodic_ip4_maintenance\<close>.\<close>

definition ip4_maintenance_turn ::
  "('i, 'n, 'sw, 'o) dht_env \<Rightarrow> ('i, 'n, 'o) DHTState \<Rightarrow> u8 \<Rightarrow> u8 \<Rightarrow> (nat \<Rightarrow> u8) \<Rightarrow> ('i, 'n, 'o) DHTState res" where
  "ip4_maintenance_turn E st r g rest =
     res_bind (decay (e_ip4 E) (st_ip4_source st)) (\<lambda>src.
     let st1 = st\<lparr>st_ip4_source := src\<rparr> in
     res_bind (get_best_ipv4 (e_ip4 E) src) (\<lambda>best.
       case best of
         None \<Rightarrow> Ok st1
       | Some ip \<Rightarrow>
           res_bind (is_valid_for_ip (e_crc E) (st_our_id st1) (IpV4 ip)) (\<lambda>valid.
             if valid then Ok st1
             else res_bind (id_from_ip (e_crc E) (IpV4 ip) r g rest) (\<lambda>new_id.
               Ok (st1\<lparr>st_our_id := new_id, st_buckets := ns_set_id (e_nodes E) (st_buckets st1) new_id\<rparr>)))))"

text \<open>
  One turn of \<open>periodic_buddy_ping\<close> locks the state twice: first the storage is pruned and the reverify
  interval read, then the nodes to ping are collected, those that were never verified or not since
  \<open>ping_if_older_than\<close>.
\<close>

definition buddy_ping_turn ::
  "('i, 'n, 'sw, 'o) dht_env \<Rightarrow> ('i, 'n, 'o) DHTState \<Rightarrow> instant \<Rightarrow> instant \<Rightarrow> ('i, 'n, 'o) DHTState" where
  "buddy_ping_turn E st now now' =
     (let cfg = st_settings st
      in st\<lparr>st_buckets := ns_prune (e_nodes E) (st_buckets st) (dur_from_secs (cfg_reverify_grace_period_secs cfg))
              (dur_from_secs (cfg_verify_grace_period_secs cfg)) now now'\<rparr>)"

definition needs_ping :: "instant \<Rightarrow> NodeWrapper \<Rightarrow> bool" where
  "needs_ping ping_if_older_than w =
     (case nw_last_verified w of Some lv \<Rightarrow> \<not> ping_if_older_than \<le> lv | None \<Rightarrow> True)"

definition buddy_ping_targets ::
  "('i, 'n, 'sw, 'o) dht_env \<Rightarrow> ('i, 'n, 'o) DHTState \<Rightarrow> nat \<Rightarrow> instant \<Rightarrow> (SocketAddr \<times> Id option) list" where
  "buddy_ping_targets E st reverify_interval_secs now =
     (case instant_checked_sub now (dur_from_secs reverify_interval_secs) of
        None \<Rightarrow> []
      | Some ping_if_older_than \<Rightarrow>
          map (\<lambda>w. (node_address (nw_node w), Some (node_id (nw_node w))))
            (filter (needs_ping ping_if_older_than) (ns_get_all_unverified (e_nodes E) (st_buckets st)) @
             filter (needs_ping ping_if_older_than) (ns_get_all_verified (e_nodes E) (st_buckets st))))"

text \<open>
  One turn of \<open>periodic_find_node\<close>: whether the routers are pinged first, and the nodes to ask about an
  id near ours. The nodes are counted in \<open>st\<close>; by the time the routers are pinged, the state is \<open>st'\<close>.
\<close>

definition find_node_turn ::
  "('i, 'n, 'sw, 'o) dht_env \<Rightarrow> ('i, 'n, 'o) DHTState \<Rightarrow> ('i, 'n, 'o) DHTState \<Rightarrow> Id
     \<Rightarrow> bool \<times> (SocketAddr \<times> Id option \<times> Id) list res" where
  "find_node_turn E st st' rnd =
     (let (count_unverified, count_verified) = ns_count (e_nodes E) (st_buckets st)
      in (count_verified = 0,
          if cfg_find_nodes_skip_count (st_settings st') < count_unverified then Ok []
          else (case make_mutant (st_our_id st') 4 rnd of
                  Ok id_near_us \<Rightarrow>
                    Ok (map (\<lambda>n. (node_address n, Some (node_id n), id_near_us))
                      (ns_get_nearest_nodes (e_nodes E) (st_buckets st') id_near_us None))
                | _ \<Rightarrow> Panic)))"

section \<open>What each handler touches\<close>

text \<open>The parts of the state that only the periodic tasks change.\<close>

definition same_identity :: "('i, 'n, 'o) DHTState \<Rightarrow> ('i, 'n, 'o) DHTState \<Rightarrow> bool" where
  "same_identity st st' \<longleftrightarrow>
     st_our_id st' = st_our_id st \<and> st_token_secret st' = st_token_secret st \<and>
     st_old_token_secret st' = st_old_token_secret st \<and> st_settings st' = st_settings st"

lemma same_identity_refl [simp]: "same_identity st st"
  by (simp add: same_identity_def)

lemma same_identity_trans: "same_identity a b \<Longrightarrow> same_identity b c \<Longrightarrow> same_identity a c"
  by (simp add: same_identity_def)

lemma same_identity_updates [simp]:
  "same_identity st (st\<lparr>st_buckets := b\<rparr>)" "same_identity st (st\<lparr>st_peer_storage := p\<rparr>)"
  "same_identity st (st\<lparr>st_ip4_source := i\<rparr>)" "same_identity st (st\<lparr>st_subscribers := s\<rparr>)"
  by (simp_all add: same_identity_def)

text \<open>The requester joins the routing table when its id fits its address and it is not read-only.\<close>

definition joins :: "('i, 'n, 'sw, 'o) dht_env \<Rightarrow> Message \<Rightarrow> SocketAddr \<Rightarrow> Id \<Rightarrow> bool" where
  "joins E msg addr i \<longleftrightarrow>
     get_author_id msg = Some i \<and> is_valid_for_ip (e_crc E) i (sock_ip addr) = Ok True \<and>
     Message.read_only msg \<noteq> Some True"

lemma common_request_handling_Ok:
  assumes "common_request_handling E st addr msg inp = Ok st'"
  shows "st' = (case get_author_id msg of Some i \<Rightarrow>
      if joins E msg addr i
      then st\<lparr>st_buckets := ns_add_or_update (e_nodes E) (st_buckets st) (Node i addr) False (hi_seen inp) (hi_seen' inp)\<rparr>
      else st | None \<Rightarrow> st)"
  using assms
  by (auto simp: common_request_handling_def joins_def Let_def split: option.splits if_splits)

lemma common_request_handling_identity:
  "common_request_handling E st addr msg inp = Ok st' \<Longrightarrow>
     same_identity st st' \<and> st_peer_storage st' = st_peer_storage st \<and> st_ip4_source st' = st_ip4_source st \<and>
     st_subscribers st' = st_subscribers st"
  by (drule common_request_handling_Ok) (auto split: option.split)

lemma request_author_id: "message_type msg = Request req \<Longrightarrow> get_author_id msg = Some (request_author req)"
  by (simp add: get_author_id.simps)

lemma common_request_handling_v4:
  assumes "message_type msg = Request req" and "sock_is_v4 addr"
  shows "\<exists>st'. common_request_handling E st addr msg inp = Ok st'"
proof -
  obtain a p where "addr = SockV4 a p" using assms(2) by (auto simp: sock_is_v4_iff)
  moreover obtain v where "is_valid_for_ip (e_crc E) (request_author req) (IpV4 a) = Ok v"
    using is_valid_for_ip_v4_ok by blast
  ultimately show ?thesis
    by (simp add: common_request_handling_def request_author_id [OF assms(1)] Let_def)
qed

lemma get_peers_reply_state:
  "fst (get_peers_reply E st addr msg a inp) = st\<lparr>st_peer_storage :=
     fst (ps_get_peers (e_outer E) (e_inner E) (st_peer_storage st) (gp_info_hash a)
       (instant_checked_sub (hi_clock inp) (dur_from_secs (cfg_get_peers_freshness_secs (st_settings st)))))\<rparr>"
  by (simp add: get_peers_reply_def Let_def case_prod_beta)

lemma announce_reply_state:
  "same_identity st (fst (announce_peer_reply E st addr msg a inp)) \<and>
   st_buckets (fst (announce_peer_reply E st addr msg a inp)) = st_buckets st \<and>
   st_ip4_source (fst (announce_peer_reply E st addr msg a inp)) = st_ip4_source st \<and>
   st_subscribers (fst (announce_peer_reply E st addr msg a inp)) = st_subscribers st"
  by (simp add: announce_peer_reply_def Let_def)

text \<open>After the common part, a request changes at most the peer storage.\<close>

lemma request_reply_state:
  "same_identity st (fst (request_reply E st req addr msg inp)) \<and>
   st_buckets (fst (request_reply E st req addr msg inp)) = st_buckets st \<and>
   st_ip4_source (fst (request_reply E st req addr msg inp)) = st_ip4_source st \<and>
   st_subscribers (fst (request_reply E st req addr msg inp)) = st_subscribers st"
proof (cases req)
  case (GetPeersRequest a)
  then show ?thesis
    using get_peers_reply_state [of E st addr msg a inp] by (simp add: request_reply_def case_prod_beta)
next
  case (AnnouncePeerRequest a)
  then show ?thesis using announce_reply_state [of st E addr msg a inp] by (simp add: request_reply_def)
qed (simp_all add: request_reply_def)

lemma handle_request_state:
  "fst (handle_request E st req addr msg inp) = st \<or>
   (\<exists>st1. common_request_handling E st addr msg inp = Ok st1 \<and>
      same_identity st (fst (handle_request E st req addr msg inp)) \<and>
      st_buckets (fst (handle_request E st req addr msg inp)) = st_buckets st1 \<and>
      st_ip4_source (fst (handle_request E st req addr msg inp)) = st_ip4_source st \<and>
      st_subscribers (fst (handle_request E st req addr msg inp)) = st_subscribers st)"
proof (cases "common_request_handling E st addr msg inp")
  case (Ok st1)
  then show ?thesis
    using common_request_handling_identity [OF Ok] request_reply_state [of st1 E req addr msg inp]
    by (auto simp: handle_request_def intro: same_identity_trans)
qed (simp_all add: handle_request_def)

text \<open>The replies.\<close>

lemma response_builder_identity:
  assumes "build b rng = Ok m" and "mb_message_type b \<in> {BPingResponse, BAnnouncePeerResponse,
      BFindNodeResponse, BGetPeersResponse, BSampleInfoHashesResponse}"
  shows "Some (transaction_id m) = mb_transaction_id b" "get_author_id m = mb_sender_id b"
    "requester_ip m = mb_requester_ip b" "\<exists>r. message_type m = Response r"
  using assms by (auto simp: build_defs get_author_id.simps Let_def split: option.splits)

definition reply_ok :: "('i, 'n, 'o) DHTState \<Rightarrow> RequestSpecific \<Rightarrow> SocketAddr \<Rightarrow> Message \<Rightarrow> Message \<Rightarrow> bool" where
  "reply_ok st req addr msg m \<longleftrightarrow>
     transaction_id m = transaction_id msg \<and> get_author_id m = Some (st_our_id st) \<and>
     requester_ip m = Some addr \<and> (\<exists>r. message_type m = Response r \<and> response_matches_request r req)"

lemma built_reply_ok:
  assumes "build b rng = Ok m" and "mb_transaction_id b = Some (transaction_id msg)"
    and "mb_sender_id b = Some (st_our_id st)" and "mb_requester_ip b = Some addr"
    and "mb_message_type b = (case req of PingRequest a \<Rightarrow> BPingResponse | FindNodeRequest a \<Rightarrow> BFindNodeResponse
      | GetPeersRequest a \<Rightarrow> BGetPeersResponse | AnnouncePeerRequest a \<Rightarrow> BAnnouncePeerResponse
      | SampleInfoHashesRequest a \<Rightarrow> BSampleInfoHashesResponse)"
  shows "reply_ok st req addr msg m"
proof -
  have ty: "mb_message_type b \<in> {BPingResponse, BAnnouncePeerResponse,
      BFindNodeResponse, BGetPeersResponse, BSampleInfoHashesResponse}"
    by (simp add: assms(5) split: RequestSpecific.split)
  note f = response_builder_identity [OF assms(1) ty]
  obtain r where r: "message_type m = Response r" using f(4) by blast
  then have "response_matches_request r req"
    using build_common_fields(4) [OF assms(1)] assms(5) by (cases req; cases r) (auto split: if_splits)
  then show ?thesis using f r assms(2-4) by (auto simp: reply_ok_def)
qed

lemma reply_ok_identity: "same_identity st st1 \<Longrightarrow> reply_ok st1 req addr msg m \<Longrightarrow> reply_ok st req addr msg m"
  by (simp add: reply_ok_def same_identity_def)

end
