(* ===== verification/Dht_CoreProps.thy ===== *)
theory Dht_CoreProps
  imports Dht_Core
begin

text \<open>
  What the node promises: replies, the routing table, tokens, the id of the node, and how the
  components work together over whole histories of events.
\<close>

section \<open>Replies\<close>

lemmas reply_setters =
  set_transaction_id_def set_requester_ip_def set_sender_id_def set_token_def set_nodes_def
  set_peers_def set_interval_def set_samples_def set_num_infohashes_def builder_new_def

lemma get_peers_reply_ok:
  assumes "snd (get_peers_reply E st addr msg a inp) = Ok m"
  shows "reply_ok st (GetPeersRequest a) addr msg m"
  using assms
  by (auto simp: get_peers_reply_def Let_def case_prod_beta reply_setters split: if_splits
      elim!: built_reply_ok)

lemma announce_peer_reply_ok:
  assumes "snd (announce_peer_reply E st addr msg a inp) = Ok (Some m)"
  shows "reply_ok st (AnnouncePeerRequest a) addr msg m"
  using assms
  by (auto simp: announce_peer_reply_def Let_def reply_setters split: if_splits elim!: built_reply_ok)

lemma handle_request_reply:
  assumes "handle_request E st req addr msg inp = (st', Ok (Some m))"
  shows "reply_ok st req addr msg m"
proof -
  obtain st1 where c: "common_request_handling E st addr msg inp = Ok st1"
    using assms by (cases "common_request_handling E st addr msg inp") (auto simp: handle_request_unfold)
  have id: "same_identity st st1" using common_request_handling_identity [OF c] by simp
  have "reply_ok st1 req addr msg m"
  proof (cases req)
    case (PingRequest a)
    then show ?thesis
      using assms c by (auto simp: handle_request_unfold ping_reply_def reply_setters elim!: built_reply_ok)
  next
    case (FindNodeRequest a)
    then show ?thesis
      using assms c by (auto simp: handle_request_unfold find_node_reply_def reply_setters elim!: built_reply_ok)
  next
    case (SampleInfoHashesRequest a)
    then show ?thesis
      using assms c by (auto simp: handle_request_unfold sample_infohashes_reply_def Let_def reply_setters
          split: if_splits elim!: built_reply_ok)
  next
    case (GetPeersRequest a)
    then show ?thesis
      using assms c get_peers_reply_ok [of E st1 addr msg a inp m]
      by (auto simp: handle_request_unfold case_prod_beta)
  next
    case (AnnouncePeerRequest a)
    then show ?thesis
      using assms c announce_peer_reply_ok [of E st1 addr msg a inp m] by (auto simp: handle_request_unfold)
  qed
  with id show ?thesis by (rule reply_ok_identity)
qed

text \<open>When a reply cannot fail: an IPv4 sender, a sane configuration, few enough info hashes.\<close>

definition sane :: "('i, 'n, 'sw, 'o) dht_env \<Rightarrow> ('i, 'n, 'o) DHTState \<Rightarrow> bool" where
  "sane E st \<longleftrightarrow> 0 \<le> cfg_min_sample_interval_secs (st_settings st) \<and>
     int (length (ps_get_info_hashes (e_outer E) (st_peer_storage st))) \<le> i32_max"

lemma reply_builds:
  assumes "first_missing b = None" and "mb_message_type b \<noteq> BAnnouncePeerRequest"
    and "mb_num_infohashes b = None \<or> (\<exists>n. mb_num_infohashes b = Some n \<and> int n \<le> i32_max)"
  shows "\<exists>m. build b rng = Ok m"
  using build_outcome [of b rng] assms
  by (auto simp: expected_outcome_def num_too_big_def bad_combo_def)

lemma get_peers_builds:
  "\<exists>m. build (set_nodes ns (set_token tok (set_requester_ip addr (set_transaction_id tid
      (set_sender_id i (builder_new BGetPeersResponse)))))) (0, 0) = Ok m"
  "\<exists>m. build (set_peers ps (set_token tok (set_requester_ip addr (set_transaction_id tid
      (set_sender_id i (builder_new BGetPeersResponse)))))) (0, 0) = Ok m"
  by (rule reply_builds; simp add: first_missing_def requirements_def reply_setters)+

lemma announce_builds:
  "\<exists>m. build (set_requester_ip addr (set_transaction_id tid
      (set_sender_id i (builder_new BAnnouncePeerResponse)))) (0, 0) = Ok m"
  by (rule reply_builds) (simp_all add: first_missing_def requirements_def reply_setters)

lemma handle_request_answers:
  assumes "message_type msg = Request req" and "sock_is_v4 addr" and "sane E st"
  shows "\<exists>st' r. handle_request E st req addr msg inp = (st', Ok r) \<and>
    (r = None \<longrightarrow> (\<exists>a. req = AnnouncePeerRequest a))"
proof -
  obtain st1 where c: "common_request_handling E st addr msg inp = Ok st1"
    using common_request_handling_v4 [OF assms(1,2)] by blast
  have s1: "sane E st1"
    using common_request_handling_identity [OF c] assms(3) by (simp add: sane_def same_identity_def)
  show ?thesis
  proof (cases req)
    case (PingRequest a)
    have "\<exists>m. ping_reply st1 addr msg = Ok m"
      unfolding ping_reply_def
      by (rule reply_builds) (simp_all add: first_missing_def requirements_def reply_setters)
    then show ?thesis using PingRequest by (auto simp: handle_request_unfold c)
  next
    case (FindNodeRequest a)
    have "\<exists>m. find_node_reply E st1 addr msg a = Ok m"
      unfolding find_node_reply_def
      by (rule reply_builds) (simp_all add: first_missing_def requirements_def reply_setters)
    then show ?thesis using FindNodeRequest by (auto simp: handle_request_unfold c)
  next
    case (GetPeersRequest a)
    obtain m where "snd (get_peers_reply E st1 addr msg a inp) = Ok m"
      unfolding get_peers_reply_def Let_def case_prod_beta snd_conv
      by (metis (mono_tags, lifting) get_peers_builds)
    then show ?thesis using GetPeersRequest by (auto simp: handle_request_unfold c case_prod_beta)
  next
    case (AnnouncePeerRequest a)
    have "\<exists>r. snd (announce_peer_reply E st1 addr msg a inp) = Ok r"
      using announce_builds by (auto simp: announce_peer_reply_def Let_def)
    then show ?thesis using AnnouncePeerRequest
      by (cases "announce_peer_reply E st1 addr msg a inp") (auto simp: handle_request_unfold c)
  next
    case (SampleInfoHashesRequest a)
    have "\<exists>m. sample_infohashes_reply E st1 addr msg a inp = Ok m"
      using s1 unfolding sample_infohashes_reply_def Let_def sane_def
      by (simp, intro reply_builds) (simp_all add: first_missing_def requirements_def reply_setters)
    then show ?thesis using SampleInfoHashesRequest by (auto simp: handle_request_unfold c)
  qed
qed

text \<open>The one request that stays unanswered: an announcement with a token that neither secret gives.\<close>

definition token_refused :: "('i, 'n, 'sw, 'o) dht_env \<Rightarrow> ('i, 'n, 'o) DHTState \<Rightarrow> SocketAddr \<Rightarrow> RequestSpecific \<Rightarrow> bool" where
  "token_refused E st addr req = (case req of
     AnnouncePeerRequest a \<Rightarrow> ap_token a \<noteq> calculate_token (e_crc E) addr (st_token_secret st) \<and>
       ap_token a \<noteq> calculate_token (e_crc E) addr (st_old_token_secret st)
   | _ \<Rightarrow> False)"

lemma handle_request_refused:
  assumes "handle_request E st req addr msg inp = (st', Ok r)"
  shows "r = None \<longleftrightarrow> token_refused E st addr req"
proof -
  obtain st1 where c: "common_request_handling E st addr msg inp = Ok st1"
    using assms by (cases "common_request_handling E st addr msg inp") (auto simp: handle_request_unfold)
  have "same_identity st st1" using common_request_handling_identity [OF c] by simp
  then show ?thesis using assms
    by (cases req) (auto simp: handle_request_unfold c token_refused_def announce_peer_reply_def same_identity_def
        case_prod_beta Let_def prod_eq_iff split: if_splits)
qed

lemma accept_single_packet_buckets:
  assumes "accept_single_packet E st sock msg addr inp = (st', sock', r)"
  shows "st_buckets st' = st_buckets st \<or>
    (\<exists>i req. message_type msg = Request req \<and> get_author_id msg = Some i \<and>
       is_valid_for_ip (e_crc E) i (sock_ip addr) = Ok True \<and> Message.read_only msg \<noteq> Some True \<and>
       st_buckets st' = ns_add_or_update (e_nodes E) (st_buckets st) (Node i addr) False (hi_seen inp) (hi_seen' inp))"
proof (cases "message_type msg")
  case (Request req)
  have st': "st' = fst (handle_request E st req addr msg inp)"
    using assms Request
    by (auto simp: accept_single_packet_def split: prod.splits res.splits option.splits)
  show ?thesis
    using handle_request_state [of E st req addr msg inp] unfolding st' [symmetric]
  proof (elim disjE exE conjE)
    fix st1 assume "common_request_handling E st addr msg inp = Ok st1" "st_buckets st' = st_buckets st1"
    then show ?thesis
      using common_request_handling_Ok [of E st addr msg inp st1] Request
      by (auto simp: joins_def split: option.splits if_splits)
  qed simp
qed (use assms in \<open>auto simp: accept_single_packet_def\<close>)

section \<open>A concrete node\<close>

text \<open>All parameters instantiated: the consensus source, the bucket storage, list caches.\<close>

definition sample_crc :: "bytes \<Rightarrow> u32" where
  "sample_crc bs = foldl (\<lambda>a b. push_bit 1 a XOR ucast b) 0xffff bs"

definition sample_env ::
  "(IPV4Consensus, NodeBucketStorage, nat \<times> (SocketAddr \<times> PeerInfo) list,
    nat \<times> (Id \<times> nat \<times> (SocketAddr \<times> PeerInfo) list) list) dht_env" where
  "sample_env =
     \<lparr>e_ip4 = consensus_source, e_nodes = nbs_ops insertion_sort, e_outer = list_lru, e_inner = list_lru,
      e_crc = sample_crc\<rparr>"

definition sample_state ::
  "(IPV4Consensus, NodeBucketStorage, nat \<times> (Id \<times> nat \<times> (SocketAddr \<times> PeerInfo) list) list) DHTState" where
  "sample_state =
     \<lparr>st_ip4_source = consensus_new 2 10, st_our_id = id_zero, st_buckets = nbs_new id_zero 8,
      st_peer_storage = peer_storage_new list_lru 50 100, st_token_secret = [1, 2, 3],
      st_old_token_secret = [1, 2, 3], st_settings = default_settings, st_subscribers = []\<rparr>"

definition sample_input :: handler_input where
  "sample_input = \<lparr>hi_seen = 5, hi_seen' = 6, hi_clock = 7, hi_send = 8, hi_shuffle = (\<lambda>n xs. take n xs)\<rparr>"

definition sample_get_peers :: GetPeersRequestArguments where
  "sample_get_peers = GetPeersRequestArguments (sample_id 7 7) (sample_id 1 2)"

definition sample_get_peers_message :: Message where
  "sample_get_peers_message =
     \<lparr>transaction_id = [9], version = None, requester_ip = None,
      message_type = Request (GetPeersRequest sample_get_peers), read_only = Some True\<rparr>"

lemma sample_sane: "sane sample_env sample_state"
  by (simp add: sane_def sample_env_def sample_state_def ps_get_info_hashes_def peer_storage_new_def
      list_lru_def default_settings_def i32_max_def)

lemma sample_addr_v4 [simp]: "sock_is_v4 (sample_addr a)"
  by (simp add: sample_addr_def)

section \<open>Properties\<close>

text \<open>
  C9. Every request from an IPv4 address gets an answer, with the request's transaction id, of the
  kind that matches the request, signed with our id and telling the requester its own address; the
  only request that may stay unanswered is an announce, and nothing panics, as long as the sampling
  interval is not negative and the info hashes can be counted in an \<open>i32\<close>.
\<close>

theorem requests_are_answered:
  assumes "message_type msg = Request req" and "sock_is_v4 addr" and "sane E st"
  shows "\<exists>st' r. handle_request E st req addr msg inp = (st', Ok r) \<and>
    (case r of
       None \<Rightarrow> (\<exists>a. req = AnnouncePeerRequest a)
     | Some m \<Rightarrow> transaction_id m = transaction_id msg \<and> get_author_id m = Some (st_our_id st) \<and>
         requester_ip m = Some addr \<and> (\<exists>s. message_type m = Response s \<and> response_matches_request s req))"
proof -
  obtain st' r where h: "handle_request E st req addr msg inp = (st', Ok r)"
    and r: "r = None \<longrightarrow> (\<exists>a. req = AnnouncePeerRequest a)"
    using handle_request_answers [OF assms] by blast
  show ?thesis
    using h r handle_request_reply [of E st req addr msg inp st']
    by (cases r) (auto simp: reply_ok_def)
qed

theorem requests_are_answered_witness:
  "\<exists>st' m. handle_request sample_env sample_state (GetPeersRequest sample_get_peers) (sample_addr 1)
      sample_get_peers_message sample_input = (st', Ok (Some m)) \<and> transaction_id m = [9]"
proof -
  have "message_type sample_get_peers_message = Request (GetPeersRequest sample_get_peers)"
    "transaction_id sample_get_peers_message = [9]"
    by (simp_all add: sample_get_peers_message_def)
  then obtain st' r where "handle_request sample_env sample_state (GetPeersRequest sample_get_peers) (sample_addr 1)
      sample_get_peers_message sample_input = (st', Ok r)" "case r of None \<Rightarrow> False | Some m \<Rightarrow> transaction_id m = [9]"
    using requests_are_answered [OF _ sample_addr_v4 sample_sane, of sample_get_peers_message] 
    by (fastforce split: option.splits)
  then show ?thesis by (cases r) auto
qed

text \<open>
  C40. A request over IPv6 from anything but the loopback address panics, before it is answered: the
  check of the sender's id against its address does. (The builder only offers IPv4 listening
  addresses, \<open>DHT::new\<close> takes any.)
\<close>

theorem ipv6_requests_panic:
  assumes "message_type msg = Request req" and "sock_ip addr = IpV6 ip" and "\<not> is_loopback (IpV6 ip)"
  shows "snd (snd (accept_single_packet E st sock msg addr inp)) = Panic"
proof -
  have "is_valid_for_ip (e_crc E) (request_author req) (IpV6 ip) = Panic"
    using assms(3) magic_from_ip_v6_panics by (simp add: is_valid_for_ip_def)
  then have "common_request_handling E st addr msg inp = Panic"
    by (simp add: common_request_handling_def request_author_id [OF assms(1)] assms(2))
  then show ?thesis by (simp add: accept_single_packet_def assms(1) handle_request_unfold)
qed

theorem ipv6_requests_panic_witness:
  "snd (snd (accept_single_packet sample_env sample_state socket_new sample_get_peers_message
     (SockV6 (Ipv6Addr 2) 80 0 0) sample_input)) = Panic"
proof -
  have "message_type sample_get_peers_message = Request (GetPeersRequest sample_get_peers)"
    by (simp add: sample_get_peers_message_def)
  from ipv6_requests_panic [OF this, of "SockV6 (Ipv6Addr 2) 80 0 0" "Ipv6Addr 2"] show ?thesis by simp
qed

end
