(* ===== verification/Dht_System.thy ===== *)
theory Dht_System
  imports Dht_CoreProps
begin

text \<open>
  The node over time: the tasks of \<open>src/dht/dht.rs\<close> run concurrently on one locked \<open>DHTState\<close>, so a
  history is a sequence of sections under the lock, in any order. The step relation has one rule for
  each section, on the throttler (owned by the accept loop) and the state; steps that panic or end a
  task are not steps. A packet passes through four sections (the throttler, the requester's entry in
  the routing table, the reply, the notification of the subscribers) and a response through two,
  between which sections of other tasks may come. Two more rules run such a
  sequence without interruption, as \<open>accept_body\<close> and \<open>handle_own_response\<close> do. Nothing forces the sections
  of one packet into their order, so there are more histories than the program has, and what
  holds in all of them holds in those of the program.
  The receiving ends of the subscriptions belong to the user of the library: they
  can take an event or close at any time. Invariants over these histories come from one lemma per
  handler.
\<close>

section \<open>Steps\<close>

type_synonym ('i, 'n, 'o) dht_node = "Throttler \<times> ('i, 'n, 'o) DHTState"

datatype dht_event =
    Incoming Socket MessagePair handler_input instant instant
  | ThrottleCheck IpAddr instant instant
  | SeenRequest SocketAddr Message handler_input
  | MakeReply SocketAddr Message handler_input
  | NotifyPacket Message
  | OwnResponse SocketAddr "Message option" "nat \<Rightarrow> instant \<times> instant"
  | RecordResponder SocketAddr Message "instant \<times> instant"
  | RecordFoundNodes Message "nat \<Rightarrow> instant \<times> instant"
  | RotateTokens "nat \<Rightarrow> u8"
  | Ip4Maintenance u8 u8 "nat \<Rightarrow> u8"
  | BuddyPing instant instant
  | ListInfoHashes "instant option"
  | Subscribe
  | TakeEvent nat
  | CloseSubscription nat

inductive dht_step ::
  "('i, 'n, 'sw, 'o) dht_env \<Rightarrow> ('i, 'n, 'o) dht_node \<Rightarrow> dht_event \<Rightarrow> ('i, 'n, 'o) dht_node \<Rightarrow> bool"
  for E :: "('i, 'n, 'sw, 'o) dht_env" where
  incoming: "accept_body E (cfg_read_only (st_settings st)) thr st sock pkt inp c c' = (thr', st', sock', r) \<Longrightarrow>
     accept_continues r \<Longrightarrow> dht_step E (thr, st) (Incoming sock pkt inp c c') (thr', st')"
| throttle_check: "check_throttle thr ip None None c c' = Ok (thr', throttled) \<Longrightarrow>
     dht_step E (thr, st) (ThrottleCheck ip c c') (thr', st)"
| seen_request: "\<not> cfg_read_only (st_settings st) \<Longrightarrow> message_type msg = Request req \<Longrightarrow>
     common_request_handling E st addr msg inp = Ok st' \<Longrightarrow> dht_step E (thr, st) (SeenRequest addr msg inp) (thr, st')"
| make_reply: "\<not> cfg_read_only (st_settings st) \<Longrightarrow> message_type msg = Request req \<Longrightarrow>
     request_reply E st req addr msg inp = (st', Ok reply) \<Longrightarrow> dht_step E (thr, st) (MakeReply addr msg inp) (thr, st')"
| notify_packet: "dht_step E (thr, st) (NotifyPacket msg) (thr, send_packet_to_subscribers st msg)"
| own_response: "handle_own_response E st target reply clk = (Ok st', r) \<Longrightarrow>
     dht_step E (thr, st) (OwnResponse target reply clk) (thr, st')"
| record_responder: "message_type reply = Response v \<Longrightarrow> record_responder E st target reply clk' = Ok st' \<Longrightarrow>
     dht_step E (thr, st) (RecordResponder target reply clk') (thr, st')"
| record_nodes: "message_type reply = Response v \<Longrightarrow> record_found_nodes E st v clk = Ok st' \<Longrightarrow>
     dht_step E (thr, st) (RecordFoundNodes reply clk) (thr, st')"
| rotate: "dht_step E (thr, st) (RotateTokens rng) (thr, rotate_token_secrets st rng)"
| maintenance: "ip4_maintenance_turn E st r g rest = Ok st' \<Longrightarrow>
     dht_step E (thr, st) (Ip4Maintenance r g rest) (thr, st')"
| buddy_ping: "dht_step E (thr, st) (BuddyPing now now') (thr, buddy_ping_turn E st now now')"
| listing: "dht_get_info_hashes E st newer_than = (st', infos) \<Longrightarrow>
     dht_step E (thr, st) (ListInfoHashes newer_than) (thr, st')"
| subscribe: "dht_step E (thr, st) Subscribe (thr, dht_subscribe st)"
| take_event: "k < length (st_subscribers st) \<Longrightarrow> sub_queue (st_subscribers st ! k) = event # rest \<Longrightarrow>
     dht_step E (thr, st) (TakeEvent k) (thr, st\<lparr>st_subscribers :=
       (st_subscribers st)[k := (st_subscribers st ! k)\<lparr>sub_queue := rest\<rparr>]\<rparr>)"
| close_subscription: "k < length (st_subscribers st) \<Longrightarrow>
     dht_step E (thr, st) (CloseSubscription k) (thr, st\<lparr>st_subscribers :=
       (st_subscribers st)[k := (st_subscribers st ! k)\<lparr>sub_closed := True\<rparr>]\<rparr>)"

inductive dht_steps ::
  "('i, 'n, 'sw, 'o) dht_env \<Rightarrow> ('i, 'n, 'o) dht_node \<Rightarrow> dht_event list \<Rightarrow> ('i, 'n, 'o) dht_node \<Rightarrow> bool"
  for E :: "('i, 'n, 'sw, 'o) dht_env" and s :: "('i, 'n, 'o) dht_node" where
  none: "dht_steps E s [] s"
| more: "dht_steps E s evs t \<Longrightarrow> dht_step E t e u \<Longrightarrow> dht_steps E s (evs @ [e]) u"

inductive_simps dht_step_simps:
  "dht_step E (thr, st) (Incoming sock pkt inp c c') u"
  "dht_step E (thr, st) (ThrottleCheck ip c c') u"
  "dht_step E (thr, st) (SeenRequest addr msg inp) u"
  "dht_step E (thr, st) (MakeReply addr msg inp) u"
  "dht_step E (thr, st) (NotifyPacket msg) u"
  "dht_step E (thr, st) (OwnResponse target reply clk) u"
  "dht_step E (thr, st) (RecordResponder target m clk') u"
  "dht_step E (thr, st) (RecordFoundNodes m clk) u"
  "dht_step E (thr, st) (RotateTokens rng) u"
  "dht_step E (thr, st) (Ip4Maintenance r g rest) u"
  "dht_step E (thr, st) (BuddyPing now now') u"
  "dht_step E (thr, st) (ListInfoHashes newer_than) u"
  "dht_step E (thr, st) Subscribe u"
  "dht_step E (thr, st) (TakeEvent k) u"
  "dht_step E (thr, st) (CloseSubscription k) u"

lemma dht_steps_single: "dht_step E s e t \<Longrightarrow> dht_steps E s [e] t"
  using dht_steps.more [OF dht_steps.none] by simp

lemma dht_steps_snoc2: "dht_step E s e t \<Longrightarrow> dht_step E t e' u \<Longrightarrow> dht_steps E s [e, e'] u"
  using dht_steps.more [OF dht_steps_single] by fastforce

section \<open>What each step leaves alone\<close>

named_theorems frame_simps \<open>the parts of the state that a section under the lock leaves alone\<close>

lemma accept_single_packet_identity:
  assumes "accept_single_packet E st sock msg addr inp = (st', sock', r)"
  shows "same_identity st st' \<and> st_ip4_source st' = st_ip4_source st \<and> st_subscribers st' = st_subscribers st"
proof (cases "message_type msg")
  case (Request req)
  have "st' = fst (handle_request E st req addr msg inp)"
    using assms Request
    by (auto simp: accept_single_packet_def split: prod.splits res.splits option.splits)
  then show ?thesis using handle_request_state [of E st req addr msg inp] by auto
qed (use assms in \<open>auto simp: accept_single_packet_def\<close>)

lemma send_packet_frame [frame_simps]:
  "st_ip4_source (send_packet_to_subscribers st msg) = st_ip4_source st"
  "st_our_id (send_packet_to_subscribers st msg) = st_our_id st"
  "st_buckets (send_packet_to_subscribers st msg) = st_buckets st"
  "st_peer_storage (send_packet_to_subscribers st msg) = st_peer_storage st"
  "st_token_secret (send_packet_to_subscribers st msg) = st_token_secret st"
  "st_old_token_secret (send_packet_to_subscribers st msg) = st_old_token_secret st"
  "st_settings (send_packet_to_subscribers st msg) = st_settings st"
  by (simp_all add: send_packet_to_subscribers_def Let_def)

lemma send_packet_identity: "same_identity st st1 \<Longrightarrow> same_identity st (send_packet_to_subscribers st1 msg)"
  by (simp add: same_identity_def frame_simps)

text \<open>The body of the accept loop: what became of the packet.\<close>

lemma accept_body_cases:
  assumes "accept_body E ro thr st sock (msg, addr) inp c c' = (thr', st', sock', r)"
  obtains "st' = st" and "sock' = sock" and "r \<noteq> Ok () \<or> sock_port addr = 0 \<or>
      check_throttle thr (sock_ip addr) None None c c' = Ok (thr', True)"
  | "ro" "st' = send_packet_to_subscribers st msg" "sock' = sock" "r = Ok ()"
  | st1 where "\<not> ro" "accept_single_packet E st sock msg addr inp = (st1, sock', r)"
      "st' = (if r = Ok () then send_packet_to_subscribers st1 msg else st1)"
proof (cases "check_throttle thr (sock_ip addr) None None c c'")
  case (Ok p)
  obtain thr1 throttled where p: "p = (thr1, throttled)" by (cases p)
  note body = assms [unfolded accept_body_def prod.case Ok p res.case Let_def]
  show thesis
  proof (cases "throttled \<or> sock_port addr = 0")
    case True
    then have "st' = st" "sock' = sock" "thr' = thr1" using body by (auto split: if_splits)
    then show thesis using that(1) True Ok p by auto
  next
    case False
    show thesis
    proof (cases ro)
      case True
      then have "st' = send_packet_to_subscribers st msg" "sock' = sock" "r = Ok ()"
        using body False by simp_all
      with True show thesis by (rule that(2))
    next
      case ro: False
      obtain st1 sock1 r1 where a: "accept_single_packet E st sock msg addr inp = (st1, sock1, r1)"
        by (cases "accept_single_packet E st sock msg addr inp")
      then have "sock' = sock1" "r = r1" "st' = (if r = Ok () then send_packet_to_subscribers st1 msg else st1)"
        using body False ro by (auto split: res.splits)
      with ro a show thesis by (intro that(3)) simp_all
    qed
  qed
qed (use that(1) assms in \<open>auto simp: accept_body_def\<close>)

lemma accept_body_identity:
  assumes "accept_body E ro thr st sock pkt inp c c' = (thr', st', sock', r)"
  shows "same_identity st st' \<and> st_ip4_source st' = st_ip4_source st"
proof -
  obtain msg addr where pkt: "pkt = (msg, addr)" by (cases pkt)
  from assms [unfolded pkt] show ?thesis
  proof (cases rule: accept_body_cases)
    case (3 st1)
    then show ?thesis using accept_single_packet_identity [OF 3(2)]
      by (auto simp: frame_simps intro: send_packet_identity)
  qed (auto simp: frame_simps intro: send_packet_identity)
qed

lemma ip4_vote_frame:
  assumes "ip4_vote_helper E st addr msg = Ok st1"
  obtains src where "st1 = st\<lparr>st_ip4_source := src\<rparr>"
    "src = st_ip4_source st \<or> (\<exists>a b. add_vote (e_ip4 E) (st_ip4_source st) a b = Ok src)"
proof (cases "\<exists>a ours p. sock_ip addr = IpV4 a \<and> requester_ip msg = Some (SockV4 ours p)")
  case True
  then obtain a ours p src where "sock_ip addr = IpV4 a" "requester_ip msg = Some (SockV4 ours p)"
    "add_vote (e_ip4 E) (st_ip4_source st) a ours = Ok src" "st1 = st\<lparr>st_ip4_source := src\<rparr>"
    using assms by (auto simp: ip4_vote_helper_def)
  then show thesis using that [of src] by blast
next
  case False
  then have "st1 = st" using assms
    by (auto simp: ip4_vote_helper_def split: IpAddr.splits option.splits SocketAddr.splits)
  then show thesis using that [of "st_ip4_source st"] by simp
qed

section \<open>The routing table as a history of reports\<close>

lemma ns_run_append: "ns_run N s (evs @ evs') = ns_run N (ns_run N s evs) evs'"
  by (simp add: ns_run_def)

lemma ns_run_simps [simp]: "ns_run N s [] = s" "ns_run N s (e # evs) = ns_run N (ns_step N s e) evs"
  by (simp_all add: ns_run_def)

lemma verified_in_append [simp]: "verified_in (evs @ evs') = verified_in evs \<union> verified_in evs'"
  by (induction evs rule: verified_in.induct) auto

text \<open>The id of the node is valid for its address.\<close>

definition id_fits :: "('i, 'n, 'sw, 'o) dht_env \<Rightarrow> Node \<Rightarrow> bool" where
  "id_fits E n \<longleftrightarrow> is_valid_for_ip (e_crc E) (node_id n) (sock_ip (node_address n)) = Ok True"

lemma add_seen_nodes_run:
  "add_seen_nodes E clk st nodes = Ok st' \<Longrightarrow>
     \<exists>evs. st' = st\<lparr>st_buckets := ns_run (e_nodes E) (st_buckets st) evs\<rparr> \<and> verified_in evs = {} \<and>
       reports evs \<subseteq> {n \<in> set nodes. id_fits E n}"
proof (induction nodes arbitrary: clk st)
  case Nil
  then show ?case by (intro exI [of _ "[]"]) simp
next
  case (Cons n ns)
  obtain v where v: "is_valid_for_ip (e_crc E) (node_id n) (sock_ip (node_address n)) = Ok v"
    using Cons.prems by auto
  let ?e = "if v then [AddOrUpdate n False (fst (clk 0)) (snd (clk 0))] else []"
  have e: "(if v then st\<lparr>st_buckets := ns_add_or_update (e_nodes E) (st_buckets st) n False (fst (clk 0)) (snd (clk 0))\<rparr> else st)
      = st\<lparr>st_buckets := ns_run (e_nodes E) (st_buckets st) ?e\<rparr>" "verified_in ?e = {}" "reports ?e \<subseteq> {n' \<in> {n}. id_fits E n'}"
    using v by (simp_all add: id_fits_def)
  have "add_seen_nodes E (\<lambda>n. clk (Suc n)) (st\<lparr>st_buckets := ns_run (e_nodes E) (st_buckets st) ?e\<rparr>) ns = Ok st'"
    using Cons.prems v by (simp only: add_seen_nodes.simps res_bind.simps e)
  from Cons.IH [OF this] obtain evs where "st' = st\<lparr>st_buckets := ns_run (e_nodes E) (st_buckets st) (?e @ evs)\<rparr>"
    "verified_in evs = {}" "reports evs \<subseteq> {n \<in> set ns. id_fits E n}"
    by (auto simp: ns_run_append)
  then show ?case using e by (intro exI [of _ "?e @ evs"]) auto
qed

text \<open>The ids that a step learns to be alive: a response arrived, and its id fits the address asked.\<close>

fun responders :: "('i, 'n, 'sw, 'o) dht_env \<Rightarrow> dht_event \<Rightarrow> Id set" where
  "responders E (OwnResponse target (Some reply) clk) =
     {i. is_response reply \<and> get_author_id reply = Some i \<and> is_valid_for_ip (e_crc E) i (sock_ip target) = Ok True}"
| "responders E (RecordResponder target reply clk) =
     {i. is_response reply \<and> get_author_id reply = Some i \<and> is_valid_for_ip (e_crc E) i (sock_ip target) = Ok True}"
| "responders E e = {}"

text \<open>
  The nodes that a step reports to the routing table: the sender of a request, who answered, and whom a
  response names, all with an id that is valid for the address.
\<close>

fun reporters :: "('i, 'n, 'sw, 'o) dht_env \<Rightarrow> dht_event \<Rightarrow> Node set" where
  "reporters E (Incoming sock pkt inp c c') =
     {n. id_fits E n \<and> (\<exists>req. message_type (fst pkt) = Request req) \<and> get_author_id (fst pkt) = Some (node_id n) \<and>
        node_address n = snd pkt \<and> Message.read_only (fst pkt) \<noteq> Some True}"
| "reporters E (SeenRequest addr msg inp) =
     {n. id_fits E n \<and> (\<exists>req. message_type msg = Request req) \<and> get_author_id msg = Some (node_id n) \<and>
        node_address n = addr \<and> Message.read_only msg \<noteq> Some True}"
| "reporters E (OwnResponse target (Some reply) clk) =
     {n. id_fits E n \<and> is_response reply \<and>
        (get_author_id reply = Some (node_id n) \<and> node_address n = target \<or>
         (\<exists>args. message_type reply = Response (FindNodeResponse args) \<and> n \<in> set (find_nodes args)))}"
| "reporters E (RecordResponder target reply clk) =
     {n. id_fits E n \<and> is_response reply \<and> get_author_id reply = Some (node_id n) \<and> node_address n = target}"
| "reporters E (RecordFoundNodes reply clk) =
     {n. id_fits E n \<and> (\<exists>args. message_type reply = Response (FindNodeResponse args) \<and> n \<in> set (find_nodes args))}"
| "reporters E e = {}"

text \<open>What the two sections of a response and the two of a request do to the state.\<close>

definition response_frame :: "('i, 'n, 'sw, 'o) dht_env \<Rightarrow> ('i, 'n, 'o) DHTState \<Rightarrow> ('i, 'n, 'o) DHTState \<Rightarrow> bool" where
  "response_frame E st st' \<longleftrightarrow>
     same_identity st st' \<and> st_peer_storage st' = st_peer_storage st \<and> st_subscribers st' = st_subscribers st \<and>
     (st_ip4_source st' = st_ip4_source st \<or> (\<exists>a b. add_vote (e_ip4 E) (st_ip4_source st) a b = Ok (st_ip4_source st')))"

lemma record_responder_run:
  assumes "message_type reply = Response v" and "record_responder E st target reply clk = Ok st'"
  shows "\<exists>evs. st_buckets st' = ns_run (e_nodes E) (st_buckets st) evs \<and>
    verified_in evs \<subseteq> responders E (RecordResponder target reply clk) \<and>
    reports evs \<subseteq> reporters E (RecordResponder target reply clk) \<and> response_frame E st st'"
proof -
  obtain i ok where i: "get_author_id reply = Some i" "is_valid_for_ip (e_crc E) i (sock_ip target) = Ok ok"
    using assms by (auto simp: record_responder_def expect_def split: option.splits)
  have ir: "is_response reply" using assms(1) by (simp add: is_response_def)
  show ?thesis
  proof (cases ok)
    case True
    then obtain st1 where st1: "ip4_vote_helper E st target reply = Ok st1"
      and st': "st' = st1\<lparr>st_buckets := ns_add_or_update (e_nodes E) (st_buckets st1) (Node i target) True (fst clk) (snd clk)\<rparr>"
      using assms i by (auto simp: record_responder_def)
    obtain src where "st1 = st\<lparr>st_ip4_source := src\<rparr>"
      "src = st_ip4_source st \<or> (\<exists>a b. add_vote (e_ip4 E) (st_ip4_source st) a b = Ok src)"
      by (rule ip4_vote_frame [OF st1])
    then show ?thesis using st' i ir True
      by (intro exI [of _ "[AddOrUpdate (Node i target) True (fst clk) (snd clk)]"])
        (simp add: response_frame_def same_identity_def id_fits_def)
  next
    case False
    then have "st' = st" using assms i by (simp add: record_responder_def)
    then show ?thesis by (intro exI [of _ "[]"]) (simp add: response_frame_def)
  qed
qed

lemma record_found_nodes_run:
  assumes "message_type reply = Response v" and "record_found_nodes E st v clk = Ok st'"
  shows "\<exists>evs. st_buckets st' = ns_run (e_nodes E) (st_buckets st) evs \<and> verified_in evs = {} \<and>
    reports evs \<subseteq> reporters E (RecordFoundNodes reply clk) \<and> st' = st\<lparr>st_buckets := st_buckets st'\<rparr>"
proof (cases "\<exists>args. v = FindNodeResponse args")
  case True
  then obtain args where args: "v = FindNodeResponse args" by blast
  then have "add_seen_nodes E clk st (find_nodes args) = Ok st'" using assms(2) by (simp add: record_found_nodes_def)
  from add_seen_nodes_run [OF this] obtain evs where "st' = st\<lparr>st_buckets := ns_run (e_nodes E) (st_buckets st) evs\<rparr>"
    "verified_in evs = {}" "reports evs \<subseteq> {n \<in> set (find_nodes args). id_fits E n}" by blast
  then show ?thesis using assms(1) args by (intro exI [of _ evs]) auto
next
  case False
  then have "st' = st" using assms(2) by (auto simp: record_found_nodes_def split: ResponseSpecific.splits)
  then show ?thesis by (intro exI [of _ "[]"]) simp
qed

lemma record_found_nodes_frame:
  assumes "message_type (reply :: Message) = Response v" and "record_found_nodes E st v clk = Ok st'"
  shows "st' = st\<lparr>st_buckets := st_buckets st'\<rparr>"
  using record_found_nodes_run [OF assms] by (elim exE conjE)

lemma response_frame_buckets: "response_frame E st st1 \<Longrightarrow> response_frame E st (st1\<lparr>st_buckets := b\<rparr>)"
  by (simp add: response_frame_def same_identity_def)

lemma handle_own_response_run:
  assumes "handle_own_response E st target received clk = (Ok st', r)"
  shows "\<exists>evs. st_buckets st' = ns_run (e_nodes E) (st_buckets st) evs \<and>
    verified_in evs \<subseteq> responders E (OwnResponse target received clk) \<and>
    reports evs \<subseteq> reporters E (OwnResponse target received clk) \<and>
    same_identity st st' \<and> st_peer_storage st' = st_peer_storage st \<and> st_subscribers st' = st_subscribers st \<and>
    (st_ip4_source st' = st_ip4_source st \<or> (\<exists>a b. add_vote (e_ip4 E) (st_ip4_source st) a b = Ok (st_ip4_source st')))"
proof (cases "\<exists>reply v. received = Some reply \<and> message_type reply = Response v")
  case False
  then have "st' = st" using assms
    by (auto simp: handle_own_response_unfold split: option.splits MessageType.splits)
  then show ?thesis by (intro exI [of _ "[]"]) simp
next
  case True
  then obtain reply v where reply: "received = Some reply" "message_type reply = Response v" by blast
  then obtain st1 where st1: "record_responder E st target reply (clk 0) = Ok st1"
    "record_found_nodes E st1 v (\<lambda>n. clk (Suc n)) = Ok st'"
    using assms by (auto simp: handle_own_response_def Let_def)
  obtain evs where evs: "st_buckets st1 = ns_run (e_nodes E) (st_buckets st) evs"
    "verified_in evs \<subseteq> responders E (RecordResponder target reply (clk 0))"
    "reports evs \<subseteq> reporters E (RecordResponder target reply (clk 0))" "response_frame E st st1"
    using record_responder_run [OF reply(2) st1(1)] by blast
  obtain evs' where evs': "st_buckets st' = ns_run (e_nodes E) (st_buckets st1) evs'" "verified_in evs' = {}"
    "reports evs' \<subseteq> reporters E (RecordFoundNodes reply (\<lambda>n. clk (Suc n)))" "st' = st1\<lparr>st_buckets := st_buckets st'\<rparr>"
    using record_found_nodes_run [OF reply(2) st1(2)] by blast
  have "is_response reply" using reply(2) by (simp add: is_response_def)
  then have "reports (evs @ evs') \<subseteq> reporters E (OwnResponse target received clk)"
    using evs(3) evs'(3) reply by auto
  moreover have "response_frame E st st'"
    by (subst evs'(4)) (rule response_frame_buckets [OF evs(4)])
  ultimately show ?thesis
    using evs(1,2) evs'(1,2) reply(1) unfolding response_frame_def
    by (intro exI [of _ "evs @ evs'"]) (simp add: ns_run_append)
qed

text \<open>Listing the info hashes only touches the recency order of the peer caches.\<close>

lemma dht_get_info_hashes_frame:
  assumes "dht_get_info_hashes E st newer_than = (st', infos)"
  shows "\<exists>ps. st' = st\<lparr>st_peer_storage := ps\<rparr>"
  using assms by (auto simp: dht_get_info_hashes_def Let_def split: prod.splits)

lemma ip4_maintenance_turn_cases:
  assumes "ip4_maintenance_turn E st r g rest = Ok st'"
  obtains src best where "decay (e_ip4 E) (st_ip4_source st) = Ok src" "get_best_ipv4 (e_ip4 E) src = Ok best"
    "st' = st\<lparr>st_ip4_source := src\<rparr>"
    "best = None \<or> (\<exists>ip. best = Some ip \<and> is_valid_for_ip (e_crc E) (st_our_id st) (IpV4 ip) = Ok True)"
  | src ip i where "decay (e_ip4 E) (st_ip4_source st) = Ok src" "get_best_ipv4 (e_ip4 E) src = Ok (Some ip)"
    "is_valid_for_ip (e_crc E) (st_our_id st) (IpV4 ip) = Ok False"
    "id_from_ip (e_crc E) (IpV4 ip) r g rest = Ok i"
    "st' = st\<lparr>st_ip4_source := src, st_our_id := i, st_buckets := ns_set_id (e_nodes E) (st_buckets st) i\<rparr>"
proof -
  obtain src best where src: "decay (e_ip4 E) (st_ip4_source st) = Ok src" "get_best_ipv4 (e_ip4 E) src = Ok best"
    using assms by (auto simp: ip4_maintenance_turn_def Let_def)
  note turn = assms [unfolded ip4_maintenance_turn_def src res_bind.simps Let_def]
  show thesis
  proof (cases best)
    case None
    then show thesis using that(1) [OF src] turn src by simp
  next
    case (Some ip)
    then obtain v where v: "is_valid_for_ip (e_crc E) (st_our_id st) (IpV4 ip) = Ok v"
      using is_valid_for_ip_v4_ok by blast
    show thesis
    proof (cases v)
      case True
      then show thesis using that(1) [OF src] turn src v Some by simp
    next
      case False
      then show thesis using that(2) turn src v Some by auto
    qed
  qed
qed

lemma accept_body_run:
  assumes "accept_body E ro thr st sock pkt inp c c' = (thr', st', sock', r)"
  shows "\<exists>evs. st_buckets st' = ns_run (e_nodes E) (st_buckets st) evs \<and> verified_in evs = {} \<and>
    reports evs \<subseteq> reporters E (Incoming sock pkt inp c c')"
proof -
  have same: "\<exists>evs. b = ns_run (e_nodes E) b evs \<and> verified_in evs = {} \<and> reports evs \<subseteq> A" for b A
    by (rule exI [of _ "[]"]) simp
  obtain msg addr where pkt: "pkt = (msg, addr)" by (cases pkt)
  from assms [unfolded pkt] show ?thesis
  proof (cases rule: accept_body_cases)
    case (3 st1)
    have b: "st_buckets st' = st_buckets st1" using 3(3) by (simp add: frame_simps)
    from accept_single_packet_buckets [OF 3(2)] show ?thesis
    proof (elim disjE exE conjE)
      fix i req
      assume "message_type msg = Request req" "get_author_id msg = Some i"
        "is_valid_for_ip (e_crc E) i (sock_ip addr) = Ok True" "Message.read_only msg \<noteq> Some True"
        "st_buckets st1 = ns_add_or_update (e_nodes E) (st_buckets st) (Node i addr) False (hi_seen inp) (hi_seen' inp)"
      then show ?thesis using b pkt
        by (intro exI [of _ "[AddOrUpdate (Node i addr) False (hi_seen inp) (hi_seen' inp)]"]) (simp add: id_fits_def)
    qed (simp add: b same)
  qed (simp_all add: frame_simps same)
qed

lemma step_run:
  assumes "dht_step E (thr, st) e (thr', st')"
  shows "\<exists>evs. st_buckets st' = ns_run (e_nodes E) (st_buckets st) evs \<and> verified_in evs \<subseteq> responders E e \<and>
    reports evs \<subseteq> reporters E e"
  using assms
proof cases
  case (incoming sock pkt inp c c' r)
  then show ?thesis using accept_body_run [OF incoming(2)] by auto
next
  case (seen_request msg req addr inp)
  from common_request_handling_Ok [OF seen_request(5)] have "st' = st \<or>
      (\<exists>i. joins E msg addr i \<and> st' = st\<lparr>st_buckets :=
         ns_add_or_update (e_nodes E) (st_buckets st) (Node i addr) False (hi_seen inp) (hi_seen' inp)\<rparr>)"
    by (auto split: option.splits)
  then show ?thesis
  proof (elim disjE exE conjE)
    fix i assume "joins E msg addr i" "st' = st\<lparr>st_buckets :=
         ns_add_or_update (e_nodes E) (st_buckets st) (Node i addr) False (hi_seen inp) (hi_seen' inp)\<rparr>"
    then show ?thesis using seen_request
      by (intro exI [of _ "[AddOrUpdate (Node i addr) False (hi_seen inp) (hi_seen' inp)]"]) (simp add: joins_def id_fits_def)
  qed (intro exI [of _ "[]"], simp)
next
  case (make_reply msg req addr inp reply)
  then show ?thesis using request_reply_state [of st E req addr msg inp] by (intro exI [of _ "[]"]) simp
next
  case (own_response target reply clk r)
  then show ?thesis using handle_own_response_run [OF own_response(3)] by auto
next
  case (record_responder reply v target clk)
  then show ?thesis using record_responder_run [OF record_responder(3,4)] by auto
next
  case (record_nodes reply v clk)
  then show ?thesis using record_found_nodes_run [OF record_nodes(3,4)] by auto
next
  case (maintenance r g rest)
  from maintenance(3) show ?thesis
  proof (cases rule: ip4_maintenance_turn_cases)
    case (1 src best)
    then show ?thesis by (intro exI [of _ "[]"]) simp
  next
    case (2 src ip i)
    then show ?thesis by (intro exI [of _ "[SetId i]"]) simp
  qed
next
  case (buddy_ping now now')
  let ?cfg = "st_settings st"
  show ?thesis using buddy_ping
    by (intro exI [of _ "[Prune (dur_from_secs (cfg_reverify_grace_period_secs ?cfg))
          (dur_from_secs (cfg_verify_grace_period_secs ?cfg)) now now']"]) (auto simp: buddy_ping_turn_def Let_def)
next
  case (listing newer_than infos)
  then show ?thesis using dht_get_info_hashes_frame [OF listing(3)] by (intro exI [of _ "[]"]) auto
qed (intro exI [of _ "[]"]; simp add: rotate_token_secrets_def dht_subscribe_def Let_def frame_simps)+

lemma steps_run:
  "dht_steps E s evs t \<Longrightarrow> \<exists>nevs. st_buckets (snd t) = ns_run (e_nodes E) (st_buckets (snd s)) nevs \<and>
     verified_in nevs \<subseteq> (\<Union>e \<in> set evs. responders E e) \<and> reports nevs \<subseteq> (\<Union>e \<in> set evs. reporters E e)"
proof (induction rule: dht_steps.induct)
  case none
  then show ?case by (intro exI [of _ "[]"]) simp
next
  case (more evs t e u)
  from more.IH obtain nevs where n: "st_buckets (snd t) = ns_run (e_nodes E) (st_buckets (snd s)) nevs"
    "verified_in nevs \<subseteq> (\<Union>e \<in> set evs. responders E e)" "reports nevs \<subseteq> (\<Union>e \<in> set evs. reporters E e)" by blast
  from step_run [of E "fst t" "snd t" e "fst u" "snd u"] more.hyps(2) obtain nevs'
    where "st_buckets (snd u) = ns_run (e_nodes E) (st_buckets (snd t)) nevs'" "verified_in nevs' \<subseteq> responders E e"
      "reports nevs' \<subseteq> reporters E e"
    by auto
  then show ?case using n by (intro exI [of _ "nevs @ nevs'"]) (auto simp: ns_run_append)
qed

text \<open>Only a rotation and the maintenance of our id touch what identifies the node.\<close>

lemma step_identity:
  assumes "dht_step E (thr, st) e (thr', st')"
    and "\<And>rng. e \<noteq> RotateTokens rng" and "\<And>r g rest. e \<noteq> Ip4Maintenance r g rest"
  shows "same_identity st st'"
  using assms(1)
proof cases
  case (incoming sock pkt inp c c' r)
  then show ?thesis using accept_body_identity [OF incoming(2)] by simp
next
  case (seen_request msg req addr inp)
  then show ?thesis using common_request_handling_identity [OF seen_request(5)] by simp
next
  case (make_reply msg req addr inp reply)
  then show ?thesis using request_reply_state [of st E req addr msg inp] by simp
next
  case (notify_packet msg)
  then show ?thesis by (simp add: send_packet_identity)
next
  case (own_response target reply clk r)
  then show ?thesis using handle_own_response_run [OF own_response(3)] by auto
next
  case (record_responder reply v clk' target)
  then show ?thesis using record_responder_run [OF record_responder(3,4)] by (auto simp: response_frame_def)
next
  case (record_nodes reply v clk)
  show ?thesis by (subst record_found_nodes_frame [OF record_nodes(3,4)]) simp
next
  case (listing newer_than infos)
  then show ?thesis using dht_get_info_hashes_frame [OF listing(3)] by auto
qed (use assms(2,3) in \<open>auto simp: dht_subscribe_def buddy_ping_turn_def Let_def\<close>)

end
