(* ===== verification/Dht_NodeInv.thy ===== *)
theory Dht_NodeInv
  imports Dht_System
begin

text \<open>
  The node's own state over its histories: the client of the address source and of the peer caches,
  stated over the interfaces of both. The invariant is what the handlers need in order not to panic,
  and every step of \<open>Dht_System\<close> keeps it.
\<close>

lemma request_reply_storage:
  assumes "request_reply E st req addr msg inp = (st', r)"
  shows "st_peer_storage st' = st_peer_storage st \<or>
    (\<exists>h nt. st_peer_storage st' = fst (ps_get_peers (e_outer E) (e_inner E) (st_peer_storage st) h nt)) \<or>
    (\<exists>h a t. st_peer_storage st' = ps_announce_peer (e_outer E) (e_inner E) (st_peer_storage st) h a t)"
proof (cases req)
  case (GetPeersRequest a)
  then have "st' = fst (get_peers_reply E st addr msg a inp)"
    using assms by (auto simp: request_reply_def split: prod.splits)
  then show ?thesis by (auto simp: get_peers_reply_state)
next
  case (AnnouncePeerRequest a)
  then have "announce_peer_reply E st addr msg a inp = (st', r)" using assms by (simp add: request_reply_def)
  then have "st_peer_storage st' = st_peer_storage st \<or>
      st_peer_storage st' = ps_announce_peer (e_outer E) (e_inner E) (st_peer_storage st) (ap_info_hash a)
        (if ap_implied_port a = Some True then addr else sock_set_port addr (ap_port a)) (hi_clock inp)"
    by (auto simp: announce_peer_reply_def Let_def split: if_splits)
  then show ?thesis by blast
qed (use assms in \<open>auto simp: request_reply_def\<close>)

lemma handle_request_storage:
  assumes "handle_request E st req addr msg inp = (st', r)"
  shows "st_peer_storage st' = st_peer_storage st \<or>
    (\<exists>h nt. st_peer_storage st' = fst (ps_get_peers (e_outer E) (e_inner E) (st_peer_storage st) h nt)) \<or>
    (\<exists>h a t. st_peer_storage st' = ps_announce_peer (e_outer E) (e_inner E) (st_peer_storage st) h a t)"
proof (cases "common_request_handling E st addr msg inp")
  case (Ok st1)
  then have "request_reply E st1 req addr msg inp = (st', r)" using assms by (simp add: handle_request_def)
  from request_reply_storage [OF this] show ?thesis using common_request_handling_identity [OF Ok] by simp
qed (use assms in \<open>auto simp: handle_request_def\<close>)

lemma id_from_ip_v4_ok: "\<exists>i. id_from_ip crc (IpV4 a) r g rest = Ok i"
proof -
  obtain p where p: "magic_from_ip crc (IpV4 a) r = Ok \<lparr>magic_prefix = p, magic_suffix = r\<rparr>"
    using magic_from_ip_v4_ok by blast
  then show ?thesis by (cases p) (simp add: id_from_ip_def)
qed

lemma add_seen_nodes_total:
  "nodes_v4 nodes \<Longrightarrow> \<exists>st'. add_seen_nodes E clk st nodes = Ok st' \<and>
     st_peer_storage st' = st_peer_storage st \<and> st_ip4_source st' = st_ip4_source st \<and> st_settings st' = st_settings st"
proof (induction nodes arbitrary: clk st)
  case (Cons n ns)
  obtain a p where "node_address n = SockV4 a p" using Cons.prems by (auto simp: nodes_v4_def sock_is_v4_iff)
  moreover obtain v where "is_valid_for_ip (e_crc E) (node_id n) (IpV4 a) = Ok v" using is_valid_for_ip_v4_ok by blast
  moreover have "nodes_v4 ns" using Cons.prems by (simp add: nodes_v4_def)
  ultimately show ?case
    using Cons.IH [of "\<lambda>n. clk (Suc n)" st]
      Cons.IH [of "\<lambda>n. clk (Suc n)" "st\<lparr>st_buckets := ns_add_or_update (e_nodes E) (st_buckets st) n False (fst (clk 0)) (snd (clk 0))\<rparr>"]
    by auto
qed simp

text \<open>Without a panic of its own, the body of the accept loop only fails when the socket's task is gone.\<close>

lemma ds_send_to_no_panic: "snd (ds_send_to sock m dest i now) \<noteq> Panic"
  by (simp add: ds_send_to_unfold Let_def case_prod_beta)

lemma accept_single_packet_no_panic:
  assumes "sane E st" and "sock_is_v4 addr"
  shows "snd (snd (accept_single_packet E st sock msg addr inp)) \<noteq> Panic"
proof (cases "message_type msg")
  case (Request req)
  obtain st' r where h: "handle_request E st req addr msg inp = (st', Ok r)"
    using handle_request_answers [OF Request assms(2,1)] by blast
  show ?thesis
  proof (cases r)
    case (Some reply)
    obtain sock1 q where "ds_send_to sock reply addr (Some (request_author req)) (hi_send inp) = (sock1, q)" "q \<noteq> Panic"
      using ds_send_to_no_panic [of sock reply addr "Some (request_author req)" "hi_send inp"]
      by (metis prod.collapse)
    then show ?thesis using Some Request h by (cases q) (simp_all add: accept_single_packet_def)
  qed (simp add: Request h accept_single_packet_def)
qed (simp_all add: accept_single_packet_def)

lemma accept_body_no_panic:
  assumes "sane E st" and "sock_is_v4 addr" and "th_records thr \<noteq> []"
    and "c + th_period thr \<le> instant_max" and "c + th_naughty thr \<le> instant_max"
  shows "snd (snd (snd (accept_body E ro thr st sock (msg, addr) inp c c'))) \<noteq> Panic"
proof -
  obtain thr1 throttled where t: "check_throttle thr (sock_ip addr) None None c c' = Ok (thr1, throttled)"
    using check_throttle_post [OF assms(3) _ assms(4,5), where now_opt = None and k = c] by fastforce
  obtain st1 sock1 r where a: "accept_single_packet E st sock msg addr inp = (st1, sock1, r)" "r \<noteq> Panic"
    using accept_single_packet_no_panic [OF assms(1,2), of sock msg inp]
    by (cases "accept_single_packet E st sock msg addr inp") auto
  show ?thesis using a by (cases r) (auto simp: accept_body_def t)
qed

text \<open>The throttler of the accept loop keeps its configuration.\<close>

lemma throttle_if_over_config:
  "throttle_if_over t i r now = Ok (t', b) \<Longrightarrow> same_config t t'"
  by (auto simp: throttle_if_over_def same_config_def set_record_def split: if_splits)

lemma check_throttle_config:
  assumes "check_throttle t ip now_opt c k k' = Ok (t', b)"
  shows "same_config t t'"
  using assms
  by (auto simp: check_throttle_def Let_def dest: throttle_if_over_config split: prod.splits option.splits if_splits)
    (auto simp: same_config_def set_record_def)

lemma accept_body_config:
  assumes "accept_body E ro thr st sock pkt inp c c' = (thr', st', sock', r)"
  shows "same_config thr thr'"
proof -
  obtain msg addr where pkt: "pkt = (msg, addr)" by (cases pkt)
  show ?thesis
  proof (cases "check_throttle thr (sock_ip addr) None None c c'")
    case (Ok p)
    then have "thr' = fst p"
      using assms pkt by (auto simp: accept_body_def split: prod.splits if_splits res.splits)
    then show ?thesis using check_throttle_config Ok by (cases p) auto
  qed (use assms pkt in \<open>auto simp: accept_body_def same_config_def\<close>)
qed

lemma steps_config: "dht_steps E s evs t \<Longrightarrow> same_config (fst s) (fst t)"
proof (induction rule: dht_steps.induct)
  case (more evs t e u)
  from more.hyps(2) have "same_config (fst t) (fst u)"
    by cases (auto simp: same_config_def dest: accept_body_config [unfolded same_config_def]
        check_throttle_config [unfolded same_config_def])
  then show ?case using more.IH by (simp add: same_config_def)
qed (simp add: same_config_def)

text \<open>A turn of the maintenance always completes, whatever source it uses.\<close>

context ip4_source
begin

lemma maintenance_total:
  assumes "e_ip4 E = ops" and "inv (st_ip4_source st)"
  shows "\<exists>st'. ip4_maintenance_turn E st r g rest = Ok st'"
proof -
  obtain src where src: "decay ops (st_ip4_source st) = Ok src" using decay_ok [OF assms(2)] by blast
  obtain best where best: "get_best_ipv4 ops src = Ok best"
    using best_ok [OF inv_decay [OF assms(2)]] src by blast
  show ?thesis
  proof (cases best)
    case None
    then show ?thesis using src best assms(1) by (simp add: ip4_maintenance_turn_def Let_def)
  next
    case (Some ip)
    obtain v where "is_valid_for_ip (e_crc E) (st_our_id st) (IpV4 ip) = Ok v" using is_valid_for_ip_v4_ok by blast
    moreover obtain i where "id_from_ip (e_crc E) (IpV4 ip) r g rest = Ok i" using id_from_ip_v4_ok by blast
    ultimately show ?thesis using src best assms(1) Some by (simp add: ip4_maintenance_turn_def Let_def)
  qed
qed

text \<open>Votes and maintenance never fail.\<close>

lemma vote_total:
  assumes "e_ip4 E = ops" and "inv (st_ip4_source st)"
  shows "\<exists>src. ip4_vote_helper E st addr msg = Ok (st\<lparr>st_ip4_source := src\<rparr>) \<and> inv src"
proof (cases "\<exists>a ours p. sock_ip addr = IpV4 a \<and> requester_ip msg = Some (SockV4 ours p)")
  case True
  then obtain a ours p where "sock_ip addr = IpV4 a" "requester_ip msg = Some (SockV4 ours p)" by blast
  moreover obtain src where "add_vote (e_ip4 E) (st_ip4_source st) a ours = Ok src"
    using vote_ok [OF assms(2)] assms(1) by blast
  ultimately show ?thesis using inv_vote [OF assms(2)] assms(1) by (auto simp: ip4_vote_helper_def)
next
  case False
  then have "ip4_vote_helper E st addr msg = Ok st"
    by (auto simp: ip4_vote_helper_def split: IpAddr.split option.split SocketAddr.split)
  then show ?thesis using assms(2) by (intro exI [of _ "st_ip4_source st"]) simp
qed

text \<open>Responses that came through the parser never fail, when the address asked is an IPv4 address.\<close>

lemma response_total:
  assumes "e_ip4 E = ops" and "inv (st_ip4_source st)" and "sock_is_v4 target" and "wire_ok reply"
  shows "\<exists>st' r. handle_own_response E st target (Some reply) clk = (Ok st', r) \<and> r \<noteq> Panic \<and>
    (is_response reply \<longrightarrow> r = Ok reply)"
proof (cases "message_type reply")
  case (Response v)
  then have i: "get_author_id reply = Some (response_author v)" by (simp add: get_author_id.simps)
  obtain a p where t: "target = SockV4 a p" using assms(3) by (auto simp: sock_is_v4_iff)
  obtain ok where ok: "is_valid_for_ip (e_crc E) (response_author v) (IpV4 a) = Ok ok" using is_valid_for_ip_v4_ok by blast
  obtain src where src: "ip4_vote_helper E st target reply = Ok (st\<lparr>st_ip4_source := src\<rparr>)"
    using vote_total [OF assms(1,2)] by blast
  have nodes: "\<exists>st'. add_seen_nodes E clk' st0 (find_nodes args) = Ok st'" if "v = FindNodeResponse args" for args st0 clk'
  proof -
    have "nodes_v4 (find_nodes args)" using assms(4) Response that by (simp add: wire_ok_def)
    from add_seen_nodes_total [OF this, of E clk' st0] show ?thesis by blast
  qed
  define st0 where "st0 = (if ok then (st\<lparr>st_ip4_source := src\<rparr>)\<lparr>st_buckets :=
      ns_add_or_update (e_nodes E) (st_buckets st) (Node (response_author v) target) True (fst (clk 0)) (snd (clk 0))\<rparr> else st)"
  have eq: "handle_own_response E st target (Some reply) clk =
      (let st' = (case v of FindNodeResponse args \<Rightarrow> add_seen_nodes E (\<lambda>n. clk (Suc n)) st0 (find_nodes args)
         | _ \<Rightarrow> Ok st0)
       in (st', res_bind st' (\<lambda>_. Ok reply)))"
    using src ok t by (cases v; cases ok; simp add: handle_own_response_unfold Response i st0_def)
  obtain st' where "(case v of FindNodeResponse args \<Rightarrow> add_seen_nodes E (\<lambda>n. clk (Suc n)) st0 (find_nodes args)
         | _ \<Rightarrow> Ok st0) = Ok st'"
    using nodes [of _ "\<lambda>n. clk (Suc n)" st0] by (cases v) auto
  then show ?thesis by (simp add: eq)
qed (simp_all add: handle_own_response_unfold is_response_def)

end

lemma listing_storage:
  assumes "dht_get_info_hashes E st newer_than = (st', infos)"
  shows "st' = st\<lparr>st_peer_storage := fst (foldl (\<lambda>(ps, acc) hash.
      let (ps', pi) = ps_get_peers_info (e_outer E) (e_inner E) ps hash newer_than in (ps', acc @ [(hash, pi)]))
      (st_peer_storage st, []) (ps_get_info_hashes (e_outer E) (st_peer_storage st)))\<rparr>"
  using assms by (auto simp: dht_get_info_hashes_def Let_def split: prod.splits)

text \<open>
  The announcements that the node accepts: a packet with a token that one of the two secrets gives,
  handled at once or in the section that makes the reply.
\<close>

fun packet_of :: "dht_event \<Rightarrow> MessagePair option" where
  "packet_of (Incoming sock pkt inp c c') = Some pkt"
| "packet_of (MakeReply addr msg inp) = Some (msg, addr)"
| "packet_of e = None"

definition announces :: "('i, 'n, 'sw, 'o) dht_env \<Rightarrow> ('i, 'n, 'o) DHTState \<Rightarrow> dht_event \<Rightarrow> Id \<Rightarrow> SocketAddr \<Rightarrow> bool" where
  "announces E st e h a \<longleftrightarrow> (\<exists>msg addr b. packet_of e = Some (msg, addr) \<and>
     message_type msg = Request (AnnouncePeerRequest b) \<and> ap_info_hash b = h \<and>
     a = (if ap_implied_port b = Some True then addr else sock_set_port addr (ap_port b)) \<and>
     ap_token b \<in> {calculate_token (e_crc E) addr (st_token_secret st), calculate_token (e_crc E) addr (st_old_token_secret st)})"

locale node_env =
  caches: peer_caches "e_outer E" ook ocap "e_inner E" iok icap +
  source: ip4_source "e_ip4 E" inv support
  for E :: "('i, 'n, 'sw, 'o) dht_env" and ook ocap iok icap and inv support
begin

definition storage_ok :: "nat \<Rightarrow> 'o PeerStorage \<Rightarrow> bool" where
  "storage_ok m s \<longleftrightarrow> caches.ps_inv s \<and> ocap (ps_peers s) = m"

definition node_inv :: "nat \<Rightarrow> ('i, 'n, 'o) DHTState \<Rightarrow> bool" where
  "node_inv m st \<longleftrightarrow> storage_ok m (st_peer_storage st) \<and> inv (st_ip4_source st) \<and>
     int m \<le> i32_max \<and> 0 \<le> cfg_min_sample_interval_secs (st_settings st)"

lemma storage_ok_get_info: "storage_ok m s \<Longrightarrow> storage_ok m (fst (ps_get_peers_info (e_outer E) (e_inner E) s h nt))"
proof -
  assume s: "storage_ok m s"
  then have ok: "ook (ps_peers s)" by (simp add: storage_ok_def caches.ps_inv_def)
  have "ocap (ps_peers (fst (ps_get_peers_info (e_outer E) (e_inner E) s h nt))) = ocap (ps_peers s)"
    using caches.outer.ok_get [OF ok, of h]
    by (auto simp: ps_get_peers_info_def split: prod.split option.split)
  then show ?thesis using caches.get_peers_info_result(2) [of s h nt] s by (simp add: storage_ok_def)
qed

lemma storage_ok_get: "storage_ok m s \<Longrightarrow> storage_ok m (fst (ps_get_peers (e_outer E) (e_inner E) s h nt))"
  using storage_ok_get_info [of m s h nt]
  by (simp add: ps_get_peers_def Let_def case_prod_beta)

lemma storage_ok_announce: "storage_ok m s \<Longrightarrow> storage_ok m (ps_announce_peer (e_outer E) (e_inner E) s h a t)"
proof -
  assume s: "storage_ok m s"
  then have "caches.ps_inv s" by (simp add: storage_ok_def)
  from caches.announce_cases [OF this, of h a t] show ?thesis using s unfolding storage_ok_def by metis
qed

lemma storage_ok_listing:
  "storage_ok m s \<Longrightarrow> storage_ok m (fst (foldl (\<lambda>(ps, acc) hash.
      let (ps', pi) = ps_get_peers_info (e_outer E) (e_inner E) ps hash nt in (ps', acc @ [(hash, pi)])) (s, acc) hs))"
proof (induction hs arbitrary: s acc)
  case (Cons h hs)
  from storage_ok_get_info [OF Cons.prems, of h nt] show ?case
    by (simp add: case_prod_beta Let_def) (rule Cons.IH [unfolded case_prod_beta Let_def])
qed simp

lemma node_inv_sane: "node_inv m st \<Longrightarrow> sane E st"
  using caches.outer.bounded [of "ps_peers (st_peer_storage st)"]
  by (auto simp: node_inv_def storage_ok_def caches.ps_inv_def sane_def ps_get_info_hashes_def)

lemma node_inv_common:
  assumes "node_inv m st" and "common_request_handling E st addr msg inp = Ok st'"
  shows "node_inv m st'" and "st_peer_storage st' = st_peer_storage st" and "same_identity st st'"
  using assms common_request_handling_identity [OF assms(2)] by (auto simp: node_inv_def same_identity_def)

lemma node_inv_reply:
  assumes "node_inv m st" and "request_reply E st req addr msg inp = (st', r)"
  shows "node_inv m st'"
proof -
  have "storage_ok m (st_peer_storage st')"
    using request_reply_storage [OF assms(2)] assms(1) storage_ok_get storage_ok_announce
    unfolding node_inv_def by (elim disjE exE) simp_all
  moreover have "st_settings st' = st_settings st" "st_ip4_source st' = st_ip4_source st"
    using request_reply_state [of st E req addr msg inp] assms(2) by (auto simp: same_identity_def)
  ultimately show ?thesis using assms(1) by (simp add: node_inv_def)
qed

lemma node_inv_request:
  assumes "node_inv m st" and "handle_request E st req addr msg inp = (st', r)"
  shows "node_inv m st'"
proof (cases "common_request_handling E st addr msg inp")
  case (Ok st1)
  then have "request_reply E st1 req addr msg inp = (st', r)" using assms(2) by (simp add: handle_request_def)
  then show ?thesis by (rule node_inv_reply [OF node_inv_common(1) [OF assms(1) Ok]])
qed (use assms in \<open>auto simp: handle_request_def\<close>)

lemma node_inv_packet:
  assumes "node_inv m st" and "accept_single_packet E st sock msg addr inp = (st', sock', r)"
  shows "node_inv m st'"
proof (cases "message_type msg")
  case (Request req)
  have "st' = fst (handle_request E st req addr msg inp)"
    using assms(2) Request by (auto simp: accept_single_packet_def split: prod.splits res.splits option.splits)
  then show ?thesis using node_inv_request [OF assms(1)] by (metis prod.collapse)
qed (use assms in \<open>auto simp: accept_single_packet_def\<close>)

lemma node_inv_subscribers: "node_inv m (send_packet_to_subscribers st msg) = node_inv m st"
  by (simp add: node_inv_def frame_simps)

lemma node_inv_accept:
  assumes "node_inv m st" and "accept_body E ro thr st sock pkt inp c c' = (thr', st', sock', r)"
  shows "node_inv m st'"
proof -
  obtain msg addr where pkt: "pkt = (msg, addr)" by (cases pkt)
  from assms(2) [unfolded pkt] show ?thesis
  proof (cases rule: accept_body_cases)
    case (3 st1)
    then show ?thesis using node_inv_packet [OF assms(1) 3(2)] by (simp add: node_inv_subscribers)
  qed (use assms(1) node_inv_subscribers in auto)
qed

text \<open>The swarms: only an accepted announcement adds to them.\<close>

abbreviation swarm :: "('i, 'n, 'o) DHTState \<Rightarrow> Id \<Rightarrow> (SocketAddr \<times> PeerInfo) list" where
  "swarm st \<equiv> swarm_of (e_outer E) (e_inner E) (st_peer_storage st)"

lemma storage_ok_inv: "storage_ok m s \<Longrightarrow> caches.ps_inv s"
  by (simp add: storage_ok_def)

lemma swarm_listing:
  "storage_ok m s \<Longrightarrow> swarm_of (e_outer E) (e_inner E) (fst (foldl (\<lambda>(ps, acc) hash.
      let (ps', pi) = ps_get_peers_info (e_outer E) (e_inner E) ps hash nt in (ps', acc @ [(hash, pi)])) (s, acc) hs)) =
    swarm_of (e_outer E) (e_inner E) s"
proof (induction hs arbitrary: s acc)
  case (Cons h hs)
  have "swarm_of (e_outer E) (e_inner E) (fst (ps_get_peers_info (e_outer E) (e_inner E) s h nt)) = swarm_of (e_outer E) (e_inner E) s"
    by (rule caches.get_peers_info_result(3) [OF storage_ok_inv [OF Cons.prems]])
  then show ?case using Cons.IH [OF storage_ok_get_info [OF Cons.prems, of h nt]]
    by (simp add: case_prod_beta Let_def)
qed simp

lemma reply_swarm:
  assumes "node_inv m st" and "request_reply E st req addr msg inp = (st', r)"
    and "x \<in> set (swarm st' h)"
  shows "x \<in> set (swarm st h) \<or> (\<exists>b. req = AnnouncePeerRequest b \<and> ap_info_hash b = h \<and>
    fst x = (if ap_implied_port b = Some True then addr else sock_set_port addr (ap_port b)) \<and>
    ap_token b \<in> {calculate_token (e_crc E) addr (st_token_secret st), calculate_token (e_crc E) addr (st_old_token_secret st)})"
proof -
  have ok: "caches.ps_inv (st_peer_storage st)" using assms(1) by (simp add: node_inv_def storage_ok_def)
  show ?thesis
  proof (cases req)
    case (GetPeersRequest a)
    then have "st' = fst (get_peers_reply E st addr msg a inp)"
      using assms(2) by (auto simp: request_reply_def split: prod.splits)
    then have "swarm st' = swarm st"
      using caches.get_peers_info_result(3) [OF ok]
      by (simp add: get_peers_reply_state ps_get_peers_def Let_def case_prod_beta)
    then show ?thesis using assms(3) by simp
  next
    case (AnnouncePeerRequest b)
    then have reply: "announce_peer_reply E st addr msg b inp = (st', r)" using assms(2) by (simp add: request_reply_def)
    let ?a = "if ap_implied_port b = Some True then addr else sock_set_port addr (ap_port b)"
    show ?thesis
    proof (cases "ap_token b \<in> {calculate_token (e_crc E) addr (st_token_secret st), calculate_token (e_crc E) addr (st_old_token_secret st)}")
      case True
      then have "st_peer_storage st' = ps_announce_peer (e_outer E) (e_inner E) (st_peer_storage st) (ap_info_hash b) ?a (hi_clock inp)"
        using reply by (auto simp: announce_peer_reply_def Let_def split: if_splits)
      then show ?thesis
        using caches.announce_swarm [OF ok, of x "ap_info_hash b" ?a "hi_clock inp" h] assms(3) AnnouncePeerRequest True
        by auto
    next
      case False
      then have "st' = st" using reply by (auto simp: announce_peer_reply_def split: if_splits)
      then show ?thesis using assms(3) by simp
    qed
  qed (use assms(2,3) in \<open>auto simp: request_reply_def\<close>)
qed

lemma request_swarm:
  assumes "node_inv m st" and "handle_request E st req addr msg inp = (st', r)"
    and "x \<in> set (swarm st' h)"
  shows "x \<in> set (swarm st h) \<or> (\<exists>b. req = AnnouncePeerRequest b \<and> ap_info_hash b = h \<and>
    fst x = (if ap_implied_port b = Some True then addr else sock_set_port addr (ap_port b)) \<and>
    ap_token b \<in> {calculate_token (e_crc E) addr (st_token_secret st), calculate_token (e_crc E) addr (st_old_token_secret st)})"
proof (cases "common_request_handling E st addr msg inp")
  case (Ok st1)
  note c = node_inv_common [OF assms(1) Ok]
  have "request_reply E st1 req addr msg inp = (st', r)" using assms(2) Ok by (simp add: handle_request_def)
  from reply_swarm [OF c(1) this assms(3)] show ?thesis using c(2,3) by (simp add: same_identity_def)
qed (use assms(2,3) in \<open>auto simp: handle_request_def\<close>)

lemma step_swarm:
  assumes "node_inv m st" and "dht_step E (thr, st) e (thr', st')" and "x \<in> set (swarm st' h)"
  shows "x \<in> set (swarm st h) \<or> announces E st e h (fst x)"
  using assms(2)
proof cases
  case (incoming sock pkt inp c c' r)
  obtain msg addr where pkt: "pkt = (msg, addr)" by (cases pkt)
  from incoming(2) [unfolded pkt] show ?thesis
  proof (cases rule: accept_body_cases)
    case (3 st1)
    have "st_peer_storage st' = st_peer_storage st1" using 3(3) by (simp add: frame_simps)
    then have x: "x \<in> set (swarm st1 h)" using assms(3) by simp
    show ?thesis
    proof (cases "message_type msg")
      case (Request req)
      have "st1 = fst (handle_request E st req addr msg inp)"
        using 3(2) Request by (auto simp: accept_single_packet_def split: prod.splits res.splits option.splits)
      then obtain q where "handle_request E st req addr msg inp = (st1, q)" by (metis prod.collapse)
      moreover have "packet_of e = Some (msg, addr)" using incoming(1) pkt by simp
      ultimately show ?thesis
        using request_swarm [OF assms(1) _ x] Request unfolding announces_def by blast
    qed (use 3(2) x in \<open>auto simp: accept_single_packet_def\<close>)
  qed (use assms(3) in \<open>simp_all add: frame_simps\<close>)
next
  case (seen_request msg req addr inp)
  then show ?thesis using node_inv_common(2) [OF assms(1) seen_request(5)] assms(3) by simp
next
  case (make_reply msg req addr inp reply)
  have "packet_of e = Some (msg, addr)" using make_reply(1) by simp
  then show ?thesis using reply_swarm [OF assms(1) make_reply(5) assms(3)] make_reply(4) unfolding announces_def by blast
next
  case (own_response target reply clk r)
  then show ?thesis using handle_own_response_run [OF own_response(3)] assms(3) by auto
next
  case (record_responder reply v clk' target)
  then show ?thesis using record_responder_run [OF record_responder(3,4)] assms(3) by (auto simp: response_frame_def)
next
  case (record_nodes reply v clk)
  have "st_peer_storage st' = st_peer_storage st"
    by (subst record_found_nodes_frame [OF record_nodes(3,4)]) simp
  then show ?thesis using assms(3) by simp
next
  case (maintenance r g rest)
  from maintenance(3) show ?thesis using assms(3) by (cases rule: ip4_maintenance_turn_cases) simp_all
next
  case (listing newer_than infos)
  have "storage_ok m (st_peer_storage st)" using assms(1) by (simp add: node_inv_def)
  from swarm_listing [OF this] have "swarm st' = swarm st"
    by (simp add: listing_storage [OF listing(3)])
  then show ?thesis using assms(3) by simp
qed (use assms(3) in \<open>auto simp: rotate_token_secrets_def dht_subscribe_def buddy_ping_turn_def Let_def frame_simps\<close>)

lemma node_inv_maintenance:
  assumes "node_inv m st" and "ip4_maintenance_turn E st r g rest = Ok st'"
  shows "node_inv m st'"
  using assms(2)
proof (cases rule: ip4_maintenance_turn_cases)
  case (1 src best)
  then show ?thesis using assms(1) source.inv_decay by (auto simp: node_inv_def)
next
  case (2 src ip i)
  then show ?thesis using assms(1) source.inv_decay by (auto simp: node_inv_def)
qed

lemma node_inv_response:
  assumes "node_inv m st" and "handle_own_response E st target reply clk = (Ok st', r)"
  shows "node_inv m st'"
  using handle_own_response_run [OF assms(2)] assms(1) source.inv_vote
  by (auto simp: node_inv_def same_identity_def)

lemma node_inv_listing:
  assumes "node_inv m st" and "dht_get_info_hashes E st newer_than = (st', infos)"
  shows "node_inv m st'"
  using storage_ok_listing assms(1) by (simp add: listing_storage [OF assms(2)] node_inv_def)

text \<open>Every step keeps the invariant, so every history does.\<close>

lemma node_inv_step:
  assumes "node_inv m st" and "dht_step E (thr, st) e (thr', st')"
  shows "node_inv m st'"
  using assms(2)
proof cases
  case (incoming sock pkt inp c c' r)
  then show ?thesis using node_inv_accept [OF assms(1)] by blast
next
  case (seen_request msg req addr inp)
  then show ?thesis using node_inv_common(1) [OF assms(1)] by blast
next
  case (make_reply msg req addr inp reply)
  then show ?thesis using node_inv_reply [OF assms(1)] by blast
next
  case (record_responder reply v clk' target)
  then show ?thesis using record_responder_run [OF record_responder(3,4)] assms(1) source.inv_vote
    by (auto simp: node_inv_def response_frame_def same_identity_def)
next
  case (record_nodes reply v clk)
  show ?thesis by (subst record_found_nodes_frame [OF record_nodes(3,4)]) (use assms(1) in \<open>simp add: node_inv_def\<close>)
next
  case (own_response target reply clk r)
  then show ?thesis using node_inv_response [OF assms(1)] by blast
next
  case (maintenance r g rest)
  then show ?thesis using node_inv_maintenance [OF assms(1)] by blast
next
  case (listing newer_than infos)
  then show ?thesis using node_inv_listing [OF assms(1)] by blast
qed (use assms(1) in \<open>auto simp: node_inv_def rotate_token_secrets_def dht_subscribe_def buddy_ping_turn_def Let_def frame_simps\<close>)

lemma node_inv_steps: "dht_steps E s evs t \<Longrightarrow> node_inv m (snd s) \<Longrightarrow> node_inv m (snd t)"
proof (induction rule: dht_steps.induct)
  case (more evs t e u)
  then show ?case using node_inv_step [of m "snd t" "fst t" e "fst u" "snd u"] by simp
qed

lemma steps_swarm:
  "dht_steps E s evs t \<Longrightarrow> node_inv m (snd s) \<Longrightarrow> x \<in> set (swarm (snd t) h) \<Longrightarrow>
   x \<in> set (swarm (snd s) h) \<or>
   (\<exists>evs1 e evs2 u. evs = evs1 @ e # evs2 \<and> dht_steps E s evs1 u \<and> announces E (snd u) e h (fst x))"
proof (induction rule: dht_steps.induct)
  case (more evs t e u)
  have inv: "node_inv m (snd t)" by (rule node_inv_steps [OF more.hyps(1) more.prems(1)])
  consider "x \<in> set (swarm (snd t) h)" | "announces E (snd t) e h (fst x)"
    using step_swarm [OF inv, of "fst t" e "fst u" "snd u" x h] more.hyps(2) more.prems(2) by auto
  then show ?case
  proof cases
    case 1
    from more.IH [OF more.prems(1) this] show ?thesis
    proof (elim disjE exE conjE)
      fix evs1 e' evs2 u'
      assume "evs = evs1 @ e' # evs2" "dht_steps E s evs1 u'" "announces E (snd u') e' h (fst x)"
      then have "evs @ [e] = evs1 @ e' # (evs2 @ [e])" "dht_steps E s evs1 u'" "announces E (snd u') e' h (fst x)" by simp_all
      then show ?thesis by blast
    qed simp
  next
    case 2
    then show ?thesis using more.hyps(1) by blast
  qed
qed simp

text \<open>The peers of a reply come from the swarm of the info hash.\<close>

lemma get_peers_from_swarm:
  assumes "node_inv m st" and "handle_request E st (GetPeersRequest a) addr msg inp = (st', Ok (Some reply))"
    and "message_type reply = Response (GetPeersResponse v)" and "gp_values v = Peers ps" and "p \<in> set ps"
  shows "\<exists>x \<in> set (swarm st (gp_info_hash a)). fst x = p \<and> sock_is_v4 p"
proof -
  obtain st1 where c: "common_request_handling E st addr msg inp = Ok st1"
    using assms(2) by (cases "common_request_handling E st addr msg inp") (auto simp: handle_request_unfold)
  have eq: "st_peer_storage st1 = st_peer_storage st" using common_request_handling_identity [OF c] by simp
  have ok: "caches.ps_inv (st_peer_storage st)" using assms(1) by (simp add: node_inv_def storage_ok_def)
  have reply: "get_peers_reply E st1 addr msg a inp = (st', Ok reply)"
    using assms(2) c by (auto simp: handle_request_unfold split: prod.splits)
  have "ps = take (cfg_max_peers_response (st_settings st1)) (snd (ps_get_peers (e_outer E) (e_inner E)
      (st_peer_storage st1) (gp_info_hash a)
      (instant_checked_sub (hi_clock inp) (dur_from_secs (cfg_get_peers_freshness_secs (st_settings st1))))))"
    using reply assms(3,4)
    by (auto simp: get_peers_reply_def Let_def case_prod_beta reply_setters build_defs split: if_splits)
  then obtain nt where "p \<in> set (snd (ps_get_peers (e_outer E) (e_inner E) (st_peer_storage st) (gp_info_hash a) nt))"
    using assms(5) in_set_takeD unfolding eq by metis
  then obtain x where x: "x \<in> set (swarm st (gp_info_hash a))" "p = pi_addr (snd x)" "sock_is_v4 (fst x)"
    using caches.get_peers_info_result(1) [OF ok] by (auto simp: ps_get_peers_def Let_def case_prod_beta sock_is_v4_def)
  then obtain sw where "map_of (lru_iter (e_outer E) (ps_peers (st_peer_storage st))) (gp_info_hash a) = Some sw"
    "x \<in> set (lru_iter (e_inner E) sw)" by (auto simp: swarm_of_mem)
  then have "pi_addr (snd x) = fst x" using caches.ps_inv_swarm [OF ok] by (auto simp: caches.swarm_ok_def)
  then show ?thesis using x by metis
qed

lemma swarm_new:
  assumes "dht_new E c r g rest random_id rng = Ok st" and "0 < cfg_max_torrents (dc_settings c)"
  shows "swarm st h = []"
proof -
  have "st_peer_storage st = peer_storage_new (e_outer E) (cfg_max_torrents (dc_settings c)) (cfg_max_peers_per_torrent (dc_settings c))"
    using assms(1) by (auto simp: dht_new_def Let_def)
  then show ?thesis using caches.outer.ok_new [OF assms(2)] by (simp add: swarm_of_def peer_storage_new_def)
qed

lemma node_inv_new:
  assumes "dht_new E c r g rest random_id rng = Ok st" and "inv (dc_ip4_source c)"
    and "0 < cfg_max_torrents (dc_settings c)" and "0 < cfg_max_peers_per_torrent (dc_settings c)"
    and "int (cfg_max_torrents (dc_settings c)) \<le> i32_max" and "0 \<le> cfg_min_sample_interval_secs (dc_settings c)"
  shows "node_inv (cfg_max_torrents (dc_settings c)) st"
proof -
  have "st_peer_storage st = peer_storage_new (e_outer E) (cfg_max_torrents (dc_settings c)) (cfg_max_peers_per_torrent (dc_settings c))"
    "st_settings st = dc_settings c" "st_ip4_source st = dc_ip4_source c"
    using assms(1) by (auto simp: dht_new_def Let_def)
  then show ?thesis
    using assms(2-6) caches.ps_inv_new caches.outer.ok_new [OF assms(3)]
    by (simp add: node_inv_def storage_ok_def peer_storage_new_def)
qed

end

text \<open>
  The interface on the library's own address source and, for the crate \<open>lru\<close>, the list caches.
\<close>

lemma node_envI:
  assumes "e_ip4 E = consensus_source" and "lru_cache (e_outer E) ook ocap" and "lru_cache (e_inner E) iok icap"
  shows "node_env E ook ocap iok icap consensus_inv (\<lambda>c. vote_ip ` set (vote_list c))"
  using assms consensus.ip4_source_axioms by (simp add: node_env_def peer_caches_def)

interpretation sample_node: node_env sample_env list_lru_ok fst list_lru_ok fst consensus_inv
  "\<lambda>c. vote_ip ` set (vote_list c)"
  by (rule node_envI) (simp_all add: sample_env_def list_lru.lru_cache_axioms)

end
