(* ===== verification/Dht_SystemProps.thy ===== *)
theory Dht_SystemProps
  imports Dht_NodeInv
begin

text \<open>
  What holds over whole histories of the node: who is handed out to others, how long a token lives,
  our own id, responses from the network, subscribers.
\<close>

section \<open>Whom we hand out\<close>

text \<open>The nodes that a reply names.\<close>

fun reply_nodes :: "ResponseSpecific \<Rightarrow> Node list" where
  "reply_nodes (PingResponse a) = []"
| "reply_nodes (FindNodeResponse a) = find_nodes a"
| "reply_nodes (GetPeersResponse a) = (case gp_values a of Nodes ns \<Rightarrow> ns | Peers ps \<Rightarrow> [])"
| "reply_nodes (SampleInfoHashesResponse a) = sih_nodes a"

definition nearest_only :: "('i, 'n, 'sw, 'o) dht_env \<Rightarrow> 'n \<Rightarrow> Id \<Rightarrow> ResponseSpecific \<Rightarrow> bool" where
  "nearest_only E b requester v \<longleftrightarrow>
     (\<exists>target. set (reply_nodes v) \<subseteq> set (ns_get_nearest_nodes (e_nodes E) b target (Some requester)))"

lemma built_reply_nodes:
  assumes "build b rng = Ok m" and "message_type m = Response v"
  shows "set (reply_nodes v) \<subseteq> set (case mb_nodes b of None \<Rightarrow> [] | Some ns \<Rightarrow> ns)"
  using assms
  by (cases "mb_message_type b"; auto simp: build_defs Let_def split: option.splits if_splits)

lemma nearest_only_built:
  assumes "build b rng = Ok m" and "message_type m = Response v"
    and "mb_nodes b = None \<or> (\<exists>t. mb_nodes b = Some (ns_get_nearest_nodes (e_nodes E) bs t (Some i)))"
  shows "nearest_only E bs i v"
  using assms(3)
proof (elim disjE exE)
  fix t assume "mb_nodes b = Some (ns_get_nearest_nodes (e_nodes E) bs t (Some i))"
  then show ?thesis
    using built_reply_nodes [OF assms(1,2)] unfolding nearest_only_def by (intro exI [of _ t]) simp
qed (use built_reply_nodes [OF assms(1,2)] in \<open>simp add: nearest_only_def\<close>)

lemma handle_request_nodes:
  assumes "handle_request E st req addr msg inp = (st', Ok (Some m))" and "message_type m = Response v"
  shows "nearest_only E (st_buckets st') (request_author req) v"
proof -
  obtain st1 where c: "common_request_handling E st addr msg inp = Ok st1"
    using assms by (cases "common_request_handling E st addr msg inp") (auto simp: handle_request_unfold)
  show ?thesis
  proof (cases req)
    case (PingRequest a)
    then show ?thesis
      using assms c by (auto simp: handle_request_unfold ping_reply_def reply_setters elim!: nearest_only_built)
  next
    case (FindNodeRequest a)
    then show ?thesis
      using assms c by (auto simp: handle_request_unfold find_node_reply_def reply_setters elim!: nearest_only_built)
  next
    case (SampleInfoHashesRequest a)
    then show ?thesis
      using assms c by (auto simp: handle_request_unfold sample_infohashes_reply_def Let_def reply_setters
          split: if_splits elim!: nearest_only_built)
  next
    case (GetPeersRequest a)
    then have "get_peers_reply E st1 addr msg a inp = (st', Ok m)"
      using assms c by (auto simp: handle_request_unfold split: prod.splits)
    then show ?thesis
      using assms(2) GetPeersRequest
      by (auto simp: get_peers_reply_def Let_def reply_setters split: if_splits prod.splits elim!: nearest_only_built)
  next
    case (AnnouncePeerRequest a)
    then show ?thesis
      using assms c by (auto simp: handle_request_unfold announce_peer_reply_def Let_def reply_setters
          split: if_splits elim!: nearest_only_built)
  qed
qed

lemma handle_request_run:
  assumes "handle_request E st req addr msg inp = (st', r)"
  shows "\<exists>evs. st_buckets st' = ns_run (e_nodes E) (st_buckets st) evs \<and> verified_in evs = {} \<and>
    reports evs \<subseteq> {n. node_address n = addr \<and> id_fits E n \<and> get_author_id msg = Some (node_id n)}"
proof -
  have same: "\<exists>evs. b = ns_run (e_nodes E) b evs \<and> verified_in evs = {} \<and> reports evs \<subseteq> A" for b A
    by (rule exI [of _ "[]"]) simp
  have seen: "\<exists>evs. ns_add_or_update (e_nodes E) b n False t t' = ns_run (e_nodes E) b evs \<and> verified_in evs = {} \<and>
      reports evs \<subseteq> {n. node_address n = addr \<and> id_fits E n \<and> get_author_id msg = Some (node_id n)}"
    if "node_address n = addr \<and> id_fits E n \<and> get_author_id msg = Some (node_id n)" for b n t t'
    using that by (intro exI [of _ "[AddOrUpdate n False t t']"]) simp
  have "st' = st \<or> (\<exists>st1. common_request_handling E st addr msg inp = Ok st1 \<and> st_buckets st' = st_buckets st1)"
    using handle_request_state [of E st req addr msg inp] assms by auto
  then show ?thesis
  proof (elim disjE exE conjE)
    fix st1 assume "common_request_handling E st addr msg inp = Ok st1" and b: "st_buckets st' = st_buckets st1"
    from common_request_handling_Ok [OF this(1)] have "st_buckets st1 = st_buckets st \<or>
       (\<exists>n. st_buckets st1 = ns_add_or_update (e_nodes E) (st_buckets st) n False (hi_seen inp) (hi_seen' inp) \<and>
          node_address n = addr \<and> id_fits E n \<and> get_author_id msg = Some (node_id n))"
      by (auto simp: joins_def id_fits_def split: option.splits if_splits)
    then show ?thesis
    proof (elim disjE exE conjE)
      fix n assume "st_buckets st1 = ns_add_or_update (e_nodes E) (st_buckets st) n False (hi_seen inp) (hi_seen' inp)"
        "node_address n = addr" "id_fits E n" "get_author_id msg = Some (node_id n)"
      then show ?thesis using b seen by simp
    qed (use b same in simp)
  qed (simp add: same)
qed

text \<open>The routing table of a new node, and after a history.\<close>

lemma dht_new_buckets:
  assumes "dht_new E c r g rest random_id rng = Ok st"
  shows "st_buckets st = ns_set_id (e_nodes E) (dc_buckets c) (st_our_id st)"
  using assms by (auto simp: dht_new_def Let_def)

lemma history_of_buckets:
  assumes "e_nodes E = nbs_ops srt" and "dht_new E c r g rest random_id rng = Ok st"
    and "dc_buckets c = nbs_new our k" and "dht_steps E (thr, st) evs (thr', st')"
  obtains nevs where "st_buckets st' = ns_run (nbs_ops srt) (nbs_new our k) nevs"
    "verified_in nevs \<subseteq> (\<Union>e \<in> set evs. responders E e)" "reports nevs \<subseteq> (\<Union>e \<in> set evs. reporters E e)"
proof -
  obtain nevs where "st_buckets st' = ns_run (e_nodes E) (st_buckets st) nevs"
    "verified_in nevs \<subseteq> (\<Union>e \<in> set evs. responders E e)" "reports nevs \<subseteq> (\<Union>e \<in> set evs. reporters E e)"
    using steps_run [OF assms(4)] by auto
  then show thesis
    using that [of "SetId (st_our_id st) # nevs"] dht_new_buckets [OF assms(2)] assms(1,3) by simp
qed

lemma history_verified:
  assumes "sort_law srt" and "st_b = ns_run (nbs_ops srt) (nbs_new our k) nevs"
  shows "w \<in> set (nbs_get_all_verified st_b) \<Longrightarrow> nw_id w \<in> verified_in nevs"
    and "n \<in> set (nbs_get_nearest_nodes srt st_b i ex) \<Longrightarrow> node_id n \<in> verified_in nevs \<and> ex \<noteq> Some (node_id n)"
    and "w \<in> set (nbs_get_all_verified st_b) \<Longrightarrow> nw_node w \<in> reports nevs"
    and "n \<in> set (nbs_get_nearest_nodes srt st_b i ex) \<Longrightarrow> n \<in> reports nevs"
proof -
  note ns = nbs_node_storage [OF assms(1)] and tab = nbs_node_table [OF assms(1)]
  have "ns_known (nbs_ops srt) (nbs_new our k) = {}" by (simp add: nbs_known nbs_all_def nbs_new_def)
  then have known: "ns_known (nbs_ops srt) st_b \<subseteq> reports nevs"
    using node_table.run_known [OF tab nbs_inv_new, of our k nevs] assms(2) by simp
  show "w \<in> set (nbs_get_all_verified st_b) \<Longrightarrow> nw_node w \<in> reports nevs"
    using known by (auto simp: ns_known_def)
  have "nbs_inv st_b" unfolding assms(2) by (rule node_storage.inv_run [OF ns nbs_inv_new])
  from node_table.nearest_known [OF tab this, of i ex] known
  show "n \<in> set (nbs_get_nearest_nodes srt st_b i ex) \<Longrightarrow> n \<in> reports nevs" by auto
  have empty: "nbs_get_all_verified (nbs_new our k) = []" by (simp add: nbs_get_all_verified_def nbs_new_def)
  show "w \<in> set (nbs_get_all_verified st_b) \<Longrightarrow> nw_id w \<in> verified_in nevs"
    using node_storage.run_verified_ids [OF ns nbs_inv_new, of w our k nevs] assms(2) by (simp add: empty)
  show "n \<in> set (nbs_get_nearest_nodes srt st_b i ex) \<Longrightarrow> node_id n \<in> verified_in nevs \<and> ex \<noteq> Some (node_id n)"
    using node_storage.run_nearest_ids [OF ns nbs_inv_new, of n our k nevs i ex]
      node_storage.nearest_law [OF ns node_storage.inv_run [OF ns nbs_inv_new], of n our k nevs i ex] assms(2)
    by (simp add: empty)
qed

section \<open>Tokens over time\<close>

fun is_rotation :: "dht_event \<Rightarrow> bool" where
  "is_rotation (RotateTokens rng) = True"
| "is_rotation e = False"

definition rotations :: "dht_event list \<Rightarrow> nat" where
  "rotations evs = length (filter is_rotation evs)"

lemma same_secrets:
  "same_identity st st' \<Longrightarrow> st_token_secret st' = st_token_secret st \<and> st_old_token_secret st' = st_old_token_secret st"
  by (simp add: same_identity_def)

lemma step_secrets:
  assumes "dht_step E (thr, st) e (thr', st')"
  shows "if is_rotation e then st_old_token_secret st' = st_token_secret st
    else st_token_secret st' = st_token_secret st \<and> st_old_token_secret st' = st_old_token_secret st"
proof (cases "(\<exists>rng. e = RotateTokens rng) \<or> (\<exists>r g rest. e = Ip4Maintenance r g rest)")
  case True
  then show ?thesis
    using assms by (auto simp: dht_step_simps rotate_token_secrets_def Let_def elim!: ip4_maintenance_turn_cases)
next
  case False
  moreover from this have "same_identity st st'" using step_identity [OF assms] by blast
  ultimately show ?thesis by (cases e) (simp_all add: same_secrets)
qed

lemma steps_secrets:
  "dht_steps E s evs t \<Longrightarrow>
    (rotations evs = 0 \<longrightarrow> st_token_secret (snd t) = st_token_secret (snd s)) \<and>
    (rotations evs = 1 \<longrightarrow> st_old_token_secret (snd t) = st_token_secret (snd s))"
proof (induction rule: dht_steps.induct)
  case (more evs t e u)
  then show ?case
    using step_secrets [of E "fst t" "snd t" e "fst u" "snd u"]
    by (cases "is_rotation e") (auto simp: rotations_def)
qed (simp add: rotations_def)

lemma get_peers_reply_token:
  assumes "handle_request E st (GetPeersRequest a) addr msg inp = (st1, Ok (Some m))"
    and "message_type m = Response (GetPeersResponse v)"
  shows "gp_token v = calculate_token (e_crc E) addr (st_token_secret st)"
proof -
  obtain st0 where c: "common_request_handling E st addr msg inp = Ok st0"
    using assms by (cases "common_request_handling E st addr msg inp") (auto simp: handle_request_unfold)
  have "st_token_secret st0 = st_token_secret st"
    using common_request_handling_identity [OF c] by (simp add: same_identity_def)
  moreover have "snd (get_peers_reply E st0 addr msg a inp) = Ok m"
    using assms(1) c by (auto simp: handle_request_unfold split: prod.splits)
  then have "gp_token v = calculate_token (e_crc E) addr (st_token_secret st0)"
    using assms(2)
    by (auto simp: get_peers_reply_def Let_def case_prod_beta reply_setters build_defs split: if_splits)
  ultimately show ?thesis by simp
qed

lemma calculate_token_ip:
  "sock_ip a = sock_ip b \<Longrightarrow> calculate_token crc a secret = calculate_token crc b secret"
  by (simp add: calculate_token_def)

section \<open>Subscriptions over time\<close>

text \<open>The events that the packets of a history gave rise to.\<close>

fun packet_events :: "dht_event list \<Rightarrow> DHTEvent set" where
  "packet_events [] = {}"
| "packet_events (Incoming sock pkt inp c c' # evs) =
     insert (DHTEvent (MessageReceived (MessageReceivedEvent (fst pkt)))) (packet_events evs)"
| "packet_events (NotifyPacket msg # evs) =
     insert (DHTEvent (MessageReceived (MessageReceivedEvent msg))) (packet_events evs)"
| "packet_events (e # evs) = packet_events evs"

lemma packet_events_append [simp]: "packet_events (evs @ evs') = packet_events evs \<union> packet_events evs'"
  by (induction evs rule: packet_events.induct) auto

definition subs_ok :: "DHTEvent set \<Rightarrow> Subscriber list \<Rightarrow> bool" where
  "subs_ok A subs \<longleftrightarrow> (\<forall>s \<in> set subs. length (sub_queue s) \<le> subscriber_capacity \<and> set (sub_queue s) \<subseteq> A)"

lemma subs_ok_mono: "subs_ok A subs \<Longrightarrow> A \<subseteq> B \<Longrightarrow> subs_ok B subs"
  by (auto simp: subs_ok_def)

lemma subs_ok_send:
  "subs_ok A (st_subscribers st) \<Longrightarrow>
   subs_ok (insert (DHTEvent (MessageReceived (MessageReceivedEvent msg))) A) (st_subscribers (send_packet_to_subscribers st msg))"
  by (fastforce simp: subs_ok_def send_packet_to_subscribers_def try_send_def Let_def)

lemma subs_ok_update:
  assumes "subs_ok A subs" and "k < length subs" and "length (sub_queue s) \<le> length (sub_queue (subs ! k))"
    and "set (sub_queue s) \<subseteq> set (sub_queue (subs ! k))"
  shows "subs_ok A (subs[k := s])"
proof -
  have "length (sub_queue (subs ! k)) \<le> subscriber_capacity" "set (sub_queue (subs ! k)) \<subseteq> A"
    using assms(1,2) by (simp_all add: subs_ok_def)
  then have "length (sub_queue s) \<le> subscriber_capacity" "set (sub_queue s) \<subseteq> A" using assms(3,4) by auto
  then show ?thesis using assms(1) set_update_subset_insert [of subs k s] by (auto simp: subs_ok_def)
qed

lemma accept_body_subs:
  assumes "accept_body E ro thr st sock (msg, addr) inp c c' = (thr', st', sock', r)" and "subs_ok A (st_subscribers st)"
  shows "subs_ok (insert (DHTEvent (MessageReceived (MessageReceivedEvent msg))) A) (st_subscribers st')"
  using assms(1)
proof (cases rule: accept_body_cases)
  case 1
  then show ?thesis using subs_ok_mono [OF assms(2)] by auto
next
  case 2
  then show ?thesis using subs_ok_send [OF assms(2)] by simp
next
  case (3 st1)
  then have eq: "st_subscribers st1 = st_subscribers st" using accept_single_packet_identity by blast
  show ?thesis
  proof (cases "r = Ok ()")
    case True
    then show ?thesis using 3(3) subs_ok_send [of A st1 msg] assms(2) eq by simp
  next
    case False
    then show ?thesis using 3(3) eq subs_ok_mono [OF assms(2)] by auto
  qed
qed

lemma step_subs:
  assumes "dht_step E (thr, st) e (thr', st')" and "subs_ok A (st_subscribers st)"
  shows "subs_ok (A \<union> packet_events [e]) (st_subscribers st')"
  using assms(1)
proof cases
  case (incoming sock pkt inp c c' r)
  obtain msg addr where pkt: "pkt = (msg, addr)" by (cases pkt)
  show ?thesis using accept_body_subs [OF incoming(2) [unfolded pkt] assms(2)] incoming(1) pkt by simp
next
  case (seen_request msg req addr inp)
  then show ?thesis using common_request_handling_identity [OF seen_request(5)] assms(2) by simp
next
  case (make_reply msg req addr inp reply)
  then show ?thesis using request_reply_state [of st E req addr msg inp] assms(2) by simp
next
  case (notify_packet msg)
  then show ?thesis using subs_ok_send [OF assms(2), of msg] by simp
next
  case (record_responder reply v clk' target)
  then show ?thesis using record_responder_run [OF record_responder(3,4)] assms(2) by (auto simp: response_frame_def)
next
  case (record_nodes reply v clk)
  have "st_subscribers st' = st_subscribers st" by (subst record_found_nodes_frame [OF record_nodes(3,4)]) simp
  then show ?thesis using record_nodes(1) assms(2) by simp
next
  case (own_response target reply clk r)
  then show ?thesis using handle_own_response_run [OF own_response(3)] assms(2) by auto
next
  case (maintenance r g rest)
  from maintenance(3) show ?thesis using maintenance(1) assms(2) by (cases rule: ip4_maintenance_turn_cases) simp_all
next
  case (listing newer_than infos)
  then show ?thesis using dht_get_info_hashes_frame [OF listing(3)] assms(2) by auto
next
  case (take_event k event rest)
  then have "subs_ok A ((st_subscribers st)[k := (st_subscribers st ! k)\<lparr>sub_queue := rest\<rparr>])"
    by (intro subs_ok_update [OF assms(2)]) auto
  then show ?thesis using take_event by simp
next
  case (close_subscription k)
  then show ?thesis using subs_ok_update [OF assms(2), of k] by simp
qed (use assms(2) in \<open>auto simp: rotate_token_secrets_def dht_subscribe_def buddy_ping_turn_def Let_def subs_ok_def\<close>)

lemma steps_subs:
  "dht_steps E s evs t \<Longrightarrow> subs_ok A (st_subscribers (snd s)) \<Longrightarrow> subs_ok (A \<union> packet_events evs) (st_subscribers (snd t))"
proof (induction rule: dht_steps.induct)
  case (more evs t e u)
  then show ?case
    using step_subs [of E "fst t" "snd t" e "fst u" "snd u" "A \<union> packet_events evs"] by (simp add: Un_assoc)
qed simp

section \<open>One packet in, at most one out\<close>

lemma accept_single_packet_socket:
  assumes "accept_single_packet E st sock msg addr inp = (st', sock', r)"
  shows "sock' = sock \<or> (\<exists>req m st''. message_type msg = Request req \<and> sock' = sock\<lparr>so_outgoing := so_outgoing sock @ [(m, addr)]\<rparr> \<and>
      reply_ok st req addr msg m)"
proof (cases "message_type msg")
  case (Request req)
  obtain st1 q where h: "handle_request E st req addr msg inp = (st1, q)" by (cases "handle_request E st req addr msg inp")
  show ?thesis
  proof (cases "\<exists>m. q = Ok (Some m)")
    case True
    then obtain m where q: "q = Ok (Some m)" by blast
    note ok = handle_request_reply [OF h [unfolded q]]
    then obtain v where "message_type m = Response v" by (auto simp: reply_ok_def)
    then have "sock' = sock \<or> sock' = sock\<lparr>so_outgoing := so_outgoing sock @ [(m, addr)]\<rparr>"
      using assms Request h q
      by (auto simp: accept_single_packet_def ds_send_to_unfold split: res.splits prod.splits if_splits)
    then show ?thesis using ok Request by blast
  next
    case False
    then show ?thesis using assms Request h
      by (auto simp: accept_single_packet_def split: res.splits option.splits)
  qed
qed (use assms in \<open>auto simp: accept_single_packet_def\<close>)

section \<open>A concrete history\<close>

definition sample_config :: "(IPV4Consensus, NodeBucketStorage) DHTConfig" where
  "sample_config = dht_builder_build id id (db_set_initial_id id_zero dht_builder_new)"

lemma sample_config_fields [simp]:
  "dc_id sample_config = Some id_zero" "dc_buckets sample_config = nbs_new id_zero 8"
  "dc_ip4_source sample_config = consensus_new 2 10" "dc_settings sample_config = default_settings"
  by (simp_all add: sample_config_def dht_builder_build_def db_set_initial_id_def dht_builder_new_def)

text \<open>A node built with the default builder and a fixed id.\<close>

definition sample_start ::
  "(IPV4Consensus, NodeBucketStorage, nat \<times> (Id \<times> nat \<times> (SocketAddr \<times> PeerInfo) list) list) DHTState" where
  "sample_start = sample_state\<lparr>st_buckets := nbs_set_id (nbs_new id_zero 8) id_zero,
     st_peer_storage := peer_storage_new list_lru (cfg_max_torrents default_settings) (cfg_max_peers_per_torrent default_settings),
     st_token_secret := make_token_secret (cfg_token_secret_size default_settings) (\<lambda>n. 7),
     st_old_token_secret := make_token_secret (cfg_token_secret_size default_settings) (\<lambda>n. 7)\<rparr>"

lemma sample_start_new: "dht_new sample_env sample_config 0 0 (\<lambda>n. 0) id_zero (\<lambda>n. 7) = Ok sample_start"
  by (simp add: dht_new_def sample_start_def sample_state_def Let_def sample_env_def)

lemma sample_not_throttled:
  "\<exists>thr. check_throttle (throttler_new 1 10 5 5 50 0) (sock_ip (sample_addr 1)) None None 7 7 = Ok (thr, False)"
  by (simp add: check_throttle_def throttler_new_def sample_addr_def tr_default_def localhost_v4_def Let_def
      instant_plus_def instant_checked_add_def instant_max_def nanos_per_sec_def throttle_if_over_def)

definition sample_throttler32 :: Throttler where
  "sample_throttler32 = settings_throttler default_settings 0"

definition sample_peer :: Id where
  "sample_peer = (case id_from_ip sample_crc (IpV4 (Ipv4Addr 10 0 0 1)) 1 2 (\<lambda>n. 3) of Ok i \<Rightarrow> i | _ \<Rightarrow> id_zero)"

definition sample_pong :: Message where
  "sample_pong = \<lparr>transaction_id = [9], version = None, requester_ip = Some (SockV4 (Ipv4Addr 8 8 8 8) 6881),
     message_type = Response (PingResponse (PingResponseArguments sample_peer)), read_only = None\<rparr>"

lemma sample_peer_valid: "is_valid_for_ip sample_crc sample_peer (IpV4 (Ipv4Addr 10 0 0 1)) = Ok True"
proof -
  obtain i where i: "id_from_ip sample_crc (IpV4 (Ipv4Addr 10 0 0 1)) 1 2 (\<lambda>n. 3) = Ok i"
    using magic_from_ip_v4_ok [of sample_crc "Ipv4Addr 10 0 0 1" 1] by (auto simp: id_from_ip_def)
  then show ?thesis using id_from_ip_valid [OF i] by (simp add: sample_peer_def)
qed

definition sample_verified ::
  "(IPV4Consensus, NodeBucketStorage, nat \<times> (Id \<times> nat \<times> (SocketAddr \<times> PeerInfo) list) list) DHTState" where
  "sample_verified = sample_start\<lparr>st_buckets :=
     nbs_add_or_update insertion_sort (st_buckets sample_start) (Node sample_peer (sample_addr 1)) True 5 6,
     st_ip4_source := \<lparr>min_votes = 2, max_votes = 10, vote_list = [\<lparr>vote_ip = Ipv4Addr 8 8 8 8, votes = 1\<rparr>]\<rparr>\<rparr>"

lemma sample_pong_handled:
  "handle_own_response sample_env sample_start (sample_addr 1) (Some sample_pong) (\<lambda>n. (5, 6)) = (Ok sample_verified, Ok sample_pong)"
proof -
  have "get_author_id sample_pong = Some sample_peer" "message_type sample_pong = Response (PingResponse (PingResponseArguments sample_peer))"
    "requester_ip sample_pong = Some (SockV4 (Ipv4Addr 8 8 8 8) 6881)"
    by (simp_all add: sample_pong_def get_author_id.simps)
  moreover have "add_vote consensus_source (st_ip4_source sample_start) (Ipv4Addr 10 0 0 1) (Ipv4Addr 8 8 8 8) =
      Ok \<lparr>min_votes = 2, max_votes = 10, vote_list = [\<lparr>vote_ip = Ipv4Addr 8 8 8 8, votes = 1\<rparr>]\<rparr>"
    by (simp add: sample_start_def sample_state_def consensus_new_def consensus_source_def consensus_add_vote_def)
  ultimately show ?thesis
    using sample_peer_valid
    by (simp add: handle_own_response_unfold sample_addr_def ip4_vote_helper_def sample_verified_def sample_env_def)
qed

lemma sample_step:
  "dht_step sample_env (thr, sample_start) (OwnResponse (sample_addr 1) (Some sample_pong) (\<lambda>n. (5, 6))) (thr, sample_verified)"
  by (simp add: dht_step_simps sample_pong_handled)

section \<open>Properties\<close>

text \<open>
  C2. In every history of a node that starts with an empty routing table, whatever is received, a node that we
  report as live or that our replies hand out to others has an id from which a response to a request of
  ours arrived, from an address that the id is valid for; and the node as it is handed out, id and
  address, was reported by a step of the history under an id valid for that address: it sent a request,
  answered one, or was named in an answer. That address need not be the one that answered:
  a known id keeps the address it was first reported with. A requester is never handed out to itself.
\<close>

theorem only_responders_are_handed_out:
  assumes "e_nodes E = nbs_ops srt" and "sort_law srt"
    and "dht_new E c r g rest random_id rng = Ok st" and "dc_buckets c = nbs_new our k"
    and "dht_steps E (thr, st) evs (thr', st')"
  shows "(\<forall>w \<in> set (dht_get_nodes E st').
       (\<exists>e \<in> set evs. nw_id w \<in> responders E e) \<and> (\<exists>e \<in> set evs. nw_node w \<in> reporters E e)) \<and>
    (\<forall>req addr msg inp st'' m v n. message_type msg = Request req \<and>
       handle_request E st' req addr msg inp = (st'', Ok (Some m)) \<and>
       message_type m = Response v \<and> n \<in> set (reply_nodes v) \<longrightarrow>
       (\<exists>e \<in> set evs. node_id n \<in> responders E e) \<and> (\<exists>e \<in> set evs. n \<in> reporters E e) \<and>
       node_id n \<noteq> request_author req)"
proof (intro conjI ballI allI impI)
  obtain nevs where nevs: "st_buckets st' = ns_run (nbs_ops srt) (nbs_new our k) nevs"
    "verified_in nevs \<subseteq> (\<Union>e \<in> set evs. responders E e)" "reports nevs \<subseteq> (\<Union>e \<in> set evs. reporters E e)"
    by (rule history_of_buckets [OF assms(1,3,4,5)])
  show "\<exists>e \<in> set evs. nw_id w \<in> responders E e" "\<exists>e \<in> set evs. nw_node w \<in> reporters E e"
    if "w \<in> set (dht_get_nodes E st')" for w
    using history_verified(1,3) [OF assms(2) nevs(1), of w] that nevs(2,3) assms(1) by (auto simp: dht_get_nodes_def)
  fix req addr msg inp st'' m v n
  assume h: "message_type msg = Request req \<and> handle_request E st' req addr msg inp = (st'', Ok (Some m)) \<and>
       message_type m = Response v \<and> n \<in> set (reply_nodes v)"
  obtain nevs' where nevs': "st_buckets st'' = ns_run (nbs_ops srt) (nbs_new our k) (nevs @ nevs')"
    "verified_in nevs' = {}" "reports nevs' \<subseteq> {n. get_author_id msg = Some (node_id n)}"
    using handle_request_run [of E st' req addr msg inp st''] h nevs(1) assms(1) by (auto simp: ns_run_append)
  obtain target where "n \<in> set (nbs_get_nearest_nodes srt (st_buckets st'') target (Some (request_author req)))"
    using handle_request_nodes [of E st' req addr msg inp st'' m v] h assms(1) by (auto simp: nearest_only_def)
  note near = history_verified(2,4) [OF assms(2) nevs'(1) this]
  then show "\<exists>e \<in> set evs. node_id n \<in> responders E e" and other: "node_id n \<noteq> request_author req"
    using nevs'(2) nevs(2) by auto
  have "get_author_id msg = Some (request_author req)" using h by (simp add: request_author_id)
  then show "\<exists>e \<in> set evs. n \<in> reporters E e" using near(2) nevs'(3) nevs(3) other by auto
qed

theorem only_responders_are_handed_out_witness:
  "\<exists>w. dht_get_nodes sample_env sample_verified = [w] \<and>
     (\<exists>e \<in> set [OwnResponse (sample_addr 1) (Some sample_pong) (\<lambda>n. (5, 6))]. nw_id w \<in> responders sample_env e)"
proof -
  have "map nw_id (nbs_get_all_verified (nbs_add_or_update insertion_sort (nbs_set_id (nbs_new id_zero 8) id_zero)
      (Node sample_peer (sample_addr 1)) True 5 6)) = [sample_peer]"
    by code_simp
  then have "map nw_id (dht_get_nodes sample_env sample_verified) = [sample_peer]"
    by (simp add: dht_get_nodes_def sample_env_def sample_verified_def sample_start_def)
  then obtain w where w: "dht_get_nodes sample_env sample_verified = [w]" by auto
  have env: "e_nodes sample_env = nbs_ops insertion_sort" by (simp add: sample_env_def)
  have "\<exists>e \<in> set [OwnResponse (sample_addr 1) (Some sample_pong) (\<lambda>n. (5, 6))]. nw_id w \<in> responders sample_env e"
    using only_responders_are_handed_out [OF env sort_law_insertion_sort sample_start_new sample_config_fields(2)
      dht_steps_single [OF sample_step]] w by simp
  with w show ?thesis by blast
qed

text \<open>
  C4. A token is good for its lifetime: when we gave it in a reply to a get_peers request, an announce
  from the same IP address (any port) that brings it back is accepted and stored after any history
  with at most one rotation of the secrets in between. So a token lives at least one rotation period.
\<close>

theorem token_lifetime:
  assumes "handle_request E st (GetPeersRequest a) addr msg inp = (st1, Ok (Some m))"
    and "message_type m = Response (GetPeersResponse v)"
    and "dht_steps E (thr, st) evs (thr', st')" and "rotations evs \<le> 1"
    and "sock_ip addr' = sock_ip addr" and "sock_is_v4 addr'" and "ap_token b = gp_token v"
    and "message_type msg' = Request (AnnouncePeerRequest b)"
  shows "\<exists>st'' m'. handle_request E st' (AnnouncePeerRequest b) addr' msg' inp' = (st'', Ok (Some m')) \<and>
    st_peer_storage st'' = ps_announce_peer (e_outer E) (e_inner E) (st_peer_storage st') (ap_info_hash b)
      (if ap_implied_port b = Some True then addr' else sock_set_port addr' (ap_port b)) (hi_clock inp')"
proof -
  obtain st2 where c: "common_request_handling E st' addr' msg' inp' = Ok st2"
    using common_request_handling_v4 [OF assms(8,6)] by blast
  note id = common_request_handling_identity [OF c]
  have "rotations evs = 0 \<or> rotations evs = 1" using assms(4) by linarith
  then have "st_token_secret st = st_token_secret st2 \<or> st_token_secret st = st_old_token_secret st2"
    using steps_secrets [OF assms(3)] id by (auto simp: same_identity_def)
  then have tok: "ap_token b = calculate_token (e_crc E) addr' (st_token_secret st2) \<or>
      ap_token b = calculate_token (e_crc E) addr' (st_old_token_secret st2)"
    using get_peers_reply_token [OF assms(1,2)] assms(7) calculate_token_ip [OF assms(5)] by metis
  obtain m' where m': "build (set_requester_ip addr' (set_transaction_id (transaction_id msg')
      (set_sender_id (st_our_id st2) (builder_new BAnnouncePeerResponse)))) (0, 0) = Ok m'"
    using announce_builds by blast
  show ?thesis using tok id m' by (auto simp: handle_request_unfold c announce_peer_reply_def Let_def)
qed

theorem token_lifetime_witness:
  "\<exists>v st''. handle_request sample_env (rotate_token_secrets sample_state (\<lambda>n. 5))
      (AnnouncePeerRequest (AnnouncePeerRequestArguments (sample_id 7 7) (sample_id 1 2) 80 None (gp_token v)))
      (SockV4 (Ipv4Addr 10 0 0 1) 99)
      (sample_get_peers_message\<lparr>message_type := Request (AnnouncePeerRequest
         (AnnouncePeerRequestArguments (sample_id 7 7) (sample_id 1 2) 80 None (gp_token v)))\<rparr>) sample_input = st'' \<and>
     (\<exists>m'. snd st'' = Ok (Some m'))"
proof -
  have req: "message_type sample_get_peers_message = Request (GetPeersRequest sample_get_peers)"
    by (simp add: sample_get_peers_message_def)
  obtain st1 m where h: "handle_request sample_env sample_state (GetPeersRequest sample_get_peers) (sample_addr 1)
      sample_get_peers_message sample_input = (st1, Ok (Some m))"
  proof -
    obtain st1 q where q: "handle_request sample_env sample_state (GetPeersRequest sample_get_peers) (sample_addr 1)
        sample_get_peers_message sample_input = (st1, Ok q)" "q \<noteq> None"
      using handle_request_answers [OF req sample_addr_v4 sample_sane, of 1 sample_input] by blast
    then show thesis using that by (cases q) auto
  qed
  obtain w where w: "message_type m = Response w" "response_matches_request w (GetPeersRequest sample_get_peers)"
    using handle_request_reply [OF h] by (auto simp: reply_ok_def)
  then obtain v where v: "message_type m = Response (GetPeersResponse v)" by (cases w) auto
  let ?b = "AnnouncePeerRequestArguments (sample_id 7 7) (sample_id 1 2) 80 None (gp_token v)"
  have steps: "dht_steps sample_env (sample_throttler32, sample_state) [RotateTokens (\<lambda>n. 5)]
      (sample_throttler32, rotate_token_secrets sample_state (\<lambda>n. 5))"
    by (rule dht_steps_single) (rule dht_step.rotate)
  have side: "rotations [RotateTokens (\<lambda>n. 5)] \<le> 1" "sock_ip (SockV4 (Ipv4Addr 10 0 0 1) 99) = sock_ip (sample_addr 1)"
    "sock_is_v4 (SockV4 (Ipv4Addr 10 0 0 1) 99)" "ap_token ?b = gp_token v"
    "message_type (sample_get_peers_message\<lparr>message_type := Request (AnnouncePeerRequest ?b)\<rparr>) = Request (AnnouncePeerRequest ?b)"
    by (simp_all add: rotations_def sample_addr_def)
  show ?thesis using token_lifetime [OF h v steps side, of sample_input] by fastforce
qed

text \<open>
  C3. The node survives anything the network sends: a node set up with the consensus address source
  and sane limits, after any history, neither panics on a packet from an IPv4 address (as long as
  the clock does not run out), nor on any response that the parser lets through, nor in its
  maintenance, nor when it makes up the ids it searches for; every response is passed on.
\<close>

theorem node_never_panics:
  assumes "e_ip4 E = consensus_source" and "lru_cache (e_outer E) ook ocap" and "lru_cache (e_inner E) iok icap"
    and "dht_new E c r g rest random_id rng = Ok st" and "consensus_inv (dc_ip4_source c)"
    and "0 < cfg_max_torrents (dc_settings c)" and "0 < cfg_max_peers_per_torrent (dc_settings c)"
    and "int (cfg_max_torrents (dc_settings c)) \<le> i32_max" and "0 \<le> cfg_min_sample_interval_secs (dc_settings c)"
    and "dht_steps E (settings_throttler (dc_settings c) t0, st) evs (thr', st')"
  shows "(\<forall>ro sock msg addr inp k k'. sock_is_v4 addr \<and> k + th_period thr' \<le> instant_max \<and> k + th_naughty thr' \<le> instant_max \<longrightarrow>
       snd (snd (snd (accept_body E ro thr' st' sock (msg, addr) inp k k'))) \<noteq> Panic) \<and>
    (\<forall>d reply target clk. from_serde_message d = Ok reply \<and> is_response reply \<and> sock_is_v4 target \<longrightarrow>
       (\<exists>st''. handle_own_response E st' target (Some reply) clk = (Ok st'', Ok reply))) \<and>
    (\<exists>st''. ip4_maintenance_turn E st' r' g' rest' = Ok st'') \<and> snd (find_node_turn E st0 st' rnd) \<noteq> Panic"
proof (intro conjI allI impI)
  note env = node_envI [OF assms(1-3)]
  note inv0 = node_env.node_inv_new [OF env assms(4-9)]
  have inv: "node_env.node_inv E ook ocap iok icap consensus_inv (cfg_max_torrents (dc_settings c)) st'"
    using node_env.node_inv_steps [OF env assms(10)] inv0 by simp
  then have src: "consensus_inv (st_ip4_source st')" by (simp add: node_env.node_inv_def [OF env])
  have thr: "th_records thr' \<noteq> []"
    using steps_config [OF assms(10)] by (auto simp: same_config_def settings_throttler_def throttler_new_def)
  show "snd (snd (snd (accept_body E ro thr' st' sock (msg, addr) inp k k'))) \<noteq> Panic"
    if "sock_is_v4 addr \<and> k + th_period thr' \<le> instant_max \<and> k + th_naughty thr' \<le> instant_max" for ro sock msg addr inp k k'
    using accept_body_no_panic [OF node_env.node_inv_sane [OF env inv]] thr that by blast
  show "\<exists>st''. handle_own_response E st' target (Some reply) clk = (Ok st'', Ok reply)"
    if "from_serde_message d = Ok reply \<and> is_response reply \<and> sock_is_v4 target" for d reply target clk
    using consensus.response_total [OF assms(1) src] from_serde_message_wire_ok that by blast
  show "\<exists>st''. ip4_maintenance_turn E st' r' g' rest' = Ok st''"
    by (rule consensus.maintenance_total [OF assms(1) src])
  show "snd (find_node_turn E st0 st' rnd) \<noteq> Panic"
    using make_mutant_ok_iff [of "st_our_id st'" 4 rnd]
    by (auto simp: find_node_turn_def case_prod_beta Let_def split: res.splits)
qed

theorem node_never_panics_witness:
  "\<exists>st. handle_own_response sample_env sample_verified (sample_addr 1) (Some sample_pong) (\<lambda>n. (7, 7)) = (Ok st, Ok sample_pong) \<and>
     snd (snd (snd (accept_body sample_env False sample_throttler32 sample_verified socket_new
       (sample_get_peers_message, sample_addr 1) sample_input 7 7))) \<noteq> Panic"
proof -
  have hyp: "e_ip4 sample_env = consensus_source" "lru_cache (e_outer sample_env) list_lru_ok fst"
    "lru_cache (e_inner sample_env) list_lru_ok fst"
    by (simp_all add: sample_env_def list_lru.lru_cache_axioms)
  have cfg: "consensus_inv (dc_ip4_source sample_config)" "0 < cfg_max_torrents (dc_settings sample_config)"
    "0 < cfg_max_peers_per_torrent (dc_settings sample_config)"
    "int (cfg_max_torrents (dc_settings sample_config)) \<le> i32_max"
    "0 \<le> cfg_min_sample_interval_secs (dc_settings sample_config)"
    by (simp_all add: default_settings_def i32_max_def consensus_inv_def consensus_new_def)
  have steps: "dht_steps sample_env (settings_throttler (dc_settings sample_config) 0, sample_start)
      [OwnResponse (sample_addr 1) (Some sample_pong) (\<lambda>n. (5, 6))] (sample_throttler32, sample_verified)"
    using dht_steps_single [OF sample_step [of sample_throttler32]] by (simp add: sample_throttler32_def)
  have time: "sock_is_v4 (sample_addr 1) \<and> 7 + th_period sample_throttler32 \<le> instant_max \<and>
      7 + th_naughty sample_throttler32 \<le> instant_max"
    by (simp add: sample_throttler32_def settings_throttler_def throttler_new_def default_settings_def
        dur_from_secs_def instant_max_def nanos_per_sec_def)
  have "wire_ok sample_pong" by (simp add: wire_ok_def sample_pong_def)
  then have "from_serde_message (into_serde_message sample_pong) = Ok sample_pong"
    using message_roundtrip [of sample_pong] by (simp add: clamp_message_def sample_pong_def)
  then have parsed: "from_serde_message (into_serde_message sample_pong) = Ok sample_pong \<and> is_response sample_pong \<and>
      sock_is_v4 (sample_addr 1)"
    by (simp add: is_response_def sample_pong_def)
  note all = node_never_panics [OF hyp sample_start_new cfg steps]
  from all parsed time show ?thesis by blast
qed



text \<open>
  C7. One packet in, at most one packet out, and back to where it came from: the loop over incoming
  packets queues nothing but a reply to the sender, with the transaction id of the request and the
  kind of response that matches it. A throttled packet, one from port 0 and every packet of a
  read-only node is answered by nothing, and the first two kinds change no state at all.
\<close>

theorem one_packet_at_most_one_reply:
  assumes "accept_body E ro thr st sock (msg, addr) inp c c' = (thr', st', sock', r)"
  shows "(sock' = sock \<or> (\<exists>req m. \<not> ro \<and> message_type msg = Request req \<and>
      sock' = sock\<lparr>so_outgoing := so_outgoing sock @ [(m, addr)]\<rparr> \<and> transaction_id m = transaction_id msg \<and>
      (\<exists>v. message_type m = Response v \<and> response_matches_request v req))) \<and>
    (sock_port addr = 0 \<or> (\<exists>t. check_throttle thr (sock_ip addr) None None c c' = Ok (t, True)) \<longrightarrow>
      st' = st \<and> sock' = sock) \<and>
    (ro \<longrightarrow> sock' = sock \<and> (st' = st \<or> st' = send_packet_to_subscribers st msg))"
proof (intro conjI impI)
  show "sock' = sock \<or> (\<exists>req m. \<not> ro \<and> message_type msg = Request req \<and>
      sock' = sock\<lparr>so_outgoing := so_outgoing sock @ [(m, addr)]\<rparr> \<and> transaction_id m = transaction_id msg \<and>
      (\<exists>v. message_type m = Response v \<and> response_matches_request v req))"
    using assms
  proof (cases rule: accept_body_cases)
    case (3 st1)
    then show ?thesis using accept_single_packet_socket [OF 3(2)] by (auto simp: reply_ok_def)
  qed simp_all
  assume "sock_port addr = 0 \<or> (\<exists>t. check_throttle thr (sock_ip addr) None None c c' = Ok (t, True))"
  then show "st' = st" "sock' = sock"
    using assms by (auto simp: accept_body_def split: res.splits if_splits)
next
  assume ro: "ro"
  from assms show "sock' = sock"
    by (cases rule: accept_body_cases) (use ro in simp_all)
  from assms show "st' = st \<or> st' = send_packet_to_subscribers st msg"
    by (cases rule: accept_body_cases) (use ro in simp_all)
qed

theorem one_packet_at_most_one_reply_witness:
  "\<exists>thr' st' sock' r. accept_body sample_env True sample_throttler32 sample_start socket_new
      (sample_get_peers_message, sample_addr 1) sample_input 7 7 = (thr', st', sock', r) \<and> sock' = socket_new"
proof -
  obtain thr' st' sock' r where a: "accept_body sample_env True sample_throttler32 sample_start socket_new
      (sample_get_peers_message, sample_addr 1) sample_input 7 7 = (thr', st', sock', r)"
    by (cases "accept_body sample_env True sample_throttler32 sample_start socket_new
      (sample_get_peers_message, sample_addr 1) sample_input 7 7")
  then show ?thesis using one_packet_at_most_one_reply [OF a] by blast
qed

text \<open>
  C8. Subscribers only ever see packets that were received: over any history of a new node, the
  queue of every subscription holds at most 32 events, and each of them carries the message of a
  packet of that history. And a packet that the loop accepts is queued for every open subscription
  that has room, after everything that is already there, while closed subscriptions disappear.
\<close>

theorem subscribers_see_received_packets:
  assumes "dht_steps E (thr, st) evs (thr', st')" and "st_subscribers st = []"
  shows "(\<forall>s \<in> set (st_subscribers st'). length (sub_queue s) \<le> 32 \<and> set (sub_queue s) \<subseteq> packet_events evs) \<and>
    (\<forall>ro sock msg addr inp c c' thr2 st2 sock2. accept_body E ro thr' st' sock (msg, addr) inp c c' = (thr2, st2, sock2, Ok ()) \<and>
       check_throttle thr' (sock_ip addr) None None c c' = Ok (thr2, False) \<and> sock_port addr \<noteq> 0 \<longrightarrow>
       st_subscribers st2 = map (\<lambda>s. if length (sub_queue s) < 32
           then s\<lparr>sub_queue := sub_queue s @ [DHTEvent (MessageReceived (MessageReceivedEvent msg))]\<rparr> else s)
         (filter (\<lambda>s. \<not> sub_closed s) (st_subscribers st')))"
proof (intro conjI allI impI)
  have "subs_ok ({} \<union> packet_events evs) (st_subscribers st')"
    using steps_subs [OF assms(1), of "{}"] assms(2) by (simp add: subs_ok_def)
  then show "\<forall>s \<in> set (st_subscribers st'). length (sub_queue s) \<le> 32 \<and> set (sub_queue s) \<subseteq> packet_events evs"
    by (simp add: subs_ok_def subscriber_capacity_def)
  fix ro sock msg addr inp c c' thr2 st2 sock2
  assume a: "accept_body E ro thr' st' sock (msg, addr) inp c c' = (thr2, st2, sock2, Ok ()) \<and>
    check_throttle thr' (sock_ip addr) None None c c' = Ok (thr2, False) \<and> sock_port addr \<noteq> 0"
  have "\<exists>st1. st2 = send_packet_to_subscribers st1 msg \<and> st_subscribers st1 = st_subscribers st'"
    using conjunct1 [OF a]
  proof (cases rule: accept_body_cases)
    case (3 st1)
    then show ?thesis using accept_single_packet_identity [OF 3(2)] by auto
  qed (use a in auto)
  then show "st_subscribers st2 = map (\<lambda>s. if length (sub_queue s) < 32
           then s\<lparr>sub_queue := sub_queue s @ [DHTEvent (MessageReceived (MessageReceivedEvent msg))]\<rparr> else s)
         (filter (\<lambda>s. \<not> sub_closed s) (st_subscribers st'))"
    by (auto simp: send_packet_to_subscribers_def Let_def try_send_def subscriber_capacity_def)
qed

theorem subscribers_see_received_packets_witness:
  "\<exists>thr' st'. dht_steps sample_env (throttler_new 1 10 5 5 50 0, sample_start)
       [Subscribe, Incoming socket_new (sample_pong, sample_addr 1) sample_input 7 7] (thr', st') \<and>
     map sub_queue (st_subscribers st') = [[DHTEvent (MessageReceived (MessageReceivedEvent sample_pong))]]"
proof -
  let ?thr = "throttler_new 1 10 5 5 50 0" and ?st = "dht_subscribe sample_start"
  have steps: "dht_steps sample_env (?thr, sample_start) [Subscribe] (?thr, ?st)"
    by (rule dht_steps_single) (rule dht_step.subscribe)
  have none: "st_subscribers sample_start = []" by (simp add: sample_start_def sample_state_def)
  obtain thr2 where thr2: "check_throttle ?thr (sock_ip (sample_addr 1)) None None 7 7 = Ok (thr2, False)"
    using sample_not_throttled by blast
  have pong: "accept_single_packet sample_env ?st socket_new sample_pong (sample_addr 1) sample_input = (?st, socket_new, Ok ())"
    by (simp add: accept_single_packet_def sample_pong_def)
  have port: "sock_port (sample_addr 1) \<noteq> 0" by (simp add: sample_addr_def)
  define st2 where "st2 = send_packet_to_subscribers ?st sample_pong"
  have ro: "\<not> cfg_read_only (st_settings ?st)"
    by (simp add: dht_subscribe_def sample_start_def sample_state_def default_settings_def)
  have body: "accept_body sample_env (cfg_read_only (st_settings ?st)) ?thr ?st socket_new (sample_pong, sample_addr 1)
      sample_input 7 7 = (thr2, st2, socket_new, Ok ())"
    using ro port pong thr2 by (simp add: accept_body_def st2_def)
  have "accept_body sample_env (cfg_read_only (st_settings ?st)) ?thr ?st socket_new (sample_pong, sample_addr 1)
      sample_input 7 7 = (thr2, st2, socket_new, Ok ()) \<and>
    check_throttle ?thr (sock_ip (sample_addr 1)) None None 7 7 = Ok (thr2, False) \<and> sock_port (sample_addr 1) \<noteq> 0"
    using body thr2 by (simp add: sample_addr_def)
  then have "st_subscribers st2 = map (\<lambda>s. if length (sub_queue s) < 32
           then s\<lparr>sub_queue := sub_queue s @ [DHTEvent (MessageReceived (MessageReceivedEvent sample_pong))]\<rparr> else s)
         (filter (\<lambda>s. \<not> sub_closed s) (st_subscribers ?st))"
    using subscribers_see_received_packets [OF steps none] by blast
  moreover have "dht_step sample_env (?thr, ?st) (Incoming socket_new (sample_pong, sample_addr 1) sample_input 7 7) (thr2, st2)"
    using body by (rule dht_step.incoming) (simp only: accept_continues.simps)
  then have "dht_steps sample_env (?thr, sample_start)
       [Subscribe, Incoming socket_new (sample_pong, sample_addr 1) sample_input 7 7] (thr2, st2)"
    using dht_steps.more [OF steps] by simp
  ultimately show ?thesis using none by (intro exI) (auto simp: dht_subscribe_def)
qed

text \<open>A peer announces itself to that node, and is given out afterwards.\<close>

definition sample_announcement :: AnnouncePeerRequestArguments where
  "sample_announcement = AnnouncePeerRequestArguments (sample_id 1 2) (sample_id 7 7) 80 None
     (calculate_token sample_crc (sample_addr 1) (st_token_secret sample_start))"

definition sample_announce :: Message where
  "sample_announce = sample_get_peers_message\<lparr>message_type := Request (AnnouncePeerRequest sample_announcement)\<rparr>"

definition sample_announced ::
  "(IPV4Consensus, NodeBucketStorage, nat \<times> (Id \<times> nat \<times> (SocketAddr \<times> PeerInfo) list) list) DHTState" where
  "sample_announced = sample_start\<lparr>st_peer_storage :=
     ps_announce_peer list_lru list_lru (st_peer_storage sample_start) (sample_id 7 7) (SockV4 (Ipv4Addr 10 0 0 1) 80) 7\<rparr>"

lemma sample_seen:
  assumes "Message.read_only msg = Some True" and "get_author_id msg = Some i"
  shows "common_request_handling sample_env st (sample_addr 1) msg inp = Ok st"
proof -
  obtain v where "is_valid_for_ip (e_crc sample_env) i (sock_ip (sample_addr 1)) = Ok v"
    using is_valid_for_ip_v4_ok [of _ i "Ipv4Addr 10 0 0 1"] by (auto simp: sample_addr_def)
  then show ?thesis using assms by (simp add: common_request_handling_def)
qed

lemma sample_announce_step:
  "\<exists>thr. dht_step sample_env (throttler_new 1 10 5 5 50 0, sample_start)
     (Incoming socket_new (sample_announce, sample_addr 1) sample_input 7 7) (thr, sample_announced)"
proof -
  let ?thr = "throttler_new 1 10 5 5 50 0"
  obtain thr2 where thr2: "check_throttle ?thr (sock_ip (sample_addr 1)) None None 7 7 = Ok (thr2, False)"
    using sample_not_throttled by blast
  have kind: "message_type sample_announce = Request (AnnouncePeerRequest sample_announcement)"
    "Message.read_only sample_announce = Some True" "get_author_id sample_announce = Some (sample_id 1 2)"
    by (simp_all add: sample_announce_def sample_announcement_def sample_get_peers_message_def get_author_id.simps)
  obtain m where m: "build (set_requester_ip (sample_addr 1) (set_transaction_id (transaction_id sample_announce)
      (set_sender_id (st_our_id sample_announced) (builder_new BAnnouncePeerResponse)))) (0, 0) = Ok m"
    using announce_builds by blast
  have h: "handle_request sample_env sample_start (AnnouncePeerRequest sample_announcement) (sample_addr 1)
      sample_announce sample_input = (sample_announced, Ok (Some m))"
    using m by (simp add: handle_request_unfold sample_seen [OF kind(2,3)] announce_peer_reply_def Let_def)
      (simp add: sample_announcement_def sample_env_def sample_announced_def sample_addr_def sample_input_def)
  obtain w where "message_type m = Response w" using handle_request_reply [OF h] by (auto simp: reply_ok_def)
  then have "\<exists>sock. accept_single_packet sample_env sample_start socket_new sample_announce (sample_addr 1) sample_input
      = (sample_announced, sock, Ok ())"
    by (simp add: accept_single_packet_def kind h ds_send_to_unfold socket_new_def)
  then obtain sock where "accept_single_packet sample_env sample_start socket_new sample_announce (sample_addr 1) sample_input
      = (sample_announced, sock, Ok ())" ..
  moreover have "send_packet_to_subscribers sample_announced sample_announce = sample_announced"
    by (simp add: send_packet_to_subscribers_def sample_announced_def sample_start_def sample_state_def)
  moreover have "\<not> cfg_read_only (st_settings sample_start)"
    by (simp add: sample_start_def sample_state_def default_settings_def)
  ultimately have "accept_body sample_env (cfg_read_only (st_settings sample_start)) ?thr sample_start socket_new
      (sample_announce, sample_addr 1) sample_input 7 7 = (thr2, sample_announced, sock, Ok ())"
    using thr2 by (simp add: accept_body_def) (simp add: sample_addr_def)
  then have "dht_step sample_env (?thr, sample_start) (Incoming socket_new (sample_announce, sample_addr 1) sample_input 7 7)
      (thr2, sample_announced)"
    by (rule dht_step.incoming) (simp only: accept_continues.simps)
  then show ?thesis ..
qed

lemma sample_get_peers_answered:
  "\<exists>reply v. handle_request sample_env sample_announced (GetPeersRequest sample_get_peers) (sample_addr 1)
      sample_get_peers_message sample_input = (sample_announced, Ok (Some reply)) \<and>
    message_type reply = Response (GetPeersResponse v) \<and> gp_values v = Peers [SockV4 (Ipv4Addr 10 0 0 1) 80]"
proof -
  have kind: "Message.read_only sample_get_peers_message = Some True" "get_author_id sample_get_peers_message = Some (sample_id 1 2)"
    by (simp_all add: sample_get_peers_message_def sample_get_peers_def get_author_id.simps)
  have none: "instant_checked_sub (hi_clock sample_input) (dur_from_secs (cfg_get_peers_freshness_secs (st_settings sample_announced))) = None"
    by (simp add: instant_checked_sub_def sample_input_def sample_announced_def sample_start_def sample_state_def
        default_settings_def dur_from_secs_def nanos_per_sec_def)
  have "ps_get_peers (e_outer sample_env) (e_inner sample_env) (st_peer_storage sample_announced) (gp_info_hash sample_get_peers)
      (instant_checked_sub (hi_clock sample_input) (dur_from_secs (cfg_get_peers_freshness_secs (st_settings sample_announced)))) =
      (st_peer_storage sample_announced, [SockV4 (Ipv4Addr 10 0 0 1) 80])"
    unfolding none by (simp add: ps_get_peers_def ps_get_peers_info_def sample_announced_def sample_start_def peer_storage_new_def
        ps_announce_peer_def list_lru_def default_settings_def promote_def newer_def sample_env_def sample_get_peers_def)
  moreover have "sample_announced\<lparr>st_peer_storage := st_peer_storage sample_announced\<rparr> = sample_announced" by simp
  moreover have "0 < cfg_max_peers_response (st_settings sample_announced)"
    by (simp add: sample_announced_def sample_start_def sample_state_def default_settings_def)
  then obtain k where "cfg_max_peers_response (st_settings sample_announced) = Suc k" using gr0_conv_Suc by blast
  ultimately show ?thesis
    by (simp add: handle_request_unfold sample_seen [OF kind] get_peers_reply_def reply_setters build_defs)
qed

text \<open>
  C16. Every peer the node gives out was announced to it: when a node, after any history, answers a
  get_peers request with peers, then for each of them that history contains a packet that announced
  it for this info hash (the sender's own address, or its IP with the port it named), with a token
  that one of the node's two secrets at that time gives for the address the packet came from.
\<close>

theorem peers_come_from_announces:
  assumes "e_ip4 E = consensus_source" and "lru_cache (e_outer E) ook ocap" and "lru_cache (e_inner E) iok icap"
    and "dht_new E c r g rest random_id rng = Ok st" and "consensus_inv (dc_ip4_source c)"
    and "0 < cfg_max_torrents (dc_settings c)" and "0 < cfg_max_peers_per_torrent (dc_settings c)"
    and "int (cfg_max_torrents (dc_settings c)) \<le> i32_max" and "0 \<le> cfg_min_sample_interval_secs (dc_settings c)"
    and "dht_steps E (thr, st) evs (thr', st')"
    and "handle_request E st' (GetPeersRequest a) addr msg inp = (st'', Ok (Some reply))"
    and "message_type reply = Response (GetPeersResponse v)" and "gp_values v = Peers ps" and "p \<in> set ps"
  shows "\<exists>evs1 e evs2 u. evs = evs1 @ e # evs2 \<and> dht_steps E (thr, st) evs1 u \<and>
    announces E (snd u) e (gp_info_hash a) p"
proof -
  note env = node_envI [OF assms(1-3)]
  note inv0 = node_env.node_inv_new [OF env assms(4-9)]
  have inv: "node_env.node_inv E ook ocap iok icap consensus_inv (cfg_max_torrents (dc_settings c)) st'"
    using node_env.node_inv_steps [OF env assms(10)] inv0 by simp
  obtain x where "x \<in> set (swarm_of (e_outer E) (e_inner E) (st_peer_storage st') (gp_info_hash a))" "fst x = p"
    using node_env.get_peers_from_swarm [OF env inv assms(11-14)] by blast
  moreover have "swarm_of (e_outer E) (e_inner E) (st_peer_storage st) (gp_info_hash a) = []"
    by (rule node_env.swarm_new [OF env assms(4,6)])
  ultimately show ?thesis
    using node_env.steps_swarm [OF env assms(10), of "cfg_max_torrents (dc_settings c)" x "gp_info_hash a"] inv0 by simp
qed

theorem peers_come_from_announces_witness:
  "\<exists>u. announces sample_env u (Incoming socket_new (sample_announce, sample_addr 1) sample_input 7 7)
     (sample_id 7 7) (SockV4 (Ipv4Addr 10 0 0 1) 80)"
proof -
  let ?thr = "throttler_new 1 10 5 5 50 0" and ?e = "Incoming socket_new (sample_announce, sample_addr 1) sample_input 7 7"
  have hyp: "e_ip4 sample_env = consensus_source" "lru_cache (e_outer sample_env) list_lru_ok fst"
    "lru_cache (e_inner sample_env) list_lru_ok fst"
    by (simp_all add: sample_env_def list_lru.lru_cache_axioms)
  have cfg: "consensus_inv (dc_ip4_source sample_config)" "0 < cfg_max_torrents (dc_settings sample_config)"
    "0 < cfg_max_peers_per_torrent (dc_settings sample_config)"
    "int (cfg_max_torrents (dc_settings sample_config)) \<le> i32_max"
    "0 \<le> cfg_min_sample_interval_secs (dc_settings sample_config)"
    by (simp_all add: default_settings_def i32_max_def consensus_inv_def consensus_new_def)
  obtain thr2 where "dht_step sample_env (?thr, sample_start) ?e (thr2, sample_announced)"
    using sample_announce_step by blast
  note steps = dht_steps_single [OF this]
  obtain reply v where reply: "handle_request sample_env sample_announced (GetPeersRequest sample_get_peers) (sample_addr 1)
      sample_get_peers_message sample_input = (sample_announced, Ok (Some reply))"
    "message_type reply = Response (GetPeersResponse v)" "gp_values v = Peers [SockV4 (Ipv4Addr 10 0 0 1) 80]"
    using sample_get_peers_answered by blast
  have "SockV4 (Ipv4Addr 10 0 0 1) 80 \<in> set [SockV4 (Ipv4Addr 10 0 0 1) 80]" by simp
  from peers_come_from_announces [OF hyp sample_start_new cfg steps reply this]
  show ?thesis by (auto simp: sample_get_peers_def Cons_eq_append_conv)
qed

end
