(* ===== verification/Dht_Tasks.thy ===== *)
theory Dht_Tasks
  imports Dht_NodeInv
begin

text \<open>
  The tasks of \<open>src/dht/dht.rs\<close> around the sections under the lock: \<open>send_request\<close> and the spawned
  requests, the router pings, a turn of the accept loop with its \<open>recv_from\<close>, and how \<open>run_event_loop\<close>
  ends. The names of the routers are resolved by the system (\<open>lookup_host\<close>, an argument); what a wait
  gives is an argument; a call that never returns is \<open>None\<close>.
\<close>

section \<open>Requests\<close>

text \<open>
  \<open>send_request\<close>: \<open>send_to\<close> stores the request and then waits for room in the queue, while the other
  tasks go on: \<open>meanwhile\<close> is what they do to the socket until there is room or the caller stops
  waiting. \<open>wait\<close> is what the notification channel gives: a reply, \<open>Some None\<close> when it was
  closed, or nothing before the timeout, which runs over both waits. A caller that gives up for want of room has its
  request stored, but not queued. The state is the one at the time of the reply.
\<close>

definition gives_up :: "('i, 'n, 'o) DHTState \<Rightarrow> duration option \<Rightarrow> (('i, 'n, 'o) DHTState res \<times> Message res) option" where
  "gives_up st timeout =
     (case timeout of Some t \<Rightarrow> Some (Ok st, Err (TimeoutError ''Timed out'')) | None \<Rightarrow> None)"

definition send_request ::
  "('i, 'n, 'sw, 'o) dht_env \<Rightarrow> ('i, 'n, 'o) DHTState \<Rightarrow> Socket \<Rightarrow> Message \<Rightarrow> SocketAddr \<Rightarrow> Id option
     \<Rightarrow> duration option \<Rightarrow> instant \<Rightarrow> (Socket \<Rightarrow> Socket) \<Rightarrow> Message option option \<Rightarrow> (nat \<Rightarrow> instant \<times> instant)
     \<Rightarrow> Socket \<times> (('i, 'n, 'o) DHTState res \<times> Message res) option" where
  "send_request E st sock req dest dest_id timeout now meanwhile wait clk =
     (case message_type req of
        Request q \<Rightarrow>
          (let (sock1, to_ret) = store_request sock req dest dest_id now;
               sock2 = meanwhile sock1
           in if queue_full sock2 then (sock2, gives_up st timeout)
              else
                (case (enqueue_message sock2 req dest, to_ret) of
                   ((sock3, Ok u), Some ch) \<Rightarrow>
                     (sock3,
                      case wait of
                        Some received \<Rightarrow> Some (handle_own_response E st dest received clk)
                      | None \<Rightarrow> gives_up st timeout)
                 | ((sock3, Ok u), None) \<Rightarrow>
                     (sock3, Some (Ok st, Err (GeneralError ''Didn't get a response channel after sending a request'')))
                 | ((sock3, Err e), _) \<Rightarrow> (sock3, Some (Ok st, Err e))
                 | ((sock3, Panic), _) \<Rightarrow> (sock3, Some (Ok st, Panic))))
      | _ \<Rightarrow> (sock, Some (Ok st, Err (GeneralError ''This method is only for sending requests''))))"

text \<open>When nothing happens in between, it is \<open>send_own_request\<close> followed by the wait for the reply.\<close>

lemma send_request_at_once:
  assumes "\<not> queue_full sock"
  shows "send_request E st sock req dest dest_id timeout now id wait clk =
    (case send_own_request sock req dest dest_id now of
       (sock1, Ok ch) \<Rightarrow>
         (sock1, case wait of Some received \<Rightarrow> Some (handle_own_response E st dest received clk) | None \<Rightarrow> gives_up st timeout)
     | (sock1, Err e) \<Rightarrow> (sock1, Some (Ok st, Err e))
     | (sock1, Panic) \<Rightarrow> (sock1, Some (Ok st, Panic)))"
proof (cases "message_type req")
  case (Request q)
  then have "queue_full (fst (store_request sock req dest dest_id now)) = queue_full sock"
    by (simp add: store_request_def queue_full_def)
  then show ?thesis using assms Request
    by (simp add: send_request_def send_own_request_def ds_send_to_def store_request_def enqueue_message_def)
qed (simp_all add: send_request_def send_own_request_def)

text \<open>
  The tasks that \<open>ping_internal\<close> and \<open>find_node_internal\<close> spawn, up to their wait for the reply, when there is room
  in the queue; the whole task ends after five seconds at the latest, and its errors are logged.
\<close>

definition ping_internal ::
  "('i, 'n, 'o) DHTState \<Rightarrow> Socket \<Rightarrow> SocketAddr \<Rightarrow> Id option \<Rightarrow> u8 \<times> u8 \<Rightarrow> instant \<Rightarrow> Socket \<times> nat res" where
  "ping_internal st sock target target_id rng now =
     (case ping_message st rng of
        Ok req \<Rightarrow> send_own_request sock req target target_id now
      | _ \<Rightarrow> (sock, Panic))"

definition find_node_internal ::
  "('i, 'n, 'o) DHTState \<Rightarrow> Socket \<Rightarrow> SocketAddr \<Rightarrow> Id option \<Rightarrow> Id \<Rightarrow> u8 \<times> u8 \<Rightarrow> instant \<Rightarrow> Socket \<times> nat res" where
  "find_node_internal st sock dest dest_id target rng now =
     (case find_node_message st target rng of
        Ok req \<Rightarrow> send_own_request sock req dest dest_id now
      | _ \<Rightarrow> (sock, Panic))"

section \<open>Routers\<close>

text \<open>The first IPv4 address of a host is pinged; a host that does not resolve is skipped.\<close>

definition ping_router :: "(string \<Rightarrow> SocketAddr list res) \<Rightarrow> string \<Rightarrow> (SocketAddr \<times> Id option) list" where
  "ping_router lookup_host hostname =
     (case lookup_host hostname of
        Ok addrs \<Rightarrow> (case find sock_is_v4 addrs of Some socket_addr \<Rightarrow> [(socket_addr, None)] | None \<Rightarrow> [])
      | _ \<Rightarrow> [])"

text \<open>All routers at once, in the \<open>order\<close> in which they resolve; one turn of \<open>periodic_router_ping\<close> does the same.\<close>

definition ping_routers ::
  "(string \<Rightarrow> SocketAddr list res) \<Rightarrow> (string list \<Rightarrow> string list) \<Rightarrow> ('i, 'n, 'o) DHTState \<Rightarrow> (SocketAddr \<times> Id option) list" where
  "ping_routers lookup_host order st = concat (map (ping_router lookup_host) (order (cfg_routers (st_settings st))))"

definition periodic_router_ping_turn ::
  "(string \<Rightarrow> SocketAddr list res) \<Rightarrow> (string list \<Rightarrow> string list) \<Rightarrow> ('i, 'n, 'o) DHTState \<Rightarrow> (SocketAddr \<times> Id option) list" where
  "periodic_router_ping_turn lookup_host order st = ping_routers lookup_host order st"

section \<open>The event loop\<close>

text \<open>One turn of \<open>accept_incoming_packets\<close>; \<open>None\<close> while no packet is waiting.\<close>

definition accept_turn ::
  "('i, 'n, 'sw, 'o) dht_env \<Rightarrow> bool \<Rightarrow> Throttler \<Rightarrow> ('i, 'n, 'o) DHTState \<Rightarrow> Socket \<Rightarrow> handler_input
     \<Rightarrow> instant \<Rightarrow> instant \<Rightarrow> (Throttler \<times> ('i, 'n, 'o) DHTState \<times> Socket \<times> unit res) option" where
  "accept_turn E is_read_only thr st sock inp clk clk' =
     (case ds_recv_from sock of
        None \<Rightarrow> None
      | Some (sock1, Ok pkt) \<Rightarrow> Some (accept_body E is_read_only thr st sock1 pkt inp clk clk')
      | Some (sock1, Err e) \<Rightarrow> Some (thr, st, sock1, Err e)
      | Some (sock1, Panic) \<Rightarrow> Some (thr, st, sock1, Panic))"

text \<open>\<open>try_join!\<close> of \<open>n\<close> tasks, from the results in the order in which they finish.\<close>

fun try_join :: "nat \<Rightarrow> unit res list \<Rightarrow> unit res option" where
  "try_join n [] = (if n = 0 then Some (Ok ()) else None)"
| "try_join n (Ok u # results) = try_join (n - 1) results"
| "try_join n (r # results) = Some r"

text \<open>The eighth task of \<open>run_event_loop\<close> waits for the shutdown signal and fails with a \<open>ShutdownError\<close>.\<close>

definition run_event_loop :: "unit res list \<Rightarrow> unit res option" where
  "run_event_loop results =
     (case try_join 8 results of
        Some (Err (ShutdownError e)) \<Rightarrow> Some (Ok ())
      | r \<Rightarrow> r)"

section \<open>Lemmas\<close>

lemma accept_single_packet_request:
  assumes "message_type msg = Request req" and "sock_is_v4 addr" and "sane E st" and "\<And>a. req \<noteq> AnnouncePeerRequest a"
    and "\<not> so_out_alive sock"
  shows "\<exists>e. snd (snd (accept_single_packet E st sock msg addr inp)) = Err (GeneralError e)"
proof -
  obtain st1 q where h: "handle_request E st req addr msg inp = (st1, Ok q)" "q \<noteq> None"
    using handle_request_answers [OF assms(1-3), of inp] assms(4) by blast
  then obtain m where q: "q = Some m" by blast
  then obtain v where "message_type m = Response v"
    using handle_request_reply [OF h(1) [unfolded q]] by (auto simp: reply_ok_def)
  then show ?thesis using h(1) q assms(1,5) by (simp add: accept_single_packet_def ds_send_to_unfold)
qed

lemma accept_single_packet_alive:
  assumes "sock_is_v4 addr" and "sane E st" and "so_out_alive sock"
  shows "snd (snd (accept_single_packet E st sock msg addr inp)) = Ok ()"
proof (cases "message_type msg")
  case (Request req)
  obtain st1 q where h: "handle_request E st req addr msg inp = (st1, Ok q)"
    using handle_request_answers [OF Request assms(1,2), of inp] by blast
  show ?thesis
  proof (cases q)
    case (Some m)
    then obtain v where "message_type m = Response v"
      using handle_request_reply [OF h [unfolded Some]] by (auto simp: reply_ok_def)
    then show ?thesis using h Some Request assms(3) by (simp add: accept_single_packet_def ds_send_to_unfold)
  qed (use h Request in \<open>simp add: accept_single_packet_def\<close>)
qed (simp_all add: accept_single_packet_def)

lemma accept_body_alive:
  assumes "sock_is_v4 addr" and "sane E st" and "so_out_alive sock" and "th_records thr \<noteq> []"
    and "c + th_period thr \<le> instant_max" and "c + th_naughty thr \<le> instant_max"
  shows "snd (snd (snd (accept_body E ro thr st sock (msg, addr) inp c c'))) = Ok ()"
proof -
  obtain thr1 throttled where t: "check_throttle thr (sock_ip addr) None None c c' = Ok (thr1, throttled)"
    using check_throttle_post [OF assms(4) _ assms(5,6), where now_opt = None and k = c] by fastforce
  obtain st1 sock1 where "accept_single_packet E st sock msg addr inp = (st1, sock1, Ok ())"
    using accept_single_packet_alive [OF assms(1-3), of msg inp]
    by (cases "accept_single_packet E st sock msg addr inp") auto
  then show ?thesis by (simp add: accept_body_def t)
qed

lemma run_event_loop_failed [simp]:
  "run_event_loop (Err (GeneralError e) # results) = Some (Err (GeneralError e))"
  by (simp add: run_event_loop_def)

lemma outgoing_turn_incoming [simp]: "so_incoming (fst (outgoing_turn linux ser io s)) = so_incoming s"
  by (auto simp: outgoing_turn_def Let_def split: list.split res.split RustyDHTError.split)

lemma accept_body_dead:
  assumes "sock_is_v4 addr" and "sane E st" and "\<not> so_out_alive sock" and "message_type msg = Request req"
    and "\<And>a. req \<noteq> AnnouncePeerRequest a" and "sock_port addr \<noteq> 0"
    and "check_throttle thr (sock_ip addr) None None c c' = Ok (thr', False)"
  shows "\<exists>e. snd (snd (snd (accept_body E False thr st sock (msg, addr) inp c c'))) = Err (GeneralError e)"
proof -
  obtain st1 sock1 e where "accept_single_packet E st sock msg addr inp = (st1, sock1, Err (GeneralError e))"
    using accept_single_packet_request [OF assms(4,1,2,5,3), of inp]
    by (cases "accept_single_packet E st sock msg addr inp") auto
  then show ?thesis using assms(6,7) by (simp add: accept_body_def)
qed

section \<open>Properties\<close>

text \<open>
  C13. A request with a timeout always returns and never panics, whatever the other tasks do to the socket
  while it waits for room in the queue: with a reply exactly when it was a
  request, it could be sent, and a reply came in time; with a timeout error when there was no room or no reply came.
  Unless it returns a reply the state is as before, and what is not a request leaves the socket alone. A
  request that can be sent is queued exactly once, for its destination; one that is given up for want of room, or because
  sending has failed, is not queued, but it stays in the storage of requests.
\<close>

theorem requests_with_timeout_return:
  assumes "e_ip4 E = consensus_source" and "consensus_inv (st_ip4_source st)" and "sock_is_v4 dest"
    and "\<forall>reply. wait = Some (Some reply) \<longrightarrow> is_response reply \<and> (\<exists>d. from_serde_message d = Ok reply)"
    and "waited = meanwhile (fst (store_request sock req dest dest_id now))"
  shows "\<exists>sock' st' r. send_request E st sock req dest dest_id (Some t) now meanwhile wait clk = (sock', Some (Ok st', r)) \<and>
    r \<noteq> Panic \<and>
    (\<forall>m. r = Ok m \<longleftrightarrow> (\<exists>q. message_type req = Request q) \<and> so_out_alive waited \<and> \<not> queue_full waited \<and> wait = Some (Some m)) \<and>
    ((\<exists>e. r = Err e) \<longrightarrow> st' = st) \<and>
    (if \<exists>q. message_type req = Request q
     then (if so_out_alive waited \<and> \<not> queue_full waited
           then so_outgoing sock' = so_outgoing waited @ [(req, dest)] \<and>
             (wait = None \<or> wait = Some None \<longrightarrow> (\<exists>e. r = Err (TimeoutError e)))
           else sock' = waited \<and>
             (if queue_full waited then \<exists>e. r = Err (TimeoutError e) else \<exists>e. r = Err (GeneralError e))) \<and>
          so_requests (fst (store_request sock req dest dest_id now)) = add_request (so_requests sock)
            (request_info_new dest dest_id req (Some (so_next_chan sock)) now) \<and>
          so_outgoing (fst (store_request sock req dest dest_id now)) = so_outgoing sock
     else sock' = sock \<and> (\<exists>e. r = Err (GeneralError e)))"
proof (cases "message_type req")
  case (Request q)
  have store: "store_request sock req dest dest_id now = (fst (store_request sock req dest dest_id now), Some (so_next_chan sock))"
    "so_requests (fst (store_request sock req dest dest_id now)) = add_request (so_requests sock)
       (request_info_new dest dest_id req (Some (so_next_chan sock)) now)"
    "so_outgoing (fst (store_request sock req dest dest_id now)) = so_outgoing sock"
    using Request by (simp_all add: store_request_def)
  have send: "send_request E st sock req dest dest_id (Some t) now meanwhile wait clk =
      (if queue_full waited then (waited, gives_up st (Some t))
       else case enqueue_message waited req dest of
         (sock3, Ok u) \<Rightarrow> (sock3, case wait of Some received \<Rightarrow> Some (handle_own_response E st dest received clk)
             | None \<Rightarrow> gives_up st (Some t))
       | (sock3, Err e) \<Rightarrow> (sock3, Some (Ok st, Err e))
       | (sock3, Panic) \<Rightarrow> (sock3, Some (Ok st, Panic)))"
    unfolding send_request_def Request MessageType.case Let_def assms(5)
    by (subst store(1)) (simp split: prod.split res.split)
  consider (full) "queue_full waited" | (dead) "\<not> so_out_alive waited"
    | (queued) "\<not> queue_full waited" "so_out_alive waited" by blast
  then show ?thesis
  proof cases
    case full
    then show ?thesis using Request store(2,3) by (simp add: send gives_up_def)
  next
    case dead
    then have "\<not> queue_full waited" by (simp add: queue_full_def)
    then show ?thesis using dead Request store(2,3) by (simp add: send enqueue_message_def)
  next
    case queued
    let ?sock' = "waited\<lparr>so_outgoing := so_outgoing waited @ [(req, dest)]\<rparr>"
    have sent: "send_request E st sock req dest dest_id (Some t) now meanwhile wait clk =
        (?sock', case wait of Some received \<Rightarrow> Some (handle_own_response E st dest received clk) | None \<Rightarrow> gives_up st (Some t))"
      using queued by (simp add: send enqueue_message_def)
    show ?thesis
    proof (cases "\<exists>reply. wait = Some (Some reply)")
      case True
      then obtain reply d where w: "wait = Some (Some reply)" "is_response reply" "from_serde_message d = Ok reply"
        using assms(4) by blast
      obtain st' where "handle_own_response E st dest (Some reply) clk = (Ok st', Ok reply)"
        using consensus.response_total [OF assms(1-3) from_serde_message_wire_ok [OF w(3)]] w(2) by blast
      then show ?thesis using w(1) sent queued Request store(2,3) by auto
    next
      case False
      then have "wait = None \<or> wait = Some None" by (cases wait) auto
      then show ?thesis using sent queued Request store(2,3) by (auto simp: gives_up_def handle_own_response_unfold)
    qed
  qed
qed (auto simp: send_request_def)

theorem requests_with_timeout_return_witness:
  "\<exists>sock' st' reply. send_request sample_env sample_state socket_new sample_request (sample_addr 1) None (Some 5) 0 id
      (Some (Some reply)) (\<lambda>n. (5, 6)) = (sock', Some (Ok st', Ok reply))"
proof -
  define reply where "reply = \<lparr>transaction_id = [1], version = None, requester_ip = None,
    message_type = Response (PingResponse (PingResponseArguments id_zero)), read_only = None\<rparr>"
  have "wire_ok reply" by (simp add: wire_ok_def reply_def)
  then have "from_serde_message (into_serde_message reply) = Ok reply"
    using message_roundtrip [of reply] by (simp add: clamp_message_def reply_def)
  moreover have "is_response reply" by (simp add: is_response_def reply_def)
  ultimately have wait: "\<forall>r. Some (Some reply) = Some (Some r) \<longrightarrow> is_response r \<and> (\<exists>d. from_serde_message d = Ok r)"
    by blast
  have src: "e_ip4 sample_env = consensus_source" "consensus_inv (st_ip4_source sample_state)"
    by (simp_all add: sample_env_def sample_state_def consensus_inv_def consensus_new_def i32_max_def)
  have req: "\<exists>q. message_type sample_request = Request q" "so_out_alive (fst (store_request socket_new sample_request (sample_addr 1) None 0))"
    "\<not> queue_full (fst (store_request socket_new sample_request (sample_addr 1) None 0))"
    by (simp_all add: sample_request_def socket_new_def store_request_def queue_full_def send_queue_size_def)
  obtain sock' st' r where s: "send_request sample_env sample_state socket_new sample_request (sample_addr 1) None (Some 5) 0 id
      (Some (Some reply)) (\<lambda>n. (5, 6)) = (sock', Some (Ok st', r))" and
    iff: "\<forall>m. r = Ok m \<longleftrightarrow> (\<exists>q. message_type sample_request = Request q) \<and>
      so_out_alive (id (fst (store_request socket_new sample_request (sample_addr 1) None 0))) \<and>
      \<not> queue_full (id (fst (store_request socket_new sample_request (sample_addr 1) None 0))) \<and> Some (Some reply) = Some (Some m)"
    using requests_with_timeout_return [OF src sample_addr_v4 wait refl, where req = sample_request and sock = socket_new
      and dest_id = None and t = 5 and now = 0 and clk = "\<lambda>n. (5, 6)" and meanwhile = id] by blast
  have "r = Ok reply" using iff req by simp
  then show ?thesis using s by blast
qed



end
