(* ===== verification/Dht_Origin.thy ===== *)
theory Dht_Origin
  imports Dht_SystemProps Dht_Tasks
begin

text \<open>
  Where the nodes of the routing table come from, over the histories of a node: with the law that the
  storage makes no nodes up (\<open>node_table\<close>), everything in it was reported by some step, under an id that
  is valid for its address. From this follows a typing invariant: a node that only ever heard from
  IPv4 addresses only sends replies that the compact encodings can carry.
\<close>

section \<open>Nodes that started\<close>

text \<open>A node set up with the parts of the library and sane limits.\<close>

definition started ::
  "(IPV4Consensus, NodeBucketStorage, 'sw, 'o) dht_env \<Rightarrow> ('o \<Rightarrow> bool) \<Rightarrow> ('o \<Rightarrow> nat) \<Rightarrow> ('sw \<Rightarrow> bool) \<Rightarrow> ('sw \<Rightarrow> nat)
     \<Rightarrow> (IPV4Consensus, NodeBucketStorage) DHTConfig \<Rightarrow> (IPV4Consensus, NodeBucketStorage, 'o) DHTState \<Rightarrow> bool" where
  "started E ook ocap iok icap c st \<longleftrightarrow>
     e_ip4 E = consensus_source \<and> lru_cache (e_outer E) ook ocap \<and> lru_cache (e_inner E) iok icap \<and>
     (\<exists>srt. e_nodes E = nbs_ops srt \<and> sort_law srt) \<and> (\<exists>our k. dc_buckets c = nbs_new our k) \<and>
     (\<exists>r g rest random_id rng. dht_new E c r g rest random_id rng = Ok st) \<and> consensus_inv (dc_ip4_source c) \<and>
     0 < cfg_max_torrents (dc_settings c) \<and> 0 < cfg_max_peers_per_torrent (dc_settings c) \<and>
     int (cfg_max_torrents (dc_settings c)) \<le> i32_max \<and> 0 \<le> cfg_min_sample_interval_secs (dc_settings c)"

lemma started_sample: "started sample_env list_lru_ok fst list_lru_ok fst sample_config sample_start"
proof -
  have "\<exists>srt. e_nodes sample_env = nbs_ops srt \<and> sort_law srt"
    using sort_law_insertion_sort by (auto simp: sample_env_def)
  moreover have "\<exists>r g rest random_id rng. dht_new sample_env sample_config r g rest random_id rng = Ok sample_start"
    using sample_start_new by blast
  ultimately show ?thesis
    by (simp add: started_def)
      (simp add: sample_env_def list_lru.lru_cache_axioms consensus_inv_def consensus_new_def default_settings_def i32_max_def, blast)
qed

lemma started_inv:
  assumes "started E ook ocap iok icap c st"
  shows "node_env E ook ocap iok icap consensus_inv (\<lambda>c. vote_ip ` set (vote_list c))"
    and "node_env.node_inv E ook ocap iok icap consensus_inv (cfg_max_torrents (dc_settings c)) st"
proof -
  have a: "e_ip4 E = consensus_source" "lru_cache (e_outer E) ook ocap" "lru_cache (e_inner E) iok icap"
    "consensus_inv (dc_ip4_source c)" "0 < cfg_max_torrents (dc_settings c)" "0 < cfg_max_peers_per_torrent (dc_settings c)"
    "int (cfg_max_torrents (dc_settings c)) \<le> i32_max" "0 \<le> cfg_min_sample_interval_secs (dc_settings c)"
    using assms by (simp_all add: started_def)
  obtain r g rest random_id rng where new: "dht_new E c r g rest random_id rng = Ok st"
    using assms by (auto simp: started_def)
  show env: "node_env E ook ocap iok icap consensus_inv (\<lambda>c. vote_ip ` set (vote_list c))"
    by (rule node_envI [OF a(1-3)])
  show "node_env.node_inv E ook ocap iok icap consensus_inv (cfg_max_torrents (dc_settings c)) st"
    by (rule node_env.node_inv_new [OF env new a(4-8)])
qed

text \<open>The settings never change.\<close>

lemma step_settings:
  assumes "dht_step E (thr, st) e (thr', st')" shows "st_settings st' = st_settings st"
proof (cases "(\<exists>rng. e = RotateTokens rng) \<or> (\<exists>r g rest. e = Ip4Maintenance r g rest)")
  case True
  then show ?thesis
    using assms by (auto simp: dht_step_simps rotate_token_secrets_def Let_def elim!: ip4_maintenance_turn_cases)
next
  case False
  then show ?thesis using step_identity [OF assms] by (simp add: same_identity_def)
qed

lemma steps_settings: "dht_steps E s evs t \<Longrightarrow> st_settings (snd t) = st_settings (snd s)"
proof (induction rule: dht_steps.induct)
  case (more evs t e u)
  then show ?case using step_settings [of E "fst t" "snd t" e "fst u" "snd u"] by simp
qed simp

section \<open>The routing table\<close>

text \<open>What the table knows after a history.\<close>

lemma history_known:
  assumes "started E ook ocap iok icap c st" and "dht_steps E (thr, st) evs (thr', st')"
  obtains srt our k nevs where "e_nodes E = nbs_ops srt" "sort_law srt"
    "st_buckets st' = ns_run (nbs_ops srt) (nbs_new our k) nevs" "nbs_inv (st_buckets st')"
    "reports nevs \<subseteq> (\<Union>e \<in> set evs. reporters E e)" "ns_known (e_nodes E) (st_buckets st') \<subseteq> (\<Union>e \<in> set evs. reporters E e)"
proof -
  obtain srt our k r g rest random_id rng where a: "e_nodes E = nbs_ops srt" "sort_law srt" "dc_buckets c = nbs_new our k"
    "dht_new E c r g rest random_id rng = Ok st"
    using assms(1) by (auto simp: started_def)
  obtain nevs where n: "st_buckets st' = ns_run (nbs_ops srt) (nbs_new our k) nevs"
    "reports nevs \<subseteq> (\<Union>e \<in> set evs. reporters E e)"
    by (rule history_of_buckets [OF a(1,4,3) assms(2)])
  note tab = nbs_node_table [OF a(2)]
  have st: "node_storage (nbs_ops srt) nbs_inv" by (rule nbs_node_storage [OF a(2)])
  have "ns_known (nbs_ops srt) (nbs_new our k) = {}"
    by (simp add: nbs_known nbs_all_def nbs_new_def)
  then have "ns_known (e_nodes E) (st_buckets st') \<subseteq> (\<Union>e \<in> set evs. reporters E e)"
    using node_table.run_known [OF tab nbs_inv_new, of our k nevs] n a(1) by auto
  moreover have "nbs_inv (st_buckets st')" using node_storage.inv_run [OF st nbs_inv_new] n(1) by simp
  ultimately show thesis using that a(1,2) n by blast
qed

lemma reporters_fit: "n \<in> reporters E e \<Longrightarrow> id_fits E n"
  by (induction E e rule: reporters.induct) auto

lemma buddy_targets_known:
  "t \<in> set (buddy_ping_targets E st secs now) \<Longrightarrow>
   \<exists>n \<in> ns_known (e_nodes E) (st_buckets st). t = (node_address n, Some (node_id n))"
  by (auto simp: buddy_ping_targets_def ns_known_def split: option.splits)

lemma find_node_targets_known:
  assumes "node_table (e_nodes E) ns_inv" and "ns_inv (st_buckets st')"
    and "snd (find_node_turn E st st' rnd) = Ok ts" and "t \<in> set ts"
  shows "\<exists>n \<in> ns_known (e_nodes E) (st_buckets st'). \<exists>i. t = (node_address n, Some (node_id n), i)"
  using assms node_table.nearest_known [OF assms(1,2)]
  by (fastforce simp: find_node_turn_def case_prod_beta Let_def split: if_splits res.splits)

section \<open>Replies that can be read\<close>

text \<open>Steps that only involve IPv4 addresses; a response got through the parser.\<close>

fun event_v4 :: "dht_event \<Rightarrow> bool" where
  "event_v4 (Incoming sock pkt inp c c') = sock_is_v4 (snd pkt)"
| "event_v4 (SeenRequest addr msg inp) = sock_is_v4 addr"
| "event_v4 (MakeReply addr msg inp) = sock_is_v4 addr"
| "event_v4 (OwnResponse target reply clk) =
     (sock_is_v4 target \<and> (case reply of Some m \<Rightarrow> wire_ok m | None \<Rightarrow> True))"
| "event_v4 (RecordResponder target reply clk) = sock_is_v4 target"
| "event_v4 (RecordFoundNodes reply clk) = wire_ok reply"
| "event_v4 e = True"

lemma reporters_v4: "event_v4 e \<Longrightarrow> n \<in> reporters E e \<Longrightarrow> sock_is_v4 (node_address n)"
  by (induction E e rule: reporters.induct) (auto simp: wire_ok_def nodes_v4_def list_all_iff)

lemma history_known_v4:
  assumes "started E ook ocap iok icap c st" and "dht_steps E (thr, st) evs (thr', st')" and "list_all event_v4 evs"
  shows "\<forall>n \<in> ns_known (e_nodes E) (st_buckets st'). sock_is_v4 (node_address n)"
proof -
  obtain srt our k nevs where "ns_known (e_nodes E) (st_buckets st') \<subseteq> (\<Union>e \<in> set evs. reporters E e)"
    by (rule history_known [OF assms(1,2)])
  then show ?thesis using assms(3) reporters_v4 by (fastforce simp: list_all_iff)
qed

text \<open>The typing rule for a response: the compact parts it carries.\<close>

lemma response_wire_okI:
  assumes "nodes_v4 (reply_nodes v)" and "\<And>a ps. v = GetPeersResponse a \<Longrightarrow> gp_values a = Peers ps \<Longrightarrow> list_all sock_is_v4 ps"
  shows "response_wire_ok v"
  using assms by (cases v) (auto split: GetPeersResponseValues.splits)

lemma reply_typed:
  assumes s: "started E ook ocap iok icap c st" and steps: "dht_steps E (thr, st) evs (thr', st')"
    and v4: "list_all event_v4 evs" and addr: "sock_is_v4 addr"
    and h: "handle_request E st' req addr msg inp = (st'', Ok (Some m))"
  shows "wire_ok m"
proof -
  obtain srt our k nevs where hist: "e_nodes E = nbs_ops srt" "sort_law srt"
    "st_buckets st' = ns_run (nbs_ops srt) (nbs_new our k) nevs" "nbs_inv (st_buckets st')"
    by (rule history_known [OF s steps])
  note known = history_known_v4 [OF s steps v4]
  have tab: "node_table (e_nodes E) nbs_inv" unfolding hist(1) by (rule nbs_node_table [OF hist(2)])
  then have sto: "node_storage (e_nodes E) nbs_inv" by (rule node_table.axioms(1))
  obtain v where v: "message_type m = Response v" and ip: "requester_ip m = Some addr"
    using handle_request_reply [OF h] by (auto simp: reply_ok_def)
  obtain nevs' where n': "st_buckets st'' = ns_run (e_nodes E) (st_buckets st') nevs'"
    "reports nevs' \<subseteq> {n. node_address n = addr \<and> id_fits E n}"
    using handle_request_run [OF h] by blast
  have inv'': "nbs_inv (st_buckets st'')" unfolding n'(1) by (rule node_storage.inv_run [OF sto hist(4)])
  have "ns_known (e_nodes E) (st_buckets st'') \<subseteq> ns_known (e_nodes E) (st_buckets st') \<union> reports nevs'"
    unfolding n'(1) by (rule node_table.run_known [OF tab hist(4)])
  then have "\<forall>n \<in> ns_known (e_nodes E) (st_buckets st''). sock_is_v4 (node_address n)"
    using known n'(2) addr by blast
  then have nodes: "nodes_v4 (reply_nodes v)"
    using handle_request_nodes [OF h v] node_table.nearest_known [OF tab inv'']
    by (fastforce simp: nearest_only_def nodes_v4_def list_all_iff)
  have "response_wire_ok v"
  proof (rule response_wire_okI [OF nodes])
    fix a ps assume a: "v = GetPeersResponse a" "gp_values a = Peers ps"
    then obtain b where b: "req = GetPeersRequest b"
      using handle_request_reply [OF h] v by (cases req) (auto simp: reply_ok_def)
    have "node_env.node_inv E ook ocap iok icap consensus_inv (cfg_max_torrents (dc_settings c)) st'"
      using node_env.node_inv_steps [OF started_inv(1) [OF s] steps] started_inv(2) [OF s] by simp
    then show "list_all sock_is_v4 ps"
      using node_env.get_peers_from_swarm [OF started_inv(1) [OF s] _ h [unfolded b] v [unfolded a(1)] a(2)]
      by (auto simp: list_all_iff)
  qed
  then show ?thesis using v ip addr by (simp add: wire_ok_def)
qed

lemma reply_not_clamped:
  assumes h: "handle_request E st req addr msg inp = (st', Ok (Some m))"
    and "nat (cfg_min_sample_interval_secs (st_settings st)) \<le> MAX_SCRAPE_INTERVAL"
  shows "clamp_message m = m"
proof -
  obtain st1 where c: "common_request_handling E st addr msg inp = Ok st1"
    using h by (cases "common_request_handling E st addr msg inp") (auto simp: handle_request_unfold)
  have set: "st_settings st1 = st_settings st"
    using common_request_handling_identity [OF c] by (simp add: same_identity_def)
  show ?thesis
  proof (cases "\<exists>a. req = SampleInfoHashesRequest a")
    case True
    then obtain a where "sample_infohashes_reply E st1 addr msg a inp = Ok m"
      using h c by (auto simp: handle_request_unfold)
    then obtain r ns ss num where "message_type m = Response (SampleInfoHashesResponse (SampleInfoHashesResponseArguments r
        (dur_from_secs (nat (cfg_min_sample_interval_secs (st_settings st1)))) ns ss num))"
      by (auto simp: sample_infohashes_reply_def Let_def reply_setters build_defs split: if_splits)
    then show ?thesis using assms(2) set
      by (simp add: clamp_message_def dur_as_secs_def dur_from_secs_def nanos_per_sec_def min_absorb2)
  next
    case False
    obtain v where v: "message_type m = Response v" "response_matches_request v req"
      using handle_request_reply [OF h] by (auto simp: reply_ok_def)
    then have "clamp_response v = v" using False by (cases v; cases req) auto
    then show ?thesis using v(1) by (simp add: clamp_message_def)
  qed
qed

text \<open>
  For any limits, and any library that reads back what it wrote: the replies are messages that the compact encodings
  carry, so their bytes parse back to the very message that was meant.
\<close>

lemma replies_are_readable:
  assumes "started E ook ocap iok icap c st" and "dht_steps E (thr, st) evs (thr', st')"
    and "list_all event_v4 evs" and "sock_is_v4 addr"
    and "handle_request E st' req addr msg inp = (st'', Ok (Some m))"
    and "cfg_min_sample_interval_secs (st_settings st') \<le> 21600"
    and "to_bytes ser m = Ok bs" and "\<forall>bs. ser (into_serde_message m) = Ok bs \<longrightarrow> de bs = Ok (into_serde_message m)"
  shows "wire_ok m \<and> from_bytes de bs = Ok m"
proof -
  have "nat (cfg_min_sample_interval_secs (st_settings st')) \<le> MAX_SCRAPE_INTERVAL"
    using assms(6) by (simp add: MAX_SCRAPE_INTERVAL_def)
  then have "clamp_message m = m" by (rule reply_not_clamped [OF assms(5)])
  moreover have ok: "wire_ok m" by (rule reply_typed [OF assms(1-5)])
  ultimately have "from_serde_message (into_serde_message m) = Ok m" using message_roundtrip [OF ok] by simp
  then show ?thesis using ok assms(7,8) by (simp add: to_bytes_def from_bytes_def)
qed

section \<open>Properties\<close>

lemma ping_routers_targets:
  assumes "\<forall>xs. set (order xs) \<subseteq> set xs" and "t \<in> set (ping_routers lookup_host order st)"
  shows "\<exists>host \<in> set (cfg_routers (st_settings st)). \<exists>addrs a. lookup_host host = Ok addrs \<and>
    find sock_is_v4 addrs = Some a \<and> t = (a, None)"
proof -
  obtain host where "host \<in> set (order (cfg_routers (st_settings st)))" "t \<in> set (ping_router lookup_host host)"
    using assms(2) by (auto simp: ping_routers_def)
  moreover from this(2) obtain addrs a where "lookup_host host = Ok addrs" "find sock_is_v4 addrs = Some a" "t = (a, None)"
    by (cases "lookup_host host"; cases "find sock_is_v4 (case lookup_host host of Ok addrs \<Rightarrow> addrs | _ \<Rightarrow> [])")
      (simp_all add: ping_router_def)
  ultimately show ?thesis using assms(1) by blast
qed

text \<open>
  C14. Every node in the routing table got there honestly: after any history of a node that started
  empty, verified or not, it was reported by a step of that history (it sent a request, answered
  one, or was named in an answer), with an id that is valid for its address. The buddy pings and the
  find_node requests of the node's periodic tasks go to nodes from this table; its router pings, which
  are sent without knowing an id, go to the first IPv4 address that the name of one of the configured
  routers resolves to.
\<close>

theorem known_nodes_have_valid_ids:
  assumes "started E ook ocap iok icap c st" and "dht_steps E (thr, st) evs (thr', st')"
    and "\<forall>xs. set (order xs) \<subseteq> set xs"
  shows "(\<forall>n \<in> ns_known (e_nodes E) (st_buckets st').
      is_valid_for_ip (e_crc E) (node_id n) (sock_ip (node_address n)) = Ok True \<and> (\<exists>e \<in> set evs. n \<in> reporters E e)) \<and>
    (\<forall>t \<in> set (buddy_ping_targets E st' secs now).
      \<exists>n \<in> ns_known (e_nodes E) (st_buckets st'). t = (node_address n, Some (node_id n))) \<and>
    (\<forall>ts. snd (find_node_turn E st0 st' rnd) = Ok ts \<longrightarrow> (\<forall>t \<in> set ts.
      \<exists>n \<in> ns_known (e_nodes E) (st_buckets st'). \<exists>i. t = (node_address n, Some (node_id n), i))) \<and>
    (\<forall>t \<in> set (ping_routers lookup_host order st'). \<exists>host \<in> set (cfg_routers (dc_settings c)).
      \<exists>addrs a. lookup_host host = Ok addrs \<and> find sock_is_v4 addrs = Some a \<and> t = (a, None))"
proof -
  obtain srt our k nevs where hist: "e_nodes E = nbs_ops srt" "sort_law srt" "nbs_inv (st_buckets st')"
    "ns_known (e_nodes E) (st_buckets st') \<subseteq> (\<Union>e \<in> set evs. reporters E e)"
    by (rule history_known [OF assms(1,2)])
  have tab: "node_table (e_nodes E) nbs_inv" unfolding hist(1) by (rule nbs_node_table [OF hist(2)])
  have set: "st_settings st' = dc_settings c"
    using assms(1) steps_settings [OF assms(2)] by (auto simp: started_def dht_new_def Let_def)
  show ?thesis
  proof (intro conjI ballI allI impI)
    show "is_valid_for_ip (e_crc E) (node_id n) (sock_ip (node_address n)) = Ok True" "\<exists>e \<in> set evs. n \<in> reporters E e"
      if "n \<in> ns_known (e_nodes E) (st_buckets st')" for n
      using that hist(4) reporters_fit [of n E] by (auto simp: id_fits_def)
    show "\<exists>host \<in> set (cfg_routers (dc_settings c)). \<exists>addrs a. lookup_host host = Ok addrs \<and>
        find sock_is_v4 addrs = Some a \<and> t = (a, None)"
      if "t \<in> set (ping_routers lookup_host order st')" for t
      using ping_routers_targets [OF assms(3) that] unfolding set .
  qed (rule buddy_targets_known, assumption, rule find_node_targets_known [OF tab hist(3)])
qed

theorem known_nodes_have_valid_ids_witness:
  "\<exists>w. dht_get_nodes sample_env sample_verified = [w] \<and>
     is_valid_for_ip sample_crc (node_id (nw_node w)) (sock_ip (node_address (nw_node w))) = Ok True"
proof -
  have steps: "dht_steps sample_env (sample_throttler32, sample_start)
      [OwnResponse (sample_addr 1) (Some sample_pong) (\<lambda>n. (5, 6))] (sample_throttler32, sample_verified)"
    by (rule dht_steps_single [OF sample_step])
  have "\<forall>xs. set (id xs) \<subseteq> set (xs :: string list)" by simp
  note all = known_nodes_have_valid_ids [OF started_sample steps this]
  have "map nw_id (buckets_values (verified (nbs_add_or_update insertion_sort (nbs_set_id (nbs_new id_zero 8) id_zero)
      (Node sample_peer (sample_addr 1)) True 5 6))) = [sample_peer]"
    by code_simp
  then have "map nw_id (dht_get_nodes sample_env sample_verified) = [sample_peer]"
    by (simp add: dht_get_nodes_def sample_env_def sample_verified_def sample_start_def nbs_get_all_verified_def)
  then obtain w where w: "dht_get_nodes sample_env sample_verified = [w]" by auto
  then have "nw_node w \<in> ns_known (e_nodes sample_env) (st_buckets sample_verified)"
    by (simp add: ns_known_def dht_get_nodes_def)
  then have "is_valid_for_ip (e_crc sample_env) (node_id (nw_node w)) (sock_ip (node_address (nw_node w))) = Ok True"
    using all by blast
  then show ?thesis using w by (simp add: sample_env_def)
qed

end
