(* ===== verification/Dht_Refinement.thy ===== *)
theory Dht_Refinement
  imports Dht_Origin
begin

text \<open>
  A specification of a DHT node in five rules, and the proof that the node of \<open>src/dht/dht.rs\<close> refines
  it: an abstraction function, a relation that says which abstract event explains which step, and a
  forward simulation. The specification knows the node's id, the ids it vouches for, the swarms and
  two secrets; it may forget at any time, but learns only by the rules.
\<close>

section \<open>The specification\<close>

record abs_node =
  an_id :: Id
  an_alive :: "Id set"
  an_swarms :: "(Id \<times> SocketAddr) set"
  an_secret :: bytes
  an_old_secret :: bytes

text \<open>An announcement of a peer for an info hash, with its token and its sender; an id that proved alive.\<close>

datatype abs_event =
    AAnnounce Id SocketAddr bytes SocketAddr
  | AAlive Id
  | ARotate bytes
  | ANewId Id
  | AForget

text \<open>\<open>tok\<close> derives a token from an address and a secret.\<close>

inductive abs_step ::
  "(SocketAddr \<Rightarrow> bytes \<Rightarrow> bytes) \<Rightarrow> abs_node \<Rightarrow> abs_event \<Rightarrow> abs_node \<Rightarrow> bool"
  for tok :: "SocketAddr \<Rightarrow> bytes \<Rightarrow> bytes" where
  announce: "token \<in> {tok sender (an_secret a), tok sender (an_old_secret a)} \<Longrightarrow>
     alive \<subseteq> an_alive a \<Longrightarrow> swarms \<subseteq> insert (h, p) (an_swarms a) \<Longrightarrow>
     abs_step tok a (AAnnounce h p token sender) (a\<lparr>an_alive := alive, an_swarms := swarms\<rparr>)"
| alive: "alive \<subseteq> insert i (an_alive a) \<Longrightarrow> swarms \<subseteq> an_swarms a \<Longrightarrow>
     abs_step tok a (AAlive i) (a\<lparr>an_alive := alive, an_swarms := swarms\<rparr>)"
| rotate: "abs_step tok a (ARotate secret) (a\<lparr>an_secret := secret, an_old_secret := an_secret a\<rparr>)"
| new_id: "alive \<subseteq> an_alive a \<Longrightarrow> abs_step tok a (ANewId i) (a\<lparr>an_id := i, an_alive := alive\<rparr>)"
| forget: "alive \<subseteq> an_alive a \<Longrightarrow> swarms \<subseteq> an_swarms a \<Longrightarrow>
     abs_step tok a AForget (a\<lparr>an_alive := alive, an_swarms := swarms\<rparr>)"

inductive abs_steps ::
  "(SocketAddr \<Rightarrow> bytes \<Rightarrow> bytes) \<Rightarrow> abs_node \<Rightarrow> abs_event list \<Rightarrow> abs_node \<Rightarrow> bool"
  for tok :: "SocketAddr \<Rightarrow> bytes \<Rightarrow> bytes" and a where
  none: "abs_steps tok a [] a"
| more: "abs_steps tok a evs b \<Longrightarrow> abs_step tok b e c \<Longrightarrow> abs_steps tok a (evs @ [e]) c"

text \<open>What a node in this state may answer.\<close>

fun abs_answer :: "(SocketAddr \<Rightarrow> bytes \<Rightarrow> bytes) \<Rightarrow> abs_node \<Rightarrow> RequestSpecific \<Rightarrow> SocketAddr \<Rightarrow> ResponseSpecific \<Rightarrow> bool" where
  "abs_answer tok a (PingRequest q) addr (PingResponse v) = (ping_responder_id v = an_id a)"
| "abs_answer tok a (FindNodeRequest q) addr (FindNodeResponse v) =
     (find_responder_id v = an_id a \<and> node_id ` set (find_nodes v) \<subseteq> an_alive a - {find_requester_id q})"
| "abs_answer tok a (GetPeersRequest q) addr (GetPeersResponse v) =
     (gp_responder_id v = an_id a \<and> gp_token v = tok addr (an_secret a) \<and>
      (case gp_values v of
         Nodes ns \<Rightarrow> node_id ` set ns \<subseteq> an_alive a - {gp_requester_id q}
       | Peers ps \<Rightarrow> \<forall>p \<in> set ps. (gp_info_hash q, p) \<in> an_swarms a))"
| "abs_answer tok a (AnnouncePeerRequest q) addr (PingResponse v) =
     (ping_responder_id v = an_id a \<and> ap_token q \<in> {tok addr (an_secret a), tok addr (an_old_secret a)})"
| "abs_answer tok a (SampleInfoHashesRequest q) addr (SampleInfoHashesResponse v) =
     (sih_responder_id v = an_id a \<and> node_id ` set (sih_nodes v) \<subseteq> an_alive a - {sih_requester_id q})"
| "abs_answer tok a q addr v = False"

section \<open>The abstraction\<close>

definition token_of :: "('i, 'n, 'sw, 'o) dht_env \<Rightarrow> SocketAddr \<Rightarrow> bytes \<Rightarrow> bytes" where
  "token_of E addr secret = calculate_token (e_crc E) addr secret"

definition abs_state :: "('i, 'n, 'sw, 'o) dht_env \<Rightarrow> ('i, 'n, 'o) DHTState \<Rightarrow> abs_node" where
  "abs_state E st =
     \<lparr>an_id = st_our_id st, an_alive = nw_id ` set (ns_get_all_verified (e_nodes E) (st_buckets st)),
      an_swarms = {(h, p). p \<in> fst ` set (swarm_of (e_outer E) (e_inner E) (st_peer_storage st) h)},
      an_secret = st_token_secret st, an_old_secret = st_old_token_secret st\<rparr>"

text \<open>
  Which abstract event may explain a step; anything but a rotation may only have made the node forget.
  An announcement is taken by the section that makes the reply, an id becomes alive in the one that
  records who responded.
\<close>

definition announcement_of :: "MessagePair \<Rightarrow> abs_event \<Rightarrow> bool" where
  "announcement_of pkt ae \<longleftrightarrow> (\<exists>b. message_type (fst pkt) = Request (AnnouncePeerRequest b) \<and>
     ae = AAnnounce (ap_info_hash b) (if ap_implied_port b = Some True then snd pkt else sock_set_port (snd pkt) (ap_port b))
            (ap_token b) (snd pkt))"

fun explains :: "('i, 'n, 'sw, 'o) dht_env \<Rightarrow> dht_event \<Rightarrow> abs_event \<Rightarrow> bool" where
  "explains E (RotateTokens rng) ae = (\<exists>secret. ae = ARotate secret)"
| "explains E (Incoming sock pkt inp c c') ae = (ae = AForget \<or> announcement_of pkt ae)"
| "explains E (MakeReply addr msg inp) ae = (ae = AForget \<or> announcement_of (msg, addr) ae)"
| "explains E (OwnResponse target reply clk) ae =
     (ae = AForget \<or> (\<exists>i \<in> responders E (OwnResponse target reply clk). ae = AAlive i))"
| "explains E (RecordResponder target reply clk) ae =
     (ae = AForget \<or> (\<exists>i \<in> responders E (RecordResponder target reply clk). ae = AAlive i))"
| "explains E (Ip4Maintenance r g rest) ae =
     (ae = AForget \<or> (\<exists>i ip. is_valid_for_ip (e_crc E) i (IpV4 ip) = Ok True \<and> ae = ANewId i))"
| "explains E e ae = (ae = AForget)"

text \<open>The general form: a packet may announce, a responder may come alive.\<close>

lemma explains_packet: "packet_of e = Some pkt \<Longrightarrow> explains E e ae \<longleftrightarrow> ae = AForget \<or> announcement_of pkt ae"
  by (cases e) auto

lemma explains_alive: "i \<in> responders E e \<Longrightarrow> explains E e (AAlive i)"
  by (induction E e rule: responders.induct) (auto simp del: responders.simps(1,2) simp: responders.simps(3-))

lemma explains_forget: "\<not> is_rotation e \<Longrightarrow> explains E e AForget"
  by (cases e) auto

lemma packet_not_alive: "packet_of e = Some pkt \<Longrightarrow> responders E e = {}"
  by (cases e) auto

lemma responders_single: "i \<in> responders E e \<Longrightarrow> j \<in> responders E e \<Longrightarrow> i = j"
  by (induction E e rule: responders.induct) auto

lemma abs_eq:
  fixes a b :: abs_node
  assumes "an_id b = an_id a" and "an_secret b = an_secret a" and "an_old_secret b = an_old_secret a"
  shows "a\<lparr>an_alive := an_alive b, an_swarms := an_swarms b\<rparr> = b"
  using assms by (intro abs_node.equality) simp_all

lemma abs_announce:
  assumes "an_id b = an_id a" and "an_alive b \<subseteq> an_alive a" and "an_swarms b \<subseteq> insert (h, p) (an_swarms a)"
    and "an_secret b = an_secret a" and "an_old_secret b = an_old_secret a"
    and "token \<in> {tok sender (an_secret a), tok sender (an_old_secret a)}"
  shows "abs_step tok a (AAnnounce h p token sender) b"
  using abs_step.announce [where tok = tok and a = a, OF assms(6,2,3)] abs_eq [OF assms(1,4,5)] by simp

lemma abs_forget:
  assumes "an_id b = an_id a" and "an_alive b \<subseteq> an_alive a" and "an_swarms b \<subseteq> an_swarms a"
    and "an_secret b = an_secret a" and "an_old_secret b = an_old_secret a"
  shows "abs_step tok a AForget b"
  using abs_step.forget [where tok = tok and a = a, OF assms(2,3)] abs_eq [OF assms(1,4,5)] by simp

lemma abs_alive:
  assumes "an_id b = an_id a" and "an_alive b \<subseteq> insert i (an_alive a)" and "an_swarms b \<subseteq> an_swarms a"
    and "an_secret b = an_secret a" and "an_old_secret b = an_old_secret a"
  shows "abs_step tok a (AAlive i) b"
  using abs_step.alive [where tok = tok and a = a, OF assms(2,3)] abs_eq [OF assms(1,4,5)] by simp

section \<open>The simulation\<close>

text \<open>What the node keeps through a step, in terms of the abstract state.\<close>

lemma step_abs_alive:
  assumes "node_storage (e_nodes E) ns_inv" and "ns_inv (st_buckets st)" and "dht_step E (thr, st) e (thr', st')"
  shows "an_alive (abs_state E st') \<subseteq> an_alive (abs_state E st) \<union> responders E e" and "ns_inv (st_buckets st')"
proof -
  obtain nevs where n: "st_buckets st' = ns_run (e_nodes E) (st_buckets st) nevs" "verified_in nevs \<subseteq> responders E e"
    using step_run [OF assms(3)] by blast
  show "an_alive (abs_state E st') \<subseteq> an_alive (abs_state E st) \<union> responders E e"
    using node_storage.run_verified_ids [OF assms(1,2), of _ nevs] n by (auto simp: abs_state_def)
  show "ns_inv (st_buckets st')" unfolding n(1) by (rule node_storage.inv_run [OF assms(1,2)])
qed

lemma step_abs_id:
  assumes "dht_step E (thr, st) e (thr', st')" and "\<And>r g rest. e \<noteq> Ip4Maintenance r g rest"
  shows "st_our_id st' = st_our_id st"
proof (cases "\<exists>rng. e = RotateTokens rng")
  case True
  then show ?thesis using assms(1) by (auto simp: dht_step_simps rotate_token_secrets_def Let_def)
next
  case False
  then show ?thesis using step_identity [OF assms(1)] assms(2) by (simp add: same_identity_def)
qed

lemma step_simulated:
  assumes env: "node_env E ook ocap iok icap src_inv support" and ninv: "node_env.node_inv E ook ocap iok icap src_inv m st"
    and sto: "node_storage (e_nodes E) ns_inv" and binv: "ns_inv (st_buckets st)" and step: "dht_step E (thr, st) e (thr', st')"
  shows "\<exists>ae. explains E e ae \<and> abs_step (token_of E) (abs_state E st) ae (abs_state E st')"
proof -
  let ?a = "abs_state E st" and ?b = "abs_state E st'"
  note alive = step_abs_alive(1) [OF sto binv step]
  have swarm: "(h, p) \<in> an_swarms ?a \<or> announces E st e h p" if "(h, p) \<in> an_swarms ?b" for h p
    using that node_env.step_swarm [OF env ninv step] by (fastforce simp: abs_state_def)
  consider (rotate) rng where "e = RotateTokens rng" | (maintenance) r g rest where "e = Ip4Maintenance r g rest"
    | (other) "\<not> is_rotation e" "\<And>r g rest. e \<noteq> Ip4Maintenance r g rest"
    by (cases e) auto
  then show ?thesis
  proof cases
    case rotate
    have "?b = ?a\<lparr>an_secret := st_token_secret st', an_old_secret := an_secret ?a\<rparr>"
      using step unfolding rotate dht_step_simps by (auto simp: abs_state_def rotate_token_secrets_def Let_def)
    then show ?thesis using abs_step.rotate [of "token_of E" ?a "st_token_secret st'"] rotate by auto
  next
    case maintenance
    have turn: "ip4_maintenance_turn E st r g rest = Ok st'"
      using step unfolding maintenance dht_step_simps by simp
    have sub: "an_alive ?b \<subseteq> an_alive ?a" using alive by (simp add: maintenance)
    from turn show ?thesis
    proof (cases rule: ip4_maintenance_turn_cases)
      case (1 src best)
      then have "abs_step (token_of E) ?a AForget ?b" by (intro abs_forget) (simp_all add: abs_state_def)
      then show ?thesis unfolding maintenance by (intro exI [of _ AForget] conjI) (simp only: explains.simps, blast)
    next
      case (2 src ip i)
      have "?b = ?a\<lparr>an_id := i, an_alive := an_alive ?b\<rparr>" using 2(5) by (simp add: abs_state_def)
      then have "abs_step (token_of E) ?a (ANewId i) ?b" using abs_step.new_id [OF sub, of "token_of E" i] by simp
      moreover have "is_valid_for_ip (e_crc E) i (IpV4 ip) = Ok True" by (rule id_from_ip_valid [OF 2(4)])
      ultimately show ?thesis unfolding maintenance by (intro exI [of _ "ANewId i"] conjI) (simp only: explains.simps, blast)
    qed
  next
    case other
    have same: "an_id ?b = an_id ?a" "an_secret ?b = an_secret ?a" "an_old_secret ?b = an_old_secret ?a"
      using step_abs_id [OF step other(2)] step_secrets [OF step] other(1) by (simp_all add: abs_state_def)
    show ?thesis
    proof (cases "\<exists>h p. announces E st e h p")
      case True
      then obtain msg sender b where pkt: "packet_of e = Some (msg, sender)"
        and b: "message_type msg = Request (AnnouncePeerRequest b)"
        "ap_token b \<in> {token_of E sender (an_secret ?a), token_of E sender (an_old_secret ?a)}"
        by (auto simp: announces_def abs_state_def token_of_def)
      let ?p = "if ap_implied_port b = Some True then sender else sock_set_port sender (ap_port b)"
      have "announces E st e h p \<Longrightarrow> h = ap_info_hash b \<and> p = ?p" for h p
        using b(1) pkt by (auto simp: announces_def)
      then have swarms: "an_swarms ?b \<subseteq> insert (ap_info_hash b, ?p) (an_swarms ?a)" using swarm by fast
      have "an_alive ?b \<subseteq> an_alive ?a" using alive by (simp add: packet_not_alive [OF pkt])
      from abs_announce [where tok = "token_of E" and sender = sender, OF same(1) this swarms same(2,3) b(2)]
      have "abs_step (token_of E) ?a (AAnnounce (ap_info_hash b) ?p (ap_token b) sender) ?b" .
      moreover have "explains E e (AAnnounce (ap_info_hash b) ?p (ap_token b) sender)"
        using b(1) by (simp add: explains_packet [OF pkt] announcement_of_def)
      ultimately show ?thesis by blast
    next
      case False
      then have swarms: "an_swarms ?b \<subseteq> an_swarms ?a" using swarm by fast
      show ?thesis
      proof (cases "responders E e = {}")
        case True
        then have "abs_step (token_of E) ?a AForget ?b"
          using alive same swarms by (intro abs_forget) simp_all
        then show ?thesis using explains_forget [OF other(1)] by blast
      next
        case False
        then obtain i where i: "i \<in> responders E e" by blast
        then have "an_alive ?b \<subseteq> insert i (an_alive ?a)" using alive responders_single [OF i] by blast
        from abs_alive [OF same(1) this swarms same(2,3)] explains_alive [OF i] show ?thesis by blast
      qed
    qed
  qed
qed

text \<open>Histories: the storage and the node invariant hold along the way.\<close>

lemma steps_simulated:
  assumes env: "node_env E ook ocap iok icap src_inv support" and sto: "node_storage (e_nodes E) ns_inv"
    and "node_env.node_inv E ook ocap iok icap src_inv m (snd s)" and "ns_inv (st_buckets (snd s))"
    and "dht_steps E s evs t"
  shows "(\<exists>aevs. list_all2 (explains E) evs aevs \<and> abs_steps (token_of E) (abs_state E (snd s)) aevs (abs_state E (snd t))) \<and>
    ns_inv (st_buckets (snd t))"
  using assms(5)
proof (induction rule: dht_steps.induct)
  case none
  then show ?case using assms(4) by (intro conjI exI [of _ "[]"]) (simp_all add: abs_steps.none)
next
  case (more evs t e u)
  then obtain aevs where a: "list_all2 (explains E) evs aevs" "abs_steps (token_of E) (abs_state E (snd s)) aevs (abs_state E (snd t))"
    and binv: "ns_inv (st_buckets (snd t))" by blast
  have ninv: "node_env.node_inv E ook ocap iok icap src_inv m (snd t)"
    by (rule node_env.node_inv_steps [OF env more.hyps(1) assms(3)])
  have step: "dht_step E (fst t, snd t) e (fst u, snd u)" using more.hyps(2) by simp
  obtain ae where "explains E e ae" "abs_step (token_of E) (abs_state E (snd t)) ae (abs_state E (snd u))"
    using step_simulated [OF env ninv sto binv step] by blast
  then have "list_all2 (explains E) (evs @ [e]) (aevs @ [ae])"
    "abs_steps (token_of E) (abs_state E (snd s)) (aevs @ [ae]) (abs_state E (snd u))"
    using a abs_steps.more [OF a(2)] by (simp_all add: list_all2_appendI)
  then show ?case using step_abs_alive(2) [OF sto binv step] by blast
qed

section \<open>Answers\<close>

lemma answer_nodes:
  assumes "node_storage (e_nodes E) ns_inv" and "ns_inv (st_buckets st)"
    and "handle_request E st req addr msg inp = (st', Ok (Some m))" and "message_type m = Response v"
  shows "node_id ` set (reply_nodes v) \<subseteq> an_alive (abs_state E st) - {request_author req}"
proof -
  obtain nevs where n: "st_buckets st' = ns_run (e_nodes E) (st_buckets st) nevs" "verified_in nevs = {}"
    using handle_request_run [OF assms(3)] by blast
  obtain target where t: "set (reply_nodes v) \<subseteq> set (ns_get_nearest_nodes (e_nodes E) (st_buckets st') target (Some (request_author req)))"
    using handle_request_nodes [OF assms(3,4)] by (auto simp: nearest_only_def)
  have inv: "ns_inv (st_buckets st')" unfolding n(1) by (rule node_storage.inv_run [OF assms(1,2)])
  show ?thesis
  proof
    fix i assume "i \<in> node_id ` set (reply_nodes v)"
    then obtain x where x: "i = node_id x" "x \<in> set (ns_get_nearest_nodes (e_nodes E) (st_buckets st') target (Some (request_author req)))"
      using t by blast
    then have "i \<in> an_alive (abs_state E st)"
      using node_storage.run_nearest_ids [OF assms(1,2), of x nevs target "Some (request_author req)"] n by (simp add: abs_state_def)
    moreover have "i \<noteq> request_author req" using node_storage.nearest_law [OF assms(1) inv x(2)] x(1) by auto
    ultimately show "i \<in> an_alive (abs_state E st) - {request_author req}" by simp
  qed
qed

lemma announce_answered_token:
  assumes "handle_request E st (AnnouncePeerRequest a) addr msg inp = (st', Ok (Some m))"
  shows "ap_token a \<in> {token_of E addr (st_token_secret st), token_of E addr (st_old_token_secret st)}"
proof -
  obtain st1 where c: "common_request_handling E st addr msg inp = Ok st1"
    using assms by (cases "common_request_handling E st addr msg inp") (auto simp: handle_request_unfold)
  show ?thesis using assms common_request_handling_identity [OF c]
    by (auto simp: handle_request_unfold c announce_peer_reply_def Let_def same_identity_def token_of_def split: if_splits)
qed

lemma answer_allowed:
  assumes env: "node_env E ook ocap iok icap src_inv support" and ninv: "node_env.node_inv E ook ocap iok icap src_inv k st"
    and sto: "node_storage (e_nodes E) ns_inv" "ns_inv (st_buckets st)"
    and h: "handle_request E st req addr msg inp = (st', Ok (Some m))" and v: "message_type m = Response v"
  shows "abs_answer (token_of E) (abs_state E st) req addr v"
proof -
  have ok: "get_author_id m = Some (st_our_id st)" "response_matches_request v req"
    using handle_request_reply [OF h] v by (auto simp: reply_ok_def)
  then have author: "response_author v = an_id (abs_state E st)"
    by (simp add: v get_author_id.simps abs_state_def)
  note nodes = answer_nodes [OF sto h v]
  show ?thesis
  proof (cases req)
    case (GetPeersRequest a)
    then obtain b where b: "v = GetPeersResponse b" using ok(2) by (cases v) auto
    have "gp_token b = token_of E addr (an_secret (abs_state E st))"
      using get_peers_reply_token [OF h [unfolded GetPeersRequest] v [unfolded b]] by (simp add: abs_state_def token_of_def)
    moreover have "(gp_info_hash a, p) \<in> an_swarms (abs_state E st)" if "gp_values b = Peers ps" "p \<in> set ps" for ps p
      using node_env.get_peers_from_swarm [OF env ninv h [unfolded GetPeersRequest] v [unfolded b] that]
      by (auto simp: abs_state_def)
    ultimately show ?thesis using GetPeersRequest b author nodes by (cases "gp_values b") simp_all
  next
    case (AnnouncePeerRequest a)
    then obtain b where "v = PingResponse b" using ok(2) by (cases v) auto
    then show ?thesis using announce_answered_token [OF h [unfolded AnnouncePeerRequest]] AnnouncePeerRequest author
      by (simp add: abs_state_def)
  next
    case (FindNodeRequest a)
    then show ?thesis using ok(2) author nodes by (cases v) auto
  next
    case (SampleInfoHashesRequest a)
    then show ?thesis using ok(2) author nodes by (cases v) auto
  next
    case (PingRequest a)
    then show ?thesis using ok(2) author by (cases v) auto
  qed
qed

lemma dht_new_secrets: "dht_new E c r g rest random_id rng = Ok st \<Longrightarrow> st_old_token_secret st = st_token_secret st"
  by (auto simp: dht_new_def Let_def)

section \<open>Properties\<close>

text \<open>
  C1. The node refines the specification: over every history, from its start, there are abstract events,
  one for each step and each explained by it, that lead from the empty specification state to the
  abstraction of the node's state; and every answer the node gives there is one that the
  specification allows in this state.
\<close>

theorem node_refines_spec:
  assumes "started E ook ocap iok icap c st" and "dht_steps E (thr, st) evs (thr', st')"
  shows "(\<exists>aevs. list_all2 (explains E) evs aevs \<and>
      abs_steps (token_of E) \<lparr>an_id = st_our_id st, an_alive = {}, an_swarms = {}, an_secret = st_token_secret st,
        an_old_secret = st_token_secret st\<rparr> aevs (abs_state E st')) \<and>
    (\<forall>req addr msg inp st'' m v. handle_request E st' req addr msg inp = (st'', Ok (Some m)) \<and> message_type m = Response v \<longrightarrow>
       abs_answer (token_of E) (abs_state E st') req addr v)"
proof -
  obtain srt our k r g rest random_id rng where a: "e_nodes E = nbs_ops srt" "sort_law srt" "dc_buckets c = nbs_new our k"
    "dht_new E c r g rest random_id rng = Ok st" "0 < cfg_max_torrents (dc_settings c)"
    using assms(1) by (auto simp: started_def)
  note env = started_inv(1) [OF assms(1)] and ninv = started_inv(2) [OF assms(1)]
  have sto: "node_storage (e_nodes E) nbs_inv" unfolding a(1) by (rule nbs_node_storage [OF a(2)])
  have new: "st_buckets st = nbs_set_id (nbs_new our k) (st_our_id st)" using dht_new_buckets [OF a(4)] a(1,3) by simp
  then have binv: "nbs_inv (st_buckets st)" using nbs_inv_set_id nbs_inv_new by simp
  have start: "abs_state E st = \<lparr>an_id = st_our_id st, an_alive = {}, an_swarms = {}, an_secret = st_token_secret st,
      an_old_secret = st_token_secret st\<rparr>"
    using node_env.swarm_new [OF env a(4,5)] dht_new_secrets [OF a(4)]
    by (simp add: abs_state_def a(1) new nbs_set_id_def nbs_new_def nbs_get_all_verified_def)
  have sim: "(\<exists>aevs. list_all2 (explains E) evs aevs \<and> abs_steps (token_of E) (abs_state E st) aevs (abs_state E st')) \<and>
      nbs_inv (st_buckets st')"
    using steps_simulated [OF env sto _ _ assms(2)] ninv binv by simp
  have "node_env.node_inv E ook ocap iok icap consensus_inv (cfg_max_torrents (dc_settings c)) st'"
    using node_env.node_inv_steps [OF env assms(2)] ninv by simp
  from answer_allowed [OF env this sto] sim show ?thesis unfolding start by blast
qed

theorem node_refines_spec_witness:
  "\<exists>ae. abs_steps (token_of sample_env) (abs_state sample_env sample_start) [ae] (abs_state sample_env sample_announced) \<and>
     explains sample_env (Incoming socket_new (sample_announce, sample_addr 1) sample_input 7 7) ae"
proof -
  let ?e = "Incoming socket_new (sample_announce, sample_addr 1) sample_input 7 7"
  obtain thr where "dht_step sample_env (throttler_new 1 10 5 5 50 0, sample_start) ?e (thr, sample_announced)"
    using sample_announce_step by blast
  note steps = dht_steps_single [OF this]
  have "abs_state sample_env sample_start = \<lparr>an_id = st_our_id sample_start, an_alive = {}, an_swarms = {},
      an_secret = st_token_secret sample_start, an_old_secret = st_token_secret sample_start\<rparr>"
    by (simp add: abs_state_def sample_env_def sample_start_def nbs_set_id_def nbs_new_def nbs_get_all_verified_def
        swarm_of_def peer_storage_new_def list_lru_def)
  then show ?thesis
    using conjunct1 [OF node_refines_spec [OF started_sample steps]] by (fastforce simp: list_all2_Cons1)
qed

end
