(* ===== verification/Dht_Bencode.thy ===== *)
theory Dht_Bencode
  imports Dht_Wire
begin

text \<open>
  The bencode format (BEP 3), as far as the messages use it: a byte string carries its length, an integer is written in
  decimal, a dictionary lists its keys with their values. The crate \<open>serde_bencode\<close> is outside the repository; this
  encoder and parser of the documented format interpret its contract (\<open>Dht_Datagram\<close>).
\<close>

section \<open>Numbers\<close>

fun digits :: "nat \<Rightarrow> bytes" where
  "digits n = (if n < 10 then [0x30 + word_of_nat n] else digits (n div 10) @ [0x30 + word_of_nat (n mod 10)])"

declare digits.simps [simp del]

definition show_int :: "int \<Rightarrow> bytes" where
  "show_int i = (if i < 0 then 0x2d # digits (nat (- i)) else digits (nat i))"

definition is_digit :: "u8 \<Rightarrow> bool" where
  "is_digit b \<longleftrightarrow> 0x30 \<le> b \<and> b \<le> 0x39"

fun read_digits :: "nat \<Rightarrow> bytes \<Rightarrow> nat \<times> bytes" where
  "read_digits n [] = (n, [])"
| "read_digits n (b # bs) = (if is_digit b then read_digits (10 * n + unat (b - 0x30)) bs else (n, b # bs))"

definition read_nat :: "bytes \<Rightarrow> (nat \<times> bytes) option" where
  "read_nat bs = (case bs of b # r \<Rightarrow> if is_digit b then Some (read_digits 0 bs) else None | [] \<Rightarrow> None)"

definition read_int :: "bytes \<Rightarrow> (int \<times> bytes) option" where
  "read_int bs =
     (case bs of
        b # r \<Rightarrow>
          (if b = 0x2d then map_option (\<lambda>(n, rest). (- int n, rest)) (read_nat r)
           else map_option (\<lambda>(n, rest). (int n, rest)) (read_nat bs))
      | [] \<Rightarrow> None)"

lemma digit_byte: "k < 10 \<Longrightarrow> is_digit (0x30 + word_of_nat k) \<and> unat ((0x30 + word_of_nat k :: u8) - 0x30) = k"
  by (auto simp: is_digit_def word_le_nat_alt unat_of_nat unat_word_ariths take_bit_nat_eq_self)

lemma read_digits_shown:
  "read_digits m (digits n @ rest) = read_digits (m * 10 ^ length (digits n) + n) rest"
proof (induction n arbitrary: m rest rule: digits.induct)
  case (1 n)
  show ?case
  proof (cases "n < 10")
    case True
    then show ?thesis using digit_byte [of n] by (simp add: digits.simps [of n] mult.commute)
  next
    case False
    have "n mod 10 < 10" by simp
    note d = digit_byte [OF this]
    have "10 * (m * 10 ^ length (digits (n div 10)) + n div 10) + n mod 10 = m * 10 ^ Suc (length (digits (n div 10))) + n"
      by simp
    then show ?thesis using False 1 [OF False] d by (simp add: digits.simps [of n] algebra_simps)
  qed
qed

lemma digits_first: "\<exists>b bs. digits n = b # bs \<and> is_digit b"
proof (induction n rule: digits.induct)
  case (1 n)
  then show ?case using digit_byte [of n] by (cases "n < 10") (auto simp: digits.simps [of n])
qed

lemma read_digits_stop: "(case rest of b # r \<Rightarrow> \<not> is_digit b | [] \<Rightarrow> True) \<Longrightarrow> read_digits n rest = (n, rest)"
  by (cases rest) auto

lemma read_nat_shown:
  assumes "\<not> is_digit b" shows "read_nat (digits n @ b # rest) = Some (n, b # rest)"
proof -
  obtain c cs where "digits n = c # cs" "is_digit c" using digits_first by blast
  then show ?thesis using read_digits_shown [of 0 n "b # rest"] assms by (simp add: read_nat_def)
qed

lemma read_int_shown:
  assumes "\<not> is_digit b" shows "read_int (show_int i @ b # rest) = Some (i, b # rest)"
proof -
  obtain c cs where "digits (nat i) = c # cs" "is_digit c" using digits_first by blast
  moreover have "c \<noteq> 0x2d" if "is_digit c" for c using that by (auto simp: is_digit_def)
  ultimately show ?thesis
    using read_nat_shown [OF assms, of "nat i" rest] read_nat_shown [OF assms, of "nat (- i)" rest]
    by (auto simp: read_int_def show_int_def)
qed

text \<open>How long a number is.\<close>

lemma length_digits: "0 < k \<Longrightarrow> n < 10 ^ k \<Longrightarrow> length (digits n) \<le> k"
proof (induction n arbitrary: k rule: digits.induct)
  case (1 n)
  show ?case
  proof (cases "n < 10")
    case False
    then obtain j where k: "k = Suc j" "0 < j" using "1.prems" by (cases k; cases "k - 1") auto
    then have "n div 10 < 10 ^ j" using "1.prems" by (simp add: less_mult_imp_div_less mult.commute)
    then show ?thesis using "1.IH" [OF False k(2)] k False by (simp add: digits.simps [of n])
  qed (use "1.prems" in \<open>simp add: digits.simps [of n]\<close>)
qed

section \<open>Values\<close>

definition encode_bytes :: "bytes \<Rightarrow> bytes" where
  "encode_bytes b = digits (length b) @ 0x3a # b"

fun encode :: "Value \<Rightarrow> bytes" where
  "encode (VBytes b) = encode_bytes b"
| "encode (VInt i) = 0x69 # show_int (sint i) @ [0x65]"
| "encode (VList vs) = 0x6c # concat (map encode vs) @ [0x65]"
| "encode (VDict d) = 0x64 # concat (map (\<lambda>(k, v). encode_bytes k @ encode v) d) @ [0x65]"

definition decode_bytes :: "bytes \<Rightarrow> (bytes \<times> bytes) option" where
  "decode_bytes bs =
     (case read_nat bs of
        Some (n, c # rest) \<Rightarrow> (if c = 0x3a \<and> n \<le> length rest then Some (take n rest, drop n rest) else None)
      | _ \<Rightarrow> None)"

text \<open>The parser; the fuel is the length of the input, every call consumes a byte.\<close>

fun parse :: "nat \<Rightarrow> bytes \<Rightarrow> (Value \<times> bytes) option"
  and parse_list :: "nat \<Rightarrow> bytes \<Rightarrow> (Value list \<times> bytes) option"
  and parse_dict :: "nat \<Rightarrow> bytes \<Rightarrow> ((bytes \<times> Value) list \<times> bytes) option" where
  "parse (Suc n) (c # bs) =
     (if c = 0x69 then
        (case read_int bs of
           Some (i, e # rest) \<Rightarrow>
             if e = 0x65 \<and> - (2 ^ 63) \<le> i \<and> i < 2 ^ 63 then Some (VInt (word_of_int i), rest) else None
         | _ \<Rightarrow> None)
      else if c = 0x6c then map_option (\<lambda>(vs, rest). (VList vs, rest)) (parse_list n bs)
      else if c = 0x64 then map_option (\<lambda>(d, rest). (VDict d, rest)) (parse_dict n bs)
      else map_option (\<lambda>(b, rest). (VBytes b, rest)) (decode_bytes (c # bs)))"
| "parse _ _ = None"
| "parse_list (Suc n) (c # bs) =
     (if c = 0x65 then Some ([], bs)
      else case parse n (c # bs) of
             Some (v, rest) \<Rightarrow> map_option (\<lambda>(vs, rest'). (v # vs, rest')) (parse_list n rest)
           | None \<Rightarrow> None)"
| "parse_list _ _ = None"
| "parse_dict (Suc n) (c # bs) =
     (if c = 0x65 then Some ([], bs)
      else case decode_bytes (c # bs) of
             Some (k, rest) \<Rightarrow>
               (case parse n rest of
                  Some (v, rest') \<Rightarrow> map_option (\<lambda>(d, rest''). ((k, v) # d, rest'')) (parse_dict n rest')
                | None \<Rightarrow> None)
           | None \<Rightarrow> None)"
| "parse_dict _ _ = None"

definition decode :: "bytes \<Rightarrow> Value option" where
  "decode bs = (case parse (length bs) bs of Some (v, []) \<Rightarrow> Some v | _ \<Rightarrow> None)"

lemma not_digits [simp]: "\<not> is_digit 0x3a" "\<not> is_digit 0x65"
  by (simp_all add: is_digit_def)

lemma decode_bytes_encoded [simp]: "decode_bytes (encode_bytes b @ rest) = Some (b, rest)"
  using read_nat_shown [of "0x3a" "length b" "b @ rest"] by (simp add: decode_bytes_def encode_bytes_def)

lemma encode_bytes_first: "\<exists>c cs. encode_bytes b = c # cs \<and> is_digit c"
  using digits_first [of "length b"] by (auto simp: encode_bytes_def)

lemma encode_first: "\<exists>c cs. encode v = c # cs \<and> c \<noteq> 0x65"
proof (cases v)
  case (VBytes b)
  obtain c cs where "encode_bytes b = c # cs" "is_digit c" using encode_bytes_first by blast
  moreover have "c \<noteq> 0x65" using \<open>is_digit c\<close> by auto
  ultimately show ?thesis using VBytes by simp
qed auto

lemma digit_not_mark: "is_digit c \<Longrightarrow> c \<noteq> 0x69 \<and> c \<noteq> 0x6c \<and> c \<noteq> 0x64 \<and> c \<noteq> 0x65"
  by (auto simp: is_digit_def)

lemma parse_bytes: "parse (Suc n) (encode_bytes b @ rest) = Some (VBytes b, rest)"
proof -
  obtain c cs where c: "encode_bytes b = c # cs" "is_digit c" using encode_bytes_first by blast
  have "decode_bytes (c # cs @ rest) = Some (b, rest)" using decode_bytes_encoded [of b rest] by (simp add: c(1))
  then show ?thesis using digit_not_mark [OF c(2)] by (simp add: c(1))
qed

text \<open>The parser inverts the encoder, with any rest and enough fuel.\<close>

lemma parse_list_encoded:
  assumes "\<And>v rest n. v \<in> set vs \<Longrightarrow> length (encode v) \<le> n \<Longrightarrow> parse n (encode v @ rest) = Some (v, rest)"
    and "length (concat (map encode vs)) < n"
  shows "parse_list n (concat (map encode vs) @ 0x65 # rest) = Some (vs, rest)"
  using assms
proof (induction vs arbitrary: n)
  case Nil
  then obtain k where "n = Suc k" by (cases n) auto
  then show ?case by simp
next
  case (Cons v vs)
  obtain c cs where c: "encode v = c # cs" "c \<noteq> 0x65" using encode_first by blast
  obtain k where n: "n = Suc k" "length (encode v) \<le> k" "length (concat (map encode vs)) < k"
    using Cons.prems(2) c by (cases n) auto
  have v: "parse k (encode v @ concat (map encode vs) @ 0x65 # rest) = Some (v, concat (map encode vs) @ 0x65 # rest)"
    by (rule Cons.prems(1) [OF _ n(2)]) simp
  have "parse_list k (concat (map encode vs) @ 0x65 # rest) = Some (vs, rest)"
    using Cons.IH [OF Cons.prems(1) n(3)] by simp
  then show ?case using v c by (simp add: n(1))
qed

lemma parse_dict_encoded:
  assumes "\<And>x rest n. x \<in> set d \<Longrightarrow> length (encode (snd x)) \<le> n \<Longrightarrow> parse n (encode (snd x) @ rest) = Some (snd x, rest)"
    and "length (concat (map (\<lambda>(k, v). encode_bytes k @ encode v) d)) < n"
  shows "parse_dict n (concat (map (\<lambda>(k, v). encode_bytes k @ encode v) d) @ 0x65 # rest) = Some (d, rest)"
  using assms
proof (induction d arbitrary: n)
  case Nil
  then obtain j where "n = Suc j" by (cases n) auto
  then show ?case by simp
next
  case (Cons p d)
  obtain k v where p: "p = (k, v)" by (cases p)
  let ?rest = "concat (map (\<lambda>(k, v). encode_bytes k @ encode v) d) @ 0x65 # rest"
  obtain c cs where c: "encode_bytes k = c # cs" "is_digit c" using encode_bytes_first by blast
  obtain j where n: "n = Suc j" "length (encode v) \<le> j" "length (concat (map (\<lambda>(k, v). encode_bytes k @ encode v) d)) < j"
    using Cons.prems(2) c p by (cases n) auto
  have "decode_bytes (encode_bytes k @ encode v @ ?rest) = Some (k, encode v @ ?rest)" by simp
  moreover have "parse j (encode v @ ?rest) = Some (v, ?rest)" using Cons.prems(1) [of p] n(2) by (simp add: p)
  moreover have "parse_dict j ?rest = Some (d, rest)" using Cons.IH [OF Cons.prems(1) n(3)] by simp
  ultimately show ?case using digit_not_mark [OF c(2)] by (simp add: n(1) p c(1))
qed

lemma parse_encoded: "length (encode v) \<le> n \<Longrightarrow> parse n (encode v @ rest) = Some (v, rest)"
proof (induction v arbitrary: n rest)
  case (VBytes b)
  obtain c cs where "encode_bytes b = c # cs" using encode_bytes_first by blast
  then obtain k where "n = Suc k" using VBytes by (cases n) auto
  then show ?case by (simp add: parse_bytes)
next
  case (VInt i)
  obtain k where n: "n = Suc k" using VInt by (cases n) auto
  have "read_int (show_int (sint i) @ 0x65 # rest) = Some (sint i, 0x65 # rest)" by (rule read_int_shown) simp
  moreover have "- (2 ^ 63) \<le> sint i" "sint i < 2 ^ 63" using sint_ge [of i] sint_less [of i] by simp_all
  ultimately show ?case by (simp add: n)
next
  case (VList vs)
  obtain k where n: "n = Suc k" "length (concat (map encode vs)) < k" using VList.prems by (cases n) auto
  have "parse_list k (concat (map encode vs) @ 0x65 # rest) = Some (vs, rest)"
    using VList.IH by (intro parse_list_encoded n(2)) blast
  then show ?case by (simp add: n(1))
next
  case (VDict d)
  obtain k where n: "n = Suc k" "length (concat (map (\<lambda>(k, v). encode_bytes k @ encode v) d)) < k"
    using VDict.prems by (cases n) auto
  have "parse_dict k (concat (map (\<lambda>(k, v). encode_bytes k @ encode v) d) @ 0x65 # rest) = Some (d, rest)"
    using VDict.IH by (intro parse_dict_encoded n(2)) fastforce
  then show ?case by (simp add: n(1))
qed

lemma decode_encode [simp]: "decode (encode v) = Some v"
  using parse_encoded [of v "length (encode v)" "[]"] by (simp add: decode_def)

end
