(* ===== verification/Dht_Schema.thy ===== *)
theory Dht_Schema
  imports Dht_Bencode
begin

text \<open>
  The dictionaries that the serde attributes of \<open>src/packets/internal.rs\<close> describe, in both directions: \<open>rename\<close> gives
  the key, \<open>default\<close> on an \<open>Option\<close> makes it optional, \<open>flatten\<close> and \<open>tag = "y"\<close> put the fields of the variant and its
  name into the dictionary of the message, \<open>tag = "q"\<close> does the same for the request, \<open>untagged\<close> tries the responses
  in their order. Unknown keys are ignored.
\<close>

section \<open>Fields\<close>

definition key :: "string \<Rightarrow> bytes" where
  "key s = map of_char s"

lemma of_char_u8_inj: "inj (of_char :: char \<Rightarrow> u8)"
proof (rule injI)
  fix c d :: char
  assume "(of_char c :: u8) = of_char d"
  moreover have "unat (of_char e :: u8) = (of_char e :: nat)" for e
  proof -
    have "(of_char e :: nat) < 256" using nat_of_char_less_256 by simp
    then show ?thesis using unat_of_nat [of "of_char e :: nat", where 'a = 8] by (simp add: of_nat_of_char take_bit_nat_eq_self)
  qed
  ultimately have "(of_char c :: nat) = of_char d" by metis
  then show "c = d" by simp
qed

lemma key_eq [simp]: "key s = key t \<longleftrightarrow> s = t"
  using of_char_u8_inj by (simp add: key_def)

definition opt_field :: "string \<Rightarrow> Value option \<Rightarrow> (bytes \<times> Value) list" where
  "opt_field k x = (case x of None \<Rightarrow> [] | Some v \<Rightarrow> [(key k, v)])"

lemma opt_field_simps [simp]: "opt_field k None = []" "opt_field k (Some v) = [(key k, v)]"
  by (simp_all add: opt_field_def)

definition bytes_field :: "(bytes \<times> Value) list \<Rightarrow> string \<Rightarrow> bytes option" where
  "bytes_field d k = (case map_of d (key k) of Some (VBytes b) \<Rightarrow> Some b | _ \<Rightarrow> None)"

definition opt_bytes_field :: "(bytes \<times> Value) list \<Rightarrow> string \<Rightarrow> bytes option option" where
  "opt_bytes_field d k =
     (case map_of d (key k) of None \<Rightarrow> Some None | Some (VBytes b) \<Rightarrow> Some (Some b) | _ \<Rightarrow> None)"

text \<open>An integer of the given range, as a word; serde checks the range of the field's type.\<close>

definition int_value :: "int \<Rightarrow> int \<Rightarrow> Value \<Rightarrow> 'a::len word option" where
  "int_value lo hi v = (case v of VInt i \<Rightarrow> if lo \<le> sint i \<and> sint i \<le> hi then Some (word_of_int (sint i)) else None | _ \<Rightarrow> None)"

definition i32_field :: "(bytes \<times> Value) list \<Rightarrow> string \<Rightarrow> i32 option" where
  "i32_field d k = Option.bind (map_of d (key k)) (int_value i32_min i32_max)"

definition opt_i32_field :: "(bytes \<times> Value) list \<Rightarrow> string \<Rightarrow> i32 option option" where
  "opt_i32_field d k =
     (case map_of d (key k) of None \<Rightarrow> Some None | Some v \<Rightarrow> map_option Some (int_value i32_min i32_max v))"

fun byte_strings :: "Value list \<Rightarrow> bytes list option" where
  "byte_strings [] = Some []"
| "byte_strings (VBytes b # vs) = map_option (Cons b) (byte_strings vs)"
| "byte_strings (v # vs) = None"

section \<open>Writing\<close>

fun request_value :: "DHTRequestSpecific \<Rightarrow> string \<times> (bytes \<times> Value) list" where
  "request_value (DHTPingReq (DHTPingArguments i)) = (''ping'', [(key ''id'', VBytes i)])"
| "request_value (DHTFindNodeReq (DHTFindNodeArguments i target)) =
     (''find_node'', [(key ''id'', VBytes i), (key ''target'', VBytes target)])"
| "request_value (DHTGetPeersReq (DHTGetPeersArguments i info_hash)) =
     (''get_peers'', [(key ''id'', VBytes i), (key ''info_hash'', VBytes info_hash)])"
| "request_value (DHTAnnouncePeerReq (DHTAnnouncePeerRequestArguments i info_hash port token implied)) =
     (''announce_peer'', (key ''id'', VBytes i) # opt_field ''implied_port'' (map_option (\<lambda>b. VInt (ucast b)) implied) @
        [(key ''info_hash'', VBytes info_hash), (key ''port'', VInt (ucast port)), (key ''token'', VBytes token)])"
| "request_value (DHTSampleInfoHashesReq (DHTSampleInfoHashesRequestArguments i target)) =
     (''sample_infohashes'', [(key ''id'', VBytes i), (key ''target'', VBytes target)])"

fun response_value :: "DHTResponseSpecific \<Rightarrow> (bytes \<times> Value) list" where
  "response_value (DHTGetPeersRes (DHTGetPeersResponseArguments i token nodes vals)) =
     (key ''id'', VBytes i) # opt_field ''nodes'' (map_option VBytes nodes) @ (key ''token'', VBytes token) #
       opt_field ''values'' (map_option (\<lambda>ps. VList (map VBytes ps)) vals)"
| "response_value (DHTSampleInfoHashesRes (DHTSampleInfoHashesResponseArguments i interval nodes num samples)) =
     [(key ''id'', VBytes i), (key ''interval'', VInt (scast interval)), (key ''nodes'', VBytes nodes),
      (key ''num'', VInt (scast num)), (key ''samples'', VBytes samples)]"
| "response_value (DHTFindNodeRes (DHTFindNodeResponseArguments i nodes)) =
     [(key ''id'', VBytes i), (key ''nodes'', VBytes nodes)]"
| "response_value (DHTPingRes (DHTPingResponseArguments i)) = [(key ''id'', VBytes i)]"

definition message_value :: "DHTMessage \<Rightarrow> Value" where
  "message_value m =
     (let ip = opt_field ''ip'' (map_option VBytes (d_ip m));
          rest = opt_field ''ro'' (map_option (\<lambda>ro. VInt (scast ro)) (d_read_only m)) @
            (key ''t'', VBytes (d_transaction_id m)) # opt_field ''v'' (map_option VBytes (d_version m))
      in VDict (case d_variant m of
           DHTRequest r \<Rightarrow>
             (case request_value r of (name, args) \<Rightarrow>
               (key ''a'', VDict args) # ip @ (key ''q'', VBytes (key name)) # rest @ [(key ''y'', VBytes (key ''q''))])
         | DHTResponse r \<Rightarrow> ip @ (key ''r'', VDict (response_value r)) # rest @ [(key ''y'', VBytes (key ''r''))]
         | DHTError (DHTErrorSpecific info) \<Rightarrow> (key ''e'', VList info) # ip @ rest @ [(key ''y'', VBytes (key ''e''))]))"

section \<open>Reading\<close>

definition value_request :: "bytes \<Rightarrow> (bytes \<times> Value) list \<Rightarrow> DHTRequestSpecific option" where
  "value_request name d =
     Option.bind (bytes_field d ''id'') (\<lambda>i.
       if name = key ''ping'' then Some (DHTPingReq (DHTPingArguments i))
       else if name = key ''find_node'' then
         map_option (\<lambda>t. DHTFindNodeReq (DHTFindNodeArguments i t)) (bytes_field d ''target'')
       else if name = key ''get_peers'' then
         map_option (\<lambda>h. DHTGetPeersReq (DHTGetPeersArguments i h)) (bytes_field d ''info_hash'')
       else if name = key ''announce_peer'' then
         Option.bind (bytes_field d ''info_hash'') (\<lambda>h.
         Option.bind (Option.bind (map_of d (key ''port'')) (int_value 0 65535)) (\<lambda>port.
         Option.bind (bytes_field d ''token'') (\<lambda>token.
         map_option (\<lambda>implied. DHTAnnouncePeerReq (DHTAnnouncePeerRequestArguments i h port token implied))
           (case map_of d (key ''implied_port'') of None \<Rightarrow> Some None | Some v \<Rightarrow> map_option Some (int_value 0 255 v)))))
       else if name = key ''sample_infohashes'' then
         map_option (\<lambda>t. DHTSampleInfoHashesReq (DHTSampleInfoHashesRequestArguments i t)) (bytes_field d ''target'')
       else None)"

text \<open>The four responses; the first that fits is taken.\<close>

definition value_get_peers :: "(bytes \<times> Value) list \<Rightarrow> DHTResponseSpecific option" where
  "value_get_peers d =
     Option.bind (bytes_field d ''id'') (\<lambda>i.
     Option.bind (bytes_field d ''token'') (\<lambda>token.
     Option.bind (opt_bytes_field d ''nodes'') (\<lambda>nodes.
     map_option (\<lambda>vals. DHTGetPeersRes (DHTGetPeersResponseArguments i token nodes vals))
       (case map_of d (key ''values'') of
          None \<Rightarrow> Some None | Some (VList vs) \<Rightarrow> map_option Some (byte_strings vs) | _ \<Rightarrow> None))))"

definition value_sample_info_hashes :: "(bytes \<times> Value) list \<Rightarrow> DHTResponseSpecific option" where
  "value_sample_info_hashes d =
     Option.bind (bytes_field d ''id'') (\<lambda>i.
     Option.bind (i32_field d ''interval'') (\<lambda>interval.
     Option.bind (bytes_field d ''nodes'') (\<lambda>nodes.
     Option.bind (i32_field d ''num'') (\<lambda>num.
     map_option (\<lambda>samples. DHTSampleInfoHashesRes (DHTSampleInfoHashesResponseArguments i interval nodes num samples))
       (bytes_field d ''samples'')))))"

definition value_find_node :: "(bytes \<times> Value) list \<Rightarrow> DHTResponseSpecific option" where
  "value_find_node d =
     Option.bind (bytes_field d ''id'') (\<lambda>i.
     map_option (\<lambda>nodes. DHTFindNodeRes (DHTFindNodeResponseArguments i nodes)) (bytes_field d ''nodes''))"

definition value_ping :: "(bytes \<times> Value) list \<Rightarrow> DHTResponseSpecific option" where
  "value_ping d = map_option (\<lambda>i. DHTPingRes (DHTPingResponseArguments i)) (bytes_field d ''id'')"

fun first_some :: "'a option list \<Rightarrow> 'a option" where
  "first_some [] = None"
| "first_some (Some x # xs) = Some x"
| "first_some (None # xs) = first_some xs"

definition value_response :: "(bytes \<times> Value) list \<Rightarrow> DHTResponseSpecific option" where
  "value_response d = first_some [value_get_peers d, value_sample_info_hashes d, value_find_node d, value_ping d]"

definition value_variant :: "(bytes \<times> Value) list \<Rightarrow> DHTMessageVariant option" where
  "value_variant d =
     Option.bind (bytes_field d ''y'') (\<lambda>y.
       if y = key ''q'' then
         (case (bytes_field d ''q'', map_of d (key ''a'')) of
            (Some name, Some (VDict args)) \<Rightarrow> map_option DHTRequest (value_request name args)
          | _ \<Rightarrow> None)
       else if y = key ''r'' then
         (case map_of d (key ''r'') of Some (VDict r) \<Rightarrow> map_option DHTResponse (value_response r) | _ \<Rightarrow> None)
       else if y = key ''e'' then
         (case map_of d (key ''e'') of Some (VList info) \<Rightarrow> Some (DHTError (DHTErrorSpecific info)) | _ \<Rightarrow> None)
       else None)"

definition value_message :: "Value \<Rightarrow> DHTMessage option" where
  "value_message v =
     (case v of
        VDict d \<Rightarrow>
          Option.bind (bytes_field d ''t'') (\<lambda>t.
          Option.bind (opt_bytes_field d ''v'') (\<lambda>version.
          Option.bind (value_variant d) (\<lambda>variant.
          Option.bind (opt_bytes_field d ''ip'') (\<lambda>ip.
          map_option (\<lambda>ro. \<lparr>d_transaction_id = t, d_version = version, d_variant = variant, d_ip = ip, d_read_only = ro\<rparr>)
            (opt_i32_field d ''ro'')))))
      | _ \<Rightarrow> None)"

section \<open>What is written is read back\<close>

lemma int_value_i32 [simp]: "int_value i32_min i32_max (VInt (scast (w :: i32))) = Some w"
proof -
  have "sint (scast w :: i64) = sint w" by (rule sint_up_scast) (simp add: is_up)
  moreover have "- (2 ^ 31) \<le> sint w" "sint w < 2 ^ 31" using sint_ge [of w] sint_less [of w] by simp_all
  ultimately show ?thesis by (simp add: int_value_def i32_min_def i32_max_def)
qed

lemma sint_ucast_i64:
  assumes "LENGTH('a::len) < 64" shows "sint (ucast (w :: 'a word) :: i64) = uint w"
proof -
  have "uint w < 2 ^ LENGTH('a)" by simp
  also have "(2 :: int) ^ LENGTH('a) \<le> 2 ^ 63" using assms by (intro power_increasing) auto
  finally have less: "uint w < 2 ^ 63" .
  have "uint (ucast w :: i64) = uint w" using assms by (simp add: unsigned_ucast_eq take_bit_int_eq_self less_trans [OF less])
  moreover have "- (2 ^ 63) \<le> uint w" using unsigned_greater_eq [of w, where ?'a = int] by (rule order_trans [rotated]) simp
  ultimately show ?thesis using less by (simp add: sint_uint signed_take_bit_int_eq_self)
qed

lemma int_value_u16 [simp]: "int_value 0 65535 (VInt (ucast (w :: u16))) = Some w"
  using uint_lt2p [of w] by (simp add: int_value_def sint_ucast_i64)

lemma int_value_u8 [simp]: "int_value 0 255 (VInt (ucast (w :: u8))) = Some w"
  using uint_lt2p [of w] by (simp add: int_value_def sint_ucast_i64)

lemma byte_strings_map [simp]: "byte_strings (map VBytes bs) = Some bs"
  by (induction bs) simp_all

lemmas field_defs = bytes_field_def opt_bytes_field_def i32_field_def opt_i32_field_def

lemma value_request_value: "request_value r = (name, args) \<Longrightarrow> value_request (key name) args = Some r"
  by (induction r rule: request_value.induct) (auto simp: value_request_def field_defs opt_field_def split: option.splits)

lemma value_response_value [simp]: "value_response (response_value r) = Some r"
proof (induction r rule: response_value.induct)
  case (1 i token nodes vals)
  show ?case by (cases nodes; cases vals) (simp_all add: value_response_def value_get_peers_def field_defs)
qed (simp_all add: value_response_def value_get_peers_def value_sample_info_hashes_def value_find_node_def value_ping_def field_defs)

lemma map_of_opt_field [simp]: "map_of (opt_field k x) (key s) = (if k = s then x else None)"
  by (cases x) auto

lemma map_add_lookup: "(f ++ g) x = (case g x of None \<Rightarrow> f x | Some y \<Rightarrow> Some y)"
  by (simp add: map_add_def)

lemma value_message_value [simp]: "value_message (message_value m) = Some m"
proof -
  obtain d where d: "message_value m = VDict d" by (simp add: message_value_def Let_def)
  note look = d [unfolded message_value_def Let_def, simplified, symmetric]
  have variant: "value_variant d = Some (d_variant m)"
  proof (cases "d_variant m")
    case (DHTRequest r)
    obtain name args where r: "request_value r = (name, args)" by (cases "request_value r")
    then show ?thesis using value_request_value [OF r] by (simp add: look DHTRequest value_variant_def field_defs map_add_lookup)
  next
    case (DHTResponse r)
    then show ?thesis by (simp add: look value_variant_def field_defs map_add_lookup)
  next
    case (DHTError e)
    then show ?thesis by (cases e) (simp add: look value_variant_def field_defs map_add_lookup)
  qed
  have fields: "map_of d (key ''t'') = Some (VBytes (d_transaction_id m))" "map_of d (key ''v'') = map_option VBytes (d_version m)"
    "map_of d (key ''ip'') = map_option VBytes (d_ip m)" "map_of d (key ''ro'') = map_option (\<lambda>ro. VInt (scast ro)) (d_read_only m)"
    by (simp_all add: look map_add_lookup split: DHTMessageVariant.split DHTErrorSpecific.split prod.split option.split)
  show ?thesis
    by (cases "d_version m"; cases "d_ip m"; cases "d_read_only m"; simp add: d value_message_def variant field_defs fields)
qed

end
