(* ===== verification/Dht_Datagram.thy ===== *)
theory Dht_Datagram
  imports Dht_Schema Dht_Socket
begin

text \<open>
  The bencode library as the program uses it (\<open>DHTMessage::from_bytes\<close> and \<open>to_bytes\<close> of \<open>src/packets/internal.rs\<close>): its
  contract as the locale \<open>bencode_library\<close>, the reference implementation, and how large the datagrams are.
\<close>

section \<open>The library\<close>

text \<open>\<open>emit\<close> and \<open>scan\<close> are \<open>serde_bencode::to_bytes\<close> and \<open>from_bytes\<close>; their errors are only passed on.\<close>

definition message_from_bytes :: "(bytes \<Rightarrow> DHTMessage option) \<Rightarrow> bytes \<Rightarrow> DHTMessage res" where
  "message_from_bytes scan bs = (case scan bs of Some d \<Rightarrow> Ok d | None \<Rightarrow> Err (PacketParseError ''bencode''))"

definition message_to_bytes :: "(DHTMessage \<Rightarrow> bytes option) \<Rightarrow> DHTMessage \<Rightarrow> bytes res" where
  "message_to_bytes emit d = (case emit d of Some bs \<Rightarrow> Ok bs | None \<Rightarrow> Err (PacketSerializationError ''bencode''))"

text \<open>Messages whose error information holds only byte strings and integers, as those of the program do.\<close>

fun plain_value :: "Value \<Rightarrow> bool" where
  "plain_value (VBytes b) = True"
| "plain_value (VInt i) = True"
| "plain_value (VList vs) = False"
| "plain_value (VDict d) = False"

definition plain_message :: "DHTMessage \<Rightarrow> bool" where
  "plain_message d \<longleftrightarrow> (case d_variant d of DHTError (DHTErrorSpecific vs) \<Rightarrow> list_all plain_value vs | _ \<Rightarrow> True)"

definition message_bytes :: "DHTMessage \<Rightarrow> bytes" where
  "message_bytes d = encode (message_value d)"

locale bencode_library =
  fixes emit :: "DHTMessage \<Rightarrow> bytes option" and scan :: "bytes \<Rightarrow> DHTMessage option"
  assumes write_law: "plain_message d \<Longrightarrow> emit d = Some (message_bytes d)"
    and read_law: "plain_message d \<Longrightarrow> scan (message_bytes d) = Some d"
begin

lemma to_bytes_ok: "plain_message d \<Longrightarrow> message_to_bytes emit d = Ok (message_bytes d)"
  by (simp add: message_to_bytes_def write_law)

lemma from_bytes_ok: "plain_message d \<Longrightarrow> message_from_bytes scan (message_bytes d) = Ok d"
  by (simp add: message_from_bytes_def read_law)

end

definition reference_write :: "DHTMessage \<Rightarrow> bytes option" where
  "reference_write d = Some (message_bytes d)"

definition reference_read :: "bytes \<Rightarrow> DHTMessage option" where
  "reference_read bs = Option.bind (decode bs) value_message"

interpretation reference: bencode_library reference_write reference_read
  by unfold_locales (simp_all add: reference_write_def reference_read_def message_bytes_def)

text \<open>What the program sends is plain.\<close>

lemma plain_into_serde [simp]: "plain_message (into_serde_message m)"
  by (cases "message_type m" rule: into_serde_variant.cases) (simp_all add: plain_message_def into_serde_message_def)

lemma library_carries:
  assumes "bencode_library emit scan"
  shows "to_bytes (message_to_bytes emit) m = Ok (message_bytes (into_serde_message m))"
    and "message_from_bytes scan (message_bytes (into_serde_message m)) = Ok (into_serde_message m)"
  using bencode_library.to_bytes_ok [OF assms] bencode_library.from_bytes_ok [OF assms] by (simp_all add: to_bytes_def)

section \<open>The canonical form\<close>

text \<open>BEP 3: the keys of a dictionary are in the order of their bytes, and no key is repeated.\<close>

fun bytes_less :: "bytes \<Rightarrow> bytes \<Rightarrow> bool" where
  "bytes_less bs [] = False"
| "bytes_less [] (c # cs) = True"
| "bytes_less (b # bs) (c # cs) = (b < c \<or> b = c \<and> bytes_less bs cs)"

fun ascending :: "bytes list \<Rightarrow> bool" where
  "ascending (k # l # ks) = (bytes_less k l \<and> ascending (l # ks))"
| "ascending ks = True"

fun canonical :: "Value \<Rightarrow> bool" where
  "canonical (VBytes b) = True"
| "canonical (VInt i) = True"
| "canonical (VList vs) = list_all canonical vs"
| "canonical (VDict d) = (ascending (map fst d) \<and> list_all (\<lambda>x. canonical (snd x)) d)"

lemma plain_canonical: "plain_value v \<Longrightarrow> canonical v"
  by (cases v) simp_all

lemma key_Cons [simp]: "key [] = []" "key (c # cs) = of_char c # key cs"
  by (simp_all add: key_def)

lemma canonical_request: "request_value r = (name, args) \<Longrightarrow> canonical (VDict args)"
  by (induction r rule: request_value.induct) (auto simp: opt_field_def split: option.splits)

lemma canonical_response: "canonical (VDict (response_value r))"
  by (induction r rule: response_value.induct) (auto simp: opt_field_def list_all_iff split: option.splits)

lemma canonical_message:
  assumes "plain_message d" shows "canonical (message_value d)"
proof (cases "d_variant d")
  case (DHTRequest r)
  obtain name args where r: "request_value r = (name, args)" by (cases "request_value r")
  show ?thesis using canonical_request [OF r] r
    by (simp add: message_value_def Let_def DHTRequest opt_field_def split: option.split)
next
  case (DHTResponse r)
  show ?thesis using canonical_response [of r]
    by (simp add: message_value_def Let_def DHTResponse opt_field_def split: option.split)
next
  case (DHTError e)
  obtain vs where e: "e = DHTErrorSpecific vs" by (cases e)
  have "list_all canonical vs" using assms DHTError e by (auto simp: plain_message_def list_all_iff plain_canonical)
  then show ?thesis by (simp add: message_value_def Let_def DHTError e opt_field_def split: option.split)
qed

section \<open>Sizes\<close>

definition wire_size :: "Message \<Rightarrow> nat" where
  "wire_size m = length (message_bytes (into_serde_message m))"

lemma length_encode_bytes: "0 < k \<Longrightarrow> length b < 10 ^ k \<Longrightarrow> length (encode_bytes b) \<le> k + 1 + length b"
  using length_digits [of k "length b"] by (simp add: encode_bytes_def)

lemma length_show_i32: "length (show_int (sint (scast (w :: i32) :: i64))) \<le> 11"
proof -
  have "sint (scast w :: i64) = sint w" by (rule sint_up_scast) (simp add: is_up)
  moreover have "- (2 ^ 31) \<le> sint w" "sint w < 2 ^ 31" using sint_ge [of w] sint_less [of w] by simp_all
  then have "nat (- sint w) < 10 ^ 10" "nat (sint w) < 10 ^ 10" by simp_all
  then have "length (digits (nat (- sint w))) \<le> 10" "length (digits (nat (sint w))) \<le> 10"
    using length_digits [OF zero_less_numeral] by blast+
  ultimately show ?thesis by (simp add: show_int_def)
qed

text \<open>The responses a node gives with the default limits: eight nodes, 128 peers, fifty samples.\<close>

fun short_response :: "ResponseSpecific \<Rightarrow> bool" where
  "short_response (PingResponse a) = True"
| "short_response (FindNodeResponse a) = (length (find_nodes a) \<le> 8)"
| "short_response (GetPeersResponse a) = (length (gp_token a) \<le> 4 \<and>
     (case gp_values a of Nodes ns \<Rightarrow> length ns \<le> 8 | Peers ps \<Rightarrow> length ps \<le> 128))"
| "short_response (SampleInfoHashesResponse a) = (length (sih_nodes a) \<le> 8 \<and> length (sih_samples a) \<le> 50)"

lemma length_encode_id: "length (encode_bytes (id_to_vec i)) \<le> 23"
  using length_encode_bytes [of 2 "id_to_vec i"] by simp

lemma length_encode_nodes:
  assumes "nodes_v4 ns" and "length ns \<le> 8" shows "length (encode_bytes (nodes4_to_bytes ns)) \<le> 212"
  using length_encode_bytes [of 3 "nodes4_to_bytes ns"] assms by (simp add: length_nodes4_to_bytes)

lemma length_encode_samples:
  assumes "length ids \<le> 50" shows "length (encode_bytes (concat (map id_to_vec ids))) \<le> 1005"
  using length_encode_bytes [of 4 "concat (map id_to_vec ids)"] assms by (simp add: length_samples)

lemma length_encode_peers:
  "list_all sock_is_v4 ps \<Longrightarrow> length (concat (map encode (map VBytes (peers_to_bytes ps)))) = 8 * length ps"
  by (induction ps) (simp_all add: peers_to_bytes_def encode_bytes_def digits.simps [of 6])

lemma length_key: "length (encode_bytes (key s)) = length (digits (length s)) + 1 + length s"
  by (simp add: encode_bytes_def key_def)

lemma length_digits_small [simp]: "n < 10 \<Longrightarrow> length (digits n) = 1"
  by (simp add: digits.simps [of n])

lemma length_digits_teens: "10 \<le> n \<Longrightarrow> n < 100 \<Longrightarrow> length (digits n) = 2"
  by (simp add: digits.simps [of n] div_less_mono less_mult_imp_div_less)

lemmas size_simps = length_key comp_def case_prod_beta length_digits_teens

lemma response_size:
  assumes "short_response r" and "response_wire_ok r"
  shows "length (encode (VDict (response_value (into_serde_response r)))) \<le> 1400"
proof (cases r)
  case (PingResponse a)
  obtain i where a: "a = PingResponseArguments i" by (cases a)
  show ?thesis using length_encode_id [of i] by (simp add: PingResponse a size_simps del: key_Cons)
next
  case (FindNodeResponse a)
  obtain i ns where a: "a = FindNodeResponseArguments i ns" by (cases a)
  show ?thesis using length_encode_id [of i] length_encode_nodes [of ns] assms
    by (simp add: FindNodeResponse a size_simps del: key_Cons)
next
  case (GetPeersResponse a)
  obtain i token vals where a: "a = GetPeersResponseArguments i token vals" by (cases a)
  have token: "length (encode_bytes token) \<le> 6"
    using length_encode_bytes [of 1 token] assms(1) by (simp add: GetPeersResponse a)
  show ?thesis
  proof (cases vals)
    case (Nodes ns)
    show ?thesis using length_encode_id [of i] token length_encode_nodes [of ns] assms
      by (simp add: GetPeersResponse a Nodes size_simps del: key_Cons)
  next
    case (Peers ps)
    show ?thesis using length_encode_id [of i] token length_encode_peers [of ps] assms
      by (simp add: GetPeersResponse a Peers size_simps del: key_Cons)
  qed
next
  case (SampleInfoHashesResponse a)
  obtain i interval ns ids num where a: "a = SampleInfoHashesResponseArguments i interval ns ids num" by (cases a)
  show ?thesis
    using length_encode_id [of i] length_encode_nodes [of ns] length_encode_samples [of ids] assms length_show_i32 [of num]
      length_show_i32 [of "word_of_nat (min MAX_SCRAPE_INTERVAL (dur_as_secs interval))"]
    by (simp add: SampleInfoHashesResponse a size_simps del: key_Cons)
qed

text \<open>A whole message, but for the response itself and the transaction id.\<close>

definition ip_v4 :: "Message \<Rightarrow> bool" where
  "ip_v4 m \<longleftrightarrow> (case requester_ip m of None \<Rightarrow> True | Some a \<Rightarrow> sock_is_v4 a)"

lemma ip_size: "ip_v4 m \<Longrightarrow> requester_ip m = Some a \<Longrightarrow> length (encode_bytes (sockaddr_to_bytes a)) = 8"
  by (simp add: ip_v4_def encode_bytes_def)

lemma flag_size: "length (show_int 0) = 1" "length (show_int 1) = 1"
  by (simp_all add: show_int_def)

lemma reply_size:
  assumes "message_type m = Response r" and "version m = None" and "ip_v4 m"
    and "short_response r" and "response_wire_ok r" and "length (transaction_id m) < 1000"
  shows "wire_size m \<le> 1447 + length (transaction_id m)"
proof -
  have tid: "length (encode_bytes (transaction_id m)) \<le> 4 + length (transaction_id m)"
    using length_encode_bytes [of 3 "transaction_id m"] assms(6) by simp
  let ?r = "VDict (response_value (into_serde_response r))"
  have "wire_size m \<le> length (encode ?r) + length (encode_bytes (transaction_id m)) + 33"
    using assms(1,2) ip_size [OF assms(3)] flag_size
    by (auto simp: wire_size_def message_bytes_def message_value_def into_serde_message_def Let_def size_simps opt_field_def
        split: option.split simp del: key_Cons)
  then show ?thesis using response_size [OF assms(4,5)] tid by linarith
qed

text \<open>A request, but for its transaction id and the token of an announcement.\<close>

lemma length_show_u16: "length (show_int (sint (ucast (w :: u16) :: i64))) \<le> 5"
proof -
  have "unat w < 10 ^ 5" by (rule less_le_trans [OF unsigned_less]) simp
  then have "length (digits (unat w)) \<le> 5" using length_digits [OF zero_less_numeral] by blast
  then show ?thesis by (simp add: show_int_def sint_ucast_i64 flip: nat_uint_eq)
qed

lemma length_show_u8: "length (show_int (sint (ucast (w :: u8) :: i64))) \<le> 3"
proof -
  have "unat w < 10 ^ 3" by (rule less_le_trans [OF unsigned_less]) simp
  then have "length (digits (unat w)) \<le> 3" using length_digits [OF zero_less_numeral] by blast
  then show ?thesis by (simp add: show_int_def sint_ucast_i64 flip: nat_uint_eq)
qed

definition request_token :: "RequestSpecific \<Rightarrow> bytes" where
  "request_token r = (case r of AnnouncePeerRequest a \<Rightarrow> ap_token a | _ \<Rightarrow> [])"

lemma request_token_simps [simp]:
  "request_token (PingRequest p) = []" "request_token (FindNodeRequest f) = []" "request_token (GetPeersRequest g) = []"
  "request_token (AnnouncePeerRequest a) = ap_token a" "request_token (SampleInfoHashesRequest i) = []"
  by (simp_all add: request_token_def)

lemma request_value_size:
  assumes "length (request_token r) < 1000" and "request_value (into_serde_request r) = (name, args)"
  shows "length (encode (VDict args)) \<le> 120 + length (request_token r)" and "length name < 20"
proof -
  have token: "length (encode_bytes (request_token r)) \<le> 4 + length (request_token r)"
    using length_encode_bytes [of 3 "request_token r"] assms(1) by simp
  show "length (encode (VDict args)) \<le> 120 + length (request_token r)"
  proof (cases r)
    case (AnnouncePeerRequest a)
    obtain i h port implied tok where a: "a = AnnouncePeerRequestArguments i h port implied tok" by (cases a)
    show ?thesis
      using assms token length_encode_id [of i] length_encode_id [of h] length_show_u16 [of port] length_show_u8 [of 0] length_show_u8 [of 1]
      by (auto simp: AnnouncePeerRequest a request_token_def size_simps opt_field_def simp del: key_Cons split: option.splits)
  next
    case (PingRequest a)
    obtain i where "a = PingRequestArguments i" by (cases a)
    then show ?thesis using assms length_encode_id [of i] by (auto simp: PingRequest size_simps simp del: key_Cons)
  next
    case (FindNodeRequest a)
    obtain t i where "a = FindNodeRequestArguments t i" by (cases a)
    then show ?thesis using assms length_encode_id [of i] length_encode_id [of t] by (auto simp: FindNodeRequest size_simps simp del: key_Cons)
  next
    case (GetPeersRequest a)
    obtain t i where "a = GetPeersRequestArguments t i" by (cases a)
    then show ?thesis using assms length_encode_id [of i] length_encode_id [of t] by (auto simp: GetPeersRequest size_simps simp del: key_Cons)
  next
    case (SampleInfoHashesRequest a)
    obtain t i where "a = SampleInfoHashesRequestArguments t i" by (cases a)
    then show ?thesis using assms length_encode_id [of i] length_encode_id [of t] by (auto simp: SampleInfoHashesRequest size_simps simp del: key_Cons)
  qed
  show "length name < 20" using assms(2) by (cases "into_serde_request r" rule: request_value.cases) auto
qed

lemma request_size:
  assumes "message_type m = Request r" and "version m = None" and "ip_v4 m"
    and "length (transaction_id m) < 1000" and "length (request_token r) < 1000"
  shows "wire_size m \<le> 262 + length (transaction_id m) + length (request_token r)"
proof -
  obtain name args where r: "request_value (into_serde_request r) = (name, args)"
    by (cases "request_value (into_serde_request r)")
  have tid: "length (encode_bytes (transaction_id m)) \<le> 4 + length (transaction_id m)"
    using length_encode_bytes [of 3 "transaction_id m"] assms(4) by simp
  note args = request_value_size [OF assms(5) r]
  have name: "length (encode_bytes (key name)) \<le> 22"
    using length_encode_bytes [of 2 "key name"] args(2) by (simp add: key_def)
  have "wire_size m \<le> length (encode (VDict args)) + length (encode_bytes (key name)) + length (encode_bytes (transaction_id m)) + 36"
    using assms(1,2) r ip_size [OF assms(3)] flag_size
    by (auto simp: wire_size_def message_bytes_def message_value_def into_serde_message_def Let_def size_simps opt_field_def
        split: option.split simp del: key_Cons)
  then show ?thesis using args(1) tid name by linarith
qed

section \<open>Properties\<close>

lemma plain_canonical_value: "canonical (message_value (into_serde_message m))"
  by (rule canonical_message) simp

lemma decode_message_bytes [simp]: "decode (message_bytes d) = Some (message_value d)"
  by (simp add: message_bytes_def)

text \<open>
  C26. What is sent is what is received, down to the bytes: a message whose addresses are IPv4 and whose error text is a
  string is always serialised, to the bencode text of a dictionary in canonical form (keys in the order of their bytes,
  none repeated), and \<open>from_bytes\<close> reads those bytes as the same message, with the sampling interval cut to whole
  seconds and at most six hours. Of the bencode library only its contract is used.
\<close>

theorem messages_survive_bencode:
  assumes "bencode_library emit scan" and "wire_ok m"
  shows "\<exists>v. to_bytes (message_to_bytes emit) m = Ok (encode v) \<and> canonical v \<and> decode (encode v) = Some v \<and>
    from_bytes (message_from_bytes scan) (encode v) = Ok (m\<lparr>message_type := clamp_type (message_type m)\<rparr>)"
proof (intro exI [of _ "message_value (into_serde_message m)"] conjI)
  show "to_bytes (message_to_bytes emit) m = Ok (encode (message_value (into_serde_message m)))"
    using library_carries(1) [OF assms(1)] by (simp add: message_bytes_def)
  show "canonical (message_value (into_serde_message m))" by (rule plain_canonical_value)
  show "from_bytes (message_from_bytes scan) (encode (message_value (into_serde_message m)))
      = Ok (m\<lparr>message_type := clamp_type (message_type m)\<rparr>)"
    using library_carries(2) [OF assms(1)] message_roundtrip [OF assms(2)]
    by (simp add: from_bytes_def clamp_message_def message_bytes_def)
qed simp

theorem messages_survive_bencode_witness:
  "\<exists>v. to_bytes (message_to_bytes reference_write) sample_message = Ok (encode v) \<and> canonical v \<and>
    decode (encode v) = Some v \<and> from_bytes (message_from_bytes reference_read) (encode v) = Ok sample_message"
proof -
  have ok: "wire_ok sample_message" by (simp add: wire_ok_def sample_message_def nodes_v4_def)
  have clamped: "sample_message\<lparr>message_type := clamp_type (message_type sample_message)\<rparr> = sample_message"
    by (simp add: sample_message_def)
  show ?thesis
    using messages_survive_bencode [OF reference.bencode_library_axioms ok] by (simp only: clamped)
qed

end
