(* ===== verification/Dht_Sizes.thy ===== *)
theory Dht_Sizes
  imports Dht_Origin Dht_Datagram
begin

text \<open>
  How large the answers of a node get: with the default limits every reply fits the buffer of 2048 bytes that the
  receiving task of \<open>src/dht/socket.rs\<close> reads a datagram into.
\<close>

section \<open>The table never returns more than its bucket size\<close>

definition nbs_k :: "NodeBucketStorage \<Rightarrow> nat" where
  "nbs_k s = b_k (verified s)"

lemma nbs_k_new [simp]: "nbs_k (nbs_new our k) = k"
  by (simp add: nbs_k_def nbs_new_def buckets_new_def)

lemma nbs_k_step:
  assumes "sort_law srt" and "nbs_inv s" shows "nbs_k (ns_step (nbs_ops srt) s e) = nbs_k s"
proof (cases e)
  case (AddOrUpdate n v t t')
  then show ?thesis using nbs_add_or_update_post [OF assms, of n v t t'] by (simp add: nbs_k_def add_post_def)
qed (simp_all add: nbs_k_def nbs_clear_def nbs_set_id_def nbs_prune_def buckets_clear_def buckets_set_id_def buckets_retain_def
  split: option.split)

lemma nbs_k_run:
  assumes "sort_law srt" and "nbs_inv s" shows "nbs_k (ns_run (nbs_ops srt) s evs) = nbs_k s"
  using assms(2)
proof (induction evs arbitrary: s)
  case (Cons e evs)
  have "nbs_inv (ns_step (nbs_ops srt) s e)" using node_storage.inv_step [OF nbs_node_storage [OF assms(1)] Cons.prems] .
  from Cons.IH [OF this] show ?case using nbs_k_step [OF assms(1) Cons.prems] by (simp add: ns_run_def)
qed (simp add: ns_run_def)

lemma length_nearest:
  assumes "sort_law srt" shows "length (nbs_get_nearest_nodes srt s i ex) \<le> nbs_k s"
proof -
  obtain rest where "length (buckets_get_nearest nw_bucketable srt (verified s) i ex)
      = min (b_k (verified s)) (length (eligible nw_bucketable ex (buckets_values (verified s))))"
    by (rule buckets_get_nearest_spec [OF assms]) blast
  then show ?thesis by (simp add: nbs_get_nearest_nodes_def nbs_k_def)
qed

section \<open>Limits\<close>

text \<open>What \<open>DHTBuilder\<close> and the default settings give: buckets of eight, 128 peers, fifty samples, an interval of six hours at most.\<close>

definition default_limits :: "('i, NodeBucketStorage) DHTConfig \<Rightarrow> bool" where
  "default_limits c \<longleftrightarrow> nbs_k (dc_buckets c) \<le> 8 \<and> cfg_max_peers_response (dc_settings c) \<le> 128 \<and>
     cfg_max_sample_response (dc_settings c) \<le> 50 \<and> cfg_min_sample_interval_secs (dc_settings c) \<le> 21600"

lemma history_limits:
  assumes "started E ook ocap iok icap c st" and "dht_steps E (thr, st) evs (thr', st')" and "default_limits c"
  shows "nbs_k (st_buckets st') \<le> 8" and "cfg_max_peers_response (st_settings st') \<le> 128"
    and "cfg_max_sample_response (st_settings st') \<le> 50" and "cfg_min_sample_interval_secs (st_settings st') \<le> 21600"
proof -
  obtain srt our k r g rest random_id rng where a: "e_nodes E = nbs_ops srt" "sort_law srt" "dc_buckets c = nbs_new our k"
    "dht_new E c r g rest random_id rng = Ok st"
    using assms(1) by (auto simp: started_def)
  obtain nevs where "st_buckets st' = ns_run (nbs_ops srt) (nbs_new our k) nevs"
    by (rule history_of_buckets [OF a(1,4,3) assms(2)])
  then show "nbs_k (st_buckets st') \<le> 8"
    using nbs_k_run [OF a(2) nbs_inv_new, of our k nevs] assms(3) a(3) by (simp add: default_limits_def)
  have "st_settings st = dc_settings c" using a(4) by (auto simp: dht_new_def Let_def)
  then have "st_settings st' = dc_settings c" using steps_settings [OF assms(2)] by simp
  then show "cfg_max_peers_response (st_settings st') \<le> 128" "cfg_max_sample_response (st_settings st') \<le> 50"
    "cfg_min_sample_interval_secs (st_settings st') \<le> 21600"
    using assms(3) by (simp_all add: default_limits_def)
qed

section \<open>The replies\<close>

lemma length_token [simp]: "length (calculate_token crc addr secret) = 4"
  by (simp add: calculate_token_def be_bytes4_def)

lemma handle_request_short:
  assumes h: "handle_request E st req addr msg inp = (st', Ok (Some m))" and v: "message_type m = Response v"
    and near: "\<And>t ex. length (ns_get_nearest_nodes (e_nodes E) (st_buckets st') t ex) \<le> 8"
    and limits: "cfg_max_peers_response (st_settings st) \<le> 128" "cfg_max_sample_response (st_settings st) \<le> 50"
    and shuffle: "\<forall>n xs. length (hi_shuffle inp n xs) \<le> n"
  shows "short_response v" and "version m = None"
proof -
  obtain st1 where c: "common_request_handling E st addr msg inp = Ok st1"
    using h by (cases "common_request_handling E st addr msg inp") (auto simp: handle_request_unfold)
  have set: "st_settings st1 = st_settings st"
    using common_request_handling_identity [OF c] by (simp add: same_identity_def)
  have "short_response v \<and> version m = None"
  proof (cases req)
    case (PingRequest a)
    then show ?thesis using h v c by (auto simp: handle_request_unfold ping_reply_def reply_setters build_defs)
  next
    case (FindNodeRequest a)
    then show ?thesis using h v c near
      by (auto simp: handle_request_unfold find_node_reply_def reply_setters build_defs)
  next
    case (SampleInfoHashesRequest a)
    have "length (hi_shuffle inp (cfg_max_sample_response (st_settings st1)) xs) \<le> 50" for xs
      using spec [OF spec [OF shuffle], of "cfg_max_sample_response (st_settings st1)" xs] limits(2) set by simp
    then show ?thesis using SampleInfoHashesRequest h v c near
      by (auto simp: handle_request_unfold sample_infohashes_reply_def Let_def reply_setters build_defs split: if_splits)
  next
    case (GetPeersRequest a)
    then have reply: "get_peers_reply E st1 addr msg a inp = (st', Ok m)"
      using h c by (auto simp: handle_request_unfold split: prod.splits)
    then have "st_buckets st' = st_buckets st1" by (auto simp: get_peers_reply_def Let_def split: prod.splits)
    then show ?thesis using reply v near limits(1) set
      by (auto simp: get_peers_reply_def Let_def case_prod_beta reply_setters build_defs split: if_splits)
  next
    case (AnnouncePeerRequest a)
    then show ?thesis using h v c
      by (auto simp: handle_request_unfold announce_peer_reply_def Let_def reply_setters build_defs split: if_splits)
  qed
  then show "short_response v" "version m = None" by blast+
qed

lemma reply_fits:
  assumes s: "started E ook ocap iok icap c st" and steps: "dht_steps E (thr, st) evs (thr', st')" and lim: "default_limits c"
    and v4: "list_all event_v4 evs" and addr: "sock_is_v4 addr" and shuffle: "\<forall>n xs. length (hi_shuffle inp n xs) \<le> n"
    and h: "handle_request E st' req addr msg inp = (st'', Ok (Some m))" and tid: "length (transaction_id msg) \<le> 600"
  shows "wire_ok m" and "clamp_message m = m" and "wire_size m \<le> recv_buffer_size"
proof -
  note limits = history_limits [OF s steps lim]
  obtain srt where srt: "e_nodes E = nbs_ops srt" "sort_law srt" using s by (auto simp: started_def)
  obtain nevs where "st_buckets st'' = ns_run (e_nodes E) (st_buckets st') nevs"
    using handle_request_run [OF h] by blast
  moreover have "nbs_inv (st_buckets st')"
    by (rule history_known [OF s steps]) blast
  ultimately have "nbs_k (st_buckets st'') \<le> 8" using nbs_k_run [OF srt(2)] limits(1) srt(1) by simp
  then have near: "length (ns_get_nearest_nodes (e_nodes E) (st_buckets st'') t ex) \<le> 8" for t ex
    using order_trans [OF length_nearest [OF srt(2)]] srt(1) by simp
  show ok: "wire_ok m" by (rule reply_typed [OF s steps v4 addr h])
  have "nat (cfg_min_sample_interval_secs (st_settings st')) \<le> MAX_SCRAPE_INTERVAL"
    using limits(4) by (simp add: MAX_SCRAPE_INTERVAL_def)
  then show "clamp_message m = m" by (rule reply_not_clamped [OF h])
  obtain v where v: "message_type m = Response v" and ip: "requester_ip m = Some addr" "transaction_id m = transaction_id msg"
    using handle_request_reply [OF h] by (auto simp: reply_ok_def)
  have "response_wire_ok v" using ok v by (simp add: wire_ok_def)
  moreover have "ip_v4 m" using ip addr by (simp add: ip_v4_def)
  ultimately have "wire_size m \<le> 1447 + length (transaction_id m)"
    using reply_size [OF v handle_request_short(2) [OF h v near limits(2,3) shuffle]]
      handle_request_short(1) [OF h v near limits(2,3) shuffle] ip tid by simp
  then show "wire_size m \<le> recv_buffer_size" using ip tid by (simp add: recv_buffer_size_def)
qed


lemma sample_limits: "default_limits sample_config"
  by (simp add: default_limits_def default_settings_def)

lemma sample_shuffle: "\<forall>n xs. length (hi_shuffle sample_input n xs) \<le> n"
  by (simp add: sample_input_def)

section \<open>Properties\<close>

text \<open>
  C15. Whoever asks can read the answer: a node with the default limits that only dealt with IPv4 addresses, over any
  history, answers an IPv4 requester only with messages that the compact encodings carry (every node and peer in them has
  an IPv4 address) and whose datagram fits the receive buffer of 2048 bytes, if the transaction id has at most 600 bytes
  and the shuffle takes at most as many samples as it is asked for. The bytes parse back to the very message that was
  meant. Of the bencode library only its contract is used.
\<close>

theorem replies_fit_a_datagram:
  assumes "started E ook ocap iok icap c st" and "dht_steps E (thr, st) evs (thr', st')" and "default_limits c"
    and "list_all event_v4 evs" and "sock_is_v4 addr" and "\<forall>n xs. length (hi_shuffle inp n xs) \<le> n"
    and "handle_request E st' req addr msg inp = (st'', Ok (Some m))" and "length (transaction_id msg) \<le> 600"
    and "bencode_library emit scan"
  shows "\<exists>bs. to_bytes (message_to_bytes emit) m = Ok bs \<and> length bs \<le> recv_buffer_size \<and>
    from_bytes (message_from_bytes scan) bs = Ok m \<and> wire_ok m"
proof (intro exI [of _ "message_bytes (into_serde_message m)"] conjI)
  note fits = reply_fits [OF assms(1-8)]
  show "from_bytes (message_from_bytes scan) (message_bytes (into_serde_message m)) = Ok m"
    using library_carries(2) [OF assms(9)] message_roundtrip [OF fits(1)] fits(2) by (simp add: from_bytes_def)
  show "length (message_bytes (into_serde_message m)) \<le> recv_buffer_size" using fits(3) by (simp add: wire_size_def)
  show "wire_ok m" by (rule fits(1))
qed (rule library_carries(1) [OF assms(9)])

theorem replies_fit_a_datagram_witness:
  "\<exists>st m bs. handle_request sample_env sample_start (GetPeersRequest sample_get_peers) (sample_addr 1)
      sample_get_peers_message sample_input = (st, Ok (Some m)) \<and>
     to_bytes (message_to_bytes reference_write) m = Ok bs \<and> length bs \<le> recv_buffer_size \<and>
     from_bytes (message_from_bytes reference_read) bs = Ok m"
proof -
  have kind: "message_type sample_get_peers_message = Request (GetPeersRequest sample_get_peers)"
    by (simp add: sample_get_peers_message_def)
  have sane: "sane sample_env sample_start"
    using node_env.node_inv_sane [OF started_inv [OF started_sample]] .
  obtain st m where h: "handle_request sample_env sample_start (GetPeersRequest sample_get_peers) (sample_addr 1)
      sample_get_peers_message sample_input = (st, Ok (Some m))"
    using handle_request_answers [OF kind sample_addr_v4 sane, where inp = sample_input] by blast
  have none: "dht_steps sample_env (sample_throttler32, sample_start) [] (sample_throttler32, sample_start)"
    by (rule dht_steps.none)
  have "list_all event_v4 []" "length (transaction_id sample_get_peers_message) \<le> 600"
    by (simp_all add: sample_get_peers_message_def)
  from replies_fit_a_datagram [OF started_sample none sample_limits this(1) sample_addr_v4 sample_shuffle h this(2)
      reference.bencode_library_axioms]
  show ?thesis using h by blast
qed

end
