(* ===== verification/Dht_Operations.thy ===== *)
theory Dht_Operations
  imports Dht_Core
begin

text \<open>
  \<open>src/dht/operations.rs\<close>: the iterative searches that a client of the node runs. A search is a loop of
  rounds over a local bucket table around the target; what a round gets from outside is an argument:
  the verified nodes of the node (\<open>dht.get_nodes()\<close>), and the results of its requests, in the
  order in which they come in. \<open>tokio::time::timeout\<close> may stop the loop at any await: a run is then a
  list of rounds whose last one holds the results handled so far. The run is defined on every
  list, so a search always has a result; the order of a \<open>HashSet\<close>'s iteration is a parameter.
\<close>

section \<open>Candidates\<close>

text \<open>Both loops \<open>if !buckets.contains(id) { buckets.add(...) }\<close>.\<close>

definition add_candidate :: "NodeWrapper sorter \<Rightarrow> NodeWrapper buckets \<Rightarrow> NodeWrapper \<Rightarrow> NodeWrapper buckets" where
  "add_candidate srt b w =
     (if buckets_contains nw_bucketable b (nw_id w) then b else fst (buckets_add nw_bucketable srt b w None))"

definition seed_buckets :: "NodeWrapper sorter \<Rightarrow> NodeWrapper buckets \<Rightarrow> NodeWrapper list \<Rightarrow> NodeWrapper buckets" where
  "seed_buckets srt b ws = foldl (add_candidate srt) b ws"

fun add_nodes :: "NodeWrapper sorter \<Rightarrow> (nat \<Rightarrow> instant) \<Rightarrow> NodeWrapper buckets \<Rightarrow> Node list \<Rightarrow> NodeWrapper buckets" where
  "add_nodes srt clk b [] = b"
| "add_nodes srt clk b (n # ns) = add_nodes srt (\<lambda>i. clk (Suc i)) (add_candidate srt b (nw_new n (clk 0))) ns"

section \<open>\<open>find_node\<close>\<close>

text \<open>A request of a search: the message, where it goes, and the id expected there.\<close>

type_synonym op_request = "Message res \<times> SocketAddr \<times> Id option"

record find_round =
  fr_nodes :: "NodeWrapper list"
  fr_our_id :: Id
  fr_tids :: "nat \<Rightarrow> u8 \<times> u8"
  fr_results :: "(Message res \<times> (nat \<Rightarrow> instant)) list"

text \<open>How a round of the loop ends: \<open>continue\<close> after a second, \<open>break\<close>, or having asked somebody.\<close>

datatype 's round_outcome = Waited 's | Converged 's | Asked 's

definition find_request :: "bool \<Rightarrow> Id \<Rightarrow> Id \<Rightarrow> u8 \<times> u8 \<Rightarrow> Message res" where
  "find_request ro our_id target rng =
     build (set_sender_id our_id (set_read_only ro (set_target target (builder_new BFindNodeRequest)))) rng"

definition handle_find_result ::
  "NodeWrapper sorter \<Rightarrow> NodeWrapper buckets \<Rightarrow> Message res \<times> (nat \<Rightarrow> instant) \<Rightarrow> NodeWrapper buckets" where
  "handle_find_result srt b result =
     (case fst result of
        Ok message \<Rightarrow>
          (case message_type message of
             Response (FindNodeResponse args) \<Rightarrow> add_nodes srt (snd result) b (find_nodes args)
           | _ \<Rightarrow> b)
      | _ \<Rightarrow> b)"

definition find_node_round ::
  "NodeWrapper sorter \<Rightarrow> bool \<Rightarrow> Id \<Rightarrow> NodeWrapper buckets \<times> Id list \<Rightarrow> find_round
     \<Rightarrow> (NodeWrapper buckets \<times> Id list) round_outcome \<times> op_request list" where
  "find_node_round srt ro target s r =
     (let (b, best_ids) = s;
          b1 = seed_buckets srt b (fr_nodes r);
          nearest = buckets_get_nearest nw_bucketable srt b1 target None
      in if nearest = [] then (Waited (b1, best_ids), [])
         else let best_ids_current = map nw_id nearest
              in if best_ids = best_ids_current then (Converged (b1, best_ids), [])
                 else (Asked (foldl (handle_find_result srt) b1 (fr_results r), best_ids_current),
                       map (\<lambda>(i, w). (find_request ro (fr_our_id r) target (fr_tids r i),
                              node_address (nw_node w), Some (node_id (nw_node w)))) (enumerate 0 nearest)))"

fun find_node_run ::
  "NodeWrapper sorter \<Rightarrow> bool \<Rightarrow> Id \<Rightarrow> NodeWrapper buckets \<times> Id list \<Rightarrow> find_round list \<Rightarrow> NodeWrapper buckets" where
  "find_node_run srt ro target s [] = fst s"
| "find_node_run srt ro target s (r # rs) =
     (case fst (find_node_round srt ro target s r) of
        Waited s' \<Rightarrow> find_node_run srt ro target s' rs
      | Converged s' \<Rightarrow> fst s'
      | Asked s' \<Rightarrow> find_node_run srt ro target s' rs)"

definition find_node :: "NodeWrapper sorter \<Rightarrow> bool \<Rightarrow> Id \<Rightarrow> find_round list \<Rightarrow> Node list" where
  "find_node srt ro target rounds =
     (let b = find_node_run srt ro target (buckets_new target 8, []) rounds
      in map nw_node (buckets_get_nearest nw_bucketable srt b target None))"

section \<open>\<open>get_peers\<close>\<close>

datatype GetPeersResponder = GetPeersResponder (responder_node: Node) (responder_token: bytes)

datatype GetPeersResult =
  GetPeersResult (result_info_hash: Id) (result_peers: "SocketAddr list") (result_responders: "GetPeersResponder list")

definition closer_responder :: "Id \<Rightarrow> GetPeersResponder \<Rightarrow> GetPeersResponder \<Rightarrow> bool" where
  "closer_responder info_hash a b \<longleftrightarrow>
     id_xor (node_id (responder_node a)) info_hash \<le> id_xor (node_id (responder_node b)) info_hash"

definition get_peers_result_new ::
  "GetPeersResponder sorter \<Rightarrow> Id \<Rightarrow> SocketAddr list \<Rightarrow> GetPeersResponder list \<Rightarrow> GetPeersResult" where
  "get_peers_result_new rsrt info_hash peers responders =
     GetPeersResult info_hash peers (rsrt (closer_responder info_hash) responders)"

record get_peers_state =
  gs_buckets :: "NodeWrapper buckets"
  gs_best_ids :: "Id list"
  gs_unique_peers :: "SocketAddr list"
  gs_responders :: "GetPeersResponder list"

record peers_round =
  pr_nodes :: "NodeWrapper list"
  pr_our_id :: Id
  pr_tids :: "nat \<Rightarrow> u8 \<times> u8"
  pr_results :: "((Node \<times> Message) res \<times> (nat \<Rightarrow> instant)) list"

definition get_peers_request :: "bool \<Rightarrow> Id \<Rightarrow> Id \<Rightarrow> u8 \<times> u8 \<Rightarrow> Message res" where
  "get_peers_request ro our_id info_hash rng =
     build (set_sender_id our_id (set_read_only ro (set_target info_hash (builder_new BGetPeersRequest)))) rng"

definition handle_get_peers_result ::
  "NodeWrapper sorter \<Rightarrow> get_peers_state \<Rightarrow> (Node \<times> Message) res \<times> (nat \<Rightarrow> instant) \<Rightarrow> get_peers_state" where
  "handle_get_peers_result srt s result =
     (case fst result of
        Ok (node, reply) \<Rightarrow>
          (case message_type reply of
             Response (GetPeersResponse args) \<Rightarrow>
               (let s1 = s\<lparr>gs_responders := gs_responders s @ [GetPeersResponder node (gp_token args)]\<rparr>
                in case gp_values args of
                     Nodes ns \<Rightarrow> s1\<lparr>gs_buckets := add_nodes srt (snd result) (gs_buckets s1) ns\<rparr>
                   | Peers ps \<Rightarrow> s1\<lparr>gs_unique_peers := foldl (\<lambda>acc p. List.insert p acc) (gs_unique_peers s1) ps\<rparr>)
           | _ \<Rightarrow> s)
      | _ \<Rightarrow> s)"

text \<open>Note the guard: with five or fewer nodes at hand the round asks nobody.\<close>

definition get_peers_round ::
  "NodeWrapper sorter \<Rightarrow> bool \<Rightarrow> Id \<Rightarrow> get_peers_state \<Rightarrow> peers_round
     \<Rightarrow> get_peers_state round_outcome \<times> op_request list" where
  "get_peers_round srt ro info_hash s r =
     (let s1 = s\<lparr>gs_buckets := seed_buckets srt (gs_buckets s) (pr_nodes r)\<rparr>;
          nearest = buckets_get_nearest nw_bucketable srt (gs_buckets s1) info_hash None
      in if length nearest \<le> 5 then (Waited s1, [])
         else let best_ids_current = map nw_id nearest
              in if gs_best_ids s1 = best_ids_current then (Converged s1, [])
                 else (Asked (foldl (handle_get_peers_result srt) (s1\<lparr>gs_best_ids := best_ids_current\<rparr>) (pr_results r)),
                       map (\<lambda>(i, w). (get_peers_request ro (pr_our_id r) info_hash (pr_tids r i),
                              node_address (nw_node w), Some (node_id (nw_node w)))) (enumerate 0 nearest)))"

fun get_peers_run ::
  "NodeWrapper sorter \<Rightarrow> bool \<Rightarrow> Id \<Rightarrow> get_peers_state \<Rightarrow> peers_round list \<Rightarrow> get_peers_state" where
  "get_peers_run srt ro info_hash s [] = s"
| "get_peers_run srt ro info_hash s (r # rs) =
     (case fst (get_peers_round srt ro info_hash s r) of
        Waited s' \<Rightarrow> get_peers_run srt ro info_hash s' rs
      | Converged s' \<Rightarrow> s'
      | Asked s' \<Rightarrow> get_peers_run srt ro info_hash s' rs)"

text \<open>The requests that the loop sends, round by round.\<close>

fun get_peers_requests ::
  "NodeWrapper sorter \<Rightarrow> bool \<Rightarrow> Id \<Rightarrow> get_peers_state \<Rightarrow> peers_round list \<Rightarrow> op_request list" where
  "get_peers_requests srt ro info_hash s [] = []"
| "get_peers_requests srt ro info_hash s (r # rs) =
     snd (get_peers_round srt ro info_hash s r) @
     (case fst (get_peers_round srt ro info_hash s r) of
        Waited s' \<Rightarrow> get_peers_requests srt ro info_hash s' rs
      | Converged s' \<Rightarrow> []
      | Asked s' \<Rightarrow> get_peers_requests srt ro info_hash s' rs)"

definition get_peers_start :: "Id \<Rightarrow> get_peers_state" where
  "get_peers_start info_hash =
     \<lparr>gs_buckets = buckets_new info_hash 8, gs_best_ids = [], gs_unique_peers = [], gs_responders = []\<rparr>"

text \<open>
  \<open>get_peers\<close>: it first runs \<open>find_node\<close> (on the rounds \<open>boot\<close>) for the responses that this causes, and
  drops its result, then searches with a table of its own. \<open>iter\<close> is the iteration order of the \<open>HashSet\<close>.
\<close>

definition get_peers ::
  "NodeWrapper sorter \<Rightarrow> GetPeersResponder sorter \<Rightarrow> (SocketAddr list \<Rightarrow> SocketAddr list) \<Rightarrow> bool \<Rightarrow> Id
     \<Rightarrow> find_round list \<Rightarrow> peers_round list \<Rightarrow> GetPeersResult" where
  "get_peers srt rsrt iter ro info_hash boot rounds =
     (let dropped = find_node srt ro info_hash boot;
          s = get_peers_run srt ro info_hash (get_peers_start info_hash) rounds
      in get_peers_result_new rsrt info_hash (iter (gs_unique_peers s)) (gs_responders s))"

section \<open>\<open>announce_peer\<close>\<close>

definition announce_request ::
  "bool \<Rightarrow> Id \<Rightarrow> Id \<Rightarrow> u16 option \<Rightarrow> GetPeersResponder \<Rightarrow> u8 \<times> u8 \<Rightarrow> op_request" where
  "announce_request ro our_id info_hash port responder rng =
     (build (set_token (responder_token responder)
        (set_implied_port (port = None) (set_port (case port of None \<Rightarrow> 0 | Some p \<Rightarrow> p)
          (set_target info_hash (set_read_only ro (set_sender_id our_id (builder_new BAnnouncePeerRequest))))))) rng,
      node_address (responder_node responder), Some (node_id (responder_node responder)))"

text \<open>
  The announcements to the nearest eight, and the nodes that took them: \<open>completed\<close> lists the indices of
  the finished requests, in the order in which they finish, with their results.
\<close>

definition announce_targets :: "GetPeersResult \<Rightarrow> GetPeersResponder list" where
  "announce_targets res = take 8 (result_responders res)"

definition announce_requests ::
  "bool \<Rightarrow> Id \<Rightarrow> Id \<Rightarrow> u16 option \<Rightarrow> GetPeersResult \<Rightarrow> (nat \<Rightarrow> u8 \<times> u8) \<Rightarrow> op_request list" where
  "announce_requests ro our_id info_hash port res tids =
     map (\<lambda>(i, r). announce_request ro our_id info_hash port r (tids i)) (enumerate 0 (announce_targets res))"

fun announced_to :: "GetPeersResponder list \<Rightarrow> (nat \<times> Message res) list \<Rightarrow> Node list" where
  "announced_to targets [] = []"
| "announced_to targets ((i, Ok m) # results) = responder_node (targets ! i) # announced_to targets results"
| "announced_to targets ((i, r) # results) = announced_to targets results"

text \<open>The requests of \<open>announce_peer\<close>, and the nodes it returns.\<close>

definition announce_peer ::
  "NodeWrapper sorter \<Rightarrow> GetPeersResponder sorter \<Rightarrow> (SocketAddr list \<Rightarrow> SocketAddr list) \<Rightarrow> bool \<Rightarrow> Id \<Rightarrow> Id
     \<Rightarrow> u16 option \<Rightarrow> find_round list \<Rightarrow> peers_round list \<Rightarrow> (nat \<Rightarrow> u8 \<times> u8) \<Rightarrow> (nat \<times> Message res) list
     \<Rightarrow> op_request list \<times> Node list" where
  "announce_peer srt rsrt iter ro our_id info_hash port boot rounds tids completed =
     (let res = get_peers srt rsrt iter ro info_hash boot rounds
      in (announce_requests ro our_id info_hash port res tids, announced_to (announce_targets res) completed))"

end
