(* ===== verification/Dht_OperationsProps.thy ===== *)
theory Dht_OperationsProps
  imports Dht_Operations Dht_CoreProps
begin

text \<open>
  What the searches and the announcement give: where their results come from, their order, and how an
  announcement fits the node that it is sent to.
\<close>

section \<open>The local table of a search\<close>

definition search_inv :: "Id \<Rightarrow> Node set \<Rightarrow> NodeWrapper buckets \<Rightarrow> bool" where
  "search_inv target known b \<longleftrightarrow>
     wf_buckets nw_bucketable b \<and> b_our_id b = target \<and> b_k b = 8 \<and>
     distinct (map nw_id (buckets_values b)) \<and> nw_node ` set (buckets_values b) \<subseteq> known"

lemma search_inv_new: "search_inv target {} (buckets_new target 8)"
  using wf_buckets_new [of nw_bucketable target 8] buckets_values_simps(1) [of target 8]
  by (simp add: search_inv_def) (simp add: buckets_new_def)

lemma search_inv_mono: "search_inv target A b \<Longrightarrow> A \<subseteq> B \<Longrightarrow> search_inv target B b"
  by (auto simp: search_inv_def)

lemma add_candidate_inv:
  assumes "sort_law srt" and "search_inv target A b"
  shows "search_inv target (insert (nw_node w) A) (add_candidate srt b w)"
proof (cases "buckets_contains nw_bucketable b (nw_id w)")
  case True
  then show ?thesis using search_inv_mono [OF assms(2)] by (auto simp: add_candidate_def)
next
  case False
  have wf: "wf_buckets nw_bucketable b" using assms(2) by (simp add: search_inv_def)
  have new: "nw_id w \<notin> nw_id ` set (buckets_values b)"
    using False buckets_get_mut_None [OF wf, of "nw_id w"] by (auto simp: buckets_contains_get_mut)
  let ?b' = "fst (buckets_add nw_bucketable srt b w None)"
  obtain ev where b': "wf_buckets nw_bucketable ?b'" "b_our_id ?b' = b_our_id b" "b_k ?b' = b_k b"
    "mset (buckets_values ?b') + mset ev = mset (buckets_values b) +
       (if get_id nw_bucketable w = b_our_id b then {#} else {#w#})"
    by (rule buckets_add_spec [OF assms(1) wf, of w None])
  have sub: "mset (buckets_values ?b') \<subseteq># mset (w # buckets_values b)"
    using b'(4) by (auto intro: mset_subset_eq_add_left [of _ "mset ev"] subset_mset.trans split: if_splits)
  then have "set (buckets_values ?b') \<subseteq> insert w (set (buckets_values b))"
    using set_mset_mono by fastforce
  moreover have "distinct (map nw_id (buckets_values ?b'))"
    using distinct_map_mset_subset [OF _ sub, of nw_id] new assms(2) by (simp add: search_inv_def)
  ultimately show ?thesis using assms(2) b' False by (auto simp: search_inv_def add_candidate_def)
qed

lemma seed_buckets_inv:
  "sort_law srt \<Longrightarrow> search_inv target A b \<Longrightarrow> search_inv target (A \<union> nw_node ` set ws) (seed_buckets srt b ws)"
proof (induction ws arbitrary: A b)
  case (Cons w ws)
  from Cons.IH [OF Cons.prems(1) add_candidate_inv [OF Cons.prems, of w]] show ?case
    by (simp add: seed_buckets_def)
qed (simp add: seed_buckets_def)

lemma add_nodes_inv:
  "sort_law srt \<Longrightarrow> search_inv target A b \<Longrightarrow> search_inv target (A \<union> set ns) (add_nodes srt clk b ns)"
proof (induction ns arbitrary: A b clk)
  case (Cons n ns)
  from Cons.IH [OF Cons.prems(1) add_candidate_inv [OF Cons.prems, of "nw_new n (clk 0)"]] show ?case
    by (simp add: nw_new_def)
qed simp

lemma strictly_sorted:
  "sorted_wrt (\<lambda>a c. (f a :: 'k::linorder) \<le> f c) xs \<Longrightarrow> distinct (map f xs) \<Longrightarrow> sorted_wrt (\<lambda>a c. f a < f c) xs"
proof (induction xs)
  case (Cons x xs)
  then show ?case by (force simp: order.strict_iff_order)
qed simp

text \<open>The nearest candidates: at most eight, ordered, distinct, known, never the target itself.\<close>

lemma search_nearest:
  assumes "sort_law srt" and "search_inv target A b"
  shows "length (buckets_get_nearest nw_bucketable srt b target None) \<le> 8"
    and "sorted_wrt (\<lambda>a c. id_xor (nw_id a) target < id_xor (nw_id c) target) (buckets_get_nearest nw_bucketable srt b target None)"
    and "w \<in> set (buckets_get_nearest nw_bucketable srt b target None) \<Longrightarrow> nw_node w \<in> A \<and> nw_id w \<noteq> target"
    and "length (buckets_get_nearest nw_bucketable srt b target None) = min 8 (length (buckets_values b))"
proof -
  let ?n = "buckets_get_nearest nw_bucketable srt b target None"
  obtain rest where r: "mset ?n + mset rest = mset (eligible nw_bucketable None (buckets_values b))"
    "sorted_wrt (\<lambda>a c. distance nw_bucketable target a \<le> distance nw_bucketable target c) ?n"
    "length ?n = min (b_k b) (length (eligible nw_bucketable None (buckets_values b)))"
    by (rule buckets_get_nearest_spec [OF assms(1)]) blast
  have el: "eligible nw_bucketable None (buckets_values b) = buckets_values b" by (simp add: eligible_def)
  have k: "b_k b = 8" and wf: "wf_buckets nw_bucketable b" using assms(2) by (simp_all add: search_inv_def)
  show "length ?n = min 8 (length (buckets_values b))" "length ?n \<le> 8" using r(3) el k by simp_all
  have sub: "mset ?n \<subseteq># mset (buckets_values b)" using r(1) el by (metis mset_subset_eq_add_left)
  have "distinct (map nw_id ?n)"
    using distinct_map_mset_subset [OF _ sub, of nw_id] assms(2) unfolding search_inv_def by blast
  then have "distinct (map (\<lambda>w. id_xor (nw_id w) target) ?n)"
    by (auto simp: distinct_map inj_on_def)
  then show "sorted_wrt (\<lambda>a c. id_xor (nw_id a) target < id_xor (nw_id c) target) ?n"
    using strictly_sorted [of "\<lambda>w. id_xor (nw_id w) target" ?n] r(2) by (simp add: distance_def)
  show "nw_node w \<in> A \<and> nw_id w \<noteq> target" if "w \<in> set ?n"
  proof -
    have "w \<in> set (buckets_values b)" using that sub set_mset_mono by fastforce
    then show ?thesis using wf_not_our_id [OF wf] assms(2) by (auto simp: search_inv_def)
  qed
qed

section \<open>Where results come from\<close>

fun result_nodes :: "Message res \<Rightarrow> Node set" where
  "result_nodes (Ok m) = (case message_type m of Response (FindNodeResponse args) \<Rightarrow> set (find_nodes args) | _ \<Rightarrow> {})"
| "result_nodes r = {}"

definition find_round_nodes :: "find_round \<Rightarrow> Node set" where
  "find_round_nodes r = nw_node ` set (fr_nodes r) \<union> (\<Union>res \<in> set (fr_results r). result_nodes (fst res))"

lemma handle_find_results_inv:
  "sort_law srt \<Longrightarrow> search_inv target A b \<Longrightarrow>
   search_inv target (A \<union> (\<Union>res \<in> set results. result_nodes (fst res))) (foldl (handle_find_result srt) b results)"
proof (induction results arbitrary: A b)
  case (Cons res results)
  have "search_inv target (A \<union> result_nodes (fst res)) (handle_find_result srt b res)"
    using add_nodes_inv [OF Cons.prems] Cons.prems(2)
    by (cases "fst res") (auto simp: handle_find_result_def split: MessageType.split ResponseSpecific.split)
  from Cons.IH [OF Cons.prems(1) this] show ?case by (simp add: Un_assoc)
qed simp

lemma find_node_run_inv:
  "sort_law srt \<Longrightarrow> search_inv target A (fst s) \<Longrightarrow>
   search_inv target (A \<union> (\<Union>r \<in> set rounds. find_round_nodes r)) (find_node_run srt ro target s rounds)"
proof (induction rounds arbitrary: A s)
  case (Cons r rounds)
  obtain b best where s: "s = (b, best)" by (cases s)
  note seeded = seed_buckets_inv [OF Cons.prems(1), of target A b "fr_nodes r"]
  have b: "search_inv target A b" using Cons.prems(2) s by simp
  have step: "case fst (find_node_round srt ro target s r) of
      Waited s' \<Rightarrow> search_inv target (A \<union> find_round_nodes r) (fst s')
    | Converged s' \<Rightarrow> search_inv target (A \<union> find_round_nodes r) (fst s')
    | Asked s' \<Rightarrow> search_inv target (A \<union> find_round_nodes r) (fst s')"
    using search_inv_mono [OF seeded [OF b], of "A \<union> find_round_nodes r"]
      handle_find_results_inv [OF Cons.prems(1) seeded [OF b], of "fr_results r"]
    by (auto simp: s find_node_round_def Let_def find_round_nodes_def Un_assoc)
  show ?case
  proof (cases "fst (find_node_round srt ro target s r)")
    case (Waited s')
    then show ?thesis using Cons.IH [OF Cons.prems(1), of "A \<union> find_round_nodes r" s'] step by (simp add: Un_assoc)
  next
    case (Converged s')
    then show ?thesis using step by (auto intro: search_inv_mono)
  next
    case (Asked s')
    then show ?thesis using Cons.IH [OF Cons.prems(1), of "A \<union> find_round_nodes r" s'] step by (simp add: Un_assoc)
  qed
qed simp

section \<open>The answers of \<open>get_peers\<close>\<close>

fun reply_values :: "(Node \<times> Message) res \<Rightarrow> (GetPeersResponder \<times> GetPeersResponseValues) option" where
  "reply_values (Ok (node, m)) = (case message_type m of
     Response (GetPeersResponse args) \<Rightarrow> Some (GetPeersResponder node (gp_token args), gp_values args) | _ \<Rightarrow> None)"
| "reply_values r = None"

definition answered :: "peers_round list \<Rightarrow> (GetPeersResponder \<times> GetPeersResponseValues) set" where
  "answered rounds = {a. \<exists>r \<in> set rounds. \<exists>res \<in> set (pr_results r). reply_values (fst res) = Some a}"

definition peers_of :: "(GetPeersResponder \<times> GetPeersResponseValues) set \<Rightarrow> SocketAddr set" where
  "peers_of A = {p. \<exists>a ps. (a, Peers ps) \<in> A \<and> p \<in> set ps}"

definition results_inv :: "(GetPeersResponder \<times> GetPeersResponseValues) set \<Rightarrow> get_peers_state \<Rightarrow> bool" where
  "results_inv A s \<longleftrightarrow> set (gs_responders s) \<subseteq> fst ` A \<and> set (gs_unique_peers s) \<subseteq> peers_of A \<and>
     distinct (gs_unique_peers s)"

lemma peers_of_insert [simp]:
  "peers_of (insert (a, Peers ps) A) = set ps \<union> peers_of A" "peers_of (insert (a, Nodes ns) A) = peers_of A"
  by (auto simp: peers_of_def)

lemma results_inv_mono: "results_inv A s \<Longrightarrow> A \<subseteq> B \<Longrightarrow> results_inv B s"
  by (fastforce simp: results_inv_def peers_of_def)

lemma insert_all_peers:
  "set (foldl (\<lambda>acc p. List.insert p acc) acc ps) = set acc \<union> set ps"
  "distinct acc \<Longrightarrow> distinct (foldl (\<lambda>acc p. List.insert p acc) acc ps)"
  by (induction ps arbitrary: acc) auto

lemma handle_get_peers_result_eq:
  "handle_get_peers_result srt s res = (case reply_values (fst res) of
     None \<Rightarrow> s
   | Some (a, Nodes ns) \<Rightarrow> s\<lparr>gs_responders := gs_responders s @ [a], gs_buckets := add_nodes srt (snd res) (gs_buckets s) ns\<rparr>
   | Some (a, Peers ps) \<Rightarrow> s\<lparr>gs_responders := gs_responders s @ [a],
       gs_unique_peers := foldl (\<lambda>acc p. List.insert p acc) (gs_unique_peers s) ps\<rparr>)"
  by (cases "fst res" rule: reply_values.cases)
    (auto simp: handle_get_peers_result_def Let_def split: MessageType.split ResponseSpecific.split GetPeersResponseValues.split)

lemma results_inv_handle:
  assumes "results_inv A s"
  shows "results_inv (A \<union> {a. reply_values (fst res) = Some a}) (handle_get_peers_result srt s res)"
proof (cases "reply_values (fst res)")
  case (Some x)
  obtain a v where x: "x = (a, v)" by (cases x)
  show ?thesis
  proof (cases v)
    case (Nodes ns)
    then have "{a. reply_values (fst res) = Some a} = {(a, Nodes ns)}" using Some x by auto
    then show ?thesis using assms Some x Nodes
      by (auto simp: handle_get_peers_result_eq results_inv_def)
  next
    case (Peers ps)
    then have "{a. reply_values (fst res) = Some a} = {(a, Peers ps)}" using Some x by auto
    then show ?thesis using assms Some x Peers
      by (auto simp: handle_get_peers_result_eq results_inv_def insert_all_peers)
  qed
qed (use assms in \<open>simp add: handle_get_peers_result_eq\<close>)

lemma results_inv_handle_all:
  "results_inv A s \<Longrightarrow> results_inv (A \<union> {a. \<exists>res \<in> set results. reply_values (fst res) = Some a})
     (foldl (handle_get_peers_result srt) s results)"
proof (induction results arbitrary: A s)
  case (Cons res results)
  from Cons.IH [OF results_inv_handle [OF Cons.prems, of res srt]] show ?case
    by (auto elim!: results_inv_mono)
qed simp

lemma get_peers_run_inv:
  "results_inv A s \<Longrightarrow> results_inv (A \<union> answered rounds) (get_peers_run srt ro info_hash s rounds)"
proof (induction rounds arbitrary: A s)
  case (Cons r rounds)
  let ?B = "A \<union> answered [r]"
  have sub: "?B \<union> answered rounds = A \<union> answered (r # rounds)" by (auto simp: answered_def)
  have same: "results_inv ?B (s\<lparr>gs_buckets := b\<rparr>)" "results_inv A (s\<lparr>gs_buckets := b, gs_best_ids := i\<rparr>)" for b i
    using Cons.prems results_inv_mono [OF Cons.prems, of ?B] by (auto simp: results_inv_def)
  have step: "case fst (get_peers_round srt ro info_hash s r) of
      Waited s' \<Rightarrow> results_inv ?B s' | Converged s' \<Rightarrow> results_inv ?B s' | Asked s' \<Rightarrow> results_inv ?B s'"
    using same(1) results_inv_handle_all [OF same(2), of "pr_results r" srt]
    by (auto simp: get_peers_round_def Let_def answered_def)
  show ?case
  proof (cases "fst (get_peers_round srt ro info_hash s r)")
    case (Waited s')
    then show ?thesis using Cons.IH [of ?B s'] step sub by simp
  next
    case (Converged s')
    then show ?thesis using step sub by (auto intro: results_inv_mono)
  next
    case (Asked s')
    then show ?thesis using Cons.IH [of ?B s'] step sub by simp
  qed
qed (simp add: answered_def)

lemma results_inv_start: "results_inv {} (get_peers_start info_hash)"
  by (simp add: results_inv_def get_peers_start_def)

section \<open>Too few candidates\<close>

lemma search_inv_count:
  assumes "search_inv target A b" and "node_id ` A \<subseteq> S" and "finite S"
  shows "length (buckets_values b) \<le> card S"
proof -
  have "set (map nw_id (buckets_values b)) \<subseteq> S" using assms(1,2) by (auto simp: search_inv_def nw_id_def)
  moreover have "card (set (map nw_id (buckets_values b))) = length (buckets_values b)"
    using assms(1) distinct_card [of "map nw_id (buckets_values b)"] by (simp add: search_inv_def)
  ultimately show ?thesis using card_mono [OF assms(3)] by metis
qed

lemma get_peers_run_starved:
  assumes "sort_law srt" and "finite S" and "card S \<le> 5"
  shows "search_inv info_hash A (gs_buckets s) \<Longrightarrow> node_id ` A \<subseteq> S \<Longrightarrow> (\<Union>r \<in> set rounds. nw_id ` set (pr_nodes r)) \<subseteq> S \<Longrightarrow>
    gs_responders (get_peers_run srt ro info_hash s rounds) = gs_responders s \<and>
    gs_unique_peers (get_peers_run srt ro info_hash s rounds) = gs_unique_peers s \<and>
    get_peers_requests srt ro info_hash s rounds = []"
proof (induction rounds arbitrary: A s)
  case (Cons r rounds)
  define b where "b = seed_buckets srt (gs_buckets s) (pr_nodes r)"
  have inv: "search_inv info_hash (A \<union> nw_node ` set (pr_nodes r)) b"
    unfolding b_def by (rule seed_buckets_inv [OF assms(1) Cons.prems(1)])
  have ids: "node_id ` (A \<union> nw_node ` set (pr_nodes r)) \<subseteq> S"
    using Cons.prems(2,3) by (auto simp: nw_id_def image_subset_iff)
  have "length (buckets_get_nearest nw_bucketable srt b info_hash None) \<le> 5"
    using search_nearest(4) [OF assms(1) inv] search_inv_count [OF inv ids assms(2)] assms(3) by simp
  then have "get_peers_round srt ro info_hash s r = (Waited (s\<lparr>gs_buckets := b\<rparr>), [])"
    by (simp add: get_peers_round_def Let_def b_def)
  then show ?case using Cons.IH [of "A \<union> nw_node ` set (pr_nodes r)" "s\<lparr>gs_buckets := b\<rparr>"] inv ids Cons.prems(3)
    by simp
qed simp

section \<open>The announcement\<close>

lemma announce_request_built:
  "\<exists>m b. fst (announce_request ro our_id info_hash port r rng) = Ok m \<and>
     message_type m = Request (AnnouncePeerRequest b) \<and> ap_info_hash b = info_hash \<and> ap_token b = responder_token r \<and>
     ap_requester_id b = our_id \<and> ap_implied_port b = Some (port = None) \<and>
     ap_port b = (case port of None \<Rightarrow> 0 | Some p \<Rightarrow> p) \<and> read_only m = Some ro"
  by (cases port)
    (simp_all add: announce_request_def build_defs builder_setters builder_new_def required_or_error_def Let_def)

lemma announce_accepted:
  assumes "message_type m = Request (AnnouncePeerRequest b)" and "sock_is_v4 addr"
    and "ap_token b = calculate_token (e_crc E) addr (st_token_secret st) \<or>
         ap_token b = calculate_token (e_crc E) addr (st_old_token_secret st)"
  shows "\<exists>st' m'. handle_request E st (AnnouncePeerRequest b) addr m inp = (st', Ok (Some m')) \<and>
    st_peer_storage st' = ps_announce_peer (e_outer E) (e_inner E) (st_peer_storage st) (ap_info_hash b)
      (if ap_implied_port b = Some True then addr else sock_set_port addr (ap_port b)) (hi_clock inp)"
proof -
  obtain st2 where c: "common_request_handling E st addr m inp = Ok st2"
    using common_request_handling_v4 [OF assms(1,2)] by blast
  obtain m' where "build (set_requester_ip addr (set_transaction_id (transaction_id m)
      (set_sender_id (st_our_id st2) (builder_new BAnnouncePeerResponse)))) (0, 0) = Ok m'"
    using announce_builds by blast
  then show ?thesis using assms(3) common_request_handling_identity [OF c]
    by (auto simp: handle_request_unfold c announce_peer_reply_def Let_def same_identity_def)
qed

text \<open>What \<open>announce_peer\<close> returns: only nodes that it sent an announcement to.\<close>

lemma announced_to_targets:
  "\<forall>x \<in> set completed. fst x < length targets \<Longrightarrow> set (announced_to targets completed) \<subseteq> responder_node ` set targets"
  by (induction targets completed rule: announced_to.induct) auto

lemma announce_peer_nodes:
  assumes "announce_peer srt rsrt iter ro our_id info_hash port boot rounds tids completed = (requests, nodes)"
    and "\<forall>x \<in> set completed. fst x < length requests"
  shows "\<forall>n \<in> set nodes. \<exists>r \<in> set requests. snd r = (node_address n, Some (node_id n))"
proof
  fix n
  let ?res = "get_peers srt rsrt iter ro info_hash boot rounds"
  assume "n \<in> set nodes"
  moreover have eqs: "requests = announce_requests ro our_id info_hash port ?res tids"
    "nodes = announced_to (announce_targets ?res) completed"
    using assms(1) by (simp_all add: announce_peer_def Let_def)
  then have "length requests = length (announce_targets ?res)" by (simp add: announce_requests_def)
  then have "set nodes \<subseteq> responder_node ` set (announce_targets ?res)"
    using assms(2) announced_to_targets [of completed "announce_targets ?res"] eqs(2) by simp
  ultimately obtain t where t: "t \<in> set (announce_targets ?res)" "n = responder_node t" by blast
  then obtain i where i: "i < length (announce_targets ?res)" "announce_targets ?res ! i = t" by (auto simp: in_set_conv_nth)
  have "requests ! i = announce_request ro our_id info_hash port t (tids i)"
    using i by (simp add: eqs(1) announce_requests_def nth_enumerate_eq)
  moreover have "i < length requests" using i(1) by (simp add: eqs(1) announce_requests_def)
  ultimately have "announce_request ro our_id info_hash port t (tids i) \<in> set requests" by (metis nth_mem)
  moreover have "snd (announce_request ro our_id info_hash port t (tids i)) = (node_address n, Some (node_id n))"
    using t(2) by (simp add: announce_request_def)
  ultimately show "\<exists>r \<in> set requests. snd r = (node_address n, Some (node_id n))" by blast
qed

text \<open>The result of a search.\<close>

lemma find_node_spec:
  assumes "sort_law srt"
  shows "length (find_node srt ro target rounds) \<le> 8 \<and>
    sorted_wrt (\<lambda>a b. id_xor (node_id a) target < id_xor (node_id b) target) (find_node srt ro target rounds) \<and>
    set (find_node srt ro target rounds) \<subseteq> (\<Union>r \<in> set rounds. find_round_nodes r) - {n. node_id n = target}"
proof -
  let ?b = "find_node_run srt ro target (buckets_new target 8, []) rounds"
  have inv: "search_inv target (\<Union>r \<in> set rounds. find_round_nodes r) ?b"
    using find_node_run_inv [OF assms, of target "{}" "(buckets_new target 8, [])" rounds ro] search_inv_new by simp
  note near = search_nearest [OF assms inv]
  show ?thesis
    using near(1,2) near(3) unfolding find_node_def Let_def
    by (auto simp: sorted_wrt_map nw_id_def)
qed

section \<open>Properties\<close>

text \<open>
  C17. What \<open>find_node\<close> returns, whatever the network answers and wherever the timeout strikes: at most
  eight nodes, strictly ordered by distance to the target (so no id twice), each one either known to
  our node or named in a response to the search. The node whose id is the target itself is never
  among them, even when it is known: the table around the target never stores it.
\<close>

theorem find_node_result:
  assumes "sort_law srt"
  shows "length (find_node srt ro target rounds) \<le> 8 \<and>
    sorted_wrt (\<lambda>a b. id_xor (node_id a) target < id_xor (node_id b) target) (find_node srt ro target rounds) \<and>
    set (find_node srt ro target rounds) \<subseteq> (\<Union>r \<in> set rounds. find_round_nodes r) - {n. node_id n = target}"
  by (rule find_node_spec [OF assms])

theorem find_node_result_witness:
  "find_node insertion_sort False (sample_id 1 0)
     [\<lparr>fr_nodes = [nw_new (sample_node 1 1) 5, nw_new (sample_node 2 2) 6], fr_our_id = id_zero, fr_tids = (\<lambda>i. (0, 0)), fr_results = []\<rparr>]
   = [sample_node 2 2] \<and> node_id (sample_node 1 1) = sample_id 1 0"
proof -
  let ?r = "\<lparr>fr_nodes = [nw_new (sample_node 1 1) 5, nw_new (sample_node 2 2) 6], fr_our_id = id_zero, fr_tids = (\<lambda>i. (0, 0)), fr_results = []\<rparr>"
  have len: "length (find_node insertion_sort False (sample_id 1 0) [?r]) = 1" by code_simp
  have id: "node_id (sample_node 1 1) = sample_id 1 0" by (simp add: sample_node_def)
  have "set (find_node insertion_sort False (sample_id 1 0) [?r]) \<subseteq> {sample_node 2 2}"
    using find_node_result [OF sort_law_insertion_sort, of False "sample_id 1 0" "[?r]"] id
    by (auto simp: find_round_nodes_def nw_new_def)
  then show ?thesis using len id by (cases "find_node insertion_sort False (sample_id 1 0) [?r]") auto
qed

text \<open>
  C18. What \<open>get_peers\<close> returns: the responders, nearest to the info hash first, are nodes that answered
  with a get_peers response, each with the token of its own answer; and every peer was named in such
  an answer, and is listed once, whatever the order of the hash set.
\<close>

theorem get_peers_search_result:
  assumes "sort_law rsrt" and "\<forall>xs. mset (iter xs) = mset xs"
    and "get_peers srt rsrt iter ro info_hash boot rounds = GetPeersResult h peers responders"
  shows "h = info_hash \<and>
    sorted_wrt (\<lambda>a b. id_xor (node_id (responder_node a)) info_hash \<le> id_xor (node_id (responder_node b)) info_hash) responders \<and>
    set responders \<subseteq> fst ` answered rounds \<and> set peers \<subseteq> peers_of (answered rounds) \<and> distinct peers"
proof -
  let ?s = "get_peers_run srt ro info_hash (get_peers_start info_hash) rounds"
  have tp: "total_preorder (closer_responder info_hash)"
    unfolding closer_responder_def [abs_def] by (rule total_preorder_key)
  have inv: "results_inv (answered rounds) ?s"
    using get_peers_run_inv [OF results_inv_start, of rounds srt ro info_hash info_hash] by simp
  have eq: "h = info_hash" "peers = iter (gs_unique_peers ?s)" "responders = rsrt (closer_responder info_hash) (gs_responders ?s)"
    using assms(3) by (auto simp: get_peers_def get_peers_result_new_def Let_def)
  have "set responders = set (gs_responders ?s)" using sort_law_set [OF assms(1) tp] eq(3) by simp
  moreover have "set peers = set (gs_unique_peers ?s)" "distinct peers = distinct (gs_unique_peers ?s)"
    using assms(2) eq(2) by (metis set_mset_mset) (metis assms(2) eq(2) mset_eq_imp_distinct_iff)
  ultimately show ?thesis
    using inv eq(1) sort_law_sorted [OF assms(1) tp, of "gs_responders ?s", folded eq(3)]
    by (simp add: results_inv_def closer_responder_def [abs_def])
qed

theorem get_peers_search_result_witness:
  "\<exists>h peers responders. get_peers insertion_sort insertion_sort id False (sample_id 1 0) []
       [\<lparr>pr_nodes = map (\<lambda>i. nw_new (sample_node i 2) 6) [2, 3, 4, 5, 6, 7], pr_our_id = id_zero, pr_tids = (\<lambda>i. (0, 0)),
         pr_results = [(Ok (sample_node 2 2, \<lparr>transaction_id = [1], version = None, requester_ip = None,
            message_type = Response (GetPeersResponse (GetPeersResponseArguments (sample_id 2 0) [7] (Peers [sample_addr 9]))),
            read_only = None\<rparr>), \<lambda>i. 0)]\<rparr>] = GetPeersResult h peers responders \<and>
     peers = [sample_addr 9] \<and> responders = [GetPeersResponder (sample_node 2 2) [7]] \<and> h = sample_id 1 0"
proof -
  let ?m = "\<lparr>transaction_id = [1], version = None, requester_ip = None,
    message_type = Response (GetPeersResponse (GetPeersResponseArguments (sample_id 2 0) [7] (Peers [sample_addr 9]))), read_only = None\<rparr>"
  let ?r = "\<lparr>pr_nodes = map (\<lambda>i. nw_new (sample_node i 2) 6) [2, 3, 4, 5, 6, 7], pr_our_id = id_zero, pr_tids = (\<lambda>i. (0, 0)),
    pr_results = [(Ok (sample_node 2 2, ?m), \<lambda>i. 0)]\<rparr>"
  have len: "length (result_peers (get_peers insertion_sort insertion_sort id False (sample_id 1 0) [] [?r])) = 1"
    "length (result_responders (get_peers insertion_sort insertion_sort id False (sample_id 1 0) [] [?r])) = 1"
    by code_simp+
  obtain h peers responders where g: "get_peers insertion_sort insertion_sort id False (sample_id 1 0) [] [?r] = GetPeersResult h peers responders"
    by (cases "get_peers insertion_sort insertion_sort id False (sample_id 1 0) [] [?r]")
  have "answered [?r] = {(GetPeersResponder (sample_node 2 2) [7], Peers [sample_addr 9])}"
    by (simp add: answered_def)
  then have "h = sample_id 1 0" "set responders \<subseteq> {GetPeersResponder (sample_node 2 2) [7]}" "set peers \<subseteq> {sample_addr 9}"
    using get_peers_search_result [OF sort_law_insertion_sort _ g] by (auto simp: peers_of_def)
  moreover have "length peers = 1" "length responders = 1" using len g by simp_all
  ultimately show ?thesis using g by (cases peers; cases responders) auto
qed

text \<open>
  C20. With at most five known nodes the search of \<open>get_peers\<close> is blind: as long as the node itself never offers more
  than five different ids, the search loop sends no get_peers request, and \<open>get_peers\<close> returns no peer and no
  responder, however long it runs. (The guard waits for the node to bootstrap, but a small network never gets past
  it. \<open>get_peers\<close> runs \<open>find_node\<close> first, which does send find_node requests, but drops what it finds:
  its rounds \<open>boot\<close> are arbitrary here.)
\<close>

theorem get_peers_needs_six_nodes:
  assumes "sort_law srt" and "sort_law rsrt" and "\<forall>xs. mset (iter xs) = mset xs"
    and "card (\<Union>r \<in> set rounds. nw_id ` set (pr_nodes r)) \<le> 5"
  shows "get_peers_requests srt ro info_hash (get_peers_start info_hash) rounds = [] \<and>
    get_peers srt rsrt iter ro info_hash boot rounds = GetPeersResult info_hash [] []"
proof -
  have fin: "finite (\<Union>r \<in> set rounds. nw_id ` set (pr_nodes r))" by simp
  have tp: "total_preorder (closer_responder info_hash)"
    unfolding closer_responder_def [abs_def] by (rule total_preorder_key)
  have "iter [] = []" "rsrt (closer_responder info_hash) [] = []"
    using assms(3) sort_law_set [OF assms(2) tp, of "[]"] by (metis mset_zero_iff, simp)
  then show ?thesis
    using get_peers_run_starved [OF assms(1) fin assms(4), of info_hash "{}" "get_peers_start info_hash" rounds ro]
      search_inv_new [of info_hash]
    by (simp add: get_peers_def get_peers_start_def get_peers_result_new_def Let_def)
qed

theorem get_peers_needs_six_nodes_witness:
  "\<exists>r. length (pr_nodes r) = 5 \<and> length (pr_results r) = 1 \<and>
     get_peers_requests insertion_sort False (sample_id 1 0) (get_peers_start (sample_id 1 0)) [r] = [] \<and>
     get_peers insertion_sort insertion_sort id False (sample_id 1 0) [] [r] = GetPeersResult (sample_id 1 0) [] []"
proof -
  let ?ns = "map (\<lambda>i. nw_new (sample_node i 2) 6) [2, 3, 4, 5, 6]"
  let ?r = "\<lparr>pr_nodes = ?ns, pr_our_id = id_zero, pr_tids = (\<lambda>i. (0, 0)),
       pr_results = [(Ok (sample_node 2 2, \<lparr>transaction_id = [1], version = None, requester_ip = None,
         message_type = Response (GetPeersResponse (GetPeersResponseArguments (sample_id 2 0) [7] (Peers [sample_addr 9]))),
         read_only = None\<rparr>), \<lambda>i. 0)]\<rparr>"
  have "card (nw_id ` set ?ns) \<le> 5"
    using card_image_le [of "set ?ns" nw_id] card_length [of ?ns] by simp
  then have c: "card (\<Union>r \<in> set [?r]. nw_id ` set (pr_nodes r)) \<le> 5" by simp
  have i: "\<forall>xs. mset (id xs) = mset xs" by simp
  have "length (pr_nodes ?r) = 5" "length (pr_results ?r) = 1" by simp_all
  then show ?thesis
    using get_peers_needs_six_nodes [OF sort_law_insertion_sort sort_law_insertion_sort i c, of False "sample_id 1 0" "[]"]
    by blast
qed

text \<open>
  C19. An announcement fits the node it goes to: each of the at most eight requests is built without
  error, goes to the responder itself, names the info hash and carries the token of that very
  responder. A node running this code accepts it, provided the token is the one it gives to our
  address, and stores our address with the given port, or with the port we send from when no port
  was given.
\<close>

theorem announcement_is_accepted:
  assumes "i < length (announce_requests ro our_id info_hash port res tids)"
    and "announce_targets res ! i = GetPeersResponder node token" and "sock_is_v4 our_addr"
    and "token \<in> {calculate_token (e_crc E) our_addr (st_token_secret st), calculate_token (e_crc E) our_addr (st_old_token_secret st)}"
  shows "length (announce_requests ro our_id info_hash port res tids) \<le> 8 \<and>
    (\<exists>m b st' m'. announce_requests ro our_id info_hash port res tids ! i = (Ok m, node_address node, Some (node_id node)) \<and>
       message_type m = Request (AnnouncePeerRequest b) \<and>
       handle_request E st (AnnouncePeerRequest b) our_addr m inp = (st', Ok (Some m')) \<and>
       st_peer_storage st' = ps_announce_peer (e_outer E) (e_inner E) (st_peer_storage st) info_hash
         (case port of None \<Rightarrow> our_addr | Some p \<Rightarrow> sock_set_port our_addr p) (hi_clock inp))"
proof -
  let ?r = "GetPeersResponder node token"
  have len: "length (announce_requests ro our_id info_hash port res tids) = length (announce_targets res)"
    by (simp add: announce_requests_def)
  have nth: "announce_requests ro our_id info_hash port res tids ! i = announce_request ro our_id info_hash port ?r (tids i)"
    using assms(1,2) by (simp add: announce_requests_def nth_enumerate_eq)
  obtain m b where b: "fst (announce_request ro our_id info_hash port ?r (tids i)) = Ok m"
    "message_type m = Request (AnnouncePeerRequest b)" "ap_info_hash b = info_hash" "ap_token b = token"
    "ap_implied_port b = Some (port = None)" "ap_port b = (case port of None \<Rightarrow> 0 | Some p \<Rightarrow> p)"
    using announce_request_built [of ro our_id info_hash port ?r "tids i"] by auto
  obtain st' m' where "handle_request E st (AnnouncePeerRequest b) our_addr m inp = (st', Ok (Some m'))"
    "st_peer_storage st' = ps_announce_peer (e_outer E) (e_inner E) (st_peer_storage st) info_hash
      (if ap_implied_port b = Some True then our_addr else sock_set_port our_addr (ap_port b)) (hi_clock inp)"
    using announce_accepted [OF b(2) assms(3), of E st inp] assms(4) b(3,4) by auto
  moreover have "(if ap_implied_port b = Some True then our_addr else sock_set_port our_addr (ap_port b)) =
      (case port of None \<Rightarrow> our_addr | Some p \<Rightarrow> sock_set_port our_addr p)"
    using b(5,6) by (cases port) simp_all
  moreover have "announce_requests ro our_id info_hash port res tids ! i = (Ok m, node_address node, Some (node_id node))"
    using nth b(1) by (simp add: announce_request_def)
  ultimately show ?thesis using b(2) len by (auto simp: announce_targets_def)
qed

theorem announcement_is_accepted_witness:
  "\<exists>m b st' m'. announce_requests False id_zero (sample_id 1 0) (Some 80)
       (GetPeersResult (sample_id 1 0) [] [GetPeersResponder (sample_node 2 2) (calculate_token sample_crc (sample_addr 1) [1, 2, 3])])
       (\<lambda>i. (0, 0)) ! 0 = (Ok m, sample_addr 2, Some (sample_id 2 0)) \<and>
     handle_request sample_env sample_state (AnnouncePeerRequest b) (sample_addr 1) m sample_input = (st', Ok (Some m'))"
proof -
  let ?r = "GetPeersResponder (sample_node 2 2) (calculate_token sample_crc (sample_addr 1) [1, 2, 3])"
  let ?res = "GetPeersResult (sample_id 1 0) [] [?r]"
  have hyp: "0 < length (announce_requests False id_zero (sample_id 1 0) (Some 80) ?res (\<lambda>i. (0, 0)))"
    "announce_targets ?res ! 0 = ?r"
    by (simp_all add: announce_requests_def announce_targets_def)
  have tok: "calculate_token sample_crc (sample_addr 1) [1, 2, 3] \<in> {calculate_token (e_crc sample_env) (sample_addr 1) (st_token_secret sample_state),
      calculate_token (e_crc sample_env) (sample_addr 1) (st_old_token_secret sample_state)}"
    by (simp add: sample_env_def sample_state_def)
  from announcement_is_accepted [OF hyp sample_addr_v4 tok, of sample_input] show ?thesis
    by (fastforce simp: sample_node_def)
qed

end
