(* ===== verification/Dht_Served.thy ===== *)
theory Dht_Served
  imports Dht_Sizes Dht_OperationsProps
begin

text \<open>
  From an announcement to the peers handed out: between announcements no step of a node touches its swarms, so an
  announced address is in the answer to every later get_peers request for its info hash while it is fresh
  (\<open>src/dht/dht.rs\<close> and \<open>src/storage/peer_storage.rs\<close> together).
\<close>

section \<open>Steps without announcements\<close>

definition quiet :: "dht_event \<Rightarrow> bool" where
  "quiet e = (case packet_of e of
     Some (msg, addr) \<Rightarrow> (case message_type msg of Request (AnnouncePeerRequest b) \<Rightarrow> False | _ \<Rightarrow> True)
   | None \<Rightarrow> True)"

lemma reply_listing:
  assumes "request_reply E st req addr msg inp = (st', r)" and "\<forall>b. req \<noteq> AnnouncePeerRequest b"
  shows "st_peer_storage st' = st_peer_storage st \<or>
    (\<exists>h nt. st_peer_storage st' = fst (ps_get_peers (e_outer E) (e_inner E) (st_peer_storage st) h nt))"
proof (cases req)
  case (GetPeersRequest a)
  then have "st' = fst (get_peers_reply E st addr msg a inp)" using assms by (auto simp: request_reply_def split: prod.splits)
  then show ?thesis by (auto simp: get_peers_reply_state)
qed (use assms in \<open>auto simp: request_reply_def\<close>)

lemma ps_get_peers_limit [simp]:
  "ps_max_peers_per_torrent (fst (ps_get_peers OC IC s h nt)) = ps_max_peers_per_torrent s"
  "ps_max_peers_per_torrent (fst (ps_get_peers_info OC IC s h nt)) = ps_max_peers_per_torrent s"
  by (simp_all add: ps_get_peers_def ps_get_peers_info_def Let_def split: prod.split option.split)

lemma listing_limit [simp]:
  "ps_max_peers_per_torrent (fst (foldl (\<lambda>(ps, acc) hash.
      case ps_get_peers_info OC IC ps hash nt of (ps', pi) \<Rightarrow> (ps', acc @ [(hash, pi)])) (s, acc) hs)) =
    ps_max_peers_per_torrent s"
  by (induction hs arbitrary: s acc) (simp_all add: case_prod_beta)

context node_env
begin

lemma reply_limit:
  assumes "caches.ps_inv (st_peer_storage st)" and "request_reply E st req addr msg inp = (st', r)"
  shows "ps_max_peers_per_torrent (st_peer_storage st') = ps_max_peers_per_torrent (st_peer_storage st)"
proof -
  have "ps_max_peers_per_torrent (ps_announce_peer (e_outer E) (e_inner E) (st_peer_storage st) h a t) =
      ps_max_peers_per_torrent (st_peer_storage st)" for h a t
    using caches.announce_cases [OF assms(1), of h a t] by metis
  then show ?thesis using request_reply_storage [OF assms(2)] by auto
qed

lemma reply_quiet:
  assumes "caches.ps_inv (st_peer_storage st)" and "request_reply E st req addr msg inp = (st', r)"
    and "\<forall>b. req \<noteq> AnnouncePeerRequest b"
  shows "swarm st' = swarm st"
proof -
  have "swarm_of (e_outer E) (e_inner E) (fst (ps_get_peers (e_outer E) (e_inner E) (st_peer_storage st) h nt)) = swarm st" for h nt
    using caches.get_peers_info_result(3) [OF assms(1)] by (simp add: ps_get_peers_def Let_def case_prod_beta)
  then show ?thesis using reply_listing [OF assms(2,3)] by auto
qed

text \<open>What a packet does to the swarms is what the section that makes the reply does.\<close>

lemma request_storage:
  assumes "handle_request E st req addr msg inp = (st', r)"
  shows "st_peer_storage st' = st_peer_storage st \<or> (\<exists>st0.
    st_peer_storage st0 = st_peer_storage st \<and> request_reply E st0 req addr msg inp = (st', r))"
proof (cases "common_request_handling E st addr msg inp")
  case (Ok st0)
  then have "request_reply E st0 req addr msg inp = (st', r)" using assms by (simp add: handle_request_def)
  then show ?thesis using common_request_handling_identity [OF Ok] by blast
qed (use assms in \<open>auto simp: handle_request_def\<close>)

definition replied :: "Message \<Rightarrow> SocketAddr \<Rightarrow> ('i, 'n, 'o) DHTState \<Rightarrow> ('i, 'n, 'o) DHTState \<Rightarrow> bool" where
  "replied msg addr st st' \<longleftrightarrow> (\<exists>req inp q st0 st1. message_type msg = Request req \<and>
     st_peer_storage st0 = st_peer_storage st \<and> request_reply E st0 req addr msg inp = (st1, q) \<and>
     st_peer_storage st' = st_peer_storage st1)"

lemma packet_storage:
  assumes "accept_body E ro thr st sock (msg, addr) inp c c' = (thr', st', sock', r)"
  shows "st_peer_storage st' = st_peer_storage st \<or> replied msg addr st st'"
  using assms
proof (cases rule: accept_body_cases)
  case (3 st1)
  have eq: "st_peer_storage st' = st_peer_storage st1" using 3(3) by (simp add: frame_simps)
  show ?thesis
  proof (cases "message_type msg")
    case (Request req)
    have "st1 = fst (handle_request E st req addr msg inp)"
      using 3(2) Request by (auto simp: accept_single_packet_def split: prod.splits res.splits option.splits)
    then obtain q where "handle_request E st req addr msg inp = (st1, q)" by (metis prod.collapse)
    from request_storage [OF this] show ?thesis using Request eq unfolding replied_def by metis
  qed (use 3(2) eq in \<open>auto simp: accept_single_packet_def\<close>)
qed (simp_all add: frame_simps)

lemma step_with_packet:
  assumes "dht_step E (thr, st) e (thr', st')" and "packet_of e = Some (msg, addr)"
  shows "st_peer_storage st' = st_peer_storage st \<or> replied msg addr st st'"
  using assms(1)
proof cases
  case (incoming sock pkt inp c c' r)
  then show ?thesis using packet_storage [of _ thr st sock msg addr inp c c'] assms(2) by auto
next
  case (make_reply msg' req addr' inp reply)
  then show ?thesis using assms(2) by (auto simp: replied_def)
qed (use assms(2) in auto)

text \<open>A step with no packet does not touch the swarms; a listing only reads them.\<close>

lemma step_without_packet:
  assumes "node_inv m st" and "dht_step E (thr, st) e (thr', st')" and "packet_of e = None"
  shows "swarm st' = swarm st \<and>
    ps_max_peers_per_torrent (st_peer_storage st') = ps_max_peers_per_torrent (st_peer_storage st)"
  using assms(2)
proof cases
  case (seen_request msg req addr inp)
  then show ?thesis using common_request_handling_identity [OF seen_request(5)] by simp
next
  case (own_response target reply clk r)
  then show ?thesis using handle_own_response_run [OF own_response(3)] by auto
next
  case (record_responder reply v clk' target)
  then show ?thesis using record_responder_run [OF record_responder(3,4)] by (auto simp: response_frame_def)
next
  case (record_nodes reply v clk)
  have "st_peer_storage st' = st_peer_storage st" by (subst record_found_nodes_frame [OF record_nodes(3,4)]) simp
  then show ?thesis by simp
next
  case (maintenance r g rest)
  from maintenance(3) show ?thesis by (cases rule: ip4_maintenance_turn_cases) simp_all
next
  case (listing newer_than infos)
  have "storage_ok m (st_peer_storage st)" using assms(1) by (simp add: node_inv_def)
  from swarm_listing [OF this] show ?thesis by (simp add: listing_storage [OF listing(3)])
qed (use assms(3) in \<open>auto simp: rotate_token_secrets_def dht_subscribe_def buddy_ping_turn_def Let_def frame_simps\<close>)

lemma step_limit:
  assumes "node_inv m st" and "dht_step E (thr, st) e (thr', st')"
  shows "ps_max_peers_per_torrent (st_peer_storage st') = ps_max_peers_per_torrent (st_peer_storage st)"
proof (cases "packet_of e")
  case (Some pkt)
  obtain msg addr where pkt: "pkt = (msg, addr)" by (cases pkt)
  have "caches.ps_inv (st_peer_storage st)" using assms(1) by (simp add: node_inv_def storage_ok_def)
  then show ?thesis
    using step_with_packet [OF assms(2) Some [unfolded pkt]] reply_limit unfolding replied_def by metis
qed (use step_without_packet [OF assms] in blast)

lemma step_quiet:
  assumes "node_inv m st" and "dht_step E (thr, st) e (thr', st')" and "quiet e"
  shows "swarm st' = swarm st"
proof (cases "packet_of e")
  case (Some pkt)
  obtain msg addr where pkt: "pkt = (msg, addr)" by (cases pkt)
  have ok: "caches.ps_inv (st_peer_storage st)" using assms(1) by (simp add: node_inv_def storage_ok_def)
  from step_with_packet [OF assms(2) Some [unfolded pkt]] show ?thesis
  proof
    assume "replied msg addr st st'"
    then obtain req inp q st0 st1 where r: "message_type msg = Request req" "st_peer_storage st0 = st_peer_storage st"
      "request_reply E st0 req addr msg inp = (st1, q)" "st_peer_storage st' = st_peer_storage st1"
      unfolding replied_def by blast
    have "\<forall>b. req \<noteq> AnnouncePeerRequest b" using assms(3) r(1) Some pkt by (auto simp: quiet_def)
    from reply_quiet [OF _ r(3) this] show ?thesis using r(2,4) ok by simp
  qed simp
qed (use step_without_packet [OF assms(1,2)] in blast)

lemma steps_limit:
  "dht_steps E s evs t \<Longrightarrow> node_inv m (snd s) \<Longrightarrow>
   ps_max_peers_per_torrent (st_peer_storage (snd t)) = ps_max_peers_per_torrent (st_peer_storage (snd s))"
proof (induction rule: dht_steps.induct)
  case (more evs t e u)
  then show ?case using step_limit [of m "snd t" "fst t" e "fst u" "snd u"] node_inv_steps [OF more.hyps(1) more.prems] by simp
qed simp

lemma steps_quiet:
  "dht_steps E s evs t \<Longrightarrow> node_inv m (snd s) \<Longrightarrow> list_all quiet evs \<Longrightarrow> swarm (snd t) = swarm (snd s)"
proof (induction rule: dht_steps.induct)
  case (more evs t e u)
  then show ?case using step_quiet [of m "snd t" "fst t" e "fst u" "snd u"] node_inv_steps [OF more.hyps(1) more.prems(1)] by simp
qed simp

lemma announcement_in_swarm:
  assumes "node_inv m st"
  shows "(a, PeerInfo a t) \<in> set (swarm_of (e_outer E) (e_inner E) (ps_announce_peer (e_outer E) (e_inner E) (st_peer_storage st) h a t) h)"
  using assms by (intro caches.announced_in_swarm) (simp add: node_inv_def storage_ok_def)

text \<open>A fresh entry of a swarm is in the answer, if the answer has room for the whole swarm.\<close>

lemma swarm_served:
  assumes "node_inv m st" and "(a, p) \<in> set (swarm st (gp_info_hash g))" and "sock_is_v4 a"
    and "hi_clock inp < pi_last_updated p + dur_from_secs (cfg_get_peers_freshness_secs (st_settings st))"
    and "ps_max_peers_per_torrent (st_peer_storage st) \<le> cfg_max_peers_response (st_settings st)"
    and "message_type msg = Request (GetPeersRequest g)" and "sock_is_v4 addr"
  shows "\<exists>st' m' v ps. handle_request E st (GetPeersRequest g) addr msg inp = (st', Ok (Some m')) \<and>
    message_type m' = Response (GetPeersResponse v) \<and> gp_values v = Peers ps \<and> a \<in> set ps"
proof -
  obtain st1 where c: "common_request_handling E st addr msg inp = Ok st1"
    using common_request_handling_v4 [OF assms(6,7)] by blast
  note id = common_request_handling_identity [OF c]
  have eqs: "st_peer_storage st1 = st_peer_storage st" "st_settings st1 = st_settings st"
    using id by (simp_all add: same_identity_def)
  let ?nt = "instant_checked_sub (hi_clock inp) (dur_from_secs (cfg_get_peers_freshness_secs (st_settings st)))"
  let ?all = "snd (ps_get_peers (e_outer E) (e_inner E) (st_peer_storage st) (gp_info_hash g) ?nt)"
  have ok: "caches.ps_inv (st_peer_storage st)" using assms(1) by (simp add: node_inv_def storage_ok_def)
  have "newer ?nt p" using assms(4) by (auto simp: newer_def instant_checked_sub_def)
  moreover have "is_v4 (sock_ip a)" using assms(3) by (simp add: sock_is_v4_def)
  ultimately have mem: "a \<in> set ?all" unfolding caches.get_peers_result [OF ok] using assms(2) by force
  have "length ?all \<le> length (swarm st (gp_info_hash g))" by (simp add: caches.get_peers_result [OF ok])
  then have le: "length ?all \<le> cfg_max_peers_response (st_settings st)"
    using caches.swarm_bounded [OF ok, of "gp_info_hash g"] assms(5) by linarith
  then have all: "take (cfg_max_peers_response (st_settings st)) ?all = ?all" by simp
  have "0 < length ?all" using mem by (cases ?all) simp_all
  then have "0 < cfg_max_peers_response (st_settings st)" using le by linarith
  then show ?thesis using mem all
    by (auto simp: handle_request_unfold c get_peers_reply_def Let_def case_prod_beta eqs reply_setters build_defs)
qed

end

section \<open>Accepting the announcement\<close>

lemma announce_stored:
  assumes "dht_step E (thr, st) (Incoming sock (msg, addr) inp k k') (thr', st')" and "\<not> cfg_read_only (st_settings st)"
    and "check_throttle thr (sock_ip addr) None None k k' = Ok (thr1, False)" and "sock_port addr \<noteq> 0" and "sock_is_v4 addr"
    and "message_type msg = Request (AnnouncePeerRequest b)"
    and "ap_token b \<in> {calculate_token (e_crc E) addr (st_token_secret st), calculate_token (e_crc E) addr (st_old_token_secret st)}"
  shows "st_peer_storage st' = ps_announce_peer (e_outer E) (e_inner E) (st_peer_storage st) (ap_info_hash b)
    (if ap_implied_port b = Some True then addr else sock_set_port addr (ap_port b)) (hi_clock inp)"
proof -
  obtain st1 m' where h: "handle_request E st (AnnouncePeerRequest b) addr msg inp = (st1, Ok (Some m'))"
    "st_peer_storage st1 = ps_announce_peer (e_outer E) (e_inner E) (st_peer_storage st) (ap_info_hash b)
      (if ap_implied_port b = Some True then addr else sock_set_port addr (ap_port b)) (hi_clock inp)"
    using announce_accepted [OF assms(6,5)] assms(7) by blast
  have "st_peer_storage st' = st_peer_storage st1"
    using assms(1-4) assms(6) h(1)
    by (auto simp: dht_step_simps accept_body_def accept_single_packet_def frame_simps split: prod.splits res.splits)
  then show ?thesis using h(2) by simp
qed

lemma history_settings:
  assumes "started E ook ocap iok icap c st" and "dht_steps E (thr, st) evs (thr', st')"
  shows "st_settings st' = dc_settings c"
    and "ps_max_peers_per_torrent (st_peer_storage st') = cfg_max_peers_per_torrent (dc_settings c)"
proof -
  have "st_settings st = dc_settings c \<and> ps_max_peers_per_torrent (st_peer_storage st) = cfg_max_peers_per_torrent (dc_settings c)"
    using assms(1) by (auto simp: started_def dht_new_def peer_storage_new_def Let_def)
  then show "st_settings st' = dc_settings c"
    "ps_max_peers_per_torrent (st_peer_storage st') = cfg_max_peers_per_torrent (dc_settings c)"
    using steps_settings [OF assms(2)]
      node_env.steps_limit [OF started_inv(1) [OF assms(1)] assms(2)] started_inv(2) [OF assms(1)] by simp_all
qed

section \<open>Property\<close>

text \<open>
  C5. A peer that announces itself is handed out: a node that answers requests, after any history, takes an announcement
  with a token of one of its secrets from an unthrottled IPv4 packet. After any further steps without announcements
  (rotations of the secrets, maintenance, listings, answers and other requests included) its answer to whoever asks for
  that info hash, before the announcement is older than \<open>get_peers_freshness_secs\<close>, is a list of peers with the
  announced address in it. The settings must let an answer hold a full swarm, as the default settings do.
\<close>

theorem announced_peer_is_handed_out:
  assumes "started E ook ocap iok icap c st0" and "\<not> cfg_read_only (dc_settings c)"
    and "cfg_max_peers_per_torrent (dc_settings c) \<le> cfg_max_peers_response (dc_settings c)"
    and "dht_steps E (thr0, st0) evs (thr, st)"
    and "dht_step E (thr, st) (Incoming sock (msg, addr) inp k k') (thr1, st1)"
    and "check_throttle thr (sock_ip addr) None None k k' = Ok (thr', False)" and "sock_port addr \<noteq> 0" and "sock_is_v4 addr"
    and "message_type msg = Request (AnnouncePeerRequest b)"
    and "ap_token b \<in> {calculate_token (e_crc E) addr (st_token_secret st), calculate_token (e_crc E) addr (st_old_token_secret st)}"
    and "dht_steps E (thr1, st1) evs' (thr2, st2)" and "list_all quiet evs'"
    and "message_type msg' = Request (GetPeersRequest g)" and "gp_info_hash g = ap_info_hash b" and "sock_is_v4 asker"
    and "hi_clock inp' < hi_clock inp + dur_from_secs (cfg_get_peers_freshness_secs (dc_settings c))"
  shows "\<exists>st3 reply v ps. handle_request E st2 (GetPeersRequest g) asker msg' inp' = (st3, Ok (Some reply)) \<and>
    message_type reply = Response (GetPeersResponse v) \<and> gp_values v = Peers ps \<and>
    (if ap_implied_port b = Some True then addr else sock_set_port addr (ap_port b)) \<in> set ps"
proof -
  let ?a = "if ap_implied_port b = Some True then addr else sock_set_port addr (ap_port b)"
  note env = started_inv(1) [OF assms(1)]
  let ?inv = "node_env.node_inv E ook ocap iok icap consensus_inv (cfg_max_torrents (dc_settings c))"
  have inv: "?inv st" using node_env.node_inv_steps [OF env assms(4)] started_inv(2) [OF assms(1)] by simp
  have inv1: "?inv st1" by (rule node_env.node_inv_step [OF env inv assms(5)])
  have inv2: "?inv st2" using node_env.node_inv_steps [OF env assms(11)] inv1 by simp
  have steps1: "dht_steps E (thr0, st0) (evs @ [Incoming sock (msg, addr) inp k k']) (thr1, st1)"
    by (rule dht_steps.more [OF assms(4,5)])
  note set = history_settings(1) [OF assms(1,4)]
  have set2: "st_settings st2 = dc_settings c"
    "ps_max_peers_per_torrent (st_peer_storage st2) = cfg_max_peers_per_torrent (dc_settings c)"
    using steps_settings [OF assms(11)] history_settings [OF assms(1) steps1]
      node_env.steps_limit [OF env assms(11)] inv1 by simp_all
  have "st_peer_storage st1 = ps_announce_peer (e_outer E) (e_inner E) (st_peer_storage st) (ap_info_hash b) ?a (hi_clock inp)"
    using announce_stored [OF assms(5) _ assms(6-10)] set assms(2) by simp
  then have "(?a, PeerInfo ?a (hi_clock inp)) \<in> set (swarm_of (e_outer E) (e_inner E) (st_peer_storage st1) (ap_info_hash b))"
    using node_env.announcement_in_swarm [OF env inv] by simp
  then have mem: "(?a, PeerInfo ?a (hi_clock inp)) \<in> set (swarm_of (e_outer E) (e_inner E) (st_peer_storage st2) (gp_info_hash g))"
    using node_env.steps_quiet [OF env assms(11) _ assms(12)] inv1 assms(14) by simp
  have "sock_is_v4 ?a" using assms(8) by (simp add: sock_is_v4_def)
  from node_env.swarm_served [OF env inv2 mem this _ _ assms(13,15)] show ?thesis
    using assms(3,16) set2 by simp
qed

theorem announced_peer_is_handed_out_witness:
  "\<exists>st3 reply v ps. handle_request sample_env (rotate_token_secrets sample_announced (\<lambda>n. 5)) (GetPeersRequest sample_get_peers)
      (sample_addr 2) sample_get_peers_message (sample_input\<lparr>hi_clock := dur_from_secs 900\<rparr>) = (st3, Ok (Some reply)) \<and>
    message_type reply = Response (GetPeersResponse v) \<and> gp_values v = Peers ps \<and> SockV4 (Ipv4Addr 10 0 0 1) 80 \<in> set ps"
proof -
  let ?thr = "throttler_new 1 10 5 5 50 0"
  obtain thr1 where step: "dht_step sample_env (?thr, sample_start)
      (Incoming socket_new (sample_announce, sample_addr 1) sample_input 7 7) (thr1, sample_announced)"
    using sample_announce_step by blast
  obtain thr' where thr': "check_throttle ?thr (sock_ip (sample_addr 1)) None None 7 7 = Ok (thr', False)"
    using sample_not_throttled by blast
  have cfg: "\<not> cfg_read_only (dc_settings sample_config)"
    "cfg_max_peers_per_torrent (dc_settings sample_config) \<le> cfg_max_peers_response (dc_settings sample_config)"
    "sock_port (sample_addr 1) \<noteq> 0"
    by (simp_all add: default_settings_def sample_addr_def)
  have kind: "message_type sample_announce = Request (AnnouncePeerRequest sample_announcement)"
    "message_type sample_get_peers_message = Request (GetPeersRequest sample_get_peers)"
    "gp_info_hash sample_get_peers = ap_info_hash sample_announcement"
    by (simp_all add: sample_announce_def sample_get_peers_message_def sample_get_peers_def sample_announcement_def)
  have token: "ap_token sample_announcement \<in> {calculate_token (e_crc sample_env) (sample_addr 1) (st_token_secret sample_start),
      calculate_token (e_crc sample_env) (sample_addr 1) (st_old_token_secret sample_start)}"
    by (simp add: sample_announcement_def sample_env_def)
  have rotate: "dht_steps sample_env (thr1, sample_announced) [RotateTokens (\<lambda>n. 5)]
      (thr1, rotate_token_secrets sample_announced (\<lambda>n. 5))" "list_all quiet [RotateTokens (\<lambda>n. 5)]"
    by (rule dht_steps_single, rule dht_step.rotate) (simp add: quiet_def)
  have clock: "hi_clock (sample_input\<lparr>hi_clock := dur_from_secs 900\<rparr>) <
      hi_clock sample_input + dur_from_secs (cfg_get_peers_freshness_secs (dc_settings sample_config))"
    by (simp add: sample_input_def default_settings_def)
  from announced_peer_is_handed_out [OF started_sample cfg(1,2) dht_steps.none step thr' cfg(3) sample_addr_v4 kind(1) token
      rotate kind(2,3) sample_addr_v4 clock]
  show ?thesis by (simp add: sample_announcement_def sample_addr_def)
qed

end
