(* ===== verification/Dht_EndToEnd.thy ===== *)
theory Dht_EndToEnd
  imports Dht_Tasks Dht_Sizes
begin

text \<open>
  A node seen from the network: a datagram comes in, the tasks of \<open>src/dht/socket.rs\<close> and the accept loop of
  \<open>src/dht/dht.rs\<close> work on it in turn, and datagrams go out. This composes the wire format, the socket, the
  throttler and the handlers.
\<close>

section \<open>Serving a datagram\<close>

type_synonym ('i, 'n, 'o) running = "Throttler \<times> ('i, 'n, 'o) DHTState \<times> Socket"

text \<open>
  The incoming task takes the datagram, the accept loop the packet, the outgoing task the answer; \<open>linux\<close> and \<open>ro\<close>
  are the platform and the setting \<open>read_only\<close>, and sending works.
\<close>

definition serve_datagram ::
  "('i, 'n, 'sw, 'o) dht_env \<Rightarrow> bool \<Rightarrow> bool \<Rightarrow> (DHTMessage \<Rightarrow> bytes res) \<Rightarrow> (bytes \<Rightarrow> DHTMessage res)
     \<Rightarrow> ('i, 'n, 'o) running \<Rightarrow> bytes \<times> SocketAddr \<Rightarrow> handler_input \<Rightarrow> instant \<Rightarrow> instant
     \<Rightarrow> ('i, 'n, 'o) running \<times> (bytes \<times> SocketAddr) list" where
  "serve_datagram E linux ro ser de node d inp c c' =
     (let (thr, st, sock) = node;
          sock1 = incoming_turn False de (Some d) sock
      in case accept_turn E ro thr st sock1 inp c c' of
           None \<Rightarrow> ((thr, st, sock1), [])
         | Some (thr', st', sock2, r) \<Rightarrow>
             (let (sock3, out) = outgoing_turn linux ser None sock2 in ((thr', st', sock3), out)))"

text \<open>All tasks run and nothing is queued.\<close>

definition idle :: "Socket \<Rightarrow> bool" where
  "idle s \<longleftrightarrow> so_incoming s = [] \<and> so_outgoing s = [] \<and> so_out_alive s \<and> so_in_alive s \<and> so_recv_open s"

lemma idle_new [simp]: "idle socket_new"
  by (simp add: idle_def socket_new_def)

text \<open>The bencode library carries a message: it writes it into a datagram and reads it back.\<close>

definition carries :: "(DHTMessage \<Rightarrow> bytes res) \<Rightarrow> (bytes \<Rightarrow> DHTMessage res) \<Rightarrow> Message \<Rightarrow> bool" where
  "carries ser de m \<longleftrightarrow> (\<exists>bs. ser (into_serde_message m) = Ok bs \<and> length bs \<le> recv_buffer_size \<and>
     de bs = Ok (into_serde_message m))"

lemma carries_bytes:
  assumes "carries ser de m" and "wire_ok m" and "clamp_message m = m"
  obtains bs where "to_bytes ser m = Ok bs" "take recv_buffer_size bs = bs" "from_bytes de bs = Ok m"
proof -
  obtain bs where "ser (into_serde_message m) = Ok bs" "length bs \<le> recv_buffer_size" "de bs = Ok (into_serde_message m)"
    using assms(1) by (auto simp: carries_def)
  then show thesis using that [of bs] message_roundtrip [OF assms(2)] assms(3) by (simp add: to_bytes_def from_bytes_def)
qed

lemma request_not_clamped: "message_type m = Request r \<Longrightarrow> clamp_message m = m"
  by (simp add: clamp_message_def)

text \<open>A request that is handled with a reply goes out again as that reply, to its sender.\<close>

lemma request_served:
  assumes "idle sock" and "sock_port client \<noteq> 0" and "check_throttle thr (sock_ip client) None None c c' = Ok (thr1, False)"
    and msg: "message_type msg = Request req" "take recv_buffer_size bs = bs" "from_bytes de bs = Ok msg"
    and reply: "handle_request E st req client msg inp = (st1, Ok (Some m))" "to_bytes ser m = Ok rb"
  shows "serve_datagram E linux False ser de (thr, st, sock) (bs, client) inp c c' =
    ((thr1, send_packet_to_subscribers st1 msg, sock), [(rb, client)])"
proof -
  obtain v where v: "message_type m = Response v"
    using handle_request_reply [OF reply(1)] by (auto simp: reply_ok_def)
  have in1: "incoming_turn False de (Some (bs, client)) sock = sock\<lparr>so_incoming := [(msg, client)]\<rparr>"
    using assms(1) msg by (simp add: incoming_turn_def background_io_incoming_single_def forward_def idle_def)
  have "accept_single_packet E st (sock\<lparr>so_incoming := []\<rparr>) msg client inp =
      (st1, sock\<lparr>so_incoming := [], so_outgoing := [(m, client)]\<rparr>, Ok ())"
    using assms(1) msg(1) reply(1) v by (simp add: accept_single_packet_def ds_send_to_unfold idle_def)
  then have "accept_turn E False thr st (sock\<lparr>so_incoming := [(msg, client)]\<rparr>) inp c c' =
      Some (thr1, send_packet_to_subscribers st1 msg, sock\<lparr>so_incoming := [], so_outgoing := [(m, client)]\<rparr>, Ok ())"
    using assms(1-3) by (simp add: accept_turn_def ds_recv_from_def accept_body_def idle_def)
  moreover have "outgoing_turn linux ser None (sock\<lparr>so_incoming := [], so_outgoing := [(m, client)]\<rparr>) = (sock, [(rb, client)])"
    using assms(1) reply(2) by (cases sock) (simp add: outgoing_turn_def background_io_outgoing_single_def idle_def)
  ultimately show ?thesis by (simp add: serve_datagram_def in1)
qed

text \<open>A request that is handled without a reply leaves the socket idle.\<close>

lemma request_unserved:
  assumes "idle sock" and "sock_port client \<noteq> 0" and "check_throttle thr (sock_ip client) None None c c' = Ok (thr1, False)"
    and msg: "message_type msg = Request req" "take recv_buffer_size bs = bs" "from_bytes de bs = Ok msg"
    and quiet: "handle_request E st req client msg inp = (st1, Ok None)"
  shows "serve_datagram E linux False ser de (thr, st, sock) (bs, client) inp c c' =
    ((thr1, send_packet_to_subscribers st1 msg, sock), [])"
proof -
  have in1: "incoming_turn False de (Some (bs, client)) sock = sock\<lparr>so_incoming := [(msg, client)]\<rparr>"
    using assms(1) msg by (simp add: incoming_turn_def background_io_incoming_single_def forward_def idle_def)
  have "accept_single_packet E st (sock\<lparr>so_incoming := []\<rparr>) msg client inp = (st1, sock\<lparr>so_incoming := []\<rparr>, Ok ())"
    using msg(1) quiet by (simp add: accept_single_packet_def)
  then have "accept_turn E False thr st (sock\<lparr>so_incoming := [(msg, client)]\<rparr>) inp c c' =
      Some (thr1, send_packet_to_subscribers st1 msg, sock\<lparr>so_incoming := []\<rparr>, Ok ())"
    using assms(1-3) by (simp add: accept_turn_def ds_recv_from_def accept_body_def idle_def)
  moreover have "outgoing_turn linux ser None (sock\<lparr>so_incoming := []\<rparr>) = (sock, [])"
    using assms(1) by (cases sock) (simp add: outgoing_turn_def idle_def)
  ultimately show ?thesis by (simp add: serve_datagram_def in1)
qed

text \<open>What a client can read from the datagrams that come back for its request.\<close>

definition readable_answer ::
  "(bytes \<Rightarrow> DHTMessage res) \<Rightarrow> Id \<Rightarrow> SocketAddr \<Rightarrow> Message \<Rightarrow> RequestSpecific \<Rightarrow> bytes \<Rightarrow> bool" where
  "readable_answer de our_id client msg req rb \<longleftrightarrow>
     length rb \<le> recv_buffer_size \<and>
     (\<exists>reply v. from_bytes de rb = Ok reply \<and> wire_ok reply \<and> transaction_id reply = transaction_id msg \<and>
        requester_ip reply = Some client \<and> message_type reply = Response v \<and> response_author v = our_id \<and>
        response_matches_request v req)"

text \<open>The same for a node with a history, of which the reply is known to be carried.\<close>

lemma request_served_readable:
  assumes "started E ook ocap iok icap c0 st0" and "dht_steps E (thr0, st0) evs (thr, st)" and "list_all event_v4 evs"
    and "cfg_min_sample_interval_secs (st_settings st) \<le> 21600" and "idle sock"
    and "sock_is_v4 client" and "sock_port client \<noteq> 0" and "check_throttle thr (sock_ip client) None None c c' = Ok (thr', False)"
    and "message_type msg = Request req" and "wire_ok msg" and "carries ser de msg"
    and "\<forall>st' m. handle_request E st req client msg inp = (st', Ok (Some m)) \<longrightarrow> carries ser de m"
  shows "\<exists>bs out. to_bytes ser msg = Ok bs \<and>
    serve_datagram E linux False ser de (thr, st, sock) (bs, client) inp c c' =
      ((thr', send_packet_to_subscribers (fst (handle_request E st req client msg inp)) msg, sock), out) \<and>
    (if token_refused E st client req then out = []
     else \<exists>rb. out = [(rb, client)] \<and> readable_answer de (st_our_id st) client msg req rb)"
proof -
  note env = started_inv(1) [OF assms(1)]
  have "node_env.node_inv E ook ocap iok icap consensus_inv (cfg_max_torrents (dc_settings c0)) st"
    using node_env.node_inv_steps [OF env assms(2)] started_inv(2) [OF assms(1)] by simp
  then have sane: "sane E st" by (rule node_env.node_inv_sane [OF env])
  obtain st' r where h: "handle_request E st req client msg inp = (st', Ok r)"
    using handle_request_answers [OF assms(9,6) sane, of inp] by blast
  note refused = handle_request_refused [OF h]
  obtain bs where bs: "to_bytes ser msg = Ok bs" "take recv_buffer_size bs = bs" "from_bytes de bs = Ok msg"
    by (rule carries_bytes [OF assms(11,10) request_not_clamped [OF assms(9)]])
  show ?thesis
  proof (cases r)
    case None
    then show ?thesis
      using request_unserved [OF assms(5,7,8,9) bs(2,3), where linux = linux and ser = ser] h bs(1) refused by auto
  next
    case (Some m)
    then have m: "handle_request E st req client msg inp = (st', Ok (Some m))" using h by simp
    have "nat (cfg_min_sample_interval_secs (st_settings st)) \<le> MAX_SCRAPE_INTERVAL"
      using assms(4) by (simp add: MAX_SCRAPE_INTERVAL_def)
    then have "clamp_message m = m" by (rule reply_not_clamped [OF m])
    moreover have wire: "wire_ok m" by (rule reply_typed [OF assms(1-3,6) m])
    moreover have "carries ser de m" using assms(12) m by blast
    ultimately obtain rb where rb: "to_bytes ser m = Ok rb" "take recv_buffer_size rb = rb" "from_bytes de rb = Ok m"
      using carries_bytes by blast
    have len: "length rb \<le> recv_buffer_size" using arg_cong [OF rb(2), of length] unfolding length_take by linarith
    have ok: "reply_ok st req client msg m" by (rule handle_request_reply [OF m])
    then obtain v where v: "message_type m = Response v" "response_matches_request v req" by (auto simp: reply_ok_def)
    then have "response_author v = st_our_id st" using ok by (simp add: reply_ok_def get_author_id.simps)
    then have "readable_answer de (st_our_id st) client msg req rb"
      using rb(3) len wire ok v by (auto simp: reply_ok_def readable_answer_def)
    then show ?thesis
      using request_served [OF assms(5,7,8,9) bs(2,3) m rb(1), where linux = linux] bs(1) Some m refused by auto
  qed
qed

text \<open>The bencode library does: the messages are small enough.\<close>

lemma library_carries_message:
  assumes "bencode_library emit scan" and "wire_size m \<le> recv_buffer_size"
  shows "carries (message_to_bytes emit) (message_from_bytes scan) m"
  using bencode_library.to_bytes_ok [OF assms(1)] bencode_library.from_bytes_ok [OF assms(1)] assms(2)
  by (simp add: carries_def wire_size_def)

lemma reply_carried:
  assumes "started E ook ocap iok icap c0 st0" and "dht_steps E (thr0, st0) evs (thr, st)" and "default_limits c0"
    and "list_all event_v4 evs" and "sock_is_v4 client" and "\<forall>n xs. length (hi_shuffle inp n xs) \<le> n"
    and "length (transaction_id msg) \<le> 600" and "bencode_library emit scan"
    and "handle_request E st req client msg inp = (st', Ok (Some m))"
  shows "carries (message_to_bytes emit) (message_from_bytes scan) m"
  by (rule library_carries_message [OF assms(8) reply_fits(3) [OF assms(1-6,9,7)]])

section \<open>Properties\<close>

text \<open>
  C11. From datagram to datagram: a node with the default limits that only dealt with IPv4 addresses, over any history,
  answers every request that arrives whole and is not throttled with exactly one datagram, to its sender, but for an
  announcement with a token that neither of its two secrets gives to the sender: to that it sends nothing. The answer
  fits the receive buffer and parses to a message with the transaction id of the request, the node's id, the
  sender's address and the answer that fits the request. In both cases the tasks are idle again, the node is in the
  state its handler left, and the packet has been passed to the subscribers. Of the bencode library only its
  contract is used.
\<close>

theorem request_served_over_the_wire:
  assumes "started E ook ocap iok icap c0 st0" and "dht_steps E (thr0, st0) evs (thr, st)" and "default_limits c0"
    and "list_all event_v4 evs" and "sock_is_v4 client" and "\<forall>n xs. length (hi_shuffle inp n xs) \<le> n"
    and "length (transaction_id msg) \<le> 600" and "bencode_library emit scan" and "idle sock"
    and "sock_port client \<noteq> 0" and "check_throttle thr (sock_ip client) None None c c' = Ok (thr', False)"
    and "message_type msg = Request req" and "wire_ok msg" and "wire_size msg \<le> recv_buffer_size"
  shows "\<exists>bs out. to_bytes (message_to_bytes emit) msg = Ok bs \<and>
    serve_datagram E linux False (message_to_bytes emit) (message_from_bytes scan) (thr, st, sock) (bs, client) inp c c' =
      ((thr', send_packet_to_subscribers (fst (handle_request E st req client msg inp)) msg, sock), out) \<and>
    (if token_refused E st client req then out = []
     else \<exists>rb. out = [(rb, client)] \<and> readable_answer (message_from_bytes scan) (st_our_id st) client msg req rb)"
proof -
  have "\<forall>st' m. handle_request E st req client msg inp = (st', Ok (Some m)) \<longrightarrow> carries (message_to_bytes emit) (message_from_bytes scan) m"
    using reply_carried [OF assms(1-8)] by blast
  from request_served_readable [OF assms(1,2,4) history_limits(4) [OF assms(1-3)] assms(9,5,10-13) library_carries_message [OF assms(8,14)] this,
      where linux = linux]
  show ?thesis .
qed

lemma sample_unthrottled: "\<exists>thr. check_throttle sample_throttler32 (sock_ip (sample_addr 1)) None None 7 7 = Ok (thr, False)"
proof -
  let ?t = sample_throttler32
  have t: "th_records ?t = replicate 32 (tr_default 0)" "th_rate_limit ?t = 10" "th_period ?t = dur_from_secs 6" "th_naughty ?t = dur_from_secs 60"
    by (simp_all add: sample_throttler32_def settings_throttler_def throttler_new_def default_settings_def)
  have "sock_ip (sample_addr 1) \<notin> tr_ip ` set (th_records ?t)" "th_records ?t \<noteq> []"
    by (simp_all add: t sample_addr_def tr_default_def localhost_v4_def)
  moreover have fits: "7 + th_period ?t \<le> instant_max" "7 + th_naughty ?t \<le> instant_max"
    by (simp_all add: t dur_from_secs_def nanos_per_sec_def instant_max_def)
  ultimately obtain i r where "check_throttle ?t (sock_ip (sample_addr 1)) (Some 7) (Some 1) 7 7 = throttle_if_over ?t i
      (r\<lparr>tr_packets := 1, tr_expiration := 7 + th_period ?t, tr_ip := sock_ip (sample_addr 1), tr_creation := 7\<rparr>) 7"
    using check_untracked by metis
  then show ?thesis using throttle_if_over_spec [OF fits(2)] t(2) by (simp add: check_throttle_def)
qed

text \<open>The sample request is small.\<close>

lemma sample_request_small: "wire_size sample_get_peers_message \<le> recv_buffer_size"
proof -
  have "message_type sample_get_peers_message = Request (GetPeersRequest sample_get_peers)"
    "version sample_get_peers_message = None" "ip_v4 sample_get_peers_message"
    "transaction_id sample_get_peers_message = [9]"
    by (simp_all add: sample_get_peers_message_def ip_v4_def)
  then show ?thesis
    using request_size [of sample_get_peers_message "GetPeersRequest sample_get_peers"]
    by (simp add: request_token_def recv_buffer_size_def)
qed

theorem request_served_over_the_wire_witness:
  "\<exists>bs thr st rb reply. to_bytes (message_to_bytes reference_write) sample_get_peers_message = Ok bs \<and>
     serve_datagram sample_env True False (message_to_bytes reference_write) (message_from_bytes reference_read)
      (sample_throttler32, sample_start, socket_new) (bs, sample_addr 1) sample_input 7 7 =
      ((thr, st, socket_new), [(rb, sample_addr 1)]) \<and>
     from_bytes (message_from_bytes reference_read) rb = Ok reply \<and> transaction_id reply = [9]"
proof -
  let ?msg = sample_get_peers_message
  have kind: "message_type ?msg = Request (GetPeersRequest sample_get_peers)" by (simp add: sample_get_peers_message_def)
  have none: "dht_steps sample_env (sample_throttler32, sample_start) [] (sample_throttler32, sample_start)"
    by (rule dht_steps.none)
  have empty: "list_all event_v4 []" by simp
  obtain thr where thr: "check_throttle sample_throttler32 (sock_ip (sample_addr 1)) None None 7 7 = Ok (thr, False)"
    using sample_unthrottled by blast
  have wire: "wire_ok ?msg" by (simp add: sample_get_peers_message_def wire_ok_def)
  have port: "sock_port (sample_addr 1) \<noteq> 0" by (simp add: sample_addr_def)
  have tid: "transaction_id ?msg = [9]" by (simp add: sample_get_peers_message_def)
  then have short: "length (transaction_id ?msg) \<le> 600" by simp
  have asked: "\<not> token_refused sample_env sample_start (sample_addr 1) (GetPeersRequest sample_get_peers)"
    by (simp add: token_refused_def)
  show ?thesis
    using request_served_over_the_wire [OF started_sample none sample_limits empty sample_addr_v4 sample_shuffle short
        reference.bencode_library_axioms idle_new port thr kind wire sample_request_small, where linux = True] tid
    unfolding if_not_P [OF asked] readable_answer_def by fastforce
qed

end
