(* ===== verification/Dht_TwoNodes.thy ===== *)
theory Dht_TwoNodes
  imports Dht_EndToEnd
begin

text \<open>
  Two nodes: one sends a request of its own (\<open>common_send_and_handle_response\<close> of \<open>src/dht/dht.rs\<close>), the other serves it, and the
  answer finds its way back through the tasks of \<open>src/dht/socket.rs\<close> to the one that waits for it.
\<close>

section \<open>A request between two nodes\<close>

text \<open>
  Node \<open>a\<close> at \<open>addr_a\<close> asks node \<open>b\<close> at \<open>addr_b\<close>. The datagrams arrive and sending works; \<open>clk\<close> are the clock
  readings when the answer is handled. \<open>None\<close> when one of the datagrams is not sent or no answer is delivered.
\<close>

definition ask_node ::
  "('i, 'n, 'sw, 'o) dht_env \<Rightarrow> ('j, 'm, 'tw, 'p) dht_env \<Rightarrow> bool \<Rightarrow> (DHTMessage \<Rightarrow> bytes res) \<Rightarrow> (bytes \<Rightarrow> DHTMessage res)
     \<Rightarrow> ('i, 'n, 'o) running \<Rightarrow> SocketAddr \<Rightarrow> ('j, 'm, 'p) running \<Rightarrow> SocketAddr \<Rightarrow> Message \<Rightarrow> Id option \<Rightarrow> instant
     \<Rightarrow> handler_input \<Rightarrow> instant \<Rightarrow> instant \<Rightarrow> (nat \<Rightarrow> instant \<times> instant)
     \<Rightarrow> (('i, 'n, 'o) DHTState res \<times> Socket \<times> ('j, 'm, 'p) running \<times> Message res) option" where
  "ask_node EA EB linux ser de a addr_a b addr_b msg dest_id now inp c c' clk =
     (let (thr, st, sock) = a
      in case send_own_request sock msg addr_b dest_id now of
           (sock1, Ok ch) \<Rightarrow>
             (case outgoing_turn linux ser None sock1 of
                (sock2, [(bs, dest)]) \<Rightarrow>
                  (case serve_datagram EB linux False ser de b (bs, addr_a) inp c c' of
                     (b', [(rb, dest')]) \<Rightarrow>
                       (let sock3 = incoming_turn False de (Some (rb, addr_b)) sock2
                        in case map_of (so_delivered sock3) ch of
                             Some reply \<Rightarrow>
                               (case handle_own_response EA st addr_b (Some reply) clk of
                                  (st', r) \<Rightarrow> Some (st', sock3, b', r))
                           | None \<Rightarrow> None)
                   | _ \<Rightarrow> None)
              | _ \<Rightarrow> None)
         | _ \<Rightarrow> None)"

text \<open>The numbers of the channels handed out so far.\<close>

definition channels_used :: "Socket \<Rightarrow> bool" where
  "channels_used s \<longleftrightarrow> (\<forall>c \<in> fst ` set (so_delivered s) \<union> set (so_abandoned s). c < so_next_chan s)"

lemma channels_used_new [simp]: "channels_used socket_new"
  by (simp add: channels_used_def socket_new_def)

text \<open>The asker: the request goes out, stored under its transaction id.\<close>

lemma request_leaves:
  assumes "idle sock" and "message_type msg = Request req" and "to_bytes ser msg = Ok bs"
  obtains sock1 where "send_own_request sock msg dest dest_id now = (sock1, Ok (so_next_chan sock))"
    "outgoing_turn linux ser None sock1 = (sock\<lparr>so_requests := add_request (so_requests sock)
        (request_info_new dest dest_id msg (Some (so_next_chan sock)) now), so_next_chan := Suc (so_next_chan sock)\<rparr>, [(bs, dest)])"
proof -
  let ?sock1 = "sock\<lparr>so_requests := add_request (so_requests sock) (request_info_new dest dest_id msg (Some (so_next_chan sock)) now),
      so_next_chan := Suc (so_next_chan sock), so_outgoing := [(msg, dest)]\<rparr>"
  have "send_own_request sock msg dest dest_id now = (?sock1, Ok (so_next_chan sock))"
    using assms(1,2) by (simp add: send_own_request_def ds_send_to_unfold idle_def)
  moreover have "outgoing_turn linux ser None ?sock1 = (?sock1\<lparr>so_outgoing := []\<rparr>, [(bs, dest)])"
    using assms(3) by (simp add: outgoing_turn_def background_io_outgoing_single_def)
  moreover have "?sock1\<lparr>so_outgoing := []\<rparr> = sock\<lparr>so_requests := add_request (so_requests sock)
        (request_info_new dest dest_id msg (Some (so_next_chan sock)) now), so_next_chan := Suc (so_next_chan sock)\<rparr>"
    using assms(1) by (cases sock) (simp add: idle_def)
  ultimately show thesis using that by simp
qed

text \<open>The answer is taken for the request and delivered on its channel.\<close>

lemma answer_arrives:
  assumes "idle sock" and "channels_used sock" and "message_type msg = Request req" and "message_type reply = Response v"
    and "transaction_id reply = transaction_id msg" and "response_matches_request v req"
    and "dest_id = None \<or> dest_id = Some (response_author v)" and "take recv_buffer_size rb = rb" and "from_bytes de rb = Ok reply"
    and "sock2 = sock\<lparr>so_requests := add_request (so_requests sock)
        (request_info_new dest dest_id msg (Some (so_next_chan sock)) now), so_next_chan := Suc (so_next_chan sock)\<rparr>"
  shows "incoming_turn False de (Some (rb, dest)) sock2 = sock2
      \<lparr>so_requests := AList.delete (transaction_id msg) (so_requests sock2),
       so_delivered := so_delivered sock @ [(so_next_chan sock, reply)], so_incoming := [(reply, dest)]\<rparr>"
    and "map_of (so_delivered sock @ [(so_next_chan sock, reply)]) (so_next_chan sock) = Some reply"
proof -
  let ?info = "request_info_new dest dest_id msg (Some (so_next_chan sock)) now"
  have stored: "map_of (so_requests sock2) (transaction_id msg) = Some ?info"
    using assms(10) by (simp add: add_request_def update_conv request_info_new_def)
  have "get_author_id reply = Some (response_author v)" by (rule response_author_Some [OF assms(4)])
  then have "get_matching_request_info (so_requests sock2) reply dest = Some ?info"
    using stored assms(3-7) by (auto simp: get_matching_request_info_def request_info_new_def)
  then have taken: "take_matching_request_info (so_requests sock2) reply dest =
      (AList.delete (transaction_id msg) (so_requests sock2), Some ?info)"
    using stored assms(5) by (simp add: take_matching_request_info_def)
  have "so_next_chan sock \<notin> set (so_abandoned sock)" "so_next_chan sock \<notin> fst ` set (so_delivered sock)"
    using assms(2) unfolding channels_used_def by blast+
  then show "incoming_turn False de (Some (rb, dest)) sock2 = sock2
      \<lparr>so_requests := AList.delete (transaction_id msg) (so_requests sock2),
       so_delivered := so_delivered sock @ [(so_next_chan sock, reply)], so_incoming := [(reply, dest)]\<rparr>"
    "map_of (so_delivered sock @ [(so_next_chan sock, reply)]) (so_next_chan sock) = Some reply"
    using assms(1,4,8,9,10) taken
    by (simp_all add: incoming_turn_def background_io_incoming_single_def notify_def forward_def idle_def
        request_info_new_def map_add_Some_iff map_of_eq_None_iff)
qed

text \<open>What the asker does with it: the answering node votes for the address it saw us under.\<close>

lemma own_response_vote:
  assumes "sock_is_v4 dest" and "wire_ok reply" and "message_type reply = Response v"
    and "is_valid_for_ip (e_crc E) (response_author v) (sock_ip dest) = Ok True"
    and "ip4_vote_helper E st dest reply = Ok st1" and "handle_own_response E st dest (Some reply) clk = (Ok st', r)"
  shows "st_ip4_source st' = st_ip4_source st1"
proof -
  let ?st2 = "st1\<lparr>st_buckets := ns_add_or_update (e_nodes E) (st_buckets st1) (Node (response_author v) dest) True (fst (clk 0)) (snd (clk 0))\<rparr>"
  have author: "get_author_id reply = Some (response_author v)" by (rule response_author_Some [OF assms(3)])
  show ?thesis
  proof (cases v)
    case (FindNodeResponse args)
    have "nodes_v4 (find_nodes args)" using assms(2,3) FindNodeResponse by (simp add: wire_ok_def)
    then obtain st'' where "add_seen_nodes E (\<lambda>n. clk (Suc n)) ?st2 (find_nodes args) = Ok st''" "st_ip4_source st'' = st_ip4_source st1"
      using add_seen_nodes_total [of "find_nodes args" E "\<lambda>n. clk (Suc n)" ?st2] by auto
    then show ?thesis using assms(3-6) author FindNodeResponse by (simp add: handle_own_response_unfold)
  qed (use assms(3-6) author in \<open>auto simp: handle_own_response_unfold\<close>)
qed

text \<open>A request, its service and its answer, if the library carries both messages.\<close>

lemma asked_and_answered:
  assumes "started EB ook ocap iok icap c0 st0" and "dht_steps EB (thr0, st0) evs (thr, st)" and "list_all event_v4 evs"
    and "cfg_min_sample_interval_secs (st_settings st) \<le> 21600" and "idle sock"
    and "addr_a = SockV4 ip_a port_a" and "port_a \<noteq> 0" and "check_throttle thr (IpV4 ip_a) None None c c' = Ok (thr', False)"
    and "message_type msg = Request req" and "\<forall>a. req \<noteq> AnnouncePeerRequest a" and "wire_ok msg" and "carries ser de msg"
    and "\<forall>st' m. handle_request EB st req addr_a msg inp = (st', Ok (Some m)) \<longrightarrow> carries ser de m"
    and "e_ip4 EA = consensus_source" and "consensus_inv (st_ip4_source st_a)" and "idle sock_a" and "channels_used sock_a"
    and "addr_b = SockV4 ip_b port_b" and "dest_id = None \<or> dest_id = Some (st_our_id st)"
  shows "\<exists>st_a' sock_a' st' reply v.
    ask_node EA EB linux ser de (thr_a, st_a, sock_a) addr_a (thr, st, sock) addr_b msg dest_id now inp c c' clk =
      Some (Ok st_a', sock_a', (thr', send_packet_to_subscribers st' msg, sock), Ok reply) \<and>
    message_type reply = Response v \<and> response_matches_request v req \<and> response_author v = st_our_id st \<and>
    requester_ip reply = Some addr_a \<and> map_of (so_requests sock_a') (transaction_id msg) = None \<and>
    so_incoming sock_a' = [(reply, addr_b)] \<and> so_outgoing sock_a' = [] \<and>
    (is_valid_for_ip (e_crc EA) (st_our_id st) (IpV4 ip_b) = Ok True \<longrightarrow>
       consensus_add_vote (st_ip4_source st_a) ip_b ip_a = Ok (st_ip4_source st_a'))"
proof -
  have v4: "sock_is_v4 addr_a" "sock_is_v4 addr_b" and port: "sock_port addr_a \<noteq> 0" and ip: "sock_ip addr_a = IpV4 ip_a"
    using assms(6,7,18) by (simp_all add: sock_is_v4_iff)
  have thr: "check_throttle thr (sock_ip addr_a) None None c c' = Ok (thr', False)" using assms(8) ip by simp
  define st' where "st' = fst (handle_request EB st req addr_a msg inp)"
  have "\<not> token_refused EB st addr_a req" using assms(10) by (auto simp: token_refused_def split: RequestSpecific.split)
  then obtain bs rb where served: "to_bytes ser msg = Ok bs"
    "serve_datagram EB linux False ser de (thr, st, sock) (bs, addr_a) inp c c' =
      ((thr', send_packet_to_subscribers st' msg, sock), [(rb, addr_a)])"
    and answer: "readable_answer de (st_our_id st) addr_a msg req rb"
    using request_served_readable [OF assms(1-5) v4(1) port thr assms(9,11-13), where linux = linux]
    unfolding st'_def by (auto split: if_splits)
  from answer obtain reply v where rb: "length rb \<le> recv_buffer_size" "from_bytes de rb = Ok reply" "wire_ok reply"
    "transaction_id reply = transaction_id msg" "requester_ip reply = Some addr_a" "message_type reply = Response v"
    "response_author v = st_our_id st" "response_matches_request v req"
    by (auto simp: readable_answer_def)
  note served = served rb
  let ?sock2 = "sock_a\<lparr>so_requests := add_request (so_requests sock_a)
      (request_info_new addr_b dest_id msg (Some (so_next_chan sock_a)) now), so_next_chan := Suc (so_next_chan sock_a)\<rparr>"
  obtain sock1 where sent: "send_own_request sock_a msg addr_b dest_id now = (sock1, Ok (so_next_chan sock_a))"
    "outgoing_turn linux ser None sock1 = (?sock2, [(bs, addr_b)])"
    by (rule request_leaves [OF assms(16,9) served(1)])
  have dest: "dest_id = None \<or> dest_id = Some (response_author v)" using assms(19) served(9) by simp
  note arrives = answer_arrives [where dest = addr_b and now = now, OF assms(16,17,9) served(8,6,10) dest take_all [OF served(3)] served(4) refl]
  have resp: "is_response reply" using served(8) by (simp add: is_response_def)
  obtain st_a' where own: "handle_own_response EA st_a addr_b (Some reply) clk = (Ok st_a', Ok reply)"
    using consensus.response_total [OF assms(14,15) v4(2) served(5), of clk] resp by blast
  have "consensus_add_vote (st_ip4_source st_a) ip_b ip_a = Ok (st_ip4_source st_a')"
    if valid: "is_valid_for_ip (e_crc EA) (st_our_id st) (IpV4 ip_b) = Ok True"
  proof -
    obtain src where src: "consensus_add_vote (st_ip4_source st_a) ip_b ip_a = Ok src"
      using consensus.vote_ok [OF assms(15)] by (fastforce simp: consensus_source_def)
    then have "ip4_vote_helper EA st_a addr_b reply = Ok (st_a\<lparr>st_ip4_source := src\<rparr>)"
      using assms(6,14,18) served(7) by (simp add: ip4_vote_helper_def consensus_source_def)
    from own_response_vote [OF v4(2) served(5,8) _ this own] show ?thesis using src valid served(9) assms(18) by simp
  qed
  then show ?thesis
    using sent served(2,7,8,9,10) arrives own assms(16)
    by (intro exI [of _ st_a'] exI [of _ "incoming_turn False de (Some (rb, addr_b)) ?sock2"] exI [of _ st'] exI [of _ reply] exI [of _ v])
      (simp add: ask_node_def Let_def idle_def delete_conv')
qed

section \<open>Properties\<close>

text \<open>
  C10. Two nodes that run this code understand each other: any request but an announcement that one sends
  the other (which runs with the default limits), when it is not throttled there, is answered with the other's id and the
  address it was seen under; the answer is delivered to the task that waits for it, the request is forgotten, handling
  the answer succeeds, and if the other's id is valid for its address it votes for that address as ours.
\<close>

theorem nodes_answer_each_other:
  assumes "started EB ook ocap iok icap c0 st0" and "dht_steps EB (thr0, st0) evs (thr, st)" and "default_limits c0"
    and "list_all event_v4 evs" and "\<forall>n xs. length (hi_shuffle inp n xs) \<le> n" and "length (transaction_id msg) \<le> 600"
    and "bencode_library emit scan" and "idle sock" and "addr_a = SockV4 ip_a port_a" and "port_a \<noteq> 0"
    and "check_throttle thr (IpV4 ip_a) None None c c' = Ok (thr', False)"
    and "message_type msg = Request req" and "\<forall>a. req \<noteq> AnnouncePeerRequest a" and "wire_ok msg" and "wire_size msg \<le> recv_buffer_size"
    and "e_ip4 EA = consensus_source" and "consensus_inv (st_ip4_source st_a)" and "idle sock_a" and "channels_used sock_a"
    and "addr_b = SockV4 ip_b port_b" and "dest_id = None \<or> dest_id = Some (st_our_id st)"
  shows "\<exists>st_a' sock_a' st' reply v.
    ask_node EA EB linux (message_to_bytes emit) (message_from_bytes scan) (thr_a, st_a, sock_a) addr_a (thr, st, sock) addr_b
        msg dest_id now inp c c' clk =
      Some (Ok st_a', sock_a', (thr', send_packet_to_subscribers st' msg, sock), Ok reply) \<and>
    message_type reply = Response v \<and> response_matches_request v req \<and> response_author v = st_our_id st \<and>
    requester_ip reply = Some addr_a \<and> map_of (so_requests sock_a') (transaction_id msg) = None \<and>
    so_incoming sock_a' = [(reply, addr_b)] \<and> so_outgoing sock_a' = [] \<and>
    (is_valid_for_ip (e_crc EA) (st_our_id st) (IpV4 ip_b) = Ok True \<longrightarrow>
       consensus_add_vote (st_ip4_source st_a) ip_b ip_a = Ok (st_ip4_source st_a'))"
proof -
  have v4: "sock_is_v4 addr_a" using assms(9) by (simp add: sock_is_v4_iff)
  have "\<forall>st' m. handle_request EB st req addr_a msg inp = (st', Ok (Some m)) \<longrightarrow> carries (message_to_bytes emit) (message_from_bytes scan) m"
    using reply_carried [OF assms(1-4) v4 assms(5-7)] by blast
  from asked_and_answered [OF assms(1,2,4) history_limits(4) [OF assms(1-3)] assms(8-14) library_carries_message [OF assms(7,15)] this
      assms(16-21), where linux = linux and thr_a = thr_a and now = now and clk = clk]
  show ?thesis .
qed

theorem nodes_answer_each_other_witness:
  "\<exists>st_a' sock_a' b' reply. ask_node sample_env sample_env True (message_to_bytes reference_write) (message_from_bytes reference_read)
      (sample_throttler32, sample_state, socket_new) (sample_addr 1)
      (sample_throttler32, sample_start, socket_new) (sample_addr 2) sample_get_peers_message None 0 sample_input 7 7 (\<lambda>n. (5, 6)) =
      Some (Ok st_a', sock_a', b', Ok reply) \<and> requester_ip reply = Some (sample_addr 1)"
proof -
  let ?msg = sample_get_peers_message
  have kind: "message_type ?msg = Request (GetPeersRequest sample_get_peers)" by (simp add: sample_get_peers_message_def)
  have none: "dht_steps sample_env (sample_throttler32, sample_start) [] (sample_throttler32, sample_start)"
    by (rule dht_steps.none)
  have empty: "list_all event_v4 []" by simp
  have addr: "sample_addr 1 = SockV4 (Ipv4Addr 10 0 0 1) 6881" "sample_addr 2 = SockV4 (Ipv4Addr 10 0 0 2) 6881" and port: "(6881 :: u16) \<noteq> 0"
    by (simp_all add: sample_addr_def)
  obtain thr where thr: "check_throttle sample_throttler32 (IpV4 (Ipv4Addr 10 0 0 1)) None None 7 7 = Ok (thr, False)"
    using sample_unthrottled unfolding addr sock_ip.simps by blast
  have wire: "wire_ok ?msg" and short: "length (transaction_id ?msg) \<le> 600" by (simp_all add: sample_get_peers_message_def wire_ok_def)
  have a: "e_ip4 sample_env = consensus_source" "consensus_inv (st_ip4_source sample_state)"
    by (simp_all add: sample_env_def sample_state_def consensus_inv_def consensus_new_def i32_max_def)
  show ?thesis
    using nodes_answer_each_other [OF started_sample none sample_limits empty sample_shuffle short reference.bencode_library_axioms idle_new
        addr(1) port thr kind _ wire sample_request_small a idle_new channels_used_new addr(2),
        where dest_id = None and linux = True and thr_a = sample_throttler32 and now = 0 and clk = "\<lambda>n. (5, 6)"]
    by fastforce
qed

end
