(* ===== verification/Dht_Shutdown.thy ===== *)
theory Dht_Shutdown
  imports Dht_Prelude
begin

text \<open>
  \<open>src/shutdown.rs\<close>: the clean shutdown. A \<open>ShutdownSender\<close> signals over a \<open>tokio\<close> watch channel, and
  learns that all tasks are gone from a broadcast channel that nothing is ever sent on: its senders
  are only counted. Both channels are parameters, records of operations whose documented laws are two
  locales; a reference implementation interprets them. Tasks are a step relation on the channels
  and the receivers that are alive.
\<close>

section \<open>The channels\<close>

text \<open>
  \<open>watch::channel(false)\<close>: receivers are numbers. \<open>w_unseen\<close> says whether a receiver has yet to see
  the last value; \<open>w_changed\<close> is \<open>None\<close> while \<open>changed()\<close> waits, and otherwise tells \<open>Ok\<close> from \<open>Err\<close>.
\<close>

record 'w watch_ops =
  w_channel :: "'w \<times> nat"
  w_clone :: "'w \<Rightarrow> nat \<Rightarrow> 'w \<times> nat"
  w_drop :: "'w \<Rightarrow> nat \<Rightarrow> 'w"
  w_send :: "'w \<Rightarrow> 'w \<times> bool"
  w_close :: "'w \<Rightarrow> 'w"
  w_changed :: "'w \<Rightarrow> nat \<Rightarrow> ('w \<times> bool) option"
  w_receivers :: "'w \<Rightarrow> nat list"
  w_unseen :: "'w \<Rightarrow> nat \<Rightarrow> bool"
  w_closed :: "'w \<Rightarrow> bool"

locale watch_channel =
  fixes W :: "'w watch_ops"
  assumes new: "w_channel W = (w, r) \<Longrightarrow> w_receivers W w = [r] \<and> \<not> w_unseen W w r \<and> \<not> w_closed W w"
    and clone: "distinct (w_receivers W w) \<Longrightarrow> r \<in> set (w_receivers W w) \<Longrightarrow> w_clone W w r = (w', r') \<Longrightarrow>
      r' \<notin> set (w_receivers W w) \<and> w_receivers W w' = r' # w_receivers W w \<and> w_closed W w' = w_closed W w \<and>
      w_unseen W w' r' = w_unseen W w r \<and> (\<forall>x \<in> set (w_receivers W w). w_unseen W w' x = w_unseen W w x)"
    and drop: "distinct (w_receivers W w) \<Longrightarrow> w_receivers W (w_drop W w r) = remove1 r (w_receivers W w) \<and> w_closed W (w_drop W w r) = w_closed W w \<and>
      (\<forall>x. x \<noteq> r \<longrightarrow> w_unseen W (w_drop W w r) x = w_unseen W w x)"
    and send: "w_receivers W w \<noteq> [] \<Longrightarrow> \<exists>w'. w_send W w = (w', True) \<and> w_receivers W w' = w_receivers W w \<and>
      w_closed W w' = w_closed W w \<and> (\<forall>x \<in> set (w_receivers W w). w_unseen W w' x)"
    and send_nobody: "w_receivers W w = [] \<Longrightarrow> w_send W w = (w, False)"
    and close: "w_receivers W (w_close W w) = w_receivers W w \<and> w_closed W (w_close W w) \<and>
      w_unseen W (w_close W w) = w_unseen W w"
    and changed: "r \<in> set (w_receivers W w) \<Longrightarrow> w_changed W w r \<noteq> None \<longleftrightarrow> w_unseen W w r \<or> w_closed W w"
    and changed_frame: "w_changed W w r = Some (w', ok) \<Longrightarrow> w_receivers W w' = w_receivers W w \<and>
      w_closed W w' = w_closed W w \<and> (\<forall>x. x \<noteq> r \<longrightarrow> w_unseen W w' x = w_unseen W w x)"

text \<open>\<open>broadcast::channel(1)\<close>: with nothing ever sent, \<open>recv()\<close> returns once no sender is left.\<close>

record 'b broadcast_ops =
  b_channel :: "'b \<times> nat"
  b_clone :: "'b \<Rightarrow> nat \<Rightarrow> 'b \<times> nat"
  b_drop :: "'b \<Rightarrow> nat \<Rightarrow> 'b"
  b_recv_returns :: "'b \<Rightarrow> bool"
  b_senders :: "'b \<Rightarrow> nat list"

locale broadcast_channel =
  fixes B :: "'b broadcast_ops"
  assumes new: "b_channel B = (b, t) \<Longrightarrow> b_senders B b = [t]"
    and clone: "distinct (b_senders B b) \<Longrightarrow> b_clone B b t = (b', t') \<Longrightarrow>
      t' \<notin> set (b_senders B b) \<and> b_senders B b' = t' # b_senders B b"
    and drop: "distinct (b_senders B b) \<Longrightarrow> b_senders B (b_drop B b t) = remove1 t (b_senders B b)"
    and recv: "b_recv_returns B b \<longleftrightarrow> b_senders B b = []"

section \<open>Operations\<close>

record ShutdownReceiver =
  shutdown_rx :: nat
  shutdown_confirm_tx :: nat

text \<open>The sender's side of both channels, as all parties see them.\<close>

record ('w, 'b) ShutdownSender =
  shutdown_tx :: 'w
  shutdown_confirm_rx :: 'b

definition create_shutdown ::
  "'w watch_ops \<Rightarrow> 'b broadcast_ops \<Rightarrow> ('w, 'b) ShutdownSender \<times> ShutdownReceiver" where
  "create_shutdown W B =
     (let (tx, rx) = w_channel W; (confirm_rx, confirm_tx) = b_channel B
      in (\<lparr>shutdown_tx = tx, shutdown_confirm_rx = confirm_rx\<rparr>, \<lparr>shutdown_rx = rx, shutdown_confirm_tx = confirm_tx\<rparr>))"

text \<open>The derived \<open>clone\<close> of a receiver, and its drop.\<close>

definition receiver_clone ::
  "'w watch_ops \<Rightarrow> 'b broadcast_ops \<Rightarrow> ('w, 'b) ShutdownSender \<Rightarrow> ShutdownReceiver
     \<Rightarrow> ('w, 'b) ShutdownSender \<times> ShutdownReceiver" where
  "receiver_clone W B c r =
     (let (tx, rx) = w_clone W (shutdown_tx c) (shutdown_rx r);
          (confirm_rx, confirm_tx) = b_clone B (shutdown_confirm_rx c) (shutdown_confirm_tx r)
      in (\<lparr>shutdown_tx = tx, shutdown_confirm_rx = confirm_rx\<rparr>, \<lparr>shutdown_rx = rx, shutdown_confirm_tx = confirm_tx\<rparr>))"

definition receiver_drop ::
  "'w watch_ops \<Rightarrow> 'b broadcast_ops \<Rightarrow> ('w, 'b) ShutdownSender \<Rightarrow> ShutdownReceiver \<Rightarrow> ('w, 'b) ShutdownSender" where
  "receiver_drop W B c r =
     \<lparr>shutdown_tx = w_drop W (shutdown_tx c) (shutdown_rx r),
      shutdown_confirm_rx = b_drop B (shutdown_confirm_rx c) (shutdown_confirm_tx r)\<rparr>"

text \<open>\<open>watch\<close>: \<open>None\<close> while it waits; an error of \<open>changed()\<close> is logged only.\<close>

definition watch :: "'w watch_ops \<Rightarrow> ('w, 'b) ShutdownSender \<Rightarrow> ShutdownReceiver \<Rightarrow> ('w, 'b) ShutdownSender option" where
  "watch W c r =
     (case w_changed W (shutdown_tx c) (shutdown_rx r) of
        None \<Rightarrow> None
      | Some (tx, ok) \<Rightarrow> Some (c\<lparr>shutdown_tx := tx\<rparr>))"

text \<open>\<open>shutdown\<close>: the signal, whose failure is logged only, and then the wait for the confirmation.\<close>

definition shutdown_signal :: "'w watch_ops \<Rightarrow> ('w, 'b) ShutdownSender \<Rightarrow> ('w, 'b) ShutdownSender" where
  "shutdown_signal W c = c\<lparr>shutdown_tx := fst (w_send W (shutdown_tx c))\<rparr>"

definition shutdown_returns :: "'b broadcast_ops \<Rightarrow> ('w, 'b) ShutdownSender \<Rightarrow> bool" where
  "shutdown_returns B c = b_recv_returns B (shutdown_confirm_rx c)"

text \<open>
  \<open>spawn_with_shutdown\<close>: the \<open>select!\<close> ends with any of its branches that is ready: the signal, the
  task itself, or the timeout when there is one. The receiver is dropped with the task.
\<close>

datatype task_end = Signalled | Completed | TimedOut

definition select_ready ::
  "'w watch_ops \<Rightarrow> ('w, 'b) ShutdownSender \<Rightarrow> ShutdownReceiver \<Rightarrow> bool \<Rightarrow> nat option \<Rightarrow> nat \<Rightarrow> task_end list" where
  "select_ready W c r completed timeout elapsed =
     (if watch W c r \<noteq> None then [Signalled] else []) @
     (if completed then [Completed] else []) @
     (case timeout of Some t \<Rightarrow> if t \<le> elapsed then [TimedOut] else [] | None \<Rightarrow> [])"

definition task_terminates ::
  "'w watch_ops \<Rightarrow> 'b broadcast_ops \<Rightarrow> ('w, 'b) ShutdownSender \<Rightarrow> ShutdownReceiver \<Rightarrow> task_end \<Rightarrow> ('w, 'b) ShutdownSender" where
  "task_terminates W B c r e =
     receiver_drop W B (case (e, watch W c r) of (Signalled, Some c') \<Rightarrow> c' | _ \<Rightarrow> c) r"

section \<open>Steps\<close>

text \<open>The receivers that are alive each belong to a task or to somebody who clones them.\<close>

datatype shutdown_event =
    CloneReceiver ShutdownReceiver
  | TaskEnds ShutdownReceiver bool "nat option" nat task_end
  | DropReceiver ShutdownReceiver
  | SendSignal
  | DropSender

inductive shutdown_step ::
  "'w watch_ops \<Rightarrow> 'b broadcast_ops \<Rightarrow> ('w, 'b) ShutdownSender \<times> ShutdownReceiver list \<Rightarrow> shutdown_event
     \<Rightarrow> ('w, 'b) ShutdownSender \<times> ShutdownReceiver list \<Rightarrow> bool"
  for W :: "'w watch_ops" and B :: "'b broadcast_ops" where
  clone: "r \<in> set rs \<Longrightarrow> receiver_clone W B c r = (c', r') \<Longrightarrow> shutdown_step W B (c, rs) (CloneReceiver r) (c', r' # rs)"
| task_ends: "r \<in> set rs \<Longrightarrow> e \<in> set (select_ready W c r completed timeout elapsed) \<Longrightarrow>
    shutdown_step W B (c, rs) (TaskEnds r completed timeout elapsed e) (task_terminates W B c r e, remove1 r rs)"
| drop: "r \<in> set rs \<Longrightarrow> shutdown_step W B (c, rs) (DropReceiver r) (receiver_drop W B c r, remove1 r rs)"
| signal: "shutdown_step W B (c, rs) SendSignal (shutdown_signal W c, rs)"
| close: "shutdown_step W B (c, rs) DropSender (c\<lparr>shutdown_tx := w_close W (shutdown_tx c)\<rparr>, rs)"

inductive shutdown_steps ::
  "'w watch_ops \<Rightarrow> 'b broadcast_ops \<Rightarrow> ('w, 'b) ShutdownSender \<times> ShutdownReceiver list \<Rightarrow> shutdown_event list
     \<Rightarrow> ('w, 'b) ShutdownSender \<times> ShutdownReceiver list \<Rightarrow> bool"
  for W :: "'w watch_ops" and B :: "'b broadcast_ops" and s where
  none: "shutdown_steps W B s [] s"
| more: "shutdown_steps W B s evs t \<Longrightarrow> shutdown_step W B t e u \<Longrightarrow> shutdown_steps W B s (evs @ [e]) u"

section \<open>Reference channels\<close>

definition fresh :: "nat list \<Rightarrow> nat" where
  "fresh xs = Suc (foldr max xs 0)"

lemma fresh_notin [simp]: "fresh xs \<notin> set xs"
proof -
  have "x \<le> foldr max xs 0" if "x \<in> set xs" for x using that by (induction xs) auto
  then show ?thesis by (force simp: fresh_def)
qed

text \<open>A watch channel: each receiver with its mark whether the last value is unseen, and a closed flag.\<close>

record watch_list =
  wl_marks :: "(nat \<times> bool) list"
  wl_closed :: bool

definition list_watch :: "watch_list watch_ops" where
  "list_watch =
     \<lparr>w_channel = (\<lparr>wl_marks = [(0, False)], wl_closed = False\<rparr>, 0),
      w_clone = (\<lambda>w r. let r' = fresh (map fst (wl_marks w))
         in (w\<lparr>wl_marks := (r', map_of (wl_marks w) r = Some True) # wl_marks w\<rparr>, r')),
      w_drop = (\<lambda>w r. w\<lparr>wl_marks := filter (\<lambda>p. fst p \<noteq> r) (wl_marks w)\<rparr>),
      w_send = (\<lambda>w. if wl_marks w = [] then (w, False)
         else (w\<lparr>wl_marks := map (\<lambda>p. (fst p, True)) (wl_marks w)\<rparr>, True)),
      w_close = (\<lambda>w. w\<lparr>wl_closed := True\<rparr>),
      w_changed = (\<lambda>w r. if map_of (wl_marks w) r = Some True
         then Some (w\<lparr>wl_marks := map (\<lambda>p. if fst p = r then (r, False) else p) (wl_marks w)\<rparr>, True)
         else if wl_closed w then Some (w, False) else None),
      w_receivers = (\<lambda>w. map fst (wl_marks w)),
      w_unseen = (\<lambda>w r. map_of (wl_marks w) r = Some True),
      w_closed = wl_closed\<rparr>"

lemma map_of_marks:
  "x \<noteq> r \<Longrightarrow> map_of (filter (\<lambda>p. fst p \<noteq> r) ms) x = map_of ms x"
  "x \<noteq> r \<Longrightarrow> map_of (map (\<lambda>p. if fst p = r then (r, b) else p) ms) x = map_of ms x"
  "x \<in> fst ` set ms \<Longrightarrow> map_of (map (\<lambda>p. (fst p, b)) ms) x = Some b"
  by (induction ms) auto

lemma filter_fst_remove1:
  "distinct (map fst ms) \<Longrightarrow> map fst (filter (\<lambda>p. fst p \<noteq> r) ms) = remove1 r (map fst ms)"
  by (simp add: distinct_remove1_removeAll removeAll_filter_not_eq filter_map o_def) (metis (no_types))

lemma map_fst_marks [simp]:
  "map fst (map (\<lambda>p. if fst p = r then (r, b) else p) ms) = map fst ms"
  "map fst (map (\<lambda>p. (fst p, b)) ms) = map fst ms"
  by (induction ms) auto

interpretation list_watch: watch_channel list_watch
proof (unfold_locales, goal_cases)
  case (2 w r w' r')
  have "\<forall>x \<in> set (map fst (wl_marks w)). x \<noteq> fresh (map fst (wl_marks w))" using fresh_notin by metis
  then show ?case using 2 by (auto simp: list_watch_def Let_def simp del: set_map map_of_eq_Some_iff)
next
  case (3 w r)
  then show ?case by (simp add: list_watch_def filter_fst_remove1 map_of_marks)
qed (auto simp: list_watch_def map_of_marks split: if_splits)

definition list_broadcast :: "nat list broadcast_ops" where
  "list_broadcast =
     \<lparr>b_channel = ([0], 0), b_clone = (\<lambda>b t. (fresh b # b, fresh b)), b_drop = (\<lambda>b t. remove1 t b),
      b_recv_returns = (\<lambda>b. b = []), b_senders = (\<lambda>b. b)\<rparr>"

interpretation list_broadcast: broadcast_channel list_broadcast
  by unfold_locales (auto simp: list_broadcast_def)

section \<open>The invariant\<close>

lemma map_remove1_distinct:
  "distinct (map f xs) \<Longrightarrow> x \<in> set xs \<Longrightarrow> map f (remove1 x xs) = remove1 (f x) (map f xs)"
  by (induction xs) (auto simp: rev_image_eqI)

text \<open>Whether the tasks have been told to stop.\<close>

definition told :: "shutdown_event list \<Rightarrow> bool" where
  "told evs \<longleftrightarrow> SendSignal \<in> set evs \<or> DropSender \<in> set evs"

lemma shutdown_steps_Cons:
  assumes "shutdown_step W B s e t" and "shutdown_steps W B t evs u"
  shows "shutdown_steps W B s (e # evs) u"
  using assms(2)
proof (induction rule: shutdown_steps.induct)
  case none
  show ?case using shutdown_steps.more [OF shutdown_steps.none assms(1)] by simp
next
  case (more evs u e' v)
  then show ?case using shutdown_steps.more [of W B s "e # evs" u e' v] by simp
qed

locale shutdown_channels = watches: watch_channel W + confirms: broadcast_channel B
  for W :: "'w watch_ops" and B :: "'b broadcast_ops"
begin

definition chan_inv :: "bool \<Rightarrow> ('w, 'b) ShutdownSender \<times> ShutdownReceiver list \<Rightarrow> bool" where
  "chan_inv s crs \<longleftrightarrow> (let (c, rs) = crs in
     w_receivers W (shutdown_tx c) = map shutdown_rx rs \<and> distinct (map shutdown_rx rs) \<and>
     b_senders B (shutdown_confirm_rx c) = map shutdown_confirm_tx rs \<and> distinct (map shutdown_confirm_tx rs) \<and>
     (\<forall>r \<in> set rs. (w_unseen W (shutdown_tx c) (shutdown_rx r) \<or> w_closed W (shutdown_tx c)) \<longleftrightarrow> s))"

lemma inv_create: "create_shutdown W B = (c, r) \<Longrightarrow> chan_inv False (c, [r])"
  using watches.new confirms.new
  by (fastforce simp: chan_inv_def create_shutdown_def split: prod.splits)

lemma inv_clone:
  assumes "chan_inv s (c, rs)" and "r \<in> set rs" and "receiver_clone W B c r = (c', r')"
  shows "chan_inv s (c', r' # rs)"
proof -
  let ?w = "shutdown_tx c" and ?b = "shutdown_confirm_rx c"
  have w: "distinct (w_receivers W ?w)" "shutdown_rx r \<in> set (w_receivers W ?w)" "distinct (b_senders B ?b)"
    using assms(1,2) by (simp_all add: chan_inv_def)
  have c: "w_clone W ?w (shutdown_rx r) = (shutdown_tx c', shutdown_rx r')"
    "b_clone B ?b (shutdown_confirm_tx r) = (shutdown_confirm_rx c', shutdown_confirm_tx r')"
    using assms(3) by (auto simp: receiver_clone_def Let_def split: prod.splits)
  show ?thesis
    using watches.clone [OF w(1,2) c(1)] confirms.clone [OF w(3) c(2)] assms(1,2) by (auto simp: chan_inv_def)
qed

lemma inv_drop:
  assumes "chan_inv s (c, rs)" and "r \<in> set rs" and "shutdown_confirm_rx c1 = shutdown_confirm_rx c"
    and "w_receivers W (shutdown_tx c1) = w_receivers W (shutdown_tx c)"
    and "w_closed W (shutdown_tx c1) = w_closed W (shutdown_tx c)"
    and "\<forall>x. x \<noteq> shutdown_rx r \<longrightarrow> w_unseen W (shutdown_tx c1) x = w_unseen W (shutdown_tx c) x"
  shows "chan_inv s (receiver_drop W B c1 r, remove1 r rs)"
proof -
  have d: "distinct (map shutdown_rx rs)" "distinct (map shutdown_confirm_tx rs)" "distinct rs"
    "distinct (w_receivers W (shutdown_tx c1))" "distinct (b_senders B (shutdown_confirm_rx c1))"
    using assms by (auto simp: chan_inv_def distinct_map)
  have "shutdown_rx x \<noteq> shutdown_rx r" if "x \<in> set (remove1 r rs)" for x
    using that assms(2) d(1,3) by (auto simp: distinct_map dest: inj_onD)
  then show ?thesis
    using assms watches.drop [OF d(4), of "shutdown_rx r"] confirms.drop [OF d(5)] d(1-3) map_remove1_distinct [OF d(1) assms(2)]
      map_remove1_distinct [OF d(2) assms(2)] distinct_remove1 [OF d(1)] distinct_remove1 [OF d(2)]
    by (auto simp: chan_inv_def receiver_drop_def)
qed

lemma inv_terminates:
  assumes "chan_inv s (c, rs)" and "r \<in> set rs"
  shows "chan_inv s (task_terminates W B c r e, remove1 r rs)"
proof (cases "e = Signalled \<and> watch W c r \<noteq> None")
  case True
  then obtain tx ok where "w_changed W (shutdown_tx c) (shutdown_rx r) = Some (tx, ok)"
    "task_terminates W B c r e = receiver_drop W B (c\<lparr>shutdown_tx := tx\<rparr>) r"
    by (auto simp: watch_def task_terminates_def split: option.splits)
  with inv_drop [OF assms, of "c\<lparr>shutdown_tx := tx\<rparr>"] watches.changed_frame show ?thesis by fastforce
next
  case False
  then have "task_terminates W B c r e = receiver_drop W B c r"
    by (cases e) (auto simp: task_terminates_def)
  then show ?thesis using inv_drop [OF assms, of c] by simp
qed

lemma inv_signal: "chan_inv s (c, rs) \<Longrightarrow> chan_inv True (shutdown_signal W c, rs)"
  using watches.send [of "shutdown_tx c"] watches.send_nobody [of "shutdown_tx c"]
  by (cases "rs = []") (auto simp: chan_inv_def shutdown_signal_def)

lemma inv_close: "chan_inv s (c, rs) \<Longrightarrow> chan_inv True (c\<lparr>shutdown_tx := w_close W (shutdown_tx c)\<rparr>, rs)"
  using watches.close by (simp add: chan_inv_def)

lemma chan_inv_step:
  assumes "shutdown_step W B crs e crs'" and "chan_inv s crs"
  shows "chan_inv (s \<or> told [e]) crs'"
  using assms
proof (cases rule: shutdown_step.cases)
  case (clone r rs c c' r')
  then show ?thesis using inv_clone assms(2) by (simp add: told_def)
next
  case (task_ends r rs e c completed timeout elapsed)
  then show ?thesis using inv_terminates assms(2) by (simp add: told_def)
next
  case (drop r rs c)
  then show ?thesis using inv_drop [of s c rs r c] assms(2) by (simp add: told_def)
next
  case (signal c rs)
  then show ?thesis using inv_signal assms(2) by (simp add: told_def)
next
  case (close c rs)
  then show ?thesis using inv_close assms(2) by (simp add: told_def)
qed

lemma inv_steps: "shutdown_steps W B s evs t \<Longrightarrow> chan_inv False s \<Longrightarrow> chan_inv (told evs) t"
proof (induction rule: shutdown_steps.induct)
  case (more evs t e u)
  then have "chan_inv (told evs \<or> told [e]) u" using chan_inv_step by blast
  moreover have "told (evs @ [e]) = (told evs \<or> told [e])" by (auto simp: told_def)
  ultimately show ?case by simp
qed (simp add: told_def)

lemma inv_watch: "chan_inv s (c, rs) \<Longrightarrow> r \<in> set rs \<Longrightarrow> watch W c r \<noteq> None \<longleftrightarrow> s"
  using watches.changed [of "shutdown_rx r" "shutdown_tx c"]
  by (auto simp: chan_inv_def watch_def split: option.splits)

lemma inv_returns: "chan_inv s (c, rs) \<Longrightarrow> shutdown_returns B c \<longleftrightarrow> rs = []"
  by (simp add: chan_inv_def shutdown_returns_def confirms.recv)

text \<open>Once told, the tasks can all end, one by one, with nothing but the signal.\<close>

lemma all_end:
  "chan_inv True (c, rs) \<Longrightarrow> \<exists>evs c'. length evs = length rs \<and>
     (\<forall>e \<in> set evs. \<exists>r. e = TaskEnds r False None 0 Signalled) \<and> shutdown_steps W B (c, rs) evs (c', []) \<and>
     shutdown_returns B c'"
proof (induction "length rs" arbitrary: c rs)
  case 0
  then show ?case using inv_returns [OF 0(2)] shutdown_steps.none by fastforce
next
  case (Suc n)
  then obtain r where r: "r \<in> set rs" by (cases rs) auto
  let ?c = "task_terminates W B c r Signalled" and ?e = "TaskEnds r False None 0 Signalled"
  have "Signalled \<in> set (select_ready W c r False None 0)"
    using inv_watch [OF Suc.prems r] by (simp add: select_ready_def)
  with r have step: "shutdown_step W B (c, rs) ?e (?c, remove1 r rs)" by (rule shutdown_step.task_ends)
  have "n = length (remove1 r rs)" using Suc.hyps(2) r by (simp add: length_remove1)
  from Suc.hyps(1) [OF this inv_terminates [OF Suc.prems r]]
  obtain evs c' where "length evs = length (remove1 r rs)" "\<forall>e \<in> set evs. \<exists>r. e = TaskEnds r False None 0 Signalled"
    "shutdown_steps W B (?c, remove1 r rs) evs (c', [])" "shutdown_returns B c'" by blast
  then show ?case using shutdown_steps_Cons [OF step] Suc.hyps(2) r
    by (intro exI [of _ "?e # evs"] exI [of _ c']) (auto simp: length_remove1)
qed

end

lemma shutdown_channelsI: "watch_channel W \<Longrightarrow> broadcast_channel B \<Longrightarrow> shutdown_channels W B"
  by (simp add: shutdown_channels_def)

interpretation list_channels: shutdown_channels list_watch list_broadcast
  by (rule shutdown_channelsI [OF list_watch.watch_channel_axioms list_broadcast.broadcast_channel_axioms])

section \<open>Properties\<close>

text \<open>
  C35. A clean shutdown: \<open>shutdown\<close> returns exactly when no receiver is left, so not before the last
  task has dropped its own. \<open>watch\<close> returns to a receiver exactly when the signal has been given or the sender
  has been dropped (\<open>changed\<close> then fails, which \<open>watch\<close> only logs: its comment promises to wait for the signal);
  this holds for every receiver, also those cloned later. Once it does, and every task ends by
  it, one after the other, \<open>shutdown\<close> returns.
\<close>

theorem shutdown_waits_for_tasks:
  assumes "watch_channel W" and "broadcast_channel B" and "create_shutdown W B = (c0, r0)"
    and "shutdown_steps W B (c0, [r0]) evs (c, rs)"
  shows "(shutdown_returns B c \<longleftrightarrow> rs = []) \<and>
    (\<forall>r \<in> set rs. watch W c r \<noteq> None \<longleftrightarrow> SendSignal \<in> set evs \<or> DropSender \<in> set evs) \<and>
    (SendSignal \<in> set evs \<or> DropSender \<in> set evs \<longrightarrow>
      (\<exists>ends c'. length ends = length rs \<and> (\<forall>e \<in> set ends. \<exists>r. e = TaskEnds r False None 0 Signalled) \<and>
         shutdown_steps W B (c, rs) ends (c', []) \<and> shutdown_returns B c'))"
proof -
  note ch = shutdown_channelsI [OF assms(1,2)]
  have inv: "shutdown_channels.chan_inv W B (told evs) (c, rs)"
    by (rule shutdown_channels.inv_steps [OF ch assms(4) shutdown_channels.inv_create [OF ch assms(3)]])
  have told: "told evs \<longleftrightarrow> SendSignal \<in> set evs \<or> DropSender \<in> set evs" by (simp add: told_def)
  show ?thesis
    using shutdown_channels.inv_returns [OF ch inv] shutdown_channels.inv_watch [OF ch inv] shutdown_channels.all_end [OF ch, of c rs] inv
    unfolding told [symmetric] by auto
qed

theorem shutdown_waits_for_tasks_witness:
  "let (c, r) = create_shutdown list_watch list_broadcast in
     \<not> shutdown_returns list_broadcast (shutdown_signal list_watch c) \<and> watch list_watch (shutdown_signal list_watch c) r \<noteq> None"
proof -
  obtain c r where c: "create_shutdown list_watch list_broadcast = (c, r)" by (cases "create_shutdown list_watch list_broadcast")
  have "shutdown_steps list_watch list_broadcast (c, [r]) [SendSignal] (shutdown_signal list_watch c, [r])"
    using shutdown_steps.more [OF shutdown_steps.none shutdown_step.signal] by fastforce
  from shutdown_waits_for_tasks [OF list_watch.watch_channel_axioms list_broadcast.broadcast_channel_axioms c this]
  show ?thesis by (simp add: c)
qed

end
