(* ===== verification/Dht_TestLib.thy ===== *)
theory Dht_TestLib
  imports Dht_Builder
begin

text \<open>
  What the unit tests of the crate share. A test is the conjunction of its assertions, over the values
  it computes with the definitions of the model; \<open>unwrap\<close> continues with the value of a result and fails
  where \<open>Result::unwrap\<close> or \<open>expect\<close> would panic. \<open>hex_id 0x...\<close> stands for \<open>Id::from_hex("...").unwrap()\<close> on a
  literal of 40 digits, \<open>utf8\<close> for the bytes of a string literal.
\<close>

definition unwrap :: "'a res \<Rightarrow> ('a \<Rightarrow> bool) \<Rightarrow> bool" where
  "unwrap r P = (case r of Ok x \<Rightarrow> P x | _ \<Rightarrow> False)"

definition unwrap_err :: "'a res \<Rightarrow> (RustyDHTError \<Rightarrow> bool) \<Rightarrow> bool" where
  "unwrap_err r P = (case r of Err e \<Rightarrow> P e | _ \<Rightarrow> False)"

definition is_ok :: "'a res \<Rightarrow> bool" where
  "is_ok r = (case r of Ok x \<Rightarrow> True | _ \<Rightarrow> False)"

definition is_err :: "'a res \<Rightarrow> bool" where
  "is_err r = (case r of Err e \<Rightarrow> True | _ \<Rightarrow> False)"

definition hex_id :: "nat \<Rightarrow> Id" where
  "hex_id n = mk_id (map (\<lambda>i. word_of_nat (n div 256 ^ (19 - i))) [0..<20])"

definition utf8 :: "string \<Rightarrow> bytes" where
  "utf8 s = map of_char s"

lemma unwrap_simps [simp]:
  "unwrap (Ok x) P = P x" "\<not> unwrap (Err e) P" "\<not> unwrap Panic P"
  "unwrap_err (Err e) Q = Q e" "\<not> unwrap_err (Ok x) Q" "\<not> unwrap_err Panic Q"
  "is_ok (Ok x)" "\<not> is_ok (Err e)" "\<not> is_ok Panic"
  "is_err (Err e)" "\<not> is_err (Ok x)" "\<not> is_err Panic"
  by (simp_all add: unwrap_def unwrap_err_def is_ok_def is_err_def)

lemma unwrap_iff: "unwrap r P \<longleftrightarrow> (\<exists>x. r = Ok x \<and> P x)"
  by (cases r) auto

lemma bytes_hex_id [simp]: "bytes (hex_id n) = map (\<lambda>i. word_of_nat (n div 256 ^ (19 - i))) [0..<20]"
  by (simp add: hex_id_def)

text \<open>An id literal is the id of its big-endian number: literals compare as their numbers do.\<close>

lemma bytes_val_digits: "bytes_val (map (\<lambda>i. word_of_nat (n div 256 ^ (k - 1 - i))) [0..<k]) = n mod 256 ^ k"
proof (induction k)
  case (Suc k)
  have "[0..<Suc k] = 0 # map Suc [0..<k]" by (simp add: map_Suc_upt upt_conv_Cons del: upt_Suc)
  then have "bytes_val (map (\<lambda>i. word_of_nat (n div 256 ^ (Suc k - 1 - i))) [0..<Suc k]) =
      n div 256 ^ k mod 256 * 256 ^ k + n mod 256 ^ k"
    using Suc.IH by (simp add: unat_of_nat o_def del: upt_Suc)
  also have "\<dots> = n mod 256 ^ Suc k" by (simp add: mod_mult2_eq mult.commute [of 256])
  finally show ?case .
qed simp

lemma id_val_hex_id: "id_val (hex_id n) = n mod 256 ^ 20"
  using bytes_val_digits [of n 20] by (simp add: id_val_def)

lemma hex_id_simps:
  "hex_id m = hex_id n \<longleftrightarrow> m mod 256 ^ 20 = n mod 256 ^ 20"
  "hex_id m < hex_id n \<longleftrightarrow> m mod 256 ^ 20 < n mod 256 ^ 20"
  "hex_id m \<le> hex_id n \<longleftrightarrow> m mod 256 ^ 20 \<le> n mod 256 ^ 20"
proof -
  show "hex_id m < hex_id n \<longleftrightarrow> m mod 256 ^ 20 < n mod 256 ^ 20" for m n
    by (simp only: id_less_val id_val_hex_id)
  then show "hex_id m = hex_id n \<longleftrightarrow> m mod 256 ^ 20 = n mod 256 ^ 20"
    by (metis linorder_neq_iff)
  show "hex_id m \<le> hex_id n \<longleftrightarrow> m mod 256 ^ 20 \<le> n mod 256 ^ 20"
    by (simp only: id_le_val id_val_hex_id)
qed

lemma hex_id_xor: "id_xor (hex_id m) (hex_id n) = hex_id (m XOR n)"
proof (rule Id_eqI)
  have "word_of_nat (m div 256 ^ j) XOR word_of_nat (n div 256 ^ j) = (word_of_nat ((m XOR n) div 256 ^ j) :: u8)" for j
    by (simp add: drop_bit_xor of_nat_xor_eq flip: drop_bit_eq_div [of "8 * j" for j, simplified power_mult, simplified])
  then show "bytes (id_xor (hex_id m) (hex_id n)) = bytes (hex_id (m XOR n))"
    by (simp add: id_xor_def)
qed

end
