(* ===== verification/Dht_TestsCommon.thy ===== *)
theory Dht_TestsCommon
  imports Dht_TestLib Dht_IpSource
begin

text \<open>
  The unit tests of \<open>src/common/id.rs\<close> and \<open>src/common/ipv4_addr_src.rs\<close>, one definition for each. The test
  vectors of BEP 42 are checked with CRC-32C in place of the parameter for the checksum.
\<close>

section \<open>Tests of \<open>id.rs\<close>\<close>

text \<open>CRC-32C, bit by bit: reflected, initial value and final xor all ones.\<close>

definition crc32c_bit :: "u32 \<Rightarrow> u32" where
  "crc32c_bit c = (if bit c 0 then drop_bit 1 c XOR 0x82F63B78 else drop_bit 1 c)"

definition crc32c_byte :: "u8 \<Rightarrow> u32 \<Rightarrow> u32" where
  "crc32c_byte b c = (crc32c_bit ^^ 8) (c XOR ucast b)"

definition crc32c :: "u8 list \<Rightarrow> u32" where
  "crc32c bs = fold crc32c_byte bs 0xFFFFFFFF XOR 0xFFFFFFFF"

text \<open>\<open>assert_eq!\<close> on two \<open>IdPrefixMagic\<close> values compares them with the hand-written \<open>PartialEq\<close>.\<close>

definition id_test_from_ip_v4 :: "(u8 list \<Rightarrow> u32) \<Rightarrow> bool" where
  "id_test_from_ip_v4 crc \<longleftrightarrow>
     unwrap (magic_from_ip crc (IpV4 (Ipv4Addr 124 31 75 21)) 1)
       (\<lambda>m. magic_eq m \<lparr>magic_prefix = (0x5f, 0xbf, 0xbf), magic_suffix = 1\<rparr>) \<and>
     unwrap (magic_from_ip crc (IpV4 (Ipv4Addr 21 75 31 124)) 86)
       (\<lambda>m. magic_eq m \<lparr>magic_prefix = (0x5a, 0x3c, 0xe9), magic_suffix = 0x56\<rparr>) \<and>
     unwrap (magic_from_ip crc (IpV4 (Ipv4Addr 65 23 51 170)) 22)
       (\<lambda>m. magic_eq m \<lparr>magic_prefix = (0xa5, 0xd4, 0x32), magic_suffix = 0x16\<rparr>) \<and>
     unwrap (magic_from_ip crc (IpV4 (Ipv4Addr 84 124 73 14)) 65)
       (\<lambda>m. magic_eq m \<lparr>magic_prefix = (0x1b, 0x03, 0x21), magic_suffix = 0x41\<rparr>) \<and>
     unwrap (magic_from_ip crc (IpV4 (Ipv4Addr 43 213 53 83)) 90)
       (\<lambda>m. magic_eq m \<lparr>magic_prefix = (0xe5, 0x6f, 0x6c), magic_suffix = 0x5a\<rparr>)"

definition id_test_generate_valid_id ::
  "(u8 list \<Rightarrow> u32) \<Rightarrow> u8 \<Rightarrow> u8 \<Rightarrow> (nat \<Rightarrow> u8) \<Rightarrow> bool" where
  "id_test_generate_valid_id crc r g rest \<longleftrightarrow>
     (let ip = IpV4 (Ipv4Addr 124 31 75 21)
      in unwrap (id_from_ip crc ip r g rest) (\<lambda>i. unwrap (is_valid_for_ip crc i ip) (\<lambda>valid. valid)))"

definition id_test_id_xor :: bool where
  "id_test_id_xor \<longleftrightarrow>
     (let h1 = hex_id 0x0000000000000000000000000000000000000001;
          h2 = hex_id 0x0000000000000000000000000000000000000000;
          h3 = id_xor h1 h2
      in h3 = h1) \<and>
     (let h1 = hex_id 0x0000000000000000000000000000000000000001;
          h2 = hex_id 0x0000000000000000000000000000000000000001;
          h3 = id_xor h1 h2
      in h3 = hex_id 0x0000000000000000000000000000000000000000) \<and>
     (let h1 = hex_id 0x1010101010101010101010101010101010101010;
          h2 = hex_id 0x0101010101010101010101010101010101010101;
          h3 = id_xor h1 h2
      in h3 = hex_id 0x1111111111111111111111111111111111111111) \<and>
     (let h1 = hex_id 0xfefefefefefefefefefefefefefefefefefefefe;
          h2 = hex_id 0x0505050505050505050505050505050505050505;
          h3 = id_xor h1 h2
      in h3 = hex_id 0xfbfbfbfbfbfbfbfbfbfbfbfbfbfbfbfbfbfbfbfb)"

definition id_test_id_ordering :: bool where
  "id_test_id_ordering \<longleftrightarrow>
     (let h1 = hex_id 0x0000000000000000000000000000000000000001;
          h2 = hex_id 0x0000000000000000000000000000000000000000
      in h1 > h2 \<and> h2 < h1 \<and> h1 \<noteq> h2) \<and>
     (let h1 = hex_id 0x00000000000000000000f0000000000000000000;
          h2 = hex_id 0x000000000000000000000fffffffffffffffffff
      in h1 > h2 \<and> h2 < h1 \<and> h1 \<noteq> h2) \<and>
     (let h1 = hex_id 0x1000000000000000000000000000000000000000;
          h2 = hex_id 0x0fffffffffffffffffffffffffffffffffffffff
      in h1 > h2 \<and> h2 < h1 \<and> h1 \<noteq> h2) \<and>
     (let h1 = hex_id 0x1010101010101010101010101010101010101010;
          h2 = hex_id 0x1010101010101010101010101010101010101010
      in h1 \<le> h2 \<and> h2 \<le> h1 \<and> h1 = h2) \<and>
     (let h1 = hex_id 0x0000000000000000000000000000000000000010;
          h2 = hex_id 0x0000000000000000000000000000000000000001
      in h1 > h2 \<and> h2 < h1 \<and> h1 \<noteq> h2)"

definition id_test_matching_prefix_bits :: bool where
  "id_test_matching_prefix_bits \<longleftrightarrow>
     (let h1 = hex_id 0x0000000000000000000000000000000000000000;
          h2 = hex_id 0x0000000000000000000000000000000000000000
      in matching_prefix_bits h1 h2 = 160) \<and>
     (let h1 = hex_id 0x0000000000000000000000000000000000000000;
          h2 = hex_id 0xf000000000000000000000000000000000000000
      in matching_prefix_bits h1 h2 = 0) \<and>
     (let h1 = hex_id 0x0000000000000000000000000000000000000000;
          h2 = hex_id 0x1000000000000000000000000000000000000000
      in matching_prefix_bits h1 h2 = 3)"

section \<open>Tests of \<open>ipv4_addr_src.rs\<close>\<close>

definition ipv4_test_static_src :: bool where
  "ipv4_test_static_src \<longleftrightarrow>
     (let ip = Ipv4Addr 10 0 0 107;
          src = static_new ip
      in get_best_ipv4 static_source src = Ok (Some ip) \<and>
         unwrap (add_vote static_source src (Ipv4Addr 0 0 0 0) (Ipv4Addr 1 1 1 1)) (\<lambda>src.
         unwrap (decay static_source src) (\<lambda>src. get_best_ipv4 static_source src = Ok (Some ip))))"

definition ipv4_test_consensus_src :: bool where
  "ipv4_test_consensus_src \<longleftrightarrow>
     (let src = consensus_new 2 4
      in consensus_get_best_ipv4 src = Ok None \<and>
         unwrap (consensus_add_vote src (Ipv4Addr 0 0 0 0) (Ipv4Addr 1 1 1 1)) (\<lambda>src.
         consensus_get_best_ipv4 src = Ok None \<and>
         unwrap (consensus_add_vote src (Ipv4Addr 0 0 0 0) (Ipv4Addr 2 2 2 2)) (\<lambda>src.
         consensus_get_best_ipv4 src = Ok None \<and>
         unwrap (consensus_add_vote src (Ipv4Addr 0 0 0 0) (Ipv4Addr 1 1 1 1)) (\<lambda>src.
         consensus_get_best_ipv4 src = Ok (Some (Ipv4Addr 1 1 1 1)) \<and>
         unwrap (consensus_add_vote src (Ipv4Addr 0 0 0 0) (Ipv4Addr 2 2 2 2)) (\<lambda>src.
         consensus_get_best_ipv4 src = Ok (Some (Ipv4Addr 1 1 1 1)) \<and>
         unwrap (consensus_add_vote src (Ipv4Addr 0 0 0 0) (Ipv4Addr 2 2 2 2)) (\<lambda>src.
         consensus_get_best_ipv4 src = Ok (Some (Ipv4Addr 2 2 2 2)) \<and>
         unwrap (consensus_decay src) (\<lambda>src.
         consensus_get_best_ipv4 src = Ok (Some (Ipv4Addr 2 2 2 2)) \<and>
         unwrap (consensus_decay src) (\<lambda>src.
         consensus_get_best_ipv4 src = Ok None))))))))"

section \<open>They pass\<close>

lemma crc32c_bit_numeral:
  "crc32c_bit (numeral c) =
     (if bit (numeral c :: u32) 0 then drop_bit 1 (numeral c) XOR 0x82F63B78 else drop_bit 1 (numeral c))"
  by (rule crc32c_bit_def)

lemma crc32c_byte_eq:
  "crc32c_byte b c = crc32c_bit (crc32c_bit (crc32c_bit (crc32c_bit (crc32c_bit (crc32c_bit (crc32c_bit
     (crc32c_bit (c XOR ucast b))))))))"
  by (simp add: crc32c_byte_def numeral_eq_Suc)

lemma id_test_from_ip_v4_passes: "id_test_from_ip_v4 crc32c"
  by (simp add: id_test_from_ip_v4_def crc32c_def crc32c_bit_numeral crc32c_byte_eq be_bytes4_def from_be_def
      Let_def magic_eq_def)

lemma id_test_generate_valid_id_passes: "id_test_generate_valid_id crc r g rest"
proof -
  let ?ip = "IpV4 (Ipv4Addr 124 31 75 21)"
  obtain i where "id_from_ip crc ?ip r g rest = Ok i"
    using magic_from_ip_v4_ok [of crc "Ipv4Addr 124 31 75 21" r] by (auto simp: id_from_ip_def split: prod.splits)
  then show ?thesis using id_from_ip_valid by (simp add: id_test_generate_valid_id_def)
qed

lemma id_test_id_xor_passes: "id_test_id_xor"
  by (auto simp: id_test_id_xor_def Let_def bytes_id_xor upt_rec intro!: Id_eqI) (simp add: numeral_eq_Suc)

lemma id_test_id_ordering_passes: "id_test_id_ordering"
  by (simp add: id_test_id_ordering_def hex_id_simps)

lemma id_test_matching_prefix_bits_passes: "id_test_matching_prefix_bits"
  by (simp add: id_test_matching_prefix_bits_def matching_prefix_bits_def bytes_id_xor upt_rec leading_zeros_def byte_bits_def)

lemma ipv4_tests_pass: "ipv4_test_static_src" "ipv4_test_consensus_src"
  by (simp_all add: ipv4_test_static_src_def static_new_def static_source_def ipv4_test_consensus_src_def
      consensus_new_def consensus_get_best_ipv4_def consensus_add_vote_def consensus_decay_def
      usize_to_i32_def i32_checked_def i32_max_def i32_min_def)

end
