(* ===== verification/Dht_TestsBuilder.thy ===== *)
theory Dht_TestsBuilder
  imports Dht_TestLib
begin

text \<open>
  The unit tests of \<open>src/packets/builder.rs\<close>, one definition for each, for every random transaction id the
  builder may draw, and that the model passes them.
\<close>

section \<open>The tests\<close>

definition builder_test_sender_id_is_required_in_requests :: "u8 \<times> u8 \<Rightarrow> bool" where
  "builder_test_sender_id_is_required_in_requests rng \<longleftrightarrow>
     (let tid = [0, 1, 2, 3];
          err = build (set_transaction_id tid (builder_new BPingRequest)) rng
      in is_err err \<and>
      unwrap_err err (\<lambda>e. e = BuilderMissingFieldError ''sender_id''))"

definition builder_test_sender_id_is_required_in_responses :: "u8 \<times> u8 \<Rightarrow> bool" where
  "builder_test_sender_id_is_required_in_responses rng \<longleftrightarrow>
     (let tid = [0, 1, 2, 3];
          err = build (set_transaction_id tid (builder_new BPingResponse)) rng
      in is_err err \<and>
      unwrap_err err (\<lambda>e. e = BuilderMissingFieldError ''sender_id''))"

definition builder_test_transaction_id_optional_in_requests :: "u8 \<times> u8 \<Rightarrow> bool" where
  "builder_test_transaction_id_optional_in_requests rng \<longleftrightarrow>
     (let our_id = hex_id 0x0000000000000000000011111111111111111111;
          b = build (set_sender_id our_id (builder_new BPingRequest)) rng
      in is_ok b \<and>
      unwrap b (\<lambda>m. transaction_id m \<noteq> []))"

definition builder_test_transaction_id_required_in_responses :: "u8 \<times> u8 \<Rightarrow> bool" where
  "builder_test_transaction_id_required_in_responses rng \<longleftrightarrow>
     (let our_id = hex_id 0x0000000000000000000011111111111111111111;
          err = build (set_sender_id our_id (builder_new BPingResponse)) rng
      in is_err err \<and>
      unwrap_err err (\<lambda>e. e = BuilderMissingFieldError ''transaction_id''))"

definition builder_test_version_field_populated :: "u8 \<times> u8 \<Rightarrow> bool" where
  "builder_test_version_field_populated rng \<longleftrightarrow>
     (let our_id = hex_id 0x0000000000000000000011111111111111111111;
          b = build (set_version [6, 6, 6] (set_sender_id our_id (builder_new BPingRequest))) rng
      in is_ok b \<and>
      unwrap b (\<lambda>m. (case version m of Some v \<Rightarrow> v | None \<Rightarrow> []) = [6, 6, 6]))"

definition builder_test_requester_ip_pointless_on_requests :: "u8 \<times> u8 \<Rightarrow> bool" where
  "builder_test_requester_ip_pointless_on_requests rng \<longleftrightarrow>
     (let our_id = hex_id 0x0000000000000000000011111111111111111111;
          b = build (set_requester_ip (SockV4 (Ipv4Addr 1 0 1 0) 53) (set_sender_id our_id
              (builder_new BPingRequest))) rng
      in is_ok b \<and>
      unwrap b (\<lambda>m. requester_ip m = None))"

definition builder_test_requester_ip_useful_on_responses :: "u8 \<times> u8 \<Rightarrow> bool" where
  "builder_test_requester_ip_useful_on_responses rng \<longleftrightarrow>
     (let our_id = hex_id 0x0000000000000000000011111111111111111111;
          b = build (set_transaction_id [1] (set_requester_ip (SockV4 (Ipv4Addr 1 0 1 0) 53)
              (set_sender_id our_id (builder_new BPingResponse)))) rng
      in is_ok b \<and>
      unwrap b (\<lambda>m. requester_ip m = Some (SockV4 (Ipv4Addr 1 0 1 0) 53)))"

definition builder_test_read_only_useful_on_requests :: "u8 \<times> u8 \<Rightarrow> bool" where
  "builder_test_read_only_useful_on_requests rng \<longleftrightarrow>
     (let our_id = hex_id 0x0000000000000000000011111111111111111111;
          b = build (set_read_only True (set_sender_id our_id (builder_new BPingRequest))) rng
      in is_ok b \<and>
      unwrap b (\<lambda>m. read_only m = Some True))"

definition builder_test_read_only_pointless_on_responses :: "u8 \<times> u8 \<Rightarrow> bool" where
  "builder_test_read_only_pointless_on_responses rng \<longleftrightarrow>
     (let our_id = hex_id 0x0000000000000000000011111111111111111111;
          b = build (set_transaction_id [1] (set_read_only True (set_sender_id our_id
              (builder_new BPingResponse)))) rng
      in is_ok b \<and>
      unwrap b (\<lambda>m. read_only m = None))"

definition builder_test_build_ping_request :: "u8 \<times> u8 \<Rightarrow> bool" where
  "builder_test_build_ping_request rng \<longleftrightarrow>
     (let our_id = hex_id 0x0000000000000000000011111111111111111111;
          tid = [0, 1, 2, 3]
      in unwrap (build (set_transaction_id tid (set_sender_id our_id (builder_new BPingRequest))) rng)
        (\<lambda>m. m = \<lparr>transaction_id = tid, version = None, requester_ip = None,
         message_type = Request (PingRequest (PingRequestArguments our_id)),
         read_only = None\<rparr>))"

definition builder_test_build_ping_response :: "u8 \<times> u8 \<Rightarrow> bool" where
  "builder_test_build_ping_response rng \<longleftrightarrow>
     (let our_id = hex_id 0x0000000000000000000011111111111111111111;
          tid = [0, 1, 2, 3]
      in unwrap (build (set_transaction_id tid (set_sender_id our_id (builder_new BPingResponse))) rng)
        (\<lambda>m. m = \<lparr>transaction_id = tid, version = None, requester_ip = None,
         message_type = Response (PingResponse (PingResponseArguments our_id)),
         read_only = None\<rparr>))"

definition builder_test_find_node_request :: "u8 \<times> u8 \<Rightarrow> bool" where
  "builder_test_find_node_request rng \<longleftrightarrow>
     (let our_id = hex_id 0x0000000000000000000011111111111111111111;
          target = hex_id 0x1111111111111111111100000000000000000000;
          tid = [0, 1, 2, 3]
      in unwrap (build (set_target target (set_transaction_id tid (set_sender_id our_id
          (builder_new BFindNodeRequest)))) rng)
        (\<lambda>m. m = \<lparr>transaction_id = tid, version = None, requester_ip = None,
         message_type = Request (FindNodeRequest (FindNodeRequestArguments target our_id)),
         read_only = None\<rparr>))"

definition builder_test_find_node_response :: "u8 \<times> u8 \<Rightarrow> bool" where
  "builder_test_find_node_response rng \<longleftrightarrow>
     (let our_id = hex_id 0x0000000000000000000011111111111111111111;
          tid = [0, 1, 2, 3];
          nodes = [Node our_id (SockV4 (Ipv4Addr 1 2 3 4) 53)]
      in unwrap (build (set_nodes nodes (set_transaction_id tid (set_sender_id our_id
          (builder_new BFindNodeResponse)))) rng)
        (\<lambda>m. m = \<lparr>transaction_id = tid, version = None, requester_ip = None,
         message_type = Response (FindNodeResponse (FindNodeResponseArguments our_id nodes)),
         read_only = None\<rparr>))"

definition builder_test_get_peers_request :: "u8 \<times> u8 \<Rightarrow> bool" where
  "builder_test_get_peers_request rng \<longleftrightarrow>
     (let our_id = hex_id 0x0000000000000000000011111111111111111111;
          target = hex_id 0x1111111111111111111100000000000000000000;
          tid = [0, 1, 2, 3]
      in unwrap (build (set_target target (set_transaction_id tid (set_sender_id our_id
          (builder_new BGetPeersRequest)))) rng)
        (\<lambda>m. m = \<lparr>transaction_id = tid, version = None, requester_ip = None,
         message_type = Request (GetPeersRequest (GetPeersRequestArguments target our_id)),
         read_only = None\<rparr>))"

definition builder_test_get_peers_response_nodes :: "u8 \<times> u8 \<Rightarrow> bool" where
  "builder_test_get_peers_response_nodes rng \<longleftrightarrow>
     (let our_id = hex_id 0x0000000000000000000011111111111111111111;
          tid = [0, 1, 2, 3];
          nodes = [Node our_id (SockV4 (Ipv4Addr 1 2 3 4) 53)];
          token = [45, 56]
      in unwrap (build (set_token token (set_nodes nodes (set_transaction_id tid (set_sender_id our_id
          (builder_new BGetPeersResponse))))) rng)
        (\<lambda>m. m = \<lparr>transaction_id = tid, version = None, requester_ip = None,
         message_type = Response (GetPeersResponse (GetPeersResponseArguments our_id token (Nodes nodes))),
         read_only = None\<rparr>))"

definition builder_test_get_peers_response_peers :: "u8 \<times> u8 \<Rightarrow> bool" where
  "builder_test_get_peers_response_peers rng \<longleftrightarrow>
     (let our_id = hex_id 0x0000000000000000000011111111111111111111;
          tid = [0, 1, 2, 3];
          peers = [(SockV4 (Ipv4Addr 1 2 3 4) 53)];
          token = [45, 56]
      in unwrap (build (set_token token (set_peers peers (set_transaction_id tid (set_sender_id our_id
          (builder_new BGetPeersResponse))))) rng)
        (\<lambda>m. m = \<lparr>transaction_id = tid, version = None, requester_ip = None,
         message_type = Response (GetPeersResponse (GetPeersResponseArguments our_id token (Peers peers))),
         read_only = None\<rparr>))"

definition builder_test_get_peers_response_peers_precedent :: "u8 \<times> u8 \<Rightarrow> bool" where
  "builder_test_get_peers_response_peers_precedent rng \<longleftrightarrow>
     (let our_id = hex_id 0x0000000000000000000011111111111111111111;
          tid = [0, 1, 2, 3];
          nodes = [Node our_id (SockV4 (Ipv4Addr 1 2 3 4) 53)];
          peers = [(SockV4 (Ipv4Addr 1 2 3 4) 53)];
          token = [45, 56]
      in unwrap (build (set_token token (set_nodes nodes (set_peers peers (set_transaction_id tid
          (set_sender_id our_id (builder_new BGetPeersResponse)))))) rng)
        (\<lambda>m. m = \<lparr>transaction_id = tid, version = None, requester_ip = None,
         message_type = Response (GetPeersResponse (GetPeersResponseArguments our_id token (Peers peers))),
         read_only = None\<rparr>))"

definition builder_test_announce_peer_request :: "u8 \<times> u8 \<Rightarrow> bool" where
  "builder_test_announce_peer_request rng \<longleftrightarrow>
     (let our_id = hex_id 0x0000000000000000000011111111111111111111;
          target = hex_id 0x1111111111111111111100000000000000000000;
          tid = [0, 1, 2, 3];
          token = [6, 6, 6]
      in unwrap (build (set_token token (set_port 5050 (set_target target (set_transaction_id tid
          (set_sender_id our_id (builder_new BAnnouncePeerRequest)))))) rng)
        (\<lambda>m. m = \<lparr>transaction_id = tid, version = None, requester_ip = None,
         message_type = Request (AnnouncePeerRequest
             (AnnouncePeerRequestArguments our_id target 5050 None token)),
         read_only = None\<rparr>))"

definition builder_test_announce_peer_request_default_implied_port :: "u8 \<times> u8 \<Rightarrow> bool" where
  "builder_test_announce_peer_request_default_implied_port rng \<longleftrightarrow>
     (let our_id = hex_id 0x0000000000000000000011111111111111111111;
          target = hex_id 0x1111111111111111111100000000000000000000;
          tid = [0, 1, 2, 3];
          token = [6, 6, 6]
      in unwrap (build (set_token token (set_target target (set_transaction_id tid (set_sender_id our_id
          (builder_new BAnnouncePeerRequest))))) rng)
        (\<lambda>m. m = \<lparr>transaction_id = tid, version = None, requester_ip = None,
         message_type = Request (AnnouncePeerRequest (AnnouncePeerRequestArguments our_id target 0
             (Some True) token)),
         read_only = None\<rparr>))"

definition builder_test_announce_peer_request_default_implied_port_conflict :: "u8 \<times> u8 \<Rightarrow>
    bool" where
  "builder_test_announce_peer_request_default_implied_port_conflict rng \<longleftrightarrow>
     (let our_id = hex_id 0x0000000000000000000011111111111111111111;
          target = hex_id 0x1111111111111111111100000000000000000000;
          tid = [0, 1, 2, 3];
          token = [6, 6, 6]
      in unwrap_err (build (set_implied_port False (set_token token (set_target target (set_transaction_id tid
          (set_sender_id our_id (builder_new BAnnouncePeerRequest)))))) rng)
          (\<lambda>e. case e of BuilderInvalidComboError d \<Rightarrow> True | _ \<Rightarrow> False))"

definition builder_test_announce_peer_response :: "u8 \<times> u8 \<Rightarrow> bool" where
  "builder_test_announce_peer_response rng \<longleftrightarrow>
     (let our_id = hex_id 0x0000000000000000000011111111111111111111;
          tid = [0, 1, 2, 3]
      in unwrap (build (set_transaction_id tid (set_sender_id our_id (builder_new BAnnouncePeerResponse))) rng)
        (\<lambda>m. m = \<lparr>transaction_id = tid, version = None, requester_ip = None,
         message_type = Response (PingResponse (PingResponseArguments our_id)),
         read_only = None\<rparr>))"

definition builder_test_sample_infohashes_request :: "u8 \<times> u8 \<Rightarrow> bool" where
  "builder_test_sample_infohashes_request rng \<longleftrightarrow>
     (let our_id = hex_id 0x0000000000000000000011111111111111111111;
          target = hex_id 0x1111111111111111111100000000000000000000;
          tid = [0, 1, 2, 3]
      in unwrap (build (set_target target (set_transaction_id tid (set_sender_id our_id
          (builder_new BSampleInfoHashesRequest)))) rng)
        (\<lambda>m. m = \<lparr>transaction_id = tid, version = None, requester_ip = None,
         message_type = Request (SampleInfoHashesRequest (SampleInfoHashesRequestArguments target our_id)),
         read_only = None\<rparr>))"

definition builder_test_sample_infohashes_response :: "u8 \<times> u8 \<Rightarrow> bool" where
  "builder_test_sample_infohashes_response rng \<longleftrightarrow>
     (let our_id = hex_id 0x0000000000000000000011111111111111111111;
          tid = [0, 1, 2, 3];
          nodes = [Node our_id (SockV4 (Ipv4Addr 1 2 3 4) 53)];
          samples = [hex_id 0x2222222222222222222233333333333333333333]
      in unwrap (build (set_samples samples (set_nodes nodes (set_num_infohashes 50 (set_interval
          (dur_from_secs 30) (set_transaction_id tid (set_sender_id our_id
          (builder_new BSampleInfoHashesResponse))))))) rng)
        (\<lambda>m. m = \<lparr>transaction_id = tid, version = None, requester_ip = None,
         message_type = Response (SampleInfoHashesResponse (SampleInfoHashesResponseArguments our_id
             (dur_from_secs 30) nodes samples 50)),
         read_only = None\<rparr>))"

definition builder_test_error :: "u8 \<times> u8 \<Rightarrow> bool" where
  "builder_test_error rng \<longleftrightarrow>
     (let tid = [0, 1, 2, 3];
          code = 42;
          description = utf8 ''Oh no''
      in unwrap (build (set_description description (set_code code (set_transaction_id tid
          (builder_new BError)))) rng)
        (\<lambda>m. m = \<lparr>transaction_id = tid, version = None, requester_ip = None,
         message_type = Error (ErrorSpecific code description),
         read_only = None\<rparr>))"

section \<open>They pass\<close>

lemmas builder_test_defs =
  builder_test_sender_id_is_required_in_requests_def builder_test_sender_id_is_required_in_responses_def
  builder_test_transaction_id_optional_in_requests_def builder_test_transaction_id_required_in_responses_def
  builder_test_version_field_populated_def builder_test_requester_ip_pointless_on_requests_def
  builder_test_requester_ip_useful_on_responses_def builder_test_read_only_useful_on_requests_def
  builder_test_read_only_pointless_on_responses_def builder_test_build_ping_request_def
  builder_test_build_ping_response_def builder_test_find_node_request_def builder_test_find_node_response_def
  builder_test_get_peers_request_def builder_test_get_peers_response_nodes_def
  builder_test_get_peers_response_peers_def builder_test_get_peers_response_peers_precedent_def
  builder_test_announce_peer_request_def builder_test_announce_peer_request_default_implied_port_def
  builder_test_announce_peer_request_default_implied_port_conflict_def builder_test_announce_peer_response_def
  builder_test_sample_infohashes_request_def builder_test_sample_infohashes_response_def
  builder_test_error_def

lemma builder_tests_pass:
  "builder_test_sender_id_is_required_in_requests rng" "builder_test_sender_id_is_required_in_responses rng"
  "builder_test_transaction_id_optional_in_requests rng"
  "builder_test_transaction_id_required_in_responses rng" "builder_test_version_field_populated rng"
  "builder_test_requester_ip_pointless_on_requests rng" "builder_test_requester_ip_useful_on_responses rng"
  "builder_test_read_only_useful_on_requests rng" "builder_test_read_only_pointless_on_responses rng"
  "builder_test_build_ping_request rng" "builder_test_build_ping_response rng"
  "builder_test_find_node_request rng" "builder_test_find_node_response rng"
  "builder_test_get_peers_request rng" "builder_test_get_peers_response_nodes rng"
  "builder_test_get_peers_response_peers rng" "builder_test_get_peers_response_peers_precedent rng"
  "builder_test_announce_peer_request rng" "builder_test_announce_peer_request_default_implied_port rng"
  "builder_test_announce_peer_request_default_implied_port_conflict rng"
  "builder_test_announce_peer_response rng" "builder_test_sample_infohashes_request rng"
  "builder_test_sample_infohashes_response rng" "builder_test_error rng"
  by (simp_all add: builder_test_defs Let_def builder_new_def builder_setters build_defs required_or_error_def
      usize_to_i32_unwrap_def i32_max_def)

end
