(* ===== verification/Dht_TestsPublic.thy ===== *)
theory Dht_TestsPublic
  imports Dht_TestLib Dht_Datagram
begin

text \<open>
  The unit tests of \<open>src/packets/public.rs\<close>, one definition for each. \<open>ser\<close> and \<open>de\<close> are the bencode library, of
  which the passing tests only need its contract, also for the exact bytes that one of them expects. Random ids are arguments.
\<close>

section \<open>The tests\<close>

text \<open>The six lines most tests end with.\<close>

definition round_trip :: "(DHTMessage \<Rightarrow> bytes res) \<Rightarrow> (bytes \<Rightarrow> DHTMessage res) \<Rightarrow> Message \<Rightarrow> bool" where
  "round_trip ser de original_msg \<longleftrightarrow>
     (let serde_msg = into_serde_message original_msg
      in unwrap (ser serde_msg) (\<lambda>bytes.
         unwrap (de bytes) (\<lambda>parsed_serde_msg.
         unwrap (from_serde_message parsed_serde_msg) (\<lambda>parsed_msg. parsed_msg = original_msg))))"

definition public_test_ping_request :: "(DHTMessage \<Rightarrow> bytes res) \<Rightarrow>
    (bytes \<Rightarrow> DHTMessage res) \<Rightarrow> bool" where
  "public_test_ping_request ser de \<longleftrightarrow>
     (let original_msg =
        \<lparr>transaction_id = [0, 1, 2], version = None, requester_ip = None,
         message_type = Request (PingRequest (PingRequestArguments
             (hex_id 0xf00ff00ff00ff00ff00ff00ff00ff00ff00ff00f))),
         read_only = None\<rparr>
      in round_trip ser de original_msg)"

definition public_test_ping_response :: "(DHTMessage \<Rightarrow> bytes res) \<Rightarrow>
    (bytes \<Rightarrow> DHTMessage res) \<Rightarrow> bool" where
  "public_test_ping_response ser de \<longleftrightarrow>
     (let original_msg =
        \<lparr>transaction_id = [1, 2, 3], version = Some [0xde, 0xad], requester_ip = Some (SockV4
            (Ipv4Addr 99 100 101 102) 1030),
         message_type = Response (PingResponse (PingResponseArguments
             (hex_id 0xbeefbeefbeefbeefbeefbeefbeefbeefbeefbeef))),
         read_only = None\<rparr>
      in round_trip ser de original_msg)"

definition public_test_get_peers_request :: "(DHTMessage \<Rightarrow> bytes res) \<Rightarrow>
    (bytes \<Rightarrow> DHTMessage res) \<Rightarrow> bool" where
  "public_test_get_peers_request ser de \<longleftrightarrow>
     (let original_msg =
        \<lparr>transaction_id = [1, 2, 3, 4, 5, 6, 7, 8, 9, 10], version = Some [72, 73], requester_ip = None,
         message_type = Request (GetPeersRequest (GetPeersRequestArguments
             (hex_id 0xdeaddeaddeaddeaddeaddeaddeaddeaddeaddead)
             (hex_id 0xbeefbeefbeefbeefbeefbeefbeefbeefbeefbeef))),
         read_only = None\<rparr>
      in round_trip ser de original_msg)"

definition public_test_get_peers_response :: "(DHTMessage \<Rightarrow> bytes res) \<Rightarrow>
    (bytes \<Rightarrow> DHTMessage res) \<Rightarrow> bool" where
  "public_test_get_peers_response ser de \<longleftrightarrow>
     (let original_msg =
        \<lparr>transaction_id = [1, 2, 3], version = Some [1], requester_ip = Some (SockV4
            (Ipv4Addr 50 51 52 53) 5455),
         message_type = Response (GetPeersResponse (GetPeersResponseArguments
             (hex_id 0x0505050505050505050505050505050505050505) [99, 100, 101, 102] (Nodes [Node
             (hex_id 0x0606060606060606060606060606060606060606) (SockV4 (Ipv4Addr 49 50 52 52) 5354)]))),
         read_only = None\<rparr>
      in round_trip ser de original_msg)"

definition public_test_get_peers_response_peers :: "(DHTMessage \<Rightarrow> bytes res) \<Rightarrow>
    (bytes \<Rightarrow> DHTMessage res) \<Rightarrow> bool" where
  "public_test_get_peers_response_peers ser de \<longleftrightarrow>
     (let original_msg =
        \<lparr>transaction_id = [1, 2, 3], version = Some [1], requester_ip = Some (SockV4
            (Ipv4Addr 50 51 52 53) 5455),
         message_type = Response (GetPeersResponse (GetPeersResponseArguments
             (hex_id 0x0505050505050505050505050505050505050505) [99, 100, 101, 102] (Peers [SockV4
             (Ipv4Addr 123 123 123 123) 123]))),
         read_only = None\<rparr>
      in round_trip ser de original_msg)"

definition public_test_get_peers_response_neither :: bool where
  "public_test_get_peers_response_neither \<longleftrightarrow>
     (let serde_message =
        \<lparr>d_transaction_id = [1, 2, 3], d_version = None, d_variant =
           DHTResponse (DHTGetPeersRes (DHTGetPeersResponseArguments (id_to_vec
             (hex_id 0x0505050505050505050505050505050505050505)) [0, 1] None None)),
         d_ip = None, d_read_only = None\<rparr>
      in unwrap (from_serde_message serde_message) (\<lambda>parsed_msg.
         case message_type parsed_msg of Response
             (GetPeersResponse v) \<Rightarrow> True | _ \<Rightarrow> False))"

definition public_test_find_node_request :: "(DHTMessage \<Rightarrow> bytes res) \<Rightarrow>
    (bytes \<Rightarrow> DHTMessage res) \<Rightarrow> bool" where
  "public_test_find_node_request ser de \<longleftrightarrow>
     (let original_msg =
        \<lparr>transaction_id = [1, 2, 3], version = Some [0x62, 0x61, 0x72, 0x66], requester_ip = None,
         message_type = Request (FindNodeRequest (FindNodeRequestArguments
             (hex_id 0x1234123412341234123412341234123412341234)
             (hex_id 0x5678567856785678567856785678567856785678))),
         read_only = None\<rparr>
      in round_trip ser de original_msg)"

definition public_test_find_node_request_read_only :: "(DHTMessage \<Rightarrow> bytes res) \<Rightarrow>
    (bytes \<Rightarrow> DHTMessage res) \<Rightarrow> bool" where
  "public_test_find_node_request_read_only ser de \<longleftrightarrow>
     (let original_msg =
        \<lparr>transaction_id = [1, 2, 3], version = Some [0x62, 0x61, 0x72, 0x66], requester_ip = None,
         message_type = Request (FindNodeRequest (FindNodeRequestArguments
             (hex_id 0x1234123412341234123412341234123412341234)
             (hex_id 0x5678567856785678567856785678567856785678))),
         read_only = Some True\<rparr>
      in round_trip ser de original_msg)"

definition public_test_find_node_response :: "(DHTMessage \<Rightarrow> bytes res) \<Rightarrow>
    (bytes \<Rightarrow> DHTMessage res) \<Rightarrow> bool" where
  "public_test_find_node_response ser de \<longleftrightarrow>
     (let original_msg =
        \<lparr>transaction_id = [1, 2, 3], version = Some [1], requester_ip = Some (SockV4
            (Ipv4Addr 50 51 52 53) 5455),
         message_type = Response (FindNodeResponse (FindNodeResponseArguments
             (hex_id 0x0505050505050505050505050505050505050505) [Node
             (hex_id 0x0606060606060606060606060606060606060606) (SockV4 (Ipv4Addr 49 50 52 52) 5354)])),
         read_only = None\<rparr>
      in round_trip ser de original_msg)"

definition public_test_announce_peer_request :: "(DHTMessage \<Rightarrow> bytes res) \<Rightarrow>
    (bytes \<Rightarrow> DHTMessage res) \<Rightarrow> bool" where
  "public_test_announce_peer_request ser de \<longleftrightarrow>
     (let original_msg =
        \<lparr>transaction_id = [1, 2, 3], version = Some [0x62, 0x61, 0x72, 0x66], requester_ip = None,
         message_type = Request (AnnouncePeerRequest (AnnouncePeerRequestArguments
             (hex_id 0x5678567856785678567856785678567856785678)
             (hex_id 0x9899989998999899989998999899989998999899) 666 (Some False) [42, 42, 42, 42])),
         read_only = None\<rparr>
      in round_trip ser de original_msg)"

definition public_test_sample_info_hashes_request :: "(DHTMessage \<Rightarrow> bytes res) \<Rightarrow>
    (bytes \<Rightarrow> DHTMessage res) \<Rightarrow> bool" where
  "public_test_sample_info_hashes_request ser de \<longleftrightarrow>
     (let original_msg =
        \<lparr>transaction_id = [1, 2, 3], version = Some [0x62, 0x61, 0x72, 0x66], requester_ip = None,
         message_type = Request (SampleInfoHashesRequest (SampleInfoHashesRequestArguments
             (hex_id 0x3344334433443344334433443344334433443344)
             (hex_id 0x5678567856785678567856785678567856785678))),
         read_only = None\<rparr>
      in round_trip ser de original_msg)"

definition public_test_sample_info_hashes_response :: "(DHTMessage \<Rightarrow> bytes res) \<Rightarrow>
    (bytes \<Rightarrow> DHTMessage res) \<Rightarrow> bool" where
  "public_test_sample_info_hashes_response ser de \<longleftrightarrow>
     (let original_msg =
        \<lparr>transaction_id = [1, 2, 3], version = Some [1], requester_ip = Some (SockV4
            (Ipv4Addr 50 51 52 53) 5455),
         message_type = Response (SampleInfoHashesResponse (SampleInfoHashesResponseArguments
             (hex_id 0x0505050505050505050505050505050505050505) (dur_from_secs 32) [Node
             (hex_id 0x0606060606060606060606060606060606060606) (SockV4
             (Ipv4Addr 49 50 52 52) 5354)] [hex_id 0x3232323232323232323232323232323232323232, hex_id
             0x3434343434343434343434343434343434343434] 300)),
         read_only = None\<rparr>
      in round_trip ser de original_msg)"

definition public_test_error_response :: "(DHTMessage \<Rightarrow> bytes res) \<Rightarrow>
    (bytes \<Rightarrow> DHTMessage res) \<Rightarrow> bool" where
  "public_test_error_response ser de \<longleftrightarrow>
     (let original_msg =
        \<lparr>transaction_id = [97, 97], version = None, requester_ip = None,
         message_type = Error (ErrorSpecific 201 (utf8 ''A Generic Error Occured'')),
         read_only = None\<rparr>
      in unwrap (ser (into_serde_message original_msg)) (\<lambda>bytes.
         bytes = utf8 ''d1:eli201e23:A Generic Error Occurede1:t2:aa1:y1:ee'' \<and>
         unwrap (de bytes) (\<lambda>parsed_serde_msg.
         unwrap (from_serde_message parsed_serde_msg) (\<lambda>parsed_msg. parsed_msg = original_msg))))"

definition public_test_response_matches_request_find_node :: "(nat \<Rightarrow> u8) \<Rightarrow>
    (nat \<Rightarrow> u8) \<Rightarrow> (nat \<Rightarrow> u8) \<Rightarrow> bool" where
  "public_test_response_matches_request_find_node r1 r2 r3 \<longleftrightarrow>
     (let res = FindNodeResponse (FindNodeResponseArguments (id_from_random r1) []);
          req = FindNodeRequest (FindNodeRequestArguments (id_from_random r3) (id_from_random r2))
      in response_matches_request res req)"

definition public_test_response_matches_request_find_ping :: "(nat \<Rightarrow> u8) \<Rightarrow>
    (nat \<Rightarrow> u8) \<Rightarrow> bool" where
  "public_test_response_matches_request_find_ping r1 r2 \<longleftrightarrow>
     (let res = PingResponse (PingResponseArguments (id_from_random r1));
          req = PingRequest (PingRequestArguments (id_from_random r2))
      in response_matches_request res req)"

definition public_test_response_matches_request_find_nonmatching :: "(nat \<Rightarrow> u8) \<Rightarrow>
    (nat \<Rightarrow> u8) \<Rightarrow> (nat \<Rightarrow> u8) \<Rightarrow> bool" where
  "public_test_response_matches_request_find_nonmatching r1 r2 r3 \<longleftrightarrow>
     (let res = PingResponse (PingResponseArguments (id_from_random r1));
          req = FindNodeRequest (FindNodeRequestArguments (id_from_random r3) (id_from_random r2))
      in \<not> response_matches_request res req)"

section \<open>They pass\<close>

lemma round_trip_passes:
  assumes "bencode_library emit scan" and "wire_ok m" and "clamp_message m = m"
  shows "round_trip (message_to_bytes emit) (message_from_bytes scan) m"
  using bencode_library.to_bytes_ok [OF assms(1) plain_into_serde] bencode_library.from_bytes_ok [OF assms(1) plain_into_serde]
    message_roundtrip [OF assms(2)] assms(3)
  by (simp add: round_trip_def)

lemmas public_test_defs =
  public_test_ping_request_def public_test_ping_response_def public_test_get_peers_request_def
  public_test_get_peers_response_def public_test_get_peers_response_peers_def
  public_test_find_node_request_def public_test_find_node_request_read_only_def
  public_test_find_node_response_def public_test_announce_peer_request_def
  public_test_sample_info_hashes_request_def public_test_sample_info_hashes_response_def

lemma public_tests_pass:
  assumes "bencode_library emit scan"
  shows
    "public_test_ping_request (message_to_bytes emit) (message_from_bytes scan)" "public_test_ping_response (message_to_bytes emit) (message_from_bytes scan)"
    "public_test_get_peers_request (message_to_bytes emit) (message_from_bytes scan)" "public_test_get_peers_response (message_to_bytes emit) (message_from_bytes scan)"
    "public_test_get_peers_response_peers (message_to_bytes emit) (message_from_bytes scan)" "public_test_find_node_request (message_to_bytes emit) (message_from_bytes scan)"
    "public_test_find_node_request_read_only (message_to_bytes emit) (message_from_bytes scan)" "public_test_find_node_response (message_to_bytes emit) (message_from_bytes scan)"
    "public_test_announce_peer_request (message_to_bytes emit) (message_from_bytes scan)" "public_test_sample_info_hashes_request (message_to_bytes emit) (message_from_bytes scan)"
    "public_test_sample_info_hashes_response (message_to_bytes emit) (message_from_bytes scan)"
  unfolding public_test_defs Let_def
  by (rule round_trip_passes [OF assms]; simp add: wire_ok_def nodes_v4_def clamp_message_def dur_from_secs_def
      dur_as_secs_def nanos_per_sec_def MAX_SCRAPE_INTERVAL_def)+

text \<open>The error message of the last round trip has the bytes that the test expects.\<close>

lemma public_test_error_response_passes:
  assumes "bencode_library emit scan"
  shows "public_test_error_response (message_to_bytes emit) (message_from_bytes scan)"
proof -
  let ?m = "\<lparr>transaction_id = [97, 97], version = None, requester_ip = None,
          message_type = Error (ErrorSpecific 201 (utf8 ''A Generic Error Occured'')), read_only = None\<rparr>"
  have "wire_ok ?m" "clamp_message ?m = ?m" by (simp_all add: wire_ok_def clamp_message_def utf8_def)
  then have "from_serde_message (into_serde_message ?m) = Ok ?m" using message_roundtrip by simp
  moreover have "message_bytes (into_serde_message ?m) = utf8 ''d1:eli201e23:A Generic Error Occurede1:t2:aa1:y1:ee''"
    by (simp add: message_bytes_def message_value_def into_serde_message_def utf8_def encode_bytes_def digits.simps show_int_def)
  ultimately show ?thesis
    using bencode_library.to_bytes_ok [OF assms plain_into_serde, of ?m] bencode_library.from_bytes_ok [OF assms plain_into_serde, of ?m]
    by (simp add: public_test_error_response_def)
qed

lemma public_matching_tests_pass:
  "public_test_response_matches_request_find_node r1 r2 r3"
  "public_test_response_matches_request_find_ping r1 r2"
  "public_test_response_matches_request_find_nonmatching r1 r2 r3" "public_test_get_peers_response_neither"
  by (simp_all add: Let_def from_serde_message_def
      public_test_response_matches_request_find_node_def public_test_response_matches_request_find_ping_def
      public_test_response_matches_request_find_nonmatching_def public_test_get_peers_response_neither_def)

end
