(* ===== verification/Dht_TestsInternal.thy ===== *)
theory Dht_TestsInternal
  imports Dht_TestLib Dht_Datagram
begin

text \<open>
  The unit tests of \<open>src/packets/internal.rs\<close>, one definition for each: datagrams recorded from the network, as
  hexadecimal literals, and the messages they should parse to. \<open>hex_decode\<close> is \<open>hex::decode\<close>, \<open>scan\<close> the bencode library.
\<close>

section \<open>Hexadecimal literals\<close>

definition unwrap_hex :: "(string \<Rightarrow> bytes option) \<Rightarrow> string \<Rightarrow> (bytes \<Rightarrow> bool) \<Rightarrow> bool" where
  "unwrap_hex hex_decode s P = (case hex_decode s of Some bs \<Rightarrow> P bs | None \<Rightarrow> False)"

text \<open>What the crate \<open>hex\<close> documents: two digits of either case for a byte.\<close>

definition hex_digit :: "char \<Rightarrow> u8 option" where
  "hex_digit c =
     (let n = of_char c in
      if 0x30 \<le> n \<and> n \<le> 0x39 then Some (n - 0x30)
      else if 0x61 \<le> n \<and> n \<le> 0x66 then Some (n - 0x57)
      else if 0x41 \<le> n \<and> n \<le> 0x46 then Some (n - 0x37)
      else None)"

fun hex_bytes :: "string \<Rightarrow> bytes option" where
  "hex_bytes [] = Some []"
| "hex_bytes [c] = None"
| "hex_bytes (c # d # s) =
     (case (hex_digit c, hex_digit d) of
        (Some h, Some l) \<Rightarrow> map_option (Cons (16 * h + l)) (hex_bytes s)
      | _ \<Rightarrow> None)"

definition hex_law :: "(string \<Rightarrow> bytes option) \<Rightarrow> bool" where
  "hex_law hex_decode \<longleftrightarrow> (\<forall>s bs. hex_bytes s = Some bs \<longrightarrow> hex_decode s = Some bs)"

lemma hex_law_possible: "hex_law hex_bytes"
  by (simp add: hex_law_def)

lemma hex_digits:
  "hex_digit CHR ''0'' = Some 0" "hex_digit CHR ''1'' = Some 1" "hex_digit CHR ''2'' = Some 2" "hex_digit CHR ''3'' = Some 3"
  "hex_digit CHR ''4'' = Some 4" "hex_digit CHR ''5'' = Some 5" "hex_digit CHR ''6'' = Some 6" "hex_digit CHR ''7'' = Some 7"
  "hex_digit CHR ''8'' = Some 8" "hex_digit CHR ''9'' = Some 9" "hex_digit CHR ''a'' = Some 10" "hex_digit CHR ''b'' = Some 11"
  "hex_digit CHR ''c'' = Some 12" "hex_digit CHR ''d'' = Some 13" "hex_digit CHR ''e'' = Some 14" "hex_digit CHR ''f'' = Some 15"
  by (simp_all add: hex_digit_def)

section \<open>The tests\<close>

definition internal_test_parse_ping_request :: "(string \<Rightarrow> bytes option) \<Rightarrow> (bytes \<Rightarrow> DHTMessage option) \<Rightarrow> bool" where
  "internal_test_parse_ping_request hex_decode scan \<longleftrightarrow>
     unwrap_hex hex_decode ''64313a6164323a696432303a70f923e90771701587b6d36fbb78b3a8047b092e65313a71343a70696e67313a74323ab51b313a79313a7165'' (\<lambda>bytes.
     unwrap (message_from_bytes scan bytes) (\<lambda>message.
     unwrap_hex hex_decode ''70f923e90771701587b6d36fbb78b3a8047b092e'' (\<lambda>i.
     let legit =
         \<lparr>d_transaction_id = [0xb5, 0x1b], d_version = None,
          d_variant = DHTRequest (DHTPingReq (DHTPingArguments i)),
          d_ip = None, d_read_only = None\<rparr>
     in legit = message)))"

definition internal_test_parse_ping_response :: "(string \<Rightarrow> bytes option) \<Rightarrow> (bytes \<Rightarrow> DHTMessage option) \<Rightarrow> bool" where
  "internal_test_parse_ping_response hex_decode scan \<longleftrightarrow>
     unwrap_hex hex_decode ''64323a6970363a48a8858f2014313a7264323a696432303a70f22fcfdc27e4ff28f0c00a6a3de0d6c4361ccd65313a74323ab51b313a76343a5554b3ba313a79313a7265'' (\<lambda>bytes.
     unwrap (message_from_bytes scan bytes) (\<lambda>message.
     unwrap_hex hex_decode ''48a8858f2014'' (\<lambda>ip.
     unwrap_hex hex_decode ''5554b3ba'' (\<lambda>version.
     unwrap_hex hex_decode ''70f22fcfdc27e4ff28f0c00a6a3de0d6c4361ccd'' (\<lambda>i.
     let legit =
         \<lparr>d_transaction_id = [0xb5, 0x1b], d_version = Some version,
          d_variant = DHTResponse (DHTPingRes (DHTPingResponseArguments i)),
          d_ip = Some ip, d_read_only = None\<rparr>
     in legit = message)))))"

definition internal_test_parse_get_peers_request :: "(string \<Rightarrow> bytes option) \<Rightarrow> (bytes \<Rightarrow> DHTMessage option) \<Rightarrow> bool" where
  "internal_test_parse_get_peers_request hex_decode scan \<longleftrightarrow>
     unwrap_hex hex_decode ''64313a6164323a696432303a287cbd6f580fcf5920aafe67478a0c882ab2ee8e393a696e666f5f6861736832303a70f986a9fb5a9e8e0bafc62165b717836033210965313a71393a6765745f7065657273313a74343aacc4e52e313a79313a7165'' (\<lambda>bytes.
     unwrap (message_from_bytes scan bytes) (\<lambda>message.
     unwrap_hex hex_decode ''287cbd6f580fcf5920aafe67478a0c882ab2ee8e'' (\<lambda>i.
     unwrap_hex hex_decode ''70f986a9fb5a9e8e0bafc62165b7178360332109'' (\<lambda>info_hash.
     let legit =
         \<lparr>d_transaction_id = [0xac, 0xc4, 0xe5, 0x2e], d_version = None,
          d_variant = DHTRequest (DHTGetPeersReq (DHTGetPeersArguments i info_hash)),
          d_ip = None, d_read_only = None\<rparr>
     in legit = message))))"

text \<open>The long literals of the next test, in rows; they occur in its datagram as they are.\<close>

definition recorded_get_peers_nodes :: string where
  "recorded_get_peers_nodes = concat
     [
      ''70e9325426374aff7f909e8f14faeda58d4f9a68b925f813d37f'', ''70eeac0aaef80a095f190dfddd17787eec980182578a6199db0d'',
      ''70ee20a15db5e9c7eee898a14d461fb262e9907c47c213fd1ae9'', ''70ed932dd5335ab19eaa4f1820814662bb1eea025169e8c1bf66'',
      ''70ed65b14cfcbb854b838465950cc00cd97aeb625d68eb4251f6'', ''70ec53526e4fe3e0bea78e796ece96b024fd749b05c44818cf08'',
      ''70e0c53d2a3899fd53b2e1ffc8afa95374e0d6cdb0099d9c2327'', ''70e74ed6ae529049f1f1bbe9ebb3a6db3c870ce152150dd9d8be'']"

definition internal_test_parse_get_peers_response :: "(string \<Rightarrow> bytes option) \<Rightarrow> (bytes \<Rightarrow> DHTMessage option) \<Rightarrow> bool" where
  "internal_test_parse_get_peers_response hex_decode scan \<longleftrightarrow>
     unwrap_hex hex_decode (''64323a6970363a334f9e687d01313a7264323a696432303a70f923e90771701587b6d36fbb78b3a8047b092e353a6e6f6465733230383a'' @ recorded_get_peers_nodes @ ''353a746f6b656e343a76b5550c65313a74323aa0bc313a79313a7265'') (\<lambda>bytes.
     unwrap (message_from_bytes scan bytes) (\<lambda>message.
     unwrap_hex hex_decode ''334f9e687d01'' (\<lambda>ip.
     unwrap_hex hex_decode ''70f923e90771701587b6d36fbb78b3a8047b092e'' (\<lambda>i.
     unwrap_hex hex_decode recorded_get_peers_nodes (\<lambda>nodes.
     unwrap_hex hex_decode ''76b5550c'' (\<lambda>token.
     let legit =
         \<lparr>d_transaction_id = [0xa0, 0xbc], d_version = None,
          d_variant = DHTResponse (DHTGetPeersRes (DHTGetPeersResponseArguments i token (Some nodes) None)),
          d_ip = Some ip, d_read_only = None\<rparr>
     in legit = message))))))"

definition internal_test_parse_find_node_request :: "(string \<Rightarrow> bytes option) \<Rightarrow> (bytes \<Rightarrow> DHTMessage option) \<Rightarrow> bool" where
  "internal_test_parse_find_node_request hex_decode scan \<longleftrightarrow>
     unwrap_hex hex_decode ''64313a6164323a696432303a93b7d318a5034a01231c86f68f385468e67038c6363a74617267657432303a4800711700005e9e00001b190000391d00005a9565313a71393a66696e645f6e6f6465313a74343a41160000313a76343a5554b3ba313a79313a7165'' (\<lambda>bytes.
     unwrap (message_from_bytes scan bytes) (\<lambda>message.
     unwrap_hex hex_decode ''93b7d318a5034a01231c86f68f385468e67038c6'' (\<lambda>i.
     unwrap_hex hex_decode ''4800711700005e9e00001b190000391d00005a95'' (\<lambda>target.
     let legit =
         \<lparr>d_transaction_id = [0x41, 0x16, 0x00, 0x00], d_version = Some [0x55, 0x54, 0xb3, 0xba],
          d_variant = DHTRequest (DHTFindNodeReq (DHTFindNodeArguments i target)),
          d_ip = None, d_read_only = None\<rparr>
     in legit = message))))"

text \<open>The long literals of the next test, in rows; they occur in its datagram as they are.\<close>

definition recorded_find_node_nodes :: string where
  "recorded_find_node_nodes = concat
     [
      ''4bcf558e1e7f7543f63f6cd57ca9c50d446e898d5f5499481ae1'', ''4bf18f4fa61e6fc2a944b024511bfc0f67997eff8e86c3565f85'',
      ''4f65edbc03f23184dedf8d8619b0916bbcaca617d5855fc71ae1'', ''4fb2b2feff1694d9a3ccbda1c68dbe4efb62f08f5f58f6cb1ae1'',
      ''42024361c0ecf637b4125af472a8214fe49c9603a93f15571ae1'', ''42db840f263413b8a8603e1e87fea7cc0bf1bd0c3216850a1ae1'',
      ''5b506431ba2475bbe30a243217c091adafe45f563b157ed71f52'', ''5bc83812fadb89e6d47df829a327b951c9b726a9a93dda2d1ae1'']"

definition internal_test_parse_find_node_response :: "(string \<Rightarrow> bytes option) \<Rightarrow> (bytes \<Rightarrow> DHTMessage option) \<Rightarrow> bool" where
  "internal_test_parse_find_node_response hex_decode scan \<longleftrightarrow>
     unwrap_hex hex_decode (''64323a6970363a2969788ee79d313a7264323a696432303a70f923e90771701587b6d36fbb78b3a8047b092e353a6e6f6465733230383a'' @ recorded_find_node_nodes @ ''65313a74343a41160000313a79313a7265'') (\<lambda>bytes.
     unwrap (message_from_bytes scan bytes) (\<lambda>message.
     unwrap_hex hex_decode ''2969788ee79d'' (\<lambda>ip.
     unwrap_hex hex_decode ''70f923e90771701587b6d36fbb78b3a8047b092e'' (\<lambda>i.
     unwrap_hex hex_decode recorded_find_node_nodes (\<lambda>nodes.
     let legit =
         \<lparr>d_transaction_id = [0x41, 0x16, 0x00, 0x00], d_version = None,
          d_variant = DHTResponse (DHTFindNodeRes (DHTFindNodeResponseArguments i nodes)),
          d_ip = Some ip, d_read_only = None\<rparr>
     in legit = message)))))"

definition internal_test_parse_announce_peer_request :: "(string \<Rightarrow> bytes option) \<Rightarrow> (bytes \<Rightarrow> DHTMessage option) \<Rightarrow> bool" where
  "internal_test_parse_announce_peer_request hex_decode scan \<longleftrightarrow>
     unwrap_hex hex_decode ''64313a6164323a696432303aa4df50d016f245e487bd6c2ce324922b5e2a7e56393a696e666f5f6861736832303a70f936a4d868a160b3d28e258a949da5269f95dd343a706f727469313139313165353a746f6b656e343ad0ed2ab965313a7131333a616e6e6f756e63655f70656572313a74343a1d4c0100313a79313a7165'' (\<lambda>bytes.
     unwrap (message_from_bytes scan bytes) (\<lambda>message.
     unwrap_hex hex_decode ''1d4c0100'' (\<lambda>tid.
     unwrap_hex hex_decode ''a4df50d016f245e487bd6c2ce324922b5e2a7e56'' (\<lambda>i.
     unwrap_hex hex_decode ''70f936a4d868a160b3d28e258a949da5269f95dd'' (\<lambda>info_hash.
     unwrap_hex hex_decode ''d0ed2ab9'' (\<lambda>token.
     let legit =
         \<lparr>d_transaction_id = tid, d_version = None,
          d_variant = DHTRequest (DHTAnnouncePeerReq (DHTAnnouncePeerRequestArguments i info_hash 11911 token None)),
          d_ip = None, d_read_only = None\<rparr>
     in legit = message))))))"

definition internal_test_parse_announce_peer_request_read_only :: "(string \<Rightarrow> bytes option) \<Rightarrow> (bytes \<Rightarrow> DHTMessage option) \<Rightarrow> bool" where
  "internal_test_parse_announce_peer_request_read_only hex_decode scan \<longleftrightarrow>
     unwrap_hex hex_decode ''64313a6164323a696432303a4dc3d74ff5133ab5fb45b8e919e5083e516e9e7331323a696d706c6965645f706f7274693165393a696e666f5f6861736832303a0dfb5308ef7e64a929d1a836fa40a12eddbfaf12343a706f727469333230303065353a746f6b656e343aa78be86365313a7131333a616e6e6f756e63655f70656572323a726f693165313a74343afda0a901313a79313a7165'' (\<lambda>bytes.
     unwrap (message_from_bytes scan bytes) (\<lambda>message.
     unwrap_hex hex_decode ''fda0a901'' (\<lambda>tid.
     unwrap_hex hex_decode ''4dc3d74ff5133ab5fb45b8e919e5083e516e9e73'' (\<lambda>i.
     unwrap_hex hex_decode ''0dfb5308ef7e64a929d1a836fa40a12eddbfaf12'' (\<lambda>info_hash.
     unwrap_hex hex_decode ''a78be863'' (\<lambda>token.
     let legit =
         \<lparr>d_transaction_id = tid, d_version = None,
          d_variant = DHTRequest (DHTAnnouncePeerReq (DHTAnnouncePeerRequestArguments i info_hash 32000 token (Some 1))),
          d_ip = None, d_read_only = Some 1\<rparr>
     in legit = message))))))"

definition internal_test_parse_announce_peer_response :: "(string \<Rightarrow> bytes option) \<Rightarrow> (bytes \<Rightarrow> DHTMessage option) \<Rightarrow> bool" where
  "internal_test_parse_announce_peer_response hex_decode scan \<longleftrightarrow>
     unwrap_hex hex_decode ''64323a6970363a725c2f242e87313a7264323a696432303a70f923e90771701587b6d36fbb78b3a8047b092e65313a74343a1d4c0100313a79313a7265'' (\<lambda>bytes.
     unwrap (message_from_bytes scan bytes) (\<lambda>message.
     unwrap_hex hex_decode ''1d4c0100'' (\<lambda>tid.
     unwrap_hex hex_decode ''725c2f242e87'' (\<lambda>ip.
     unwrap_hex hex_decode ''70f923e90771701587b6d36fbb78b3a8047b092e'' (\<lambda>i.
     let legit =
         \<lparr>d_transaction_id = tid, d_version = None,
          d_variant = DHTResponse (DHTPingRes (DHTPingResponseArguments i)),
          d_ip = Some ip, d_read_only = None\<rparr>
     in legit = message)))))"

definition internal_test_parse_sample_info_hashes_request :: "(string \<Rightarrow> bytes option) \<Rightarrow> (bytes \<Rightarrow> DHTMessage option) \<Rightarrow> bool" where
  "internal_test_parse_sample_info_hashes_request hex_decode scan \<longleftrightarrow>
     unwrap_hex hex_decode ''64313a6164323a696432303a0000000000000000000000000000000000000000363a74617267657432303abad6487806506bd534e78a8e375e3f59f7bb5ee065313a7131373a73616d706c655f696e666f686173686573313a74323a6161313a79313a7165'' (\<lambda>bytes.
     unwrap (message_from_bytes scan bytes) (\<lambda>message.
     unwrap_hex hex_decode ''0000000000000000000000000000000000000000'' (\<lambda>i.
     unwrap_hex hex_decode ''bad6487806506bd534e78a8e375e3f59f7bb5ee0'' (\<lambda>target.
     let legit =
         \<lparr>d_transaction_id = [0x61, 0x61], d_version = None,
          d_variant = DHTRequest (DHTSampleInfoHashesReq (DHTSampleInfoHashesRequestArguments i target)),
          d_ip = None, d_read_only = None\<rparr>
     in legit = message))))"

text \<open>The long literals of the next test, in rows; they occur in its datagram as they are.\<close>

definition recorded_sample_nodes :: string where
  "recorded_sample_nodes = concat
     [
      ''ba8eaeb7d0887e2188829a3b301cefea04ac42bd77f68a2f219e'', ''afa5bc6bbde9b4be57bb55f89ed3d8a040c773864c4424a316d9'',
      ''af02e5b45e830a87fc5850c4a9f2897930b0e5ee7b0174141ae9'', ''adadc1d6ae529049f1f1bbe9ebb3a6db3c870ce19a05e5b689e5'',
      ''9c740634b8349528bdbe6b873bb286953695a42cd3036e57d837'', ''d17ced58f32c648428f5fabddcce08322e734d0dcbf3065e1f56'',
      ''c3ea2fb8518d118a82e98efe8fb449f6272075d9d95b1efa5655'', ''c40e862e5a67a1ee07cc392391f1150fd98c5e0356860efb1ae1'']"

definition recorded_sample_samples :: string where
  "recorded_sample_samples = concat
     [
      ''70f9016c33064c1588b7fc72ba51d16b7a808c51'', ''70fdb5e6b8330a133375825453f43325dc1179e5'',
      ''70f9a5683c028a3285edb48e0054ab0297171a73'', ''70f923768792cdda855d52d8f94674a4b085471d'',
      ''70f94e390702f1752df4d22b56b0beb6201b1da3'', ''70fbfd6ee5f04066826bb483934296fd93e965f6'',
      ''70fa23ab785c8958e95e97055a6443af8b27395e'', ''70fd94fd6e8833fdc708f54c913384c255fdcc8f'',
      ''70f870271cbcbae8e168e718de24518509bdd4ca'', ''70f2fba18423616ec25af3f20b1e331a050ad0da'',
      ''70f95bd4331fa413d7b8c5105a5b40e2dec6b211'', ''7013b667f0d899711de54b18b6aac4eeb2a20bca'',
      ''70b3119918544af1550f541a273cc5066fa37496'', ''70deaece52a2e7cbd720d86738b1d9940d41a414'',
      ''70ea875f2440ca33c972beca8796036a07b203fc'', ''71e3097589ddc215091f24f46d0e921796faf89d'',
      ''70edfb3f69a41c9ecfa01a885f4071ebbca13015'', ''70c28d739c5bca06ab10c69122fa6eb7efbf3aa0'',
      ''72a5bcd8cc6b6ef3bd7fbcd1aa6ee5f8b93d6058'', ''70f116deb1571be860e93968b505e88fb823d835'',
      ''706e206f7e7ee0427ec411923b5f9c4f2f6206f6'', ''70fdb9eb81aea469579f6507cf6d77c919f5063c'',
      ''754361e374a06a314bcbe035105ddaa683948b15'', ''70e0f10f444494739d93f0a99921ae4f65746f0a'',
      ''70f4b7663fc542817d374e6aab9c6c672d6caeb2'', ''7022f4947d059fb44d5e77847593148675bb461c'',
      ''70f828a524473b9fc47dc1f6bd03c531e29b02a0'', ''579692958a7ef01ec5fd2fec19d6e6a5d70f73cd'',
      ''69c63da6c452d66a1f07764e560cdf481c03926e'', ''70f9ab992cfcaf44f019a4e7e3a1fa1563109539'',
      ''70fca0330dc5a8be0b049c355d757c018e84a69d'', ''70f936a4d868a160b3d28e258a949da5269f95dd'',
      ''70ea1254e774f4de28f1958130ae29e1b0ae6767'', ''05239c876fc0625b0747c15bafa9c74c54b1c59f'',
      ''70f9700293c36bd5cd577809ce1bbfd095f68c34'', ''70fb25dca1bb972adf030198a86df35d4ed58954'',
      ''70f92e4cb578dbbbb597d5ce817800cc0b16ffb6'', ''70fbc1fce7ebe963801a0ae3cbe458d4d0a7610d'',
      ''7078d197e43ec4241fb64113e40de762caa4ec37'', ''70f922d83be65f62b529af80863ce95633dea316'',
      ''70ae40c35ade9e78a221ea03374166713f0e9788'', ''70fb102aecf0d60667da804c65133daf6ee65351'',
      ''70f92673005393101e1eb72a40867ee9ab593a6a'', ''7093103de4f85fa0b129ce581a9ec8d1bceacd81'',
      ''70e9e99dddae872c6db7b8f59a5f2e75042bee10'', ''70c38852f2a1a4daf2cf26bdf35f50726784c36e'',
      ''70f9f09736a704b5ba429f2fcbc9b3bcef01d9db'', ''70fa495a44064f605aae7a0426f1bc79c9735898'',
      ''70fa4174330e8af3de839f67b2648c39c2ee80c3'', ''70b44351557950999a0512211ae4d5b8d34d7e13'']"

definition internal_test_parse_sample_info_hashes_response :: "(string \<Rightarrow> bytes option) \<Rightarrow> (bytes \<Rightarrow> DHTMessage option) \<Rightarrow> bool" where
  "internal_test_parse_sample_info_hashes_response hex_decode scan \<longleftrightarrow>
     unwrap_hex hex_decode (''64323a6970363aae886914199c313a7264323a696432303a70f923e90771701587b6d36fbb78b3a8047b092e383a696e74657276616c69313065353a6e6f6465733230383a'' @ recorded_sample_nodes @ ''333a6e756d69353065373a73616d706c6573313030303a'' @ recorded_sample_samples @ ''65313a74323a6161313a79313a7265'') (\<lambda>bytes.
     unwrap (message_from_bytes scan bytes) (\<lambda>message.
     unwrap_hex hex_decode ''ae886914199c'' (\<lambda>ip.
     unwrap_hex hex_decode ''70f923e90771701587b6d36fbb78b3a8047b092e'' (\<lambda>i.
     unwrap_hex hex_decode recorded_sample_nodes (\<lambda>nodes.
     unwrap_hex hex_decode recorded_sample_samples (\<lambda>samples.
     let legit =
         \<lparr>d_transaction_id = [0x61, 0x61], d_version = None,
          d_variant = DHTResponse (DHTSampleInfoHashesRes (DHTSampleInfoHashesResponseArguments i 10 nodes 50 samples)),
          d_ip = Some ip, d_read_only = None\<rparr>
     in legit = message))))))"

section \<open>They pass\<close>

lemma unwrap_hex_ok:
  assumes "hex_law hex_decode" and "hex_bytes s = Some bs" shows "unwrap_hex hex_decode s P = P bs"
  using assms by (simp add: unwrap_hex_def hex_law_def)

text \<open>The literal of the datagram is what the library writes for the message.\<close>

lemma literal_read:
  assumes "hex_law hex_decode" and "bencode_library emit scan" and "hex_bytes s = Some (message_bytes d)" and "plain_message d" and "P d"
  shows "unwrap_hex hex_decode s (\<lambda>bytes. unwrap (message_from_bytes scan bytes) P)"
  using unwrap_hex_ok [OF assms(1,3)] bencode_library.from_bytes_ok [OF assms(2,4)] assms(5) by simp

lemma literal_field:
  assumes "hex_law hex_decode" and "hex_bytes s = Some bs" and "P bs" shows "unwrap_hex hex_decode s P"
  using unwrap_hex_ok [OF assms(1,2)] assms(3) by simp

lemmas literal_simps = hex_digits message_bytes_def message_value_def encode_bytes_def digits.simps show_int_def plain_message_def

lemma hex_bytes_append: "hex_bytes s = Some a \<Longrightarrow> hex_bytes (s @ t) = map_option ((@) a) (hex_bytes t)"
proof (induction s arbitrary: a rule: induct_list012)
  case 1
  then show ?case by (cases "hex_bytes t") simp_all
next
  case (3 c d s)
  then obtain h l b where "hex_digit c = Some h" "hex_digit d = Some l" "hex_bytes s = Some b" "a = (16 * h + l) # b"
    by (auto split: option.splits)
  then show ?case using "3.IH"(1) [of b] by (cases "hex_bytes t") simp_all
qed simp

lemma hex_bytes_digits:
  "list_all (\<lambda>c. hex_digit c \<noteq> None) s \<Longrightarrow> length s = 2 * n \<Longrightarrow> \<exists>bs. hex_bytes s = Some bs \<and> length bs = n"
proof (induction s arbitrary: n rule: induct_list012)
  case (3 c d s)
  obtain h l where d: "hex_digit c = Some h" "hex_digit d = Some l" using "3.prems"(1) by auto
  obtain k where k: "n = Suc k" "length s = 2 * k" using "3.prems"(2) by (cases n) auto
  obtain bs where "hex_bytes s = Some bs" "length bs = k" using "3.IH"(1) [OF _ k(2)] "3.prems"(1) by auto
  then show ?case using d k(1) by simp
qed auto

lemma recorded_get_peers_nodes_bytes: "\<exists>bs. hex_bytes recorded_get_peers_nodes = Some bs \<and> length bs = 208"
  by (rule hex_bytes_digits) (simp_all add: recorded_get_peers_nodes_def hex_digits)

lemma recorded_find_node_nodes_bytes: "\<exists>bs. hex_bytes recorded_find_node_nodes = Some bs \<and> length bs = 208"
  by (rule hex_bytes_digits) (simp_all add: recorded_find_node_nodes_def hex_digits)

lemma recorded_sample_nodes_bytes: "\<exists>bs. hex_bytes recorded_sample_nodes = Some bs \<and> length bs = 208"
  by (rule hex_bytes_digits) (simp_all add: recorded_sample_nodes_def hex_digits)

lemma recorded_sample_samples_bytes: "\<exists>bs. hex_bytes recorded_sample_samples = Some bs \<and> length bs = 1000"
  by (rule hex_bytes_digits) (simp_all add: recorded_sample_samples_def hex_digits)

lemma internal_test_parse_ping_request_passes:
  assumes "hex_law hex_decode" and "bencode_library emit scan" shows "internal_test_parse_ping_request hex_decode scan"
  unfolding internal_test_parse_ping_request_def Let_def
proof (rule literal_read [OF assms, where d =
    "\<lparr>d_transaction_id = [0xb5, 0x1b], d_version = None,
          d_variant = DHTRequest (DHTPingReq (DHTPingArguments [0x70, 0xf9, 0x23, 0xe9, 0x07, 0x71, 0x70, 0x15, 0x87, 0xb6, 0xd3, 0x6f, 0xbb, 0x78, 0xb3, 0xa8, 0x04, 0x7b, 0x09, 0x2e])),
          d_ip = None, d_read_only = None\<rparr>"])
qed (simp_all add: literal_simps literal_field [OF assms(1)])

lemma internal_test_parse_ping_response_passes:
  assumes "hex_law hex_decode" and "bencode_library emit scan" shows "internal_test_parse_ping_response hex_decode scan"
  unfolding internal_test_parse_ping_response_def Let_def
proof (rule literal_read [OF assms, where d =
    "\<lparr>d_transaction_id = [0xb5, 0x1b], d_version = Some [0x55, 0x54, 0xb3, 0xba],
          d_variant = DHTResponse (DHTPingRes (DHTPingResponseArguments [0x70, 0xf2, 0x2f, 0xcf, 0xdc, 0x27, 0xe4, 0xff, 0x28, 0xf0, 0xc0, 0x0a, 0x6a, 0x3d, 0xe0, 0xd6, 0xc4, 0x36, 0x1c, 0xcd])),
          d_ip = Some [0x48, 0xa8, 0x85, 0x8f, 0x20, 0x14], d_read_only = None\<rparr>"])
qed (simp_all add: literal_simps literal_field [OF assms(1)])

lemma internal_test_parse_get_peers_request_passes:
  assumes "hex_law hex_decode" and "bencode_library emit scan" shows "internal_test_parse_get_peers_request hex_decode scan"
  unfolding internal_test_parse_get_peers_request_def Let_def
proof (rule literal_read [OF assms, where d =
    "\<lparr>d_transaction_id = [0xac, 0xc4, 0xe5, 0x2e], d_version = None,
          d_variant = DHTRequest (DHTGetPeersReq (DHTGetPeersArguments [0x28, 0x7c, 0xbd, 0x6f, 0x58, 0x0f, 0xcf, 0x59, 0x20, 0xaa, 0xfe, 0x67, 0x47, 0x8a, 0x0c, 0x88, 0x2a, 0xb2, 0xee, 0x8e] [0x70, 0xf9, 0x86, 0xa9, 0xfb, 0x5a, 0x9e, 0x8e, 0x0b, 0xaf, 0xc6, 0x21, 0x65, 0xb7, 0x17, 0x83, 0x60, 0x33, 0x21, 0x09])),
          d_ip = None, d_read_only = None\<rparr>"])
qed (simp_all add: literal_simps literal_field [OF assms(1)])

lemma internal_test_parse_get_peers_response_passes:
  assumes "hex_law hex_decode" and "bencode_library emit scan" shows "internal_test_parse_get_peers_response hex_decode scan"
proof -
  obtain nodes where nodes: "hex_bytes recorded_get_peers_nodes = Some nodes" "length nodes = 208" using recorded_get_peers_nodes_bytes by blast
  show ?thesis
    unfolding internal_test_parse_get_peers_response_def Let_def
  proof (rule literal_read [OF assms, where d =
    "\<lparr>d_transaction_id = [0xa0, 0xbc], d_version = None,
          d_variant = DHTResponse (DHTGetPeersRes (DHTGetPeersResponseArguments [0x70, 0xf9, 0x23, 0xe9, 0x07, 0x71, 0x70, 0x15, 0x87, 0xb6, 0xd3, 0x6f, 0xbb, 0x78, 0xb3, 0xa8, 0x04, 0x7b, 0x09, 0x2e] [0x76, 0xb5, 0x55, 0x0c] (Some nodes) None)),
          d_ip = Some [0x33, 0x4f, 0x9e, 0x68, 0x7d, 0x01], d_read_only = None\<rparr>"])
  qed (simp_all add: literal_simps literal_field [OF assms(1)] unwrap_hex_ok [OF assms(1) nodes(1)]
      nodes hex_bytes_append [OF nodes(1)])
qed

lemma internal_test_parse_find_node_request_passes:
  assumes "hex_law hex_decode" and "bencode_library emit scan" shows "internal_test_parse_find_node_request hex_decode scan"
  unfolding internal_test_parse_find_node_request_def Let_def
proof (rule literal_read [OF assms, where d =
    "\<lparr>d_transaction_id = [0x41, 0x16, 0x00, 0x00], d_version = Some [0x55, 0x54, 0xb3, 0xba],
          d_variant = DHTRequest (DHTFindNodeReq (DHTFindNodeArguments [0x93, 0xb7, 0xd3, 0x18, 0xa5, 0x03, 0x4a, 0x01, 0x23, 0x1c, 0x86, 0xf6, 0x8f, 0x38, 0x54, 0x68, 0xe6, 0x70, 0x38, 0xc6] [0x48, 0x00, 0x71, 0x17, 0x00, 0x00, 0x5e, 0x9e, 0x00, 0x00, 0x1b, 0x19, 0x00, 0x00, 0x39, 0x1d, 0x00, 0x00, 0x5a, 0x95])),
          d_ip = None, d_read_only = None\<rparr>"])
qed (simp_all add: literal_simps literal_field [OF assms(1)])

lemma internal_test_parse_find_node_response_passes:
  assumes "hex_law hex_decode" and "bencode_library emit scan" shows "internal_test_parse_find_node_response hex_decode scan"
proof -
  obtain nodes where nodes: "hex_bytes recorded_find_node_nodes = Some nodes" "length nodes = 208" using recorded_find_node_nodes_bytes by blast
  show ?thesis
    unfolding internal_test_parse_find_node_response_def Let_def
  proof (rule literal_read [OF assms, where d =
    "\<lparr>d_transaction_id = [0x41, 0x16, 0x00, 0x00], d_version = None,
          d_variant = DHTResponse (DHTFindNodeRes (DHTFindNodeResponseArguments [0x70, 0xf9, 0x23, 0xe9, 0x07, 0x71, 0x70, 0x15, 0x87, 0xb6, 0xd3, 0x6f, 0xbb, 0x78, 0xb3, 0xa8, 0x04, 0x7b, 0x09, 0x2e] nodes)),
          d_ip = Some [0x29, 0x69, 0x78, 0x8e, 0xe7, 0x9d], d_read_only = None\<rparr>"])
  qed (simp_all add: literal_simps literal_field [OF assms(1)] unwrap_hex_ok [OF assms(1) nodes(1)]
      nodes hex_bytes_append [OF nodes(1)])
qed

lemma internal_test_parse_announce_peer_request_passes:
  assumes "hex_law hex_decode" and "bencode_library emit scan" shows "internal_test_parse_announce_peer_request hex_decode scan"
  unfolding internal_test_parse_announce_peer_request_def Let_def
proof (rule literal_read [OF assms, where d =
    "\<lparr>d_transaction_id = [0x1d, 0x4c, 0x01, 0x00], d_version = None,
          d_variant = DHTRequest (DHTAnnouncePeerReq (DHTAnnouncePeerRequestArguments [0xa4, 0xdf, 0x50, 0xd0, 0x16, 0xf2, 0x45, 0xe4, 0x87, 0xbd, 0x6c, 0x2c, 0xe3, 0x24, 0x92, 0x2b, 0x5e, 0x2a, 0x7e, 0x56] [0x70, 0xf9, 0x36, 0xa4, 0xd8, 0x68, 0xa1, 0x60, 0xb3, 0xd2, 0x8e, 0x25, 0x8a, 0x94, 0x9d, 0xa5, 0x26, 0x9f, 0x95, 0xdd] 11911 [0xd0, 0xed, 0x2a, 0xb9] None)),
          d_ip = None, d_read_only = None\<rparr>"])
qed (simp_all add: literal_simps literal_field [OF assms(1)])

lemma internal_test_parse_announce_peer_request_read_only_passes:
  assumes "hex_law hex_decode" and "bencode_library emit scan" shows "internal_test_parse_announce_peer_request_read_only hex_decode scan"
  unfolding internal_test_parse_announce_peer_request_read_only_def Let_def
proof (rule literal_read [OF assms, where d =
    "\<lparr>d_transaction_id = [0xfd, 0xa0, 0xa9, 0x01], d_version = None,
          d_variant = DHTRequest (DHTAnnouncePeerReq (DHTAnnouncePeerRequestArguments [0x4d, 0xc3, 0xd7, 0x4f, 0xf5, 0x13, 0x3a, 0xb5, 0xfb, 0x45, 0xb8, 0xe9, 0x19, 0xe5, 0x08, 0x3e, 0x51, 0x6e, 0x9e, 0x73] [0x0d, 0xfb, 0x53, 0x08, 0xef, 0x7e, 0x64, 0xa9, 0x29, 0xd1, 0xa8, 0x36, 0xfa, 0x40, 0xa1, 0x2e, 0xdd, 0xbf, 0xaf, 0x12] 32000 [0xa7, 0x8b, 0xe8, 0x63] (Some 1))),
          d_ip = None, d_read_only = Some 1\<rparr>"])
qed (simp_all add: literal_simps literal_field [OF assms(1)])

lemma internal_test_parse_announce_peer_response_passes:
  assumes "hex_law hex_decode" and "bencode_library emit scan" shows "internal_test_parse_announce_peer_response hex_decode scan"
  unfolding internal_test_parse_announce_peer_response_def Let_def
proof (rule literal_read [OF assms, where d =
    "\<lparr>d_transaction_id = [0x1d, 0x4c, 0x01, 0x00], d_version = None,
          d_variant = DHTResponse (DHTPingRes (DHTPingResponseArguments [0x70, 0xf9, 0x23, 0xe9, 0x07, 0x71, 0x70, 0x15, 0x87, 0xb6, 0xd3, 0x6f, 0xbb, 0x78, 0xb3, 0xa8, 0x04, 0x7b, 0x09, 0x2e])),
          d_ip = Some [0x72, 0x5c, 0x2f, 0x24, 0x2e, 0x87], d_read_only = None\<rparr>"])
qed (simp_all add: literal_simps literal_field [OF assms(1)])

lemma internal_test_parse_sample_info_hashes_request_passes:
  assumes "hex_law hex_decode" and "bencode_library emit scan" shows "internal_test_parse_sample_info_hashes_request hex_decode scan"
  unfolding internal_test_parse_sample_info_hashes_request_def Let_def
proof (rule literal_read [OF assms, where d =
    "\<lparr>d_transaction_id = [0x61, 0x61], d_version = None,
          d_variant = DHTRequest (DHTSampleInfoHashesReq (DHTSampleInfoHashesRequestArguments [0x00, 0x00, 0x00, 0x00, 0x00, 0x00, 0x00, 0x00, 0x00, 0x00, 0x00, 0x00, 0x00, 0x00, 0x00, 0x00, 0x00, 0x00, 0x00, 0x00] [0xba, 0xd6, 0x48, 0x78, 0x06, 0x50, 0x6b, 0xd5, 0x34, 0xe7, 0x8a, 0x8e, 0x37, 0x5e, 0x3f, 0x59, 0xf7, 0xbb, 0x5e, 0xe0])),
          d_ip = None, d_read_only = None\<rparr>"])
qed (simp_all add: literal_simps literal_field [OF assms(1)])

lemma internal_test_parse_sample_info_hashes_response_passes:
  assumes "hex_law hex_decode" and "bencode_library emit scan" shows "internal_test_parse_sample_info_hashes_response hex_decode scan"
proof -
  obtain nodes where nodes: "hex_bytes recorded_sample_nodes = Some nodes" "length nodes = 208" using recorded_sample_nodes_bytes by blast
  obtain samples where samples: "hex_bytes recorded_sample_samples = Some samples" "length samples = 1000" using recorded_sample_samples_bytes by blast
  show ?thesis
    unfolding internal_test_parse_sample_info_hashes_response_def Let_def
  proof (rule literal_read [OF assms, where d =
    "\<lparr>d_transaction_id = [0x61, 0x61], d_version = None,
          d_variant = DHTResponse (DHTSampleInfoHashesRes (DHTSampleInfoHashesResponseArguments [0x70, 0xf9, 0x23, 0xe9, 0x07, 0x71, 0x70, 0x15, 0x87, 0xb6, 0xd3, 0x6f, 0xbb, 0x78, 0xb3, 0xa8, 0x04, 0x7b, 0x09, 0x2e] 10 nodes 50 samples)),
          d_ip = Some [0xae, 0x88, 0x69, 0x14, 0x19, 0x9c], d_read_only = None\<rparr>"])
  qed (simp_all add: literal_simps literal_field [OF assms(1)] unwrap_hex_ok [OF assms(1) nodes(1)] unwrap_hex_ok [OF assms(1) samples(1)]
      nodes samples hex_bytes_append [OF nodes(1)] hex_bytes_append [OF samples(1)])
qed

end
