(* ===== verification/Dht_TestsStorage.thy ===== *)
theory Dht_TestsStorage
  imports Dht_TestLib Dht_PeerStorage Dht_Throttler Dht_Requests
begin

text \<open>
  The unit tests of \<open>src/storage/peer_storage.rs\<close>, \<open>src/storage/throttler.rs\<close> and
  \<open>src/storage/outbound_request_storage.rs\<close>, one definition for each. The readings of the clock are a function
  \<open>clk\<close>, numbered in the order the test takes them. The tests on real time pass when the clock does not run
  backwards and no test takes as long as a second; where a test needs that two readings or two random
  transaction ids differ, its lemma says so.
\<close>

section \<open>Tests of \<open>peer_storage.rs\<close>\<close>

definition peers_test_store_and_retrieve ::
  "(Id, 'i, 'o) lru_ops \<Rightarrow> (SocketAddr, PeerInfo, 'i) lru_ops \<Rightarrow> (nat \<Rightarrow> instant) \<Rightarrow> bool" where
  "peers_test_store_and_retrieve OC IC clk \<longleftrightarrow>
     (let storage = peer_storage_new OC 1 2
      in length (ps_get_info_hashes OC storage) = 0 \<and>
        (let info_hash = hex_id 0x1988091919880919198809191988091919880919;
             peer1 = SockV4 (Ipv4Addr 10 0 0 6) 1234;
             storage = ps_announce_peer OC IC storage info_hash peer1 (clk 0);
             hashes = ps_get_info_hashes OC storage;
             (storage, peers) = ps_get_peers OC IC storage info_hash None
         in length hashes = 1 \<and> hashes ! 0 = info_hash \<and> length peers = 1 \<and> peers ! 0 = peer1))"

definition peers_test_max_torrents_limited ::
  "(Id, 'i, 'o) lru_ops \<Rightarrow> (SocketAddr, PeerInfo, 'i) lru_ops \<Rightarrow> (nat \<Rightarrow> instant) \<Rightarrow> bool" where
  "peers_test_max_torrents_limited OC IC clk \<longleftrightarrow>
     (let storage = peer_storage_new OC 1 2;
          info_hash = hex_id 0x1988091919880919198809191988091919880919;
          peer1 = SockV4 (Ipv4Addr 10 0 0 6) 1234;
          storage = ps_announce_peer OC IC storage info_hash peer1 (clk 0);
          info_hash2 = hex_id 0x2088091919880919198809191988091919880920;
          peer2 = SockV4 (Ipv4Addr 10 0 0 7) 1234;
          storage = ps_announce_peer OC IC storage info_hash2 peer2 (clk 1);
          hashes = ps_get_info_hashes OC storage;
          (storage, peers) = ps_get_peers OC IC storage info_hash2 None
      in length hashes = 1 \<and> hashes ! 0 = info_hash2 \<and> length peers = 1 \<and> peers ! 0 = peer2)"

definition peers_test_max_peers_limited ::
  "(Id, 'i, 'o) lru_ops \<Rightarrow> (SocketAddr, PeerInfo, 'i) lru_ops \<Rightarrow> (nat \<Rightarrow> instant) \<Rightarrow> bool" where
  "peers_test_max_peers_limited OC IC clk \<longleftrightarrow>
     (let storage = peer_storage_new OC 10 1;
          info_hash = hex_id 0x1988091919880919198809191988091919880919;
          peer1 = SockV4 (Ipv4Addr 10 0 0 6) 1234;
          peer2 = SockV4 (Ipv4Addr 10 0 0 7) 1234;
          storage = ps_announce_peer OC IC storage info_hash peer1 (clk 0);
          storage = ps_announce_peer OC IC storage info_hash peer2 (clk 1);
          (storage, peers) = ps_get_peers OC IC storage info_hash None
      in length peers = 1 \<and> peers ! 0 = peer2)"

definition peers_test_get_peers_newer_than ::
  "(Id, 'i, 'o) lru_ops \<Rightarrow> (SocketAddr, PeerInfo, 'i) lru_ops \<Rightarrow> (nat \<Rightarrow> instant) \<Rightarrow> bool" where
  "peers_test_get_peers_newer_than OC IC clk \<longleftrightarrow>
     (let storage = peer_storage_new OC 1 3;
          info_hash = hex_id 0x1988091919880919198809191988091919880919;
          peer1 = SockV4 (Ipv4Addr 10 0 0 6) 1234;
          peer2 = SockV4 (Ipv4Addr 10 0 0 7) 1234;
          peer3 = SockV4 (Ipv4Addr 10 0 0 8) 1234;
          storage = ps_announce_peer OC IC storage info_hash peer1 (clk 0);
          newer_than = clk 1;
          storage = ps_announce_peer OC IC storage info_hash peer2 (clk 2);
          storage = ps_announce_peer OC IC storage info_hash peer3 (clk 3);
          (storage, peers) = ps_get_peers OC IC storage info_hash (Some newer_than)
      in length peers = 2 \<and> peer2 \<in> set peers \<and> peer3 \<in> set peers)"

section \<open>Tests of \<open>throttler.rs\<close>\<close>

text \<open>\<open>throttler.check_throttle(..)\<close> in a test: the answer, and the test goes on with the new throttler.\<close>

definition checks :: "(Throttler \<times> bool) res \<Rightarrow> bool \<Rightarrow> (Throttler \<Rightarrow> bool) \<Rightarrow> bool" where
  "checks r answer P = unwrap r (\<lambda>(t, throttled). throttled = answer \<and> P t)"

definition throttler_test_one_two_punch :: "(nat \<Rightarrow> instant) \<Rightarrow> bool" where
  "throttler_test_one_two_punch clk \<longleftrightarrow>
     (let throttler = throttler_new 32 1 (dur_from_secs 5) (dur_from_secs 1) (dur_from_secs 10) (clk 0);
          ip = IpV4 (Ipv4Addr 192 168 50 1)
      in checks (check_throttle throttler ip None None (clk 1) (clk 1)) False (\<lambda>throttler.
         checks (check_throttle throttler ip None None (clk 2) (clk 2)) True (\<lambda>throttler.
         unwrap (instant_plus (clk 3) (dur_from_secs 2)) (\<lambda>fake_time.
         checks (check_throttle throttler ip (Some fake_time) None (clk 4) (clk 4)) False (\<lambda>throttler. True)))))"

text \<open>The loop of the second test, over the octets \<open>as\<close> still to come.\<close>

fun fill_throttler :: "(nat \<Rightarrow> instant) \<Rightarrow> nat list \<Rightarrow> Throttler \<Rightarrow> (Throttler \<Rightarrow> bool) \<Rightarrow> bool" where
  "fill_throttler clk [] throttler P = P throttler"
| "fill_throttler clk (a # as) throttler P =
     checks (check_throttle throttler (IpV4 (Ipv4Addr 192 168 50 (word_of_nat a))) None None (clk (Suc a)) (clk (Suc a)))
       False (\<lambda>throttler. fill_throttler clk as throttler P)"

definition throttler_test_lots_of_ips :: "(nat \<Rightarrow> instant) \<Rightarrow> bool" where
  "throttler_test_lots_of_ips clk \<longleftrightarrow>
     (let throttler = throttler_new 32 1 (dur_from_secs 5) (dur_from_secs 1) (dur_from_secs 10) (clk 0);
          ip = IpV4 (Ipv4Addr 192 168 50 (word_of_nat (get_num_records throttler)))
      in fill_throttler clk [0..<get_num_records throttler + 1] throttler (\<lambda>throttler.
         checks (check_throttle throttler ip None None (clk 34) (clk 34)) True (\<lambda>throttler.
         unwrap (instant_plus (clk 35) (dur_from_secs 2)) (\<lambda>fake_time.
         checks (check_throttle throttler ip (Some fake_time) None (clk 36) (clk 36)) False (\<lambda>throttler. True)))))"

definition throttler_test_max_tracking :: "(nat \<Rightarrow> instant) \<Rightarrow> bool" where
  "throttler_test_max_tracking clk \<longleftrightarrow>
     (let throttler = throttler_new 32 1 (dur_from_secs 5) (dur_from_secs 100) (dur_from_secs 10) (clk 0);
          ip = IpV4 (Ipv4Addr 192 168 50 1)
      in checks (check_throttle throttler ip None None (clk 1) (clk 1)) False (\<lambda>throttler.
         checks (check_throttle throttler ip None None (clk 2) (clk 2)) True (\<lambda>throttler.
         unwrap (instant_plus (clk 3) (dur_from_secs 9)) (\<lambda>fake_time.
         checks (check_throttle throttler ip (Some fake_time) None (clk 4) (clk 4)) True (\<lambda>throttler.
         unwrap (instant_plus (clk 5) (dur_from_secs 11)) (\<lambda>fake_time.
         checks (check_throttle throttler ip (Some fake_time) None (clk 6) (clk 6)) False (\<lambda>throttler. True)))))))"

definition throttler_test_avoids_overflow :: "(nat \<Rightarrow> instant) \<Rightarrow> bool" where
  "throttler_test_avoids_overflow clk \<longleftrightarrow>
     (let throttler = throttler_new 32 1 (dur_from_secs 5) (dur_from_secs 100) (dur_from_secs 10) (clk 0);
          ip = IpV4 (Ipv4Addr 192 168 50 1)
      in checks (check_throttle throttler ip None (Some usize_max) (clk 1) (clk 1)) True (\<lambda>throttler.
         checks (check_throttle throttler ip None None (clk 2) (clk 2)) True (\<lambda>throttler. True)))"

section \<open>Tests of \<open>outbound_request_storage.rs\<close>\<close>

text \<open>\<open>has_request\<close> is compiled for the tests only.\<close>

definition has_request :: "OutboundRequestStorage \<Rightarrow> bytes \<Rightarrow> bool" where
  "has_request s tid \<longleftrightarrow> map_of s tid \<noteq> None"

definition requests_test_outbound_request_storage :: "u8 \<times> u8 \<Rightarrow> (nat \<Rightarrow> instant) \<Rightarrow> bool" where
  "requests_test_outbound_request_storage rng clk \<longleftrightarrow>
     (let storage = ors_new;
          our_id = hex_id 0x0000000000000000000000000000000000000000
      in unwrap (build (set_sender_id our_id (builder_new BPingRequest)) rng) (\<lambda>req.
        (let request_target_addr = SockV4 (Ipv4Addr 127 0 0 1) 1234;
             request_info = request_info_new request_target_addr None req None (clk 0);
             storage = add_request storage request_info
         in has_request storage (transaction_id req) \<and>
           unwrap (build (set_requester_ip (SockV4 (Ipv4Addr 127 0 0 1) 1235) (set_transaction_id (transaction_id req)
               (set_sender_id our_id (builder_new BPingResponse)))) (0, 0)) (\<lambda>simulated_response.
             get_matching_request_info storage simulated_response request_target_addr \<noteq> None \<and>
             get_matching_request_info storage simulated_response (SockV4 (Ipv4Addr 5 5 5 5) 1234) = None \<and>
            (let (storage, taken) = take_matching_request_info storage simulated_response request_target_addr
             in taken \<noteq> None \<and> \<not> has_request storage (transaction_id req))))))"

definition requests_test_outbound_storage_prune :: "u8 \<times> u8 \<Rightarrow> u8 \<times> u8 \<Rightarrow> (nat \<Rightarrow> instant) \<Rightarrow> bool" where
  "requests_test_outbound_storage_prune rng rng2 clk \<longleftrightarrow>
     (let storage = ors_new;
          our_id = hex_id 0x0000000000000000000000000000000000000000
      in unwrap (build (set_sender_id our_id (builder_new BPingRequest)) rng) (\<lambda>req.
         unwrap (build (set_sender_id our_id (builder_new BPingRequest)) rng2) (\<lambda>req_2.
        (let request_info = request_info_new (SockV4 (Ipv4Addr 127 0 0 1) 1234) None req None (clk 0);
             request_info_2 = request_info_new (SockV4 (Ipv4Addr 127 0 0 1) 1234) None req_2 None (clk 1)
         in unwrap (instant_plus (clk 2) (dur_from_secs 10)) (\<lambda>created_at.
           (let request_info_2 = request_info_2\<lparr>ri_created_at := created_at\<rparr>;
                storage = add_request storage request_info;
                storage = add_request storage request_info_2
            in has_request storage (transaction_id req) \<and>
              (let storage = prune_older_than storage (dur_from_secs 0) (clk 3)
               in \<not> has_request storage (transaction_id req) \<and> has_request storage (transaction_id req_2))))))))"

section \<open>They pass\<close>

text \<open>The peer storage tests, with the reference implementation of the cache.\<close>

lemmas peers_test_defs = peers_test_store_and_retrieve_def peers_test_max_torrents_limited_def
  peers_test_max_peers_limited_def peers_test_get_peers_newer_than_def

lemmas peers_test_simps = peer_storage_new_def ps_announce_peer_def ps_get_info_hashes_def
  ps_get_peers_def ps_get_peers_info_def newer_def list_lru_def promote_def overwrite_def AList.delete_eq hex_id_simps

lemma peers_tests_pass:
  "peers_test_store_and_retrieve list_lru list_lru clk" "peers_test_max_torrents_limited list_lru list_lru clk"
  "peers_test_max_peers_limited list_lru list_lru clk"
  unfolding peers_test_defs by (simp_all add: peers_test_simps)

lemma peers_test_get_peers_newer_than_passes:
  assumes "clk 0 \<le> clk 1" and "clk 1 < clk 2" and "clk 2 \<le> clk 3"
  shows "peers_test_get_peers_newer_than list_lru list_lru clk"
  using assms unfolding peers_test_defs Let_def by (simp add: peers_test_simps)

lemma has_request_simps [simp]:
  "\<not> has_request [] t" "has_request ((k, v) # s) t \<longleftrightarrow> k = t \<or> has_request s t"
  by (auto simp: has_request_def)

lemma requests_test_outbound_request_storage_passes: "requests_test_outbound_request_storage rng clk"
  by (simp add: requests_test_outbound_request_storage_def
      Let_def build_defs builder_new_def builder_setters required_or_error_def ors_new_def
      add_request_def request_info_new_def get_matching_request_info_def take_matching_request_info_def
      get_author_id.simps)

lemma requests_test_outbound_storage_prune_passes:
  assumes "rng \<noteq> rng2" and "clk 0 < clk 3" and "clk 3 \<le> clk 2 + dur_from_secs 10" and "clk 2 + dur_from_secs 10 \<le> instant_max"
  shows "requests_test_outbound_storage_prune rng rng2 clk"
  using assms by (cases rng; cases rng2; simp add: requests_test_outbound_storage_prune_def
      Let_def build_defs builder_new_def builder_setters required_or_error_def ors_new_def
      add_request_def request_info_new_def instant_plus_def instant_checked_add_def
      prune_older_than_def instant_checked_sub_def dur_from_secs_def) auto

text \<open>The throttler knows an address: its settings are those of \<open>t0\<close>, and the address has such a record.\<close>

definition recorded :: "Throttler \<Rightarrow> Throttler \<Rightarrow> IpAddr \<Rightarrow> nat \<Rightarrow> instant \<Rightarrow> instant \<Rightarrow> bool" where
  "recorded t0 t ip n e c \<longleftrightarrow> same_config t0 t \<and>
     (\<exists>i r. tracks t ip i \<and> th_records t ! i = r \<and> tr_packets r = n \<and> tr_expiration r = e \<and> tr_creation r = c)"

lemma recorded_set:
  assumes "same_config t0 t" and "i < length (th_records t)" and "tr_ip r = ip"
    and "ip \<notin> tr_ip ` set (th_records t) \<or> tracks t ip i"
  shows "recorded t0 (set_record t i r) ip (tr_packets r) (tr_expiration r) (tr_creation r)"
proof -
  have "tr_ip (th_records t ! q) \<noteq> ip" if "q < i" for q
    using assms(2,4) that by (force simp: tracks_def)
  then have "tracks (set_record t i r) ip i" "th_records (set_record t i r) ! i = r"
    using assms(2,3) by (auto simp: tracks_def set_record_def)
  moreover have "same_config t0 (set_record t i r)" using assms(1) by (simp add: same_config_def set_record_def)
  ultimately show ?thesis unfolding recorded_def by blast
qed

lemma check_throttle_default:
  "check_throttle t ip None c now k = check_throttle t ip (Some now) (Some (case c of Some c \<Rightarrow> c | None \<Rightarrow> 1)) now k"
  "check_throttle t ip (Some now) None k k' = check_throttle t ip (Some now) (Some 1) k k'"
  by (simp_all add: check_throttle_def)

lemma checks_first:
  assumes "same_config t0 t" and "ip \<notin> tr_ip ` set (th_records t)" and "th_records t \<noteq> []"
    and "now + th_period t0 \<le> instant_max" and "now + th_naughty t0 \<le> instant_max"
    and "\<And>i r. i < length (th_records t) \<Longrightarrow> tr_ip r = ip \<Longrightarrow> recorded t0 (set_record t i r) ip n
           (if over then now + th_naughty t0 else now + th_period t0) now \<Longrightarrow> P (set_record t i r)"
    and "over \<longleftrightarrow> th_rate_limit t0 < n"
  shows "checks (check_throttle t ip (Some now) (Some n) k k') over P"
proof -
  have conf: "th_period t = th_period t0" "th_naughty t = th_naughty t0" "th_rate_limit t = th_rate_limit t0"
    using assms(1) by (simp_all add: same_config_def)
  have fits: "now + th_period t \<le> instant_max" "now + th_naughty t \<le> instant_max" using assms(4,5) conf by simp_all
  obtain i r0 where i: "i < length (th_records t)" "check_throttle t ip (Some now) (Some n) k k' = throttle_if_over t i
      (r0\<lparr>tr_packets := n, tr_expiration := now + th_period t, tr_ip := ip, tr_creation := now\<rparr>) now"
    using check_untracked [OF assms(2,3) fits(1)] by metis
  define r where "r = r0\<lparr>tr_packets := n, tr_ip := ip, tr_creation := now,
      tr_expiration := (if th_rate_limit t0 < n then now + th_naughty t0 else now + th_period t0)\<rparr>"
  have "check_throttle t ip (Some now) (Some n) k k' = Ok (set_record t i r, th_rate_limit t0 < n)"
    using i(2) throttle_if_over_spec [OF fits(2)] conf by (simp add: r_def)
  moreover have "recorded t0 (set_record t i r) ip n (tr_expiration r) now"
    using recorded_set [OF assms(1) i(1), of r ip] assms(2) by (simp add: r_def)
  ultimately show ?thesis using assms(6) [OF i(1), of r] assms(7) by (simp add: checks_def r_def)
qed

lemma checks_live:
  assumes "recorded t0 t ip n e c" and "now < e" and "now \<le> c + th_max_tracking t0"
    and "th_rate_limit t0 < saturating_packets n m" and "now + th_naughty t0 \<le> instant_max"
    and "\<And>t'. recorded t0 t' ip (saturating_packets n m) (now + th_naughty t0) c \<Longrightarrow> P t'"
  shows "checks (check_throttle t ip (Some now) (Some m) k k') True P"
proof -
  obtain i r where r: "same_config t0 t" "tracks t ip i" "th_records t ! i = r" "tr_packets r = n" "tr_expiration r = e" "tr_creation r = c"
    using assms(1) by (auto simp: recorded_def)
  have conf: "th_naughty t = th_naughty t0" "th_rate_limit t = th_rate_limit t0" "th_max_tracking t = th_max_tracking t0"
    using r(1) by (simp_all add: same_config_def)
  have i: "i < length (th_records t)" "tr_ip r = ip" using r(2,3) by (auto simp: tracks_def)
  have live: "window_live t r now" "now + th_naughty t \<le> instant_max" using assms(2,3,5) r conf by (simp_all add: window_live_def)
  define r' where "r' = r\<lparr>tr_packets := saturating_packets n m, tr_expiration := now + th_naughty t0\<rparr>"
  have "check_throttle t ip (Some now) (Some m) k k' = Ok (set_record t i r', True)"
    using check_tracked_live [OF r(2) r(3) [symmetric] live] throttle_if_over_spec [OF live(2)] assms(4) conf r(4)
    by (simp add: r'_def)
  moreover have "recorded t0 (set_record t i r') ip (saturating_packets n m) (now + th_naughty t0) c"
    using recorded_set [OF r(1) i(1), of r' ip] r(2,6) i(2) by (simp add: r'_def)
  ultimately show ?thesis using assms(6) by (simp add: checks_def)
qed

lemma checks_expired:
  assumes "recorded t0 t ip n e c" and "e \<le> now \<or> c + th_max_tracking t0 < now" and "m \<le> th_rate_limit t0"
    and "now + th_period t0 \<le> instant_max"
  shows "checks (check_throttle t ip (Some now) (Some m) k k') False (\<lambda>t. True)"
proof -
  obtain i r where r: "same_config t0 t" "tracks t ip i" "th_records t ! i = r" "tr_expiration r = e" "tr_creation r = c"
    using assms(1) by (auto simp: recorded_def)
  have conf: "th_period t = th_period t0" "th_rate_limit t = th_rate_limit t0" "th_max_tracking t = th_max_tracking t0"
    using r(1) by (simp_all add: same_config_def)
  obtain l where "scan_records ip (th_records t) 0 None = (Some i, l)" using tracks_scan [OF r(2)] by blast
  then show ?thesis using assms(2-4) r conf
    by (auto simp: check_throttle_def too_old_iff Let_def checks_def instant_plus_def instant_checked_add_def throttle_if_over_def)
qed

text \<open>A clock that does not run backwards, does not reach its end, and moves less than a second in a test.\<close>

definition test_clock :: "(nat \<Rightarrow> instant) \<Rightarrow> bool" where
  "test_clock clk \<longleftrightarrow> mono clk \<and> (\<forall>n. clk n < clk 0 + dur_from_secs 1) \<and> clk 0 + dur_from_secs 200 \<le> instant_max"

lemmas secs = dur_from_secs_def

lemma nanos_pos: "0 < nanos_per_sec" by (simp add: nanos_per_sec_def)

lemma test_clock_facts:
  assumes "test_clock clk"
  shows "m \<le> n \<Longrightarrow> clk m \<le> clk n" and "clk m < clk n + dur_from_secs 1"
    and "clk n + dur_from_secs 150 \<le> instant_max"
proof -
  show mono: "m \<le> n \<Longrightarrow> clk m \<le> clk n" for m n using assms by (simp add: test_clock_def mono_def)
  have *: "clk k < clk 0 + dur_from_secs 1" "clk 0 \<le> clk k" for k using assms mono by (simp_all add: test_clock_def)
  show "clk m < clk n + dur_from_secs 1" using *(1) [of m] *(2) [of n] by linarith
  have "clk 0 + dur_from_secs 200 \<le> instant_max" using assms by (simp add: test_clock_def)
  then show "clk n + dur_from_secs 150 \<le> instant_max" using *(1) [of n] by (simp add: secs)
qed

lemma plus_secs:
  assumes "test_clock clk" and "s \<le> 150"
  shows "instant_plus (clk n) (dur_from_secs s) = Ok (clk n + dur_from_secs s)"
proof -
  have "dur_from_secs s \<le> dur_from_secs 150" using assms(2) by (simp add: secs)
  then show ?thesis using test_clock_facts(3) [OF assms(1), of n] by (simp add: instant_plus_def instant_checked_add_def)
qed

lemma fresh_new:
  assumes "ip \<noteq> localhost_v4" and "t = throttler_new 32 l p a m c"
  shows "same_config t t" "ip \<notin> tr_ip ` set (th_records t)" "th_records t \<noteq> []"
  using assms by (auto simp: same_config_def throttler_new_def tr_default_def)

text \<open>The throttler of the tests; \<open>nt\<close> is its naughty timeout in seconds.\<close>

definition test_throttler :: "nat \<Rightarrow> instant \<Rightarrow> Throttler" where
  "test_throttler nt now = throttler_new 32 1 (dur_from_secs 5) (dur_from_secs nt) (dur_from_secs 10) now"

lemma test_throttler_conf:
  "th_rate_limit (test_throttler nt now) = 1" "th_period (test_throttler nt now) = dur_from_secs 5"
  "th_naughty (test_throttler nt now) = dur_from_secs nt" "th_max_tracking (test_throttler nt now) = dur_from_secs 10"
  by (simp_all add: test_throttler_def throttler_new_def)

lemma saturating_simps:
  "saturating_packets 1 1 = 2" "saturating_packets 2 1 = 3" "saturating_packets usize_max 1 = usize_max"
  "(1 < usize_max) = True" "(1 < (2 :: nat)) = True" "(1 < (3 :: nat)) = True"
  by (simp_all add: saturating_packets_def usize_max_def)

lemmas test_throttler_simps = test_throttler_conf secs saturating_simps if_True if_False

lemma test_ip: "IpV4 (Ipv4Addr 192 168 50 a) \<noteq> localhost_v4"
  by (simp add: localhost_v4_def)

lemmas throttler_test_unfold = Let_def check_throttle_default option.case unwrap_simps test_throttler_def [symmetric]

lemma throttler_test_one_two_punch_passes:
  assumes clk: "test_clock clk" shows "throttler_test_one_two_punch clk"
proof -
  note new = fresh_new [OF test_ip test_throttler_def]
  note at = test_clock_facts [OF clk]
  note bounds = nanos_pos at(3) [of 1] at(3) [of 2] at(3) [of 3] at(2) [of 2 1] at(1) [of 2 3]
  show ?thesis
    unfolding throttler_test_one_two_punch_def throttler_test_unfold plus_secs [OF clk, of 2 3, simplified]
    by (rule checks_first [OF new] checks_live checks_expired, assumption?
        | (simp only: test_throttler_simps less_irrefl; fail)
        | use bounds in \<open>simp only: test_throttler_simps; linarith\<close>)+
qed

lemma throttler_test_max_tracking_passes:
  assumes clk: "test_clock clk" shows "throttler_test_max_tracking clk"
proof -
  note new = fresh_new [OF test_ip test_throttler_def]
  note at = test_clock_facts [OF clk]
  note bounds = nanos_pos at(3) [of 1] at(3) [of 2] at(3) [of 3] at(3) [of 5] at(2) [of 2 1] at(2) [of 3 1] at(1) [of 1 2] at(1) [of 1 3] at(1) [of 2 3] at(1) [of 1 5]
  show ?thesis
    unfolding throttler_test_max_tracking_def throttler_test_unfold plus_secs [OF clk, of 9 3, simplified]
      plus_secs [OF clk, of 11 5, simplified]
    by (rule checks_first [OF new] checks_live checks_expired, assumption?
        | (simp only: test_throttler_simps less_irrefl; fail)
        | use bounds in \<open>simp only: test_throttler_simps; linarith\<close>)+
qed

lemma throttler_test_avoids_overflow_passes:
  assumes clk: "test_clock clk" shows "throttler_test_avoids_overflow clk"
proof -
  note new = fresh_new [OF test_ip test_throttler_def]
  note at = test_clock_facts [OF clk]
  note bounds = nanos_pos at(3) [of 1] at(3) [of 2] at(2) [of 2 1]
  show ?thesis
    unfolding throttler_test_avoids_overflow_def throttler_test_unfold
    by (rule checks_first [OF new] checks_live, assumption?
        | (simp only: test_throttler_simps less_irrefl; fail)
        | use bounds in \<open>simp only: test_throttler_simps; linarith\<close>)+
qed

text \<open>Filling the throttler: each new address passes, and the last one is on record.\<close>

abbreviation test_ip_of :: "nat \<Rightarrow> IpAddr" where
  "test_ip_of a \<equiv> IpV4 (Ipv4Addr 192 168 50 (word_of_nat a))"

lemma disjoint_insert_subset: "A \<subseteq> insert x B \<Longrightarrow> x \<notin> C \<Longrightarrow> C \<inter> B = {} \<Longrightarrow> C \<inter> A = {}"
  by blast

lemma fill_throttler_passes:
  assumes clk: "test_clock clk" and t0: "t0 = test_throttler 1 (clk 0)"
    and "same_config t0 t" and "th_records t \<noteq> []"
    and "distinct (map test_ip_of (as @ [z]))" and "test_ip_of ` set (as @ [z]) \<inter> tr_ip ` set (th_records t) = {}"
    and last: "\<And>t'. recorded t0 t' (test_ip_of z) 1 (clk (Suc z) + dur_from_secs 5) (clk (Suc z)) \<Longrightarrow> P t'"
  shows "fill_throttler clk (as @ [z]) t P"
  using assms(3-6)
proof (induction as arbitrary: t)
  case Nil
  note bounds = test_clock_facts(3) [OF clk, of "Suc z"]
  have new: "test_ip_of z \<notin> tr_ip ` set (th_records t)" using Nil.prems(4) by simp
  show ?case
    unfolding append_Nil fill_throttler.simps check_throttle_default option.case
    by (rule checks_first [OF Nil.prems(1) new Nil.prems(2)]; use bounds last in \<open>simp add: t0 test_throttler_conf secs\<close>)
next
  case (Cons a as)
  note bounds = test_clock_facts(3) [OF clk, of "Suc a"]
  have new: "test_ip_of a \<notin> tr_ip ` set (th_records t)" using Cons.prems(4) by simp
  have rest: "fill_throttler clk (as @ [z]) (set_record t i r) P"
    if "i < length (th_records t)" "tr_ip r = test_ip_of a" for i r
  proof (rule Cons.IH)
    show "same_config t0 (set_record t i r)" using Cons.prems(1) by (simp add: same_config_def set_record_def)
    have "tr_ip ` set (th_records (set_record t i r)) \<subseteq> insert (test_ip_of a) (tr_ip ` set (th_records t))"
      using set_update_subset_insert [of "th_records t" i r] that(2) by (auto simp: set_record_def)
    moreover have "test_ip_of a \<notin> test_ip_of ` set (as @ [z])" using Cons.prems(3) by simp
    moreover have "test_ip_of ` set (as @ [z]) \<inter> tr_ip ` set (th_records t) = {}" using Cons.prems(4) by auto
    ultimately show "test_ip_of ` set (as @ [z]) \<inter> tr_ip ` set (th_records (set_record t i r)) = {}"
      by (rule disjoint_insert_subset)
  qed (use Cons.prems in \<open>simp_all add: set_record_def\<close>)
  show ?case
    unfolding append_Cons fill_throttler.simps check_throttle_default option.case
  proof (rule checks_first [OF Cons.prems(1) new Cons.prems(2)])
    fix i and r :: ThrottlerRecord assume "i < length (th_records t)" and "tr_ip r = test_ip_of a"
    then show "fill_throttler clk (as @ [z]) (set_record t i r) P" by (rule rest)
  qed (use bounds in \<open>simp_all add: t0 test_throttler_conf secs\<close>)
qed

lemma throttler_test_lots_of_ips_passes:
  assumes clk: "test_clock clk" shows "throttler_test_lots_of_ips clk"
proof -
  define t0 where "t0 = test_throttler 1 (clk 0)"
  have records: "th_records t0 \<noteq> []" "tr_ip ` set (th_records t0) = {localhost_v4}" "get_num_records t0 = 32"
    by (simp_all add: t0_def test_throttler_def throttler_new_def tr_default_def get_num_records_def)
  have "inj_on (\<lambda>a. word_of_nat a :: u8) {..<33}" by (rule inj_on_subset [OF inj_on_word_of_nat]) auto
  then have "inj_on test_ip_of {..<33}" by (simp add: inj_on_def)
  then have "inj_on test_ip_of (set ([0..<32] @ [32]))" by (rule inj_on_subset) auto
  then have dist: "distinct (map test_ip_of ([0..<32] @ [32]))" unfolding distinct_map by simp
  have new: "test_ip_of ` set ([0..<32] @ [32]) \<inter> tr_ip ` set (th_records t0) = {}"
    unfolding records(2) using test_ip by blast
  have same: "same_config t0 t0" by (simp add: same_config_def)
  note at = test_clock_facts [OF clk]
  note bounds = nanos_pos at(3) [of 34] at(3) [of 35] at(2) [of 34 33] at(1) [of 34 35]
  have upt: "[0..<32 + 1] = [0..<32] @ [32]" using upt_Suc_append [of 0 32] by (simp only: Suc_eq_plus1)
  show ?thesis
    unfolding throttler_test_lots_of_ips_def throttler_test_unfold t0_def [symmetric] records(3) upt
      plus_secs [OF clk, of 2 35, simplified]
    by (rule fill_throttler_passes [OF clk t0_def same records(1) dist new] checks_live checks_expired, assumption?
        | (simp only: t0_def test_throttler_simps less_irrefl; fail)
        | use bounds in \<open>simp only: t0_def test_throttler_simps; simp; linarith\<close>)+
qed

end
