(* ===== verification/Dht_TestsTables.thy ===== *)
theory Dht_TestsTables
  imports Dht_TestLib Dht_Nodes
begin

text \<open>
  The unit tests of \<open>src/storage/buckets.rs\<close> and \<open>src/storage/node_bucket_storage.rs\<close>, one definition for each,
  for every unstable sort \<open>srt\<close>; \<open>clk\<close> gives the readings of the clock in the order the test takes them.
\<close>

section \<open>Tests of \<open>buckets.rs\<close>\<close>

record TestWrapper =
  tw_id :: Id
  tw_first_seen :: instant

definition tw_new :: "Id \<Rightarrow> instant option \<Rightarrow> instant \<Rightarrow> TestWrapper" where
  "tw_new i first_seen now = \<lparr>tw_id = i, tw_first_seen = (case first_seen of Some t \<Rightarrow> t | None \<Rightarrow> now)\<rparr>"

definition tw_bucketable :: "TestWrapper bucketable" where
  "tw_bucketable = \<lparr>get_id = tw_id, get_first_seen = tw_first_seen\<rparr>"

text \<open>\<open>storage.add(TestWrapper::new(i, None), None)\<close>, with the reading of the clock.\<close>

definition tw_add :: "TestWrapper sorter \<Rightarrow> TestWrapper buckets \<Rightarrow> Id \<Rightarrow> instant \<Rightarrow> TestWrapper buckets" where
  "tw_add srt storage i now = fst (buckets_add tw_bucketable srt storage (tw_new i None now) None)"

text \<open>The 2000 random ids are the bytes \<open>rng n\<close>, whatever the generator and its seed.\<close>

definition buckets_test_correct_bucket ::
  "TestWrapper sorter \<Rightarrow> (nat \<Rightarrow> nat \<Rightarrow> u8) \<Rightarrow> (nat \<Rightarrow> instant) \<Rightarrow> bool" where
  "buckets_test_correct_bucket srt rng clk \<longleftrightarrow>
     (let i = hex_id 0x0000000000000000000000000000000000000000;
          storage = fold (\<lambda>n storage. tw_add srt storage (id_from_random (rng n)) (clk n)) [0..<2000] (buckets_new i 8)
      in list_all (\<lambda>j. length (b_buckets storage ! j) \<le> 8 \<and>
           list_all (\<lambda>wrapper. j = min (matching_prefix_bits (b_our_id storage) (tw_id wrapper)) (length (b_buckets storage) - 1))
             (b_buckets storage ! j)) [0..<length (b_buckets storage)])"

definition buckets_test_add_remove :: "TestWrapper sorter \<Rightarrow> (nat \<Rightarrow> instant) \<Rightarrow> bool" where
  "buckets_test_add_remove srt clk \<longleftrightarrow>
     (let our_id = hex_id 0x0000000000000000000000000000000000000000;
          storage = buckets_new our_id 8;
          their_id = hex_id 0x0000000000000000000000000000000000000001;
          storage = tw_add srt storage their_id (clk 0)
      in buckets_count storage = 1 \<and> buckets_get_mut tw_bucketable storage their_id \<noteq> None \<and>
        (let (storage, removed) = buckets_remove tw_bucketable storage their_id
         in removed \<noteq> None \<and>
           (let (storage, removed) = buckets_remove tw_bucketable storage their_id
            in removed = None \<and> buckets_count storage = 0)))"

definition buckets_test_nothing_in_common :: "TestWrapper sorter \<Rightarrow> (nat \<Rightarrow> instant) \<Rightarrow> bool" where
  "buckets_test_nothing_in_common srt clk \<longleftrightarrow>
     (let our_id = hex_id 0x0000000000000000000000000000000000000000;
          storage = buckets_new our_id 8;
          storage = tw_add srt storage (hex_id 0xf000000000000000000000000000000000000000) (clk 0);
          storage = tw_add srt storage (hex_id 0xf000000000000000000000000000000000000001) (clk 1);
          storage = tw_add srt storage (hex_id 0xf000000000000000000000000000000000000010) (clk 2);
          storage = tw_add srt storage (hex_id 0xf000000000000000000000000000000000000011) (clk 3);
          storage = tw_add srt storage (hex_id 0xf000000000000000000000000000000000000100) (clk 4);
          storage = tw_add srt storage (hex_id 0xf000000000000000000000000000000000000101) (clk 5);
          storage = tw_add srt storage (hex_id 0xf000000000000000000000000000000000000110) (clk 6);
          storage = tw_add srt storage (hex_id 0xf000000000000000000000000000000000000111) (clk 7)
      in length (b_buckets storage ! 0) = 8 \<and>
        (let storage = tw_add srt storage (hex_id 0xf000000000000000000000000000000000001000) (clk 8)
         in length (b_buckets storage ! 0) = 8 \<and>
            buckets_get_mut tw_bucketable storage (hex_id 0xf000000000000000000000000000000000001000) = None))"

definition buckets_test_get_nearest_nodes :: "TestWrapper sorter \<Rightarrow> (nat \<Rightarrow> instant) \<Rightarrow> bool" where
  "buckets_test_get_nearest_nodes srt clk \<longleftrightarrow>
     (let our_id = hex_id 0x0000000000000000000000000000000000000000;
          storage = buckets_new our_id 8;
          storage = tw_add srt storage (hex_id 0x0000000000000000000000000000000000000001) (clk 0);
          storage = tw_add srt storage (hex_id 0x0000000000000000000000000000000000000010) (clk 1);
          storage = tw_add srt storage (hex_id 0x0000000000000000000000000000000000000011) (clk 2);
          storage = tw_add srt storage (hex_id 0x0000000000000000000000000000000000000100) (clk 3);
          storage = tw_add srt storage (hex_id 0x0000000000000000000000000000000000000101) (clk 4);
          storage = tw_add srt storage (hex_id 0x0000000000000000000000000000000000000110) (clk 5);
          storage = tw_add srt storage (hex_id 0x0000000000000000000000000000000000000111) (clk 6);
          storage = tw_add srt storage (hex_id 0x0000000000000000000000000000000000001000) (clk 7);
          storage = tw_add srt storage (hex_id 0x0000000000000000000000000000000000001001) (clk 8)
      in (let nearest = buckets_get_nearest tw_bucketable srt storage (hex_id 0xffffffffffffffffffffffffffffffffffffffff) None
       in length nearest = 8 \<and> tw_id (nearest ! 0) = hex_id 0x0000000000000000000000000000000000001001) \<and>
      (let nearest = buckets_get_nearest tw_bucketable srt storage (hex_id 0x0000000000000000000000000000000000000000) None
       in length nearest = 8 \<and> tw_id (nearest ! 0) = hex_id 0x0000000000000000000000000000000000000001))"

definition buckets_test_get_nearest_nodes2 :: "TestWrapper sorter \<Rightarrow> (nat \<Rightarrow> instant) \<Rightarrow> bool" where
  "buckets_test_get_nearest_nodes2 srt clk \<longleftrightarrow>
     (let our_id = hex_id 0x0000000000000000000000000000000000000000;
          storage = buckets_new our_id 8;
          storage = tw_add srt storage (hex_id 0x5fcb695a07ad50be46f100000000000000000000) (clk 0);
          storage = tw_add srt storage (hex_id 0x00000000000000000000fada4cd3cf6225373cb7) (clk 1)
      in (let nearest = buckets_get_nearest tw_bucketable srt storage (hex_id 0x5fcb695a07ad50be46f1fada4cd3cf6225373cb7) None
       in length nearest = 2 \<and> tw_id (nearest ! 0) = hex_id 0x5fcb695a07ad50be46f100000000000000000000) \<and>
      (let nearest = buckets_get_nearest tw_bucketable srt storage (hex_id 0x0000000000000000000000000000000000000000) None
       in length nearest = 2 \<and> tw_id (nearest ! 0) = hex_id 0x00000000000000000000fada4cd3cf6225373cb7) \<and>
      (let nearest = buckets_get_nearest tw_bucketable srt storage (hex_id 0xffffffffffffffffffffffffffffffffffffffff) None
       in length nearest = 2 \<and> tw_id (nearest ! 0) = hex_id 0x5fcb695a07ad50be46f100000000000000000000))"

section \<open>Tests of \<open>node_bucket_storage.rs\<close>\<close>

text \<open>
  The loop body of the first test. As in the source, \<open>node2_wrapper\<close> is looked up by \<open>node1\<close>. The
  unwrapped \<open>find\<close> fails the test when it finds nothing.
\<close>

definition nodes_test_add_unverified_and_verified :: "NodeWrapper sorter \<Rightarrow> (bool \<Rightarrow> nat \<Rightarrow> instant) \<Rightarrow> bool" where
  "nodes_test_add_unverified_and_verified srt clk \<longleftrightarrow>
     list_all (\<lambda>test_verified.
       (let our_id = hex_id 0x0000000000000000000000000000000000000000;
            storage = nbs_new our_id 8;
            node1 = Node (hex_id 0x1234567812345678123456781234567812345678) (SockV4 (Ipv4Addr 1 2 3 4) 1234);
            node2 = Node (hex_id 0x5234567812345678123456781234567812345678) (SockV4 (Ipv4Addr 5 2 3 4) 1234);
            storage = nbs_add_or_update srt storage node1 test_verified (clk test_verified 0) (clk test_verified 1);
            storage = nbs_add_or_update srt storage node2 test_verified (clk test_verified 2) (clk test_verified 3);
            (expected_unverified, expected_verified) = (if test_verified then (0, 2) else (2, 0));
            unverified = nbs_get_all_unverified storage;
            verified = nbs_get_all_verified storage;
            populated_one = (if test_verified then verified else unverified)
        in expected_unverified = length unverified \<and> expected_verified = length verified \<and>
           (expected_unverified, expected_verified) = nbs_count storage \<and>
           (case (List.find (\<lambda>nw. nw_node nw = node1) populated_one, List.find (\<lambda>nw. nw_node nw = node1) populated_one) of
              (Some node1_wrapper, Some node2_wrapper) \<Rightarrow>
                test_verified = (nw_last_verified node1_wrapper \<noteq> None) \<and>
                test_verified = (nw_last_verified node2_wrapper \<noteq> None)
            | _ \<Rightarrow> False)))
       [False, True]"

definition nodes_test_node_lifecycle :: "NodeWrapper sorter \<Rightarrow> (nat \<Rightarrow> instant) \<Rightarrow> bool" where
  "nodes_test_node_lifecycle srt clk \<longleftrightarrow>
     (let our_id = hex_id 0x0000000000000000000000000000000000000000;
          storage = nbs_new our_id 8;
          node1 = Node (hex_id 0x1234567812345678123456781234567812345678) (SockV4 (Ipv4Addr 1 2 3 4) 1234);
          storage = nbs_add_or_update srt storage node1 False (clk 0) (clk 1);
          before_update = clk 2;
          storage = nbs_add_or_update srt storage node1 False (clk 3) (clk 4);
          wrapper = nbs_get_all_unverified storage ! 0
      in 0 < length (nbs_get_all_unverified storage) \<and>
         before_update \<le> nw_last_seen wrapper \<and> nw_last_verified wrapper = None \<and>
        (let before_update = clk 5;
             storage = nbs_add_or_update srt storage node1 True (clk 6) (clk 7);
             wrapper = nbs_get_all_verified storage ! 0
         in 0 < length (nbs_get_all_verified storage) \<and>
            nw_last_verified wrapper \<noteq> None \<and> before_update \<le> nw_last_seen wrapper \<and>
           (let before_update = clk 8;
                storage = nbs_add_or_update srt storage node1 True (clk 9) (clk 10);
                wrapper = nbs_get_all_verified storage ! 0
            in 0 < length (nbs_get_all_verified storage) \<and>
               (case nw_last_verified wrapper of Some t \<Rightarrow> before_update \<le> t | None \<Rightarrow> False) \<and>
               before_update \<le> nw_last_seen wrapper \<and>
              (let before_update = clk 11;
                   storage = nbs_add_or_update srt storage node1 False (clk 12) (clk 13);
                   wrapper = nbs_get_all_verified storage ! 0
               in 0 < length (nbs_get_all_verified storage) \<and>
                  (case nw_last_verified wrapper of Some t \<Rightarrow> t \<le> before_update | None \<Rightarrow> False) \<and>
                  before_update \<le> nw_last_seen wrapper))))"

definition nodes_test_get_nearest_nodes :: "NodeWrapper sorter \<Rightarrow> (nat \<Rightarrow> instant) \<Rightarrow> bool" where
  "nodes_test_get_nearest_nodes srt clk \<longleftrightarrow>
     (let our_id = hex_id 0x0000000000000000000000000000000000000000;
          storage = nbs_new our_id 1;
          storage = nbs_add_or_update srt storage
            (Node (hex_id 0x7fffffffffffffffffffffffffffffffffffffff) (SockV4 (Ipv4Addr 127 0 0 1) 8080)) True (clk 0) (clk 1);
          closer_id = hex_id 0xffffffffffffffffffffffffffffffffffffffff;
          storage = nbs_add_or_update srt storage (Node closer_id (SockV4 (Ipv4Addr 127 0 0 1) 8080)) True (clk 2) (clk 3);
          seeking_id = hex_id 0x8000000000000000000000000000000000000000;
          result = nbs_get_nearest_nodes srt storage seeking_id None
      in length result = 1 \<and> closer_id = node_id (result ! 0))"

definition nodes_test_clear :: "NodeWrapper sorter \<Rightarrow> (nat \<Rightarrow> instant) \<Rightarrow> bool" where
  "nodes_test_clear srt clk \<longleftrightarrow>
     (let our_id = hex_id 0x0000000000000000000000000000000000000000;
          storage = nbs_new our_id 1;
          storage = nbs_add_or_update srt storage
            (Node (hex_id 0x7fffffffffffffffffffffffffffffffffffffff) (SockV4 (Ipv4Addr 127 0 0 1) 8080)) True (clk 0) (clk 1)
      in snd (nbs_count storage) = 1 \<and>
        (let storage = nbs_clear storage
         in snd (nbs_count storage) = 0))"

section \<open>The tests of \<open>buckets.rs\<close> pass\<close>

lemma tw_bucketable_sel [simp]: "get_id tw_bucketable = tw_id" "get_first_seen tw_bucketable = tw_first_seen"
  by (simp_all add: tw_bucketable_def)

lemma tw_new_sel [simp]: "tw_id (tw_new i f now) = i" "tw_first_seen (tw_new i None now) = now"
  by (simp_all add: tw_new_def)

text \<open>A table with these settings that holds exactly these ids.\<close>

definition holds_ids :: "Id \<Rightarrow> TestWrapper buckets \<Rightarrow> Id list \<Rightarrow> bool" where
  "holds_ids our b ids \<longleftrightarrow> wf_buckets tw_bucketable b \<and> b_our_id b = our \<and> b_k b = 8 \<and>
     mset (map tw_id (buckets_values b)) = mset ids"

lemma holds_new: "holds_ids our (buckets_new our 8) []"
  by (simp add: holds_ids_def) (simp add: buckets_new_def)

lemma mset_concat_nth: "j < length bs \<Longrightarrow> mset (bs ! j) \<subseteq># mset (concat bs)"
proof (induction bs arbitrary: j)
  case (Cons xs bs)
  then show ?case
    by (cases j) (auto intro: subset_mset.order_trans [OF _ mset_subset_eq_add_right])
qed simp

text \<open>No item is turned away while no prefix length occurs more than \<open>k\<close> times.\<close>

lemma holds_add:
  assumes srt: "sort_law srt" and h: "holds_ids our b ids" and i: "i \<noteq> our"
    and room: "\<And>p. length (filter (\<lambda>x. matching_prefix_bits our x = p) (i # ids)) \<le> 8"
  shows "holds_ids our (tw_add srt b i t) (i # ids)"
proof -
  let ?item = "tw_new i None t"
  have wf: "wf_buckets tw_bucketable b" and our: "b_our_id b = our" "b_k b = 8" using h by (simp_all add: holds_ids_def)
  obtain ev where b': "wf_buckets tw_bucketable (tw_add srt b i t)" "b_our_id (tw_add srt b i t) = our" "b_k (tw_add srt b i t) = 8"
      "mset (buckets_values (tw_add srt b i t)) + mset ev = add_mset ?item (mset (buckets_values b))"
    and away: "\<And>x. x \<in> set ev \<Longrightarrow> turned_away tw_bucketable our 8 (b_buckets (tw_add srt b i t)) x"
    by (rule buckets_add_spec [OF srt wf, of ?item None]) (use i our in \<open>auto simp: tw_add_def\<close>)
  let ?bs = "b_buckets (tw_add srt b i t)"
  have "mset (map tw_id (buckets_values b)) = mset ids" using h by (simp add: holds_ids_def)
  then have "image_mset tw_id (add_mset ?item (mset (buckets_values b))) = mset (i # ids)" by simp
  then have ids: "image_mset tw_id (mset (buckets_values (tw_add srt b i t)) + mset ev) = mset (i # ids)"
    unfolding b'(4) .
  have "x \<notin> set ev" for x
  proof
    assume x: "x \<in> set ev"
    define p where "p = matching_prefix_bits our (tw_id x)"
    have p: "Suc p < length ?bs" "length (?bs ! p) = 8" using away [OF x] by (simp_all add: turned_away_def Let_def p_def)
    have "placed tw_bucketable our ?bs" using b'(1,2) by (simp add: wf_buckets_def table_inv_def)
    then have same: "matching_prefix_bits our (tw_id y) = p" if "y \<in> set (?bs ! p)" for y
      using placedD [of tw_bucketable our ?bs p y] that p(1) by (simp add: dest_idx_def split: if_splits)
    have "mset (?bs ! p) \<subseteq># mset (buckets_values (tw_add srt b i t))"
      unfolding buckets_values_def using p(1) mset_concat_nth [of p ?bs] by simp
    moreover have "{#x#} \<subseteq># mset ev" using x by simp
    ultimately have "mset (?bs ! p) + {#x#} \<subseteq># mset (buckets_values (tw_add srt b i t)) + mset ev"
      by (rule subset_mset.add_mono)
    then have "mset (x # ?bs ! p) \<subseteq># mset (buckets_values (tw_add srt b i t)) + mset ev" by simp
    then have "image_mset tw_id (mset (x # ?bs ! p)) \<subseteq># mset (i # ids)"
      unfolding ids [symmetric] by (rule image_mset_subseteq_mono)
    then have "filter_mset (\<lambda>y. matching_prefix_bits our y = p) (image_mset tw_id (mset (x # ?bs ! p))) \<subseteq>#
        filter_mset (\<lambda>y. matching_prefix_bits our y = p) (mset (i # ids))"
      by (rule multiset_filter_mono)
    moreover have "filter_mset (\<lambda>y. matching_prefix_bits our y = p) (image_mset tw_id (mset (x # ?bs ! p))) =
        image_mset tw_id (mset (x # ?bs ! p))"
      using same by (auto simp: filter_mset_eq_conv p_def)
    ultimately have "size (mset (x # ?bs ! p)) \<le> length (filter (\<lambda>y. matching_prefix_bits our y = p) (i # ids))"
      using size_mset_mono by (metis mset_filter size_image_mset size_mset)
    then show False using room [of p] p(2) by simp
  qed
  then have "ev = []" by (cases ev) auto
  then show ?thesis using b' ids by (simp add: holds_ids_def)
qed

lemma room_small: "length xs \<le> 8 \<Longrightarrow> length (filter P xs) \<le> 8"
  using length_filter_le [of P xs] by linarith

lemma room_two:
  assumes "length xs \<le> 9" and "x \<in> set xs" and "y \<in> set xs" and "f x \<noteq> f y"
  shows "length (filter (\<lambda>x. f x = p) xs) \<le> 8"
proof -
  obtain z where "z \<in> set xs" "f z \<noteq> p" using assms(2-4) by (cases "f x = p") auto
  then have "length (filter (\<lambda>x. f x = p) xs) < length xs" by (rule length_filter_less)
  then show ?thesis using assms(1) by simp
qed

lemma nearest_of_ids:
  assumes srt: "sort_law srt" and h: "holds_ids our b ids"
  shows "length (buckets_get_nearest tw_bucketable srt b target None) = min 8 (length ids)"
    and "x \<in> set ids \<Longrightarrow> list_all (\<lambda>y. id_xor x target \<le> id_xor y target) ids \<Longrightarrow>
      tw_id (buckets_get_nearest tw_bucketable srt b target None ! 0) = x"
proof -
  let ?near = "buckets_get_nearest tw_bucketable srt b target None"
  have ids: "mset (map tw_id (buckets_values b)) = mset ids" and k: "b_k b = 8" using h by (simp_all add: holds_ids_def)
  have len: "length (buckets_values b) = length ids" using ids by (metis length_map mset_eq_length)
  have set: "tw_id ` set (buckets_values b) = set ids" using ids by (metis list.set_map set_mset_mset)
  obtain rest where near: "mset ?near + mset rest = mset (buckets_values b)"
    "sorted_wrt (\<lambda>a c. id_xor (tw_id a) target \<le> id_xor (tw_id c) target) ?near"
    "length ?near = min 8 (length (buckets_values b))"
    "\<And>x y. x \<in> set ?near \<Longrightarrow> y \<in> set rest \<Longrightarrow> id_xor (tw_id x) target \<le> id_xor (tw_id y) target"
    by (rule buckets_get_nearest_spec [OF srt, of tw_bucketable b target None]) (auto simp: eligible_def distance_def k)
  show "length ?near = min 8 (length ids)" using near(3) len by simp
  assume x: "x \<in> set ids" "list_all (\<lambda>y. id_xor x target \<le> id_xor y target) ids"
  then have "?near \<noteq> []" using near(3) len by (cases ids) auto
  then obtain f fs where f: "?near = f # fs" by (cases ?near) auto
  obtain w where w: "w \<in> set (buckets_values b)" "tw_id w = x" using x(1) unfolding set [symmetric] by blast
  have all: "set ?near \<union> set rest = set (buckets_values b)" using near(1) by (metis set_mset_mset set_mset_union)
  then have "w \<in> set ?near \<or> w \<in> set rest" using w(1) by blast
  then have "id_xor (tw_id f) target \<le> id_xor x target"
    using near(2,4) w(2) by (auto simp: f)
  moreover have "tw_id f \<in> set ids" using all f set by auto
  ultimately have "id_xor (tw_id f) target = id_xor x target" using x(2) by (auto simp: list_all_iff intro: antisym)
  then show "tw_id (?near ! 0) = x" by (simp add: f)
qed

text \<open>A table of one bucket with room for another item.\<close>

lemma buckets_add_single:
  assumes "length xs < k" and "get_id B item \<noteq> our"
  shows "buckets_add B srt \<lparr>b_our_id = our, b_buckets = [xs], b_k = k\<rparr> item ch =
    (\<lparr>b_our_id = our, b_buckets = [xs @ [item]], b_k = k\<rparr>, ch)"
  using assms by (simp add: buckets_add_def handle_bucket_overflow_def get_dest_bucket_idx_for_id_def
      dest_idx_def overflow_loop.simps)

lemma tw_add_single:
  assumes "length xs < k" and "i \<noteq> our"
  shows "tw_add srt \<lparr>b_our_id = our, b_buckets = [xs], b_k = k\<rparr> i t =
    \<lparr>b_our_id = our, b_buckets = [xs @ [tw_new i None t]], b_k = k\<rparr>"
  using assms by (simp add: tw_add_def buckets_add_single)

lemma buckets_test_add_remove_passes: "buckets_test_add_remove srt clk"
proof -
  have add: "tw_add srt (buckets_new (hex_id 0) 8) (hex_id 1) (clk 0) =
      \<lparr>b_our_id = hex_id 0, b_buckets = [[tw_new (hex_id 1) None (clk 0)]], b_k = 8\<rparr>"
    unfolding buckets_new_def by (subst tw_add_single) (simp_all add: hex_id_simps)
  show ?thesis
    unfolding buckets_test_add_remove_def Let_def add
    by (simp add: buckets_count_def buckets_remove_def buckets_get_mut_def get_dest_bucket_idx_for_id_def
        dest_idx_def swap_remove_def)
qed

text \<open>
  A full table of one bucket whose items share no bit with our id: a later item is turned away.
\<close>

lemma sort_law_id:
  assumes "sort_law srt" and "sorted_wrt (\<lambda>x y. f x < f y) xs"
  shows "srt (\<lambda>x y. (f x :: nat) \<le> f y) xs = xs"
proof -
  let ?s = "srt (\<lambda>x y. f x \<le> f y) xs"
  have m: "mset ?s = mset xs" and s: "sorted_wrt (\<lambda>x y. f x \<le> f y) ?s"
    using assms(1) by (simp_all add: sort_law_mset sort_law_sorted)
  have "sorted_wrt (<) (map f xs)" using assms(2) by (simp add: sorted_wrt_map)
  then have xs: "sorted (map f xs)" "distinct (map f xs)" by (simp_all add: strict_sorted_iff)
  have "sorted (map f ?s)" using s by (simp add: sorted_wrt_map)
  moreover have "mset (map f ?s) = mset (map f xs)" using m by simp
  ultimately have "map f ?s = map f xs" using xs(1) by (metis properties_for_sort)
  moreover have "inj_on f (set ?s \<union> set xs)" using xs(2) m by (metis distinct_map set_mset_mset sup.idem)
  ultimately show ?thesis by (rule map_inj_on)
qed

lemma move_out_none: "(\<And>q. q < i \<Longrightarrow> ideal (bs ! idx ! q) = idx) \<Longrightarrow> move_out ideal idx i bs = bs"
  by (induction i arbitrary: bs) auto

lemma tw_add_full:
  assumes srt: "sort_law srt" and k: "length xs = k" and i: "i \<noteq> our"
    and far: "list_all (\<lambda>x. matching_prefix_bits our (tw_id x) = 0) (xs @ [tw_new i None t])"
    and order: "sorted_wrt (\<lambda>x y. tw_first_seen x < tw_first_seen y) (xs @ [tw_new i None t])"
  shows "tw_add srt \<lparr>b_our_id = our, b_buckets = [xs], b_k = k\<rparr> i t =
    \<lparr>b_our_id = our, b_buckets = [xs, []], b_k = k\<rparr>"
proof -
  let ?all = "xs @ [tw_new i None t]"
  have ideal: "get_dest_bucket_idx tw_bucketable our (Suc (Suc 0)) (?all ! q) = 0" if "q < length ?all" for q
    using far that by (simp add: list_all_length get_dest_bucket_idx_def dest_idx_def)
  have "move_out (get_dest_bucket_idx tw_bucketable our (Suc (Suc 0))) 0 (length ?all) [?all, []] = [?all, []]"
    by (rule move_out_none) (use ideal in simp)
  moreover have "srt (by_first_seen tw_bucketable) ?all = ?all"
    using sort_law_id [OF srt order] by (simp add: by_first_seen_def [abs_def])
  ultimately have "overflow_step tw_bucketable srt our k 0 [?all] None = ([xs, []], None)"
    using k by (simp add: overflow_step_def Let_def)
  then show ?thesis
    using k i by (simp add: tw_add_def buckets_add_def handle_bucket_overflow_def get_dest_bucket_idx_for_id_def
        dest_idx_def overflow_loop.simps)
qed

text \<open>Whatever the random ids: the table is well formed after any additions.\<close>

lemma tw_adds_wf:
  assumes "sort_law srt" and "wf_buckets tw_bucketable b" and "b_k b = 8"
  shows "wf_buckets tw_bucketable (fold (\<lambda>n storage. tw_add srt storage (f n) (clk n)) ns b) \<and>
    b_k (fold (\<lambda>n storage. tw_add srt storage (f n) (clk n)) ns b) = 8"
  using assms(2,3)
proof (induction ns arbitrary: b)
  case (Cons n ns)
  have "wf_buckets tw_bucketable (tw_add srt b (f n) (clk n))" "b_k (tw_add srt b (f n) (clk n)) = b_k b"
    unfolding tw_add_def by (rule buckets_add_spec [OF assms(1) Cons.prems(1)], assumption)+
  then show ?case using Cons by simp
qed simp

lemma buckets_test_correct_bucket_passes:
  assumes "sort_law srt" shows "buckets_test_correct_bucket srt rng clk"
proof -
  define b where "b = fold (\<lambda>n storage. tw_add srt storage (id_from_random (rng n)) (clk n)) [0..<2000] (buckets_new (hex_id 0) 8)"
  have "wf_buckets tw_bucketable b \<and> b_k b = 8"
    unfolding b_def by (rule tw_adds_wf [OF assms wf_buckets_new]) (simp add: buckets_new_def)
  then have "length (b_buckets b ! j) \<le> 8" "x \<in> set (b_buckets b ! j) \<Longrightarrow>
      j = min (matching_prefix_bits (b_our_id b) (tw_id x)) (length (b_buckets b) - 1)" if "j < length (b_buckets b)" for j x
    using that placedD [of tw_bucketable "b_our_id b" "b_buckets b" j x]
    by (auto simp: wf_buckets_def table_inv_def dest_idx_def min.commute)
  then show ?thesis
    unfolding buckets_test_correct_bucket_def Let_def b_def [symmetric] by (simp add: list_all_iff)
qed

lemma buckets_test_get_nearest_nodes2_passes:
  assumes srt: "sort_law srt" shows "buckets_test_get_nearest_nodes2 srt clk"
proof -
  have h: "holds_ids (hex_id 0) (tw_add srt (tw_add srt (buckets_new (hex_id 0) 8) (hex_id 0x5fcb695a07ad50be46f100000000000000000000) (clk 0))
      (hex_id 0xfada4cd3cf6225373cb7) (clk 1)) [hex_id 0xfada4cd3cf6225373cb7, hex_id 0x5fcb695a07ad50be46f100000000000000000000]"
    by (intro holds_add [OF srt] holds_new room_small) (simp_all add: hex_id_simps)
  note near = nearest_of_ids [OF srt h]
  show ?thesis
    unfolding buckets_test_get_nearest_nodes2_def Let_def
    by (intro conjI; (subst near(1))?; (rule near(2))?; simp add: hex_id_xor hex_id_simps)
qed

lemma buckets_test_get_nearest_nodes_passes:
  assumes srt: "sort_law srt" shows "buckets_test_get_nearest_nodes srt clk"
proof -
  let ?ids = "[hex_id 0x1001, hex_id 0x1000, hex_id 0x111, hex_id 0x110, hex_id 0x101, hex_id 0x100, hex_id 0x11, hex_id 0x10, hex_id 0x1]"
  have "matching_prefix_bits (hex_id 0) (hex_id 0x1) \<noteq> matching_prefix_bits (hex_id 0) (hex_id 0x1001)"
    by (simp add: matching_prefix_bits_def hex_id_xor leading_zeros_def byte_bits_def upt_rec)
  then have nine: "length (filter (\<lambda>x. matching_prefix_bits (hex_id 0) x = p) ?ids) \<le> 8" for p
    by (intro room_two [where x = "hex_id 0x1" and y = "hex_id 0x1001"]) simp_all
  have h: "holds_ids (hex_id 0) (tw_add srt (tw_add srt (tw_add srt (tw_add srt (tw_add srt (tw_add srt (tw_add srt (tw_add srt (tw_add srt (buckets_new (hex_id 0) 8) (hex_id 0x1) (clk 0)) (hex_id 0x10) (clk 1)) (hex_id 0x11) (clk 2)) (hex_id 0x100) (clk 3)) (hex_id 0x101) (clk 4)) (hex_id 0x110) (clk 5)) (hex_id 0x111) (clk 6)) (hex_id 0x1000) (clk 7)) (hex_id 0x1001) (clk 8)) ?ids"
    by (rule holds_add [OF srt _ _ nine], intro holds_add [OF srt] holds_new room_small) (simp_all add: hex_id_simps)
  note near = nearest_of_ids [OF srt h]
  show ?thesis
    unfolding buckets_test_get_nearest_nodes_def Let_def
    by (intro conjI; (subst near(1))?; (rule near(2))?; simp add: hex_id_xor hex_id_simps)
qed

lemma no_common_prefix:
  assumes "n div 256 ^ 19 = 0xf0" shows "matching_prefix_bits (hex_id 0) (hex_id n) = 0"
proof -
  have "bytes (id_xor (hex_id 0) (hex_id n)) = 0xf0 # map (\<lambda>i. word_of_nat (n div 256 ^ (19 - i))) [1..<20]"
    using assms by (simp only: hex_id_xor xor.left_neutral bytes_hex_id) (simp add: upt_conv_Cons)
  moreover have "leading_zeros 0xf0 = 0" by (simp add: leading_zeros_def byte_bits_def)
  ultimately show ?thesis by (simp add: matching_prefix_bits_def)
qed

lemma buckets_test_nothing_in_common_passes:
  assumes srt: "sort_law srt" and clk: "strict_mono clk" shows "buckets_test_nothing_in_common srt clk"
proof -
  have clock: "clk m < clk n \<longleftrightarrow> m < n" for m n by (rule strict_mono_less [OF clk])
  show ?thesis
    unfolding buckets_test_nothing_in_common_def Let_def buckets_new_def
    by (simp add: tw_add_single tw_add_full [OF srt] hex_id_simps clock buckets_get_mut_def
        get_dest_bucket_idx_for_id_def dest_idx_def no_common_prefix)
qed

section \<open>The tests of \<open>node_bucket_storage.rs\<close> pass\<close>

lemmas nbs_defs = nbs_new_def nbs_add_or_update_def add_or_update_last_seen_def add_or_update_verified_def
  add_verified_def demote_all_def nbs_get_all_unverified_def nbs_get_all_verified_def nbs_count_def
  nbs_get_nearest_nodes_def nbs_clear_def

lemmas bucket_defs = buckets_new_def buckets_get_mut_def buckets_remove_def buckets_read_def buckets_write_def
  buckets_values_def buckets_count_def buckets_clear_def get_dest_bucket_idx_for_id_def dest_idx_def swap_remove_def
  nw_id_def nw_new_def

lemma nodes_test_add_unverified_and_verified_passes: "nodes_test_add_unverified_and_verified srt clk"
  by (simp add: nodes_test_add_unverified_and_verified_def nbs_defs bucket_defs buckets_add_single hex_id_simps Let_def)

text \<open>The life of a single node, by where it is stored.\<close>

definition one_unverified :: "Id \<Rightarrow> NodeWrapper \<Rightarrow> NodeBucketStorage" where
  "one_unverified our w =
     \<lparr>verified = \<lparr>b_our_id = our, b_buckets = [[]], b_k = 8\<rparr>, unverified = \<lparr>b_our_id = our, b_buckets = [[w]], b_k = 8\<rparr>\<rparr>"

definition one_verified :: "Id \<Rightarrow> NodeWrapper \<Rightarrow> NodeBucketStorage" where
  "one_verified our w =
     \<lparr>verified = \<lparr>b_our_id = our, b_buckets = [[w]], b_k = 8\<rparr>, unverified = \<lparr>b_our_id = our, b_buckets = [[]], b_k = 8\<rparr>\<rparr>"

lemma one_node_steps:
  "node_id n \<noteq> our \<Longrightarrow> nbs_add_or_update srt (nbs_new our 8) n False t t' = one_unverified our (nw_new n t)"
  "nw_id w = node_id n \<Longrightarrow> nbs_add_or_update srt (one_unverified our w) n False t t' = one_unverified our (w\<lparr>nw_last_seen := t\<rparr>)"
  "nw_id w = node_id n \<Longrightarrow> node_id n \<noteq> our \<Longrightarrow> nbs_add_or_update srt (one_unverified our w) n True t t' =
     one_verified our (w\<lparr>nw_last_seen := t, nw_last_verified := Some t\<rparr>)"
  "nw_id w = node_id n \<Longrightarrow> nbs_add_or_update srt (one_verified our w) n True t t' =
     one_verified our (w\<lparr>nw_last_seen := t, nw_last_verified := Some t\<rparr>)"
  "nw_id w = node_id n \<Longrightarrow> nbs_add_or_update srt (one_verified our w) n False t t' = one_verified our (w\<lparr>nw_last_seen := t\<rparr>)"
  by (simp_all add: one_unverified_def one_verified_def nbs_defs bucket_defs buckets_add_single Let_def)

lemma one_node_values:
  "nbs_get_all_unverified (one_unverified our w) = [w]" "nbs_get_all_verified (one_verified our w) = [w]"
  by (simp_all add: one_unverified_def one_verified_def nbs_defs buckets_values_def)

lemma nodes_test_node_lifecycle_passes:
  assumes "mono clk" shows "nodes_test_node_lifecycle srt clk"
proof -
  have clock: "m \<le> n \<Longrightarrow> clk m \<le> clk n" for m n using assms by (rule monoD)
  show ?thesis
    unfolding nodes_test_node_lifecycle_def Let_def
    by (simp add: one_node_steps one_node_values nw_id_def nw_new_def hex_id_simps clock)
qed

text \<open>With buckets of one node, the nodes of the third test are spread over two buckets, nearest first.\<close>

lemma buckets_add_split:
  assumes "matching_prefix_bits our (get_id B x) = 1" and "matching_prefix_bits our (get_id B y) = 0" and "get_id B y \<noteq> our"
  shows "buckets_add B srt \<lparr>b_our_id = our, b_buckets = [[x]], b_k = Suc 0\<rparr> y ch =
    (\<lparr>b_our_id = our, b_buckets = [[y], [x]], b_k = Suc 0\<rparr>, ch)"
proof -
  have "overflow_step B srt our (Suc 0) 0 [[x, y]] ch = ([[y], [x]], ch)"
    using assms(1,2) by (simp add: overflow_step_def get_dest_bucket_idx_def dest_idx_def swap_remove_def Let_def)
  then show ?thesis
    using assms(3) by (simp add: buckets_add_def handle_bucket_overflow_def get_dest_bucket_idx_for_id_def
        dest_idx_def overflow_loop.simps)
qed

lemma nodes_test_get_nearest_nodes_passes:
  assumes srt: "sort_law srt" shows "nodes_test_get_nearest_nodes srt clk"
proof -
  have bits: "matching_prefix_bits (hex_id 0) (hex_id 0x7fffffffffffffffffffffffffffffffffffffff) = 1"
    "matching_prefix_bits (hex_id 0) (hex_id 0xffffffffffffffffffffffffffffffffffffffff) = 0"
    by (simp_all add: matching_prefix_bits_def hex_id_xor leading_zeros_def byte_bits_def upt_rec)
  have two: "srt (by_distance nw_bucketable t) [a, b] = [a, b]" if "id_xor (nw_id a) t < id_xor (nw_id b) t" for a b t
    using sort_law_id [OF srt, of "\<lambda>x. id_val (id_xor (nw_id x) t)" "[a, b]"] that
    by (simp add: by_distance_def [abs_def] id_le_val id_less_val)
  show ?thesis
    unfolding nodes_test_get_nearest_nodes_def Let_def
    by (simp add: nbs_defs bucket_defs buckets_add_single buckets_add_split bits two hex_id_simps Let_def
        buckets_get_nearest_def not_excluded_def hex_id_xor)
qed

lemma nodes_test_clear_passes: "nodes_test_clear srt clk"
  by (simp add: nodes_test_clear_def nbs_defs bucket_defs buckets_add_single hex_id_simps Let_def)

end
