(* ===== verification/Dht_TestsNode.thy ===== *)
theory Dht_TestsNode
  imports Dht_TestLib Dht_EndToEnd
begin

text \<open>
  The unit tests of \<open>src/dht/dht.rs\<close>, as far as they exchange packets with one node, the one of the token
  secrets, and the test of \<open>src/dht/socket.rs\<close>. A test starts a node as the builder does, sends its requests as
  datagrams and waits for the answers. The bencode library, the platform, the random bytes, the clock and the
  ports of the clients are arguments.
\<close>

section \<open>The tests\<close>

text \<open>What a run of a test takes from its environment.\<close>

record test_run =
  tr_ser :: "DHTMessage \<Rightarrow> bytes res"
  tr_de :: "bytes \<Rightarrow> DHTMessage res"
  tr_linux :: bool
  tr_crc :: "bytes \<Rightarrow> u32"
  tr_sort :: "NodeWrapper sorter"
  tr_box :: "IPV4Consensus \<Rightarrow> StaticIPV4AddrSource"
  tr_random_id :: "nat \<Rightarrow> nat \<Rightarrow> u8"
  tr_secret :: "nat \<Rightarrow> nat \<Rightarrow> u8"
  tr_tid :: "nat \<Rightarrow> u8 \<times> u8"
  tr_client_port :: "nat \<Rightarrow> u16"
  tr_input :: "nat \<Rightarrow> handler_input"
  tr_clock :: "nat \<Rightarrow> instant"

type_synonym swarm_cache = "nat \<times> (SocketAddr \<times> PeerInfo) list"
type_synonym torrent_cache = "nat \<times> (Id \<times> swarm_cache) list"
type_synonym test_node = "(StaticIPV4AddrSource, NodeBucketStorage, torrent_cache) running"

definition run_env :: "test_run \<Rightarrow> (StaticIPV4AddrSource, NodeBucketStorage, swarm_cache, torrent_cache) dht_env" where
  "run_env T = \<lparr>e_ip4 = static_source, e_nodes = nbs_ops (tr_sort T), e_outer = list_lru, e_inner = list_lru, e_crc = tr_crc T\<rparr>"

definition get_dht_id :: Id where
  "get_dht_id = hex_id 0x0011223344556677889900112233445566778899"

text \<open>\<open>make_test_dht\<close>, and the node once its event loop runs. The id is given, so none is drawn.\<close>

definition test_dht_builder :: "u16 \<Rightarrow> (StaticIPV4AddrSource, NodeBucketStorage) DHTBuilder" where
  "test_dht_builder port =
     (let ipv4 = Ipv4Addr 1 2 3 4;
          phony_ip4 = static_new ipv4
      in db_set_ip_source phony_ip4 (db_set_listen_addr (Ipv4Addr 127 0 0 1, port)
           (db_set_initial_id get_dht_id dht_builder_new)))"

definition make_test_dht :: "test_run \<Rightarrow> u16 \<Rightarrow> (StaticIPV4AddrSource, NodeBucketStorage, torrent_cache) DHTState res" where
  "make_test_dht T port =
     dht_new (run_env T) (dht_builder_build (tr_box T) (\<lambda>n. n) (test_dht_builder port)) 0 0 (\<lambda>_. 0) id_zero (tr_secret T 0)"

definition running_test_dht :: "test_run \<Rightarrow> u16 \<Rightarrow> (test_node \<Rightarrow> bool) \<Rightarrow> bool" where
  "running_test_dht T port P \<longleftrightarrow>
     unwrap (make_test_dht T port) (\<lambda>st. P (settings_throttler (st_settings st) (tr_clock T 0), st, socket_new))"

text \<open>
  The \<open>k\<close>-th \<open>send_and_receive\<close> of a test, from a socket of its own; the test fails when no answer comes.
\<close>

definition send_and_receive :: "test_run \<Rightarrow> nat \<Rightarrow> test_node \<Rightarrow> Message \<Rightarrow> (test_node \<Rightarrow> Message \<Rightarrow> bool) \<Rightarrow> bool" where
  "send_and_receive T k node msg P \<longleftrightarrow>
     (let sock = SockV4 (Ipv4Addr 127 0 0 1) (tr_client_port T k)
      in unwrap (to_bytes (tr_ser T) msg) (\<lambda>bs.
         case serve_datagram (run_env T) (tr_linux T) False (tr_ser T) (tr_de T) node (bs, sock) (tr_input T k)
                (tr_clock T (Suc k)) (tr_clock T (Suc k)) of
           (node', [(recv_buf, dest)]) \<Rightarrow>
             dest = sock \<and> unwrap (from_bytes (tr_de T) (take 2048 recv_buf)) (\<lambda>res. P node' res)
         | _ \<Rightarrow> False))"

definition dht_test_responds_to_ping :: "test_run \<Rightarrow> bool" where
  "dht_test_responds_to_ping T \<longleftrightarrow>
     (let requester_id = id_from_random (tr_random_id T 0)
      in unwrap (build (set_sender_id requester_id (builder_new BPingRequest)) (tr_tid T 0)) (\<lambda>ping_request.
         running_test_dht T 1948 (\<lambda>dht.
         send_and_receive T 0 dht ping_request (\<lambda>dht res.
           transaction_id res = transaction_id ping_request \<and>
           message_type res = Response (PingResponse (PingResponseArguments get_dht_id))))))"

definition dht_test_responds_to_get_peers :: "test_run \<Rightarrow> bool" where
  "dht_test_responds_to_get_peers T \<longleftrightarrow>
     (let requester_id = id_from_random (tr_random_id T 0);
          desired_info_hash = id_from_random (tr_random_id T 1)
      in unwrap (build (set_target desired_info_hash (set_sender_id requester_id (builder_new BGetPeersRequest))) (tr_tid T 0)) (\<lambda>request.
         running_test_dht T 1974 (\<lambda>dht.
         send_and_receive T 0 dht request (\<lambda>dht res.
           transaction_id res = transaction_id request \<and>
           (case message_type res of Response (GetPeersResponse a) \<Rightarrow> True | _ \<Rightarrow> False)))))"

definition dht_test_responds_to_find_node :: "test_run \<Rightarrow> bool" where
  "dht_test_responds_to_find_node T \<longleftrightarrow>
     running_test_dht T 1995 (\<lambda>dht.
       let requester_id = id_from_random (tr_random_id T 0);
           target = id_from_random (tr_random_id T 1)
       in unwrap (build (set_target target (set_sender_id requester_id (builder_new BFindNodeRequest))) (tr_tid T 0)) (\<lambda>request.
          send_and_receive T 0 dht request (\<lambda>dht res.
            transaction_id res = transaction_id request \<and>
            (case message_type res of Response (FindNodeResponse a) \<Rightarrow> True | _ \<Rightarrow> False))))"

definition dht_test_responds_to_announce_peer :: "test_run \<Rightarrow> bool" where
  "dht_test_responds_to_announce_peer T \<longleftrightarrow>
     (let requester_id = id_from_random (tr_random_id T 0);
          info_hash = id_from_random (tr_random_id T 1)
      in running_test_dht T 2014 (\<lambda>dht.
         unwrap (build (set_target info_hash (set_sender_id requester_id (builder_new BGetPeersRequest))) (tr_tid T 0)) (\<lambda>request.
         send_and_receive T 0 dht request (\<lambda>dht reply.
         case message_type reply of
           Response (GetPeersResponse a) \<Rightarrow>
             unwrap (build (set_token (gp_token a) (set_port 1234 (set_target info_hash
                 (set_sender_id requester_id (builder_new BAnnouncePeerRequest))))) (tr_tid T 1)) (\<lambda>request.
             send_and_receive T 1 dht request (\<lambda>dht reply.
               (case message_type reply of Response (PingResponse a) \<Rightarrow> True | _ \<Rightarrow> False) \<and>
               unwrap (build (set_target info_hash (set_sender_id requester_id (builder_new BGetPeersRequest))) (tr_tid T 2)) (\<lambda>request.
               send_and_receive T 2 dht request (\<lambda>dht reply.
                 case message_type reply of
                   Response (GetPeersResponse a) \<Rightarrow>
                     (case gp_values a of
                        Peers peers \<Rightarrow> length peers = 1 \<and> sock_port (peers ! 0) = 1234
                      | _ \<Rightarrow> False)
                 | _ \<Rightarrow> False))))
         | _ \<Rightarrow> False))))"

definition dht_test_responds_to_sample_infohashes :: "test_run \<Rightarrow> bool" where
  "dht_test_responds_to_sample_infohashes T \<longleftrightarrow>
     (let requester_id = id_from_random (tr_random_id T 0);
          target = id_from_random (tr_random_id T 1)
      in unwrap (build (set_target target (set_sender_id requester_id (builder_new BSampleInfoHashesRequest))) (tr_tid T 0)) (\<lambda>request.
         running_test_dht T 2037 (\<lambda>dht.
         send_and_receive T 0 dht request (\<lambda>dht res.
           transaction_id res = transaction_id request \<and>
           (case message_type res of Response (SampleInfoHashesResponse a) \<Rightarrow> sih_num a = 0 | _ \<Rightarrow> False)))))"

definition dht_test_token_secret_rotation :: "test_run \<Rightarrow> bool" where
  "dht_test_token_secret_rotation T \<longleftrightarrow>
     (let ipv4 = Ipv4Addr 1 2 3 4;
          phony_ip4 = static_new ipv4;
          port = 2244;
          settings = settings_build (with_routers [] settings_builder_new)
      in unwrap (dht_new (run_env T) (dht_builder_build (tr_box T) (\<lambda>n. n)
             (db_set_settings settings (db_set_ip_source phony_ip4 (db_set_listen_addr (Ipv4Addr 127 0 0 1, port)
               (db_set_initial_id get_dht_id dht_builder_new))))) 0 0 (\<lambda>_. 0) id_zero (tr_secret T 0)) (\<lambda>state.
           length (st_token_secret state) = cfg_token_secret_size default_settings \<and>
          (let state = rotate_token_secrets state (tr_secret T 1)
           in length (st_old_token_secret state) = cfg_token_secret_size default_settings \<and>
              length (st_token_secret state) = cfg_token_secret_size default_settings \<and>
              st_old_token_secret state \<noteq> st_token_secret state)))"

text \<open>
  The test of \<open>src/dht/socket.rs\<close>: a datagram that is larger than the buffer comes in before a request. On Windows
  receiving it is an error, elsewhere it is cut.
\<close>

definition socket_test_ignores_oversized_datagrams ::
  "bool \<Rightarrow> (DHTMessage \<Rightarrow> bytes res) \<Rightarrow> (bytes \<Rightarrow> DHTMessage res) \<Rightarrow> u8 \<times> u8 \<Rightarrow> SocketAddr \<Rightarrow> bool" where
  "socket_test_ignores_oversized_datagrams windows ser de rng sender \<longleftrightarrow>
     (let socket = socket_new;
          payload = replicate 8192 0;
          socket = incoming_turn windows de (if windows then None else Some (payload, sender)) socket
      in unwrap (build (set_sender_id (hex_id 0) (builder_new BPingRequest)) rng) (\<lambda>ping_req.
         unwrap (to_bytes ser ping_req) (\<lambda>bs.
         let socket = incoming_turn windows de (Some (bs, sender)) socket
         in case ds_recv_from socket of Some (socket, r) \<Rightarrow> is_ok r | None \<Rightarrow> False)))"

section \<open>They pass\<close>

text \<open>The secrets differ when their ten random bytes do.\<close>

lemma dht_test_token_secret_rotation_passes:
  assumes "\<exists>i < 10. tr_secret T 0 i \<noteq> tr_secret T 1 i"
  shows "dht_test_token_secret_rotation T"
proof -
  have "map (tr_secret T 0) [0..<10] \<noteq> map (tr_secret T 1) [0..<10]" using assms by (auto simp: map_eq_conv)
  then show ?thesis
    by (simp add: dht_test_token_secret_rotation_def Let_def dht_new_def dht_builder_build_def db_set_settings_def
        db_set_ip_source_def db_set_listen_addr_def db_set_initial_id_def dht_builder_new_def settings_build_def
        with_routers_def settings_builder_new_def make_token_secret_def rotate_token_secrets_def default_settings_def
        del: upt_rec_numeral)
qed

text \<open>
  The conditions on a run: the sort sorts, the clients have a port, the clock does not reach its end, shuffling
  keeps the length, and the bencode library keeps its contract. It then carries every short message.
\<close>

definition short :: "Message \<Rightarrow> bool" where
  "short m \<longleftrightarrow> length (transaction_id m) \<le> 2 \<and> version m = None \<and> wire_ok m \<and> clamp_message m = m \<and>
     (case message_type m of
        Request r \<Rightarrow> length (request_token r) \<le> 4
      | Response r \<Rightarrow> short_response r
      | Error e \<Rightarrow> False)"

definition good_run :: "test_run \<Rightarrow> bool" where
  "good_run T \<longleftrightarrow> sort_law (tr_sort T) \<and>
     (\<exists>emit scan. bencode_library emit scan \<and> tr_ser T = message_to_bytes emit \<and> tr_de T = message_from_bytes scan) \<and>
     (\<forall>k. tr_client_port T k \<noteq> 0) \<and> (\<forall>k. tr_clock T k + dur_from_secs 60 \<le> instant_max) \<and>
     (\<forall>k n xs. length (hi_shuffle (tr_input T k) n xs) \<le> length xs)"

text \<open>There are such runs, with the reference library.\<close>

lemma good_run_possible: "\<exists>T. good_run T"
proof -
  have lib: "\<exists>emit scan. bencode_library emit scan \<and> message_to_bytes reference_write = message_to_bytes emit \<and>
      message_from_bytes reference_read = message_from_bytes scan"
    using reference.bencode_library_axioms by blast
  obtain T where "T = \<lparr>tr_ser = message_to_bytes reference_write, tr_de = message_from_bytes reference_read, tr_linux = True,
      tr_crc = (\<lambda>_. 0), tr_sort = insertion_sort, tr_box = (\<lambda>_. static_new (Ipv4Addr 1 2 3 4)), tr_random_id = (\<lambda>_ _. 0),
      tr_secret = (\<lambda>_ _. 0), tr_tid = (\<lambda>_. (0, 0)), tr_client_port = (\<lambda>_. 1), tr_input = (\<lambda>_. sample_input), tr_clock = (\<lambda>_. 0)\<rparr>"
    by blast
  then have "good_run T"
    using lib sort_law_insertion_sort by (simp add: good_run_def sample_input_def dur_from_secs_def nanos_per_sec_def instant_max_def)
  then show ?thesis by blast
qed

lemma short_size:
  assumes "short m" shows "wire_size m \<le> recv_buffer_size"
proof -
  have m: "length (transaction_id m) \<le> 2" "version m = None" "ip_v4 m" "wire_ok m"
    using assms by (auto simp: short_def ip_v4_def wire_ok_def split: option.splits)
  show ?thesis
  proof (cases "message_type m")
    case (Request r)
    then show ?thesis using assms m request_size [OF Request m(2,3)] by (simp add: short_def recv_buffer_size_def)
  next
    case (Response r)
    then show ?thesis using assms m reply_size [OF Response m(2,3)] by (simp add: short_def wire_ok_def recv_buffer_size_def)
  qed (use assms in \<open>simp add: short_def\<close>)
qed

lemma short_carried:
  assumes "good_run T" and "short m" shows "carries (tr_ser T) (tr_de T) m"
  using assms(1) library_carries_message [OF _ short_size [OF assms(2)]] unfolding good_run_def by auto

text \<open>A throttler that has seen at most \<open>n\<close> packets of the local clients.\<close>

definition calm :: "nat \<Rightarrow> Throttler \<Rightarrow> bool" where
  "calm n t \<longleftrightarrow> (\<exists>r rs. th_records t = r # rs \<and> tr_ip r = localhost_v4 \<and> tr_packets r \<le> n) \<and>
     th_rate_limit t = 10 \<and> th_period t = dur_from_secs 6"

lemma calm_new: "calm 0 (settings_throttler default_settings now)"
proof -
  have "replicate 32 r = r # replicate 31 r" for r :: ThrottlerRecord
    using replicate_Suc [of 31 r] by simp
  then show ?thesis by (simp add: calm_def settings_throttler_def throttler_new_def default_settings_def tr_default_def)
qed

lemma calm_check:
  assumes "calm n t" and "n < 10" and "now + dur_from_secs 60 \<le> instant_max"
  shows "\<exists>t'. check_throttle t localhost_v4 None None now now = Ok (t', False) \<and> calm (Suc n) t'"
proof -
  obtain r rs where r: "th_records t = r # rs" "tr_ip r = localhost_v4" "tr_packets r \<le> n"
    and conf: "th_rate_limit t = 10" "th_period t = dur_from_secs 6"
    using assms(1) by (auto simp: calm_def)
  have calm: "calm (Suc n) (set_record t 0 r')" if "tr_ip r' = localhost_v4" "tr_packets r' \<le> Suc n" for r'
    using that r conf by (simp add: calm_def set_record_def)
  have "now + dur_from_secs 6 \<le> instant_max" using assms(3) by (simp add: dur_from_secs_def)
  then have "check_throttle t localhost_v4 None None now now =
      (if (case instant_checked_duration_since now (tr_creation r) of
             Some d \<Rightarrow> th_max_tracking t < d | None \<Rightarrow> False)
       then Ok (set_record t 0 (tr_clear now r), False)
       else if now < tr_expiration r then Ok (set_record t 0 (r\<lparr>tr_packets := Suc (tr_packets r)\<rparr>), False)
       else Ok (set_record t 0 (r\<lparr>tr_packets := 1, tr_expiration := now + dur_from_secs 6\<rparr>), False))"
    using r assms(2) conf
    by (simp add: check_throttle_def throttle_if_over_def saturating_packets_def usize_max_def
        instant_plus_def instant_checked_add_def)
  moreover have "calm (Suc n) (set_record t 0 (tr_clear now r))"
    "calm (Suc n) (set_record t 0 (r\<lparr>tr_packets := Suc (tr_packets r)\<rparr>))"
    "calm (Suc n) (set_record t 0 (r\<lparr>tr_packets := 1, tr_expiration := now + dur_from_secs 6\<rparr>))"
    using r by (auto intro!: calm simp: tr_clear_def)
  ultimately show ?thesis by (auto split: if_splits)
qed

text \<open>One exchange: a short request that is handled with a short reply.\<close>

lemma send_and_receive_ok:
  assumes run: "good_run T" and thr: "calm k thr" "k < 10" and sock: "idle sock"
    and msg: "message_type msg = Request req" "short msg"
    and reply: "handle_request (run_env T) st req (SockV4 (Ipv4Addr 127 0 0 1) (tr_client_port T k)) msg (tr_input T k) = (st1, Ok (Some m))"
      "short m"
    and P: "\<And>thr'. calm (Suc k) thr' \<Longrightarrow> P (thr', send_packet_to_subscribers st1 msg, sock) m"
  shows "send_and_receive T k (thr, st, sock) msg P"
proof -
  let ?client = "SockV4 (Ipv4Addr 127 0 0 1) (tr_client_port T k)"
  have ip: "sock_ip ?client = localhost_v4" by (simp add: localhost_v4_def)
  have port: "sock_port ?client \<noteq> 0" using run by (simp add: good_run_def)
  have "tr_clock T (Suc k) + dur_from_secs 60 \<le> instant_max" using run unfolding good_run_def by blast
  then obtain thr1 where t: "check_throttle thr (sock_ip ?client) None None (tr_clock T (Suc k)) (tr_clock T (Suc k)) = Ok (thr1, False)"
    "calm (Suc k) thr1"
    using calm_check [OF thr] unfolding ip by blast
  note carried = short_carried [OF run]
  obtain bs where bs: "to_bytes (tr_ser T) msg = Ok bs" "take recv_buffer_size bs = bs" "from_bytes (tr_de T) bs = Ok msg"
    using carries_bytes [OF carried [OF msg(2)]] msg(2) unfolding short_def by metis
  obtain rb where rb: "to_bytes (tr_ser T) m = Ok rb" "take recv_buffer_size rb = rb" "from_bytes (tr_de T) rb = Ok m"
    using carries_bytes [OF carried [OF reply(2)]] reply(2) unfolding short_def by metis
  note served = request_served [OF sock port t(1) msg(1) bs(2,3) reply(1) rb(1), where linux = "tr_linux T"]
  show ?thesis
    using P [OF t(2)] bs(1) rb(2,3) by (simp add: send_and_receive_def served recv_buffer_size_def)
qed

text \<open>The test node between two packets: nothing is verified, \<open>ps\<close> is what was announced to it.\<close>

definition fresh :: "bytes \<Rightarrow> torrent_cache PeerStorage \<Rightarrow> (StaticIPV4AddrSource, NodeBucketStorage, torrent_cache) DHTState \<Rightarrow> bool" where
  "fresh secret ps st \<longleftrightarrow> st_our_id st = get_dht_id \<and> st_settings st = default_settings \<and> st_token_secret st = secret \<and>
     st_peer_storage st = ps \<and> wf_buckets nw_bucketable (verified (st_buckets st)) \<and> buckets_values (verified (st_buckets st)) = []"

definition node_ready :: "nat \<Rightarrow> bytes \<Rightarrow> torrent_cache PeerStorage \<Rightarrow> test_node \<Rightarrow> bool" where
  "node_ready k secret ps node \<longleftrightarrow> (case node of (thr, st, sock) \<Rightarrow> calm k thr \<and> fresh secret ps st \<and> idle sock)"

abbreviation "no_peers \<equiv> peer_storage_new list_lru 50 100"

abbreviation client :: "test_run \<Rightarrow> nat \<Rightarrow> SocketAddr" where
  "client T k \<equiv> SockV4 (Ipv4Addr 127 0 0 1) (tr_client_port T k)"

lemma running_test_dht_ready:
  assumes "\<And>node. node_ready 0 (map (tr_secret T 0) [0..<10]) no_peers node \<Longrightarrow> P node"
  shows "running_test_dht T port P"
proof -
  obtain st where st: "make_test_dht T port = Ok st" "fresh (map (tr_secret T 0) [0..<10]) no_peers st" "st_settings st = default_settings"
    by (simp add: make_test_dht_def test_dht_builder_def Let_def dht_new_def dht_builder_build_def db_set_ip_source_def
        db_set_listen_addr_def db_set_initial_id_def dht_builder_new_def run_env_def make_token_secret_def fresh_def
        settings_build_def settings_builder_new_def nbs_set_id_def default_settings_def del: upt_rec_numeral)
  then show ?thesis using assms [of "(settings_throttler default_settings (tr_clock T 0), st, socket_new)"] calm_new
    by (simp add: running_test_dht_def node_ready_def)
qed

text \<open>A client on the loopback interface has a valid id; its node goes to the unverified table.\<close>

lemma common_handling_fresh:
  assumes "fresh secret ps st" and "message_type msg = Request req"
  shows "\<exists>st'. common_request_handling (run_env T) st (client T k) msg inp = Ok st' \<and> fresh secret ps st'"
proof -
  have b: "wf_buckets nw_bucketable (verified (st_buckets st))" "buckets_values (verified (st_buckets st)) = []"
    using assms(1) by (simp_all add: fresh_def)
  have "verified (nbs_add_or_update srt (st_buckets st) n False c c') = verified (st_buckets st)" for srt n c c'
    using buckets_get_mut_None [OF b(1), of "node_id n"] b(2)
    by (simp add: nbs_add_or_update_def add_or_update_last_seen_def split: option.split)
  then have upd: "fresh secret ps (st\<lparr>st_buckets := nbs_add_or_update srt (st_buckets st) n False c c'\<rparr>)" for srt n c c'
    using assms(1) by (simp add: fresh_def)
  have "is_valid_for_ip crc i (IpV4 (Ipv4Addr 127 0 0 1)) = Ok True" for crc i
    by (simp add: is_valid_for_ip_def)
  then show ?thesis
    using request_author_id [OF assms(2)] upd assms(1)
    by (simp add: common_request_handling_def run_env_def Let_def)
qed

text \<open>What the test node answers: a short message of the given content, in one of its states.\<close>

definition node_answers :: "test_run \<Rightarrow> nat \<Rightarrow> bytes \<Rightarrow> torrent_cache PeerStorage \<Rightarrow> torrent_cache PeerStorage \<Rightarrow> RequestSpecific
    \<Rightarrow> Message \<Rightarrow> ResponseSpecific \<Rightarrow> bool" where
  "node_answers T k secret ps ps' req msg r \<longleftrightarrow> (\<forall>st. fresh secret ps st \<longrightarrow>
     (\<exists>st' m. handle_request (run_env T) st req (client T k) msg (tr_input T k) = (st', Ok (Some m)) \<and> fresh secret ps' st' \<and>
        short m \<and> transaction_id m = transaction_id msg \<and> message_type m = Response r))"

lemma exchange:
  assumes run: "good_run T" "k < 10" and node: "node_ready k secret ps node"
    and msg: "message_type msg = Request req" "short msg" and ans: "node_answers T k secret ps ps' req msg r"
    and P: "\<And>node reply. node_ready (Suc k) secret ps' node \<Longrightarrow> transaction_id reply = transaction_id msg \<Longrightarrow>
      message_type reply = Response r \<Longrightarrow> P node reply"
  shows "send_and_receive T k node msg P"
proof -
  obtain thr st sock where n: "node = (thr, st, sock)" "calm k thr" "fresh secret ps st" "idle sock"
    using node by (cases node) (auto simp: node_ready_def)
  obtain st' m where m: "handle_request (run_env T) st req (client T k) msg (tr_input T k) = (st', Ok (Some m))"
    "fresh secret ps' st'" "short m" "transaction_id m = transaction_id msg" "message_type m = Response r"
    using ans n(3) unfolding node_answers_def by blast
  have "fresh secret ps' (send_packet_to_subscribers st' msg)"
    using m(2) by (simp add: fresh_def send_packet_to_subscribers_def Let_def)
  then show ?thesis
    unfolding n(1) using m(4,5) n(4) P
    by (intro send_and_receive_ok [OF run(1) n(2) run(2) n(4) msg m(1,3)]) (simp add: node_ready_def)
qed

section \<open>The answers of the test node\<close>

lemma no_nearest: "fresh secret ps st \<Longrightarrow> sort_law srt \<Longrightarrow> nbs_get_nearest_nodes srt (st_buckets st) i ex = []"
  by (rule buckets_get_nearest_spec [of srt nw_bucketable "verified (st_buckets st)" i ex])
    (simp_all add: fresh_def nbs_get_nearest_nodes_def eligible_def)

lemma short_reply:
  assumes "transaction_id m = transaction_id msg" and "short msg" and "version m = None" and "requester_ip m = Some (client T k)"
    and "message_type m = Response r" and "short_response r" and "response_wire_ok r" and "clamp_response r = r"
  shows "short m"
  using assms by (cases m) (simp add: short_def wire_ok_def clamp_message_def)

lemma answers_ping:
  assumes "message_type msg = Request (PingRequest a)" and "short msg"
  shows "node_answers T k secret ps ps (PingRequest a) msg (PingResponse (PingResponseArguments get_dht_id))"
  unfolding node_answers_def
proof (intro allI impI)
  fix st assume "fresh secret ps st"
  then obtain st' where st': "common_request_handling (run_env T) st (client T k) msg (tr_input T k) = Ok st'" "fresh secret ps st'"
    using common_handling_fresh [OF _ assms(1)] by blast
  show "\<exists>st' m. handle_request (run_env T) st (PingRequest a) (client T k) msg (tr_input T k) = (st', Ok (Some m)) \<and>
      fresh secret ps st' \<and> short m \<and> transaction_id m = transaction_id msg \<and>
      message_type m = Response (PingResponse (PingResponseArguments get_dht_id))"
    using st' short_reply [OF _ assms(2), where T = T and k = k]
    by (simp add: handle_request_unfold ping_reply_def reply_setters build_defs required_or_error_def fresh_def)
qed

lemma answers_find_node:
  assumes "message_type msg = Request (FindNodeRequest a)" and "short msg" and "sort_law (tr_sort T)"
  shows "node_answers T k secret ps ps (FindNodeRequest a) msg (FindNodeResponse (FindNodeResponseArguments get_dht_id []))"
  unfolding node_answers_def
proof (intro allI impI)
  fix st assume "fresh secret ps st"
  then obtain st' where st': "common_request_handling (run_env T) st (client T k) msg (tr_input T k) = Ok st'" "fresh secret ps st'"
    using common_handling_fresh [OF _ assms(1)] by blast
  show "\<exists>st' m. handle_request (run_env T) st (FindNodeRequest a) (client T k) msg (tr_input T k) = (st', Ok (Some m)) \<and>
      fresh secret ps st' \<and> short m \<and> transaction_id m = transaction_id msg \<and>
      message_type m = Response (FindNodeResponse (FindNodeResponseArguments get_dht_id []))"
    using st' short_reply [OF _ assms(2), where T = T and k = k] no_nearest [OF st'(2) assms(3)]
    by (simp add: handle_request_unfold find_node_reply_def reply_setters build_defs required_or_error_def fresh_def run_env_def nodes_v4_def)
qed

text \<open>The storage after the announcement of one peer, and what it lists.\<close>

abbreviation "one_peer h t \<equiv> ps_announce_peer list_lru list_lru no_peers h (SockV4 (Ipv4Addr 127 0 0 1) 1234) t"

lemma peers_listed:
  "ps_get_peers list_lru list_lru no_peers h nt = (no_peers, [])"
  "newer nt (PeerInfo (SockV4 (Ipv4Addr 127 0 0 1) 1234) t) \<Longrightarrow>
     ps_get_peers list_lru list_lru (one_peer h t) h nt = (one_peer h t, [SockV4 (Ipv4Addr 127 0 0 1) 1234])"
  by (simp_all add: ps_get_peers_def ps_get_peers_info_def ps_announce_peer_def peer_storage_new_def list_lru_def promote_def)

lemma answers_get_peers:
  assumes "message_type msg = Request (GetPeersRequest a)" and "short msg" and "sort_law (tr_sort T)"
    and listed: "\<And>nt. nt = instant_checked_sub (hi_clock (tr_input T k)) (dur_from_secs 900) \<Longrightarrow>
      ps_get_peers list_lru list_lru ps (gp_info_hash a) nt = (ps, peers)"
    and "length peers \<le> 128" and "list_all sock_is_v4 peers"
  shows "node_answers T k secret ps ps (GetPeersRequest a) msg (GetPeersResponse (GetPeersResponseArguments get_dht_id
    (calculate_token (tr_crc T) (client T k) secret) (if peers = [] then Nodes [] else Peers peers)))"
  unfolding node_answers_def
proof (intro allI impI)
  fix st assume "fresh secret ps st"
  then obtain st' where st': "common_request_handling (run_env T) st (client T k) msg (tr_input T k) = Ok st'" "fresh secret ps st'"
    using common_handling_fresh [OF _ assms(1)] by blast
  let ?token = "calculate_token (tr_crc T) (client T k) secret"
  have token: "length ?token = 4" by (simp add: calculate_token_def be_bytes4_def)
  have same: "st'\<lparr>st_peer_storage := ps\<rparr> = st'" using st'(2) by (simp add: fresh_def)
  have reply: "\<exists>m. get_peers_reply (run_env T) st' (client T k) msg a (tr_input T k) = (st', Ok m) \<and>
      transaction_id m = transaction_id msg \<and> version m = None \<and> requester_ip m = Some (client T k) \<and>
      message_type m = Response (GetPeersResponse (GetPeersResponseArguments get_dht_id ?token (if peers = [] then Nodes [] else Peers peers)))"
    using st'(2) listed assms(5) same no_nearest [OF st'(2) assms(3)]
    by (simp add: get_peers_reply_def run_env_def reply_setters build_defs required_or_error_def fresh_def default_settings_def)
  then obtain m where m: "get_peers_reply (run_env T) st' (client T k) msg a (tr_input T k) = (st', Ok m)"
      "transaction_id m = transaction_id msg" "version m = None" "requester_ip m = Some (client T k)"
      "message_type m = Response (GetPeersResponse (GetPeersResponseArguments get_dht_id ?token (if peers = [] then Nodes [] else Peers peers)))"
    by blast
  have "short m"
    using token assms(5,6) by (intro short_reply [OF m(2) assms(2) m(3,4,5)]) (simp_all add: nodes_v4_def)
  then show "\<exists>st' m. handle_request (run_env T) st (GetPeersRequest a) (client T k) msg (tr_input T k) = (st', Ok (Some m)) \<and>
      fresh secret ps st' \<and> short m \<and> transaction_id m = transaction_id msg \<and>
      message_type m = Response (GetPeersResponse (GetPeersResponseArguments get_dht_id ?token (if peers = [] then Nodes [] else Peers peers)))"
    using st' m by (intro exI [of _ st'] exI [of _ m]) (simp add: handle_request_unfold)
qed

lemma answers_announce_peer:
  assumes "message_type msg = Request (AnnouncePeerRequest a)" and "short msg"
    and "ap_token a = calculate_token (tr_crc T) (client T k) secret" and "ap_implied_port a = None" and "ap_port a = 1234"
  shows "node_answers T k secret no_peers (one_peer (ap_info_hash a) (hi_clock (tr_input T k))) (AnnouncePeerRequest a) msg
    (PingResponse (PingResponseArguments get_dht_id))"
  unfolding node_answers_def
proof (intro allI impI)
  fix st assume "fresh secret no_peers st"
  then obtain st' where st': "common_request_handling (run_env T) st (client T k) msg (tr_input T k) = Ok st'" "fresh secret no_peers st'"
    using common_handling_fresh [OF _ assms(1)] by blast
  show "\<exists>st' m. handle_request (run_env T) st (AnnouncePeerRequest a) (client T k) msg (tr_input T k) = (st', Ok (Some m)) \<and>
      fresh secret (one_peer (ap_info_hash a) (hi_clock (tr_input T k))) st' \<and> short m \<and> transaction_id m = transaction_id msg \<and>
      message_type m = Response (PingResponse (PingResponseArguments get_dht_id))"
    using st' short_reply [OF _ assms(2), where T = T and k = k] assms(3-5)
    by (simp add: handle_request_unfold announce_peer_reply_def Let_def reply_setters build_defs required_or_error_def fresh_def run_env_def)
qed

lemma answers_sample_infohashes:
  assumes "message_type msg = Request (SampleInfoHashesRequest a)" and "short msg" and "good_run T"
  shows "node_answers T k secret no_peers no_peers (SampleInfoHashesRequest a) msg
    (SampleInfoHashesResponse (SampleInfoHashesResponseArguments get_dht_id (dur_from_secs 10) [] [] 0))"
  unfolding node_answers_def
proof (intro allI impI)
  fix st assume "fresh secret no_peers st"
  then obtain st' where st': "common_request_handling (run_env T) st (client T k) msg (tr_input T k) = Ok st'" "fresh secret no_peers st'"
    using common_handling_fresh [OF _ assms(1)] by blast
  have srt: "sort_law (tr_sort T)" and sh: "hi_shuffle (tr_input T k) n [] = []" for n
    using assms(3) unfolding good_run_def by (simp, metis le_zero_eq length_0_conv list.size(3))
  have none: "ps_get_info_hashes list_lru (no_peers :: torrent_cache PeerStorage) = []"
    by (simp add: ps_get_info_hashes_def peer_storage_new_def list_lru_def)
  show "\<exists>st' m. handle_request (run_env T) st (SampleInfoHashesRequest a) (client T k) msg (tr_input T k) = (st', Ok (Some m)) \<and>
      fresh secret no_peers st' \<and> short m \<and> transaction_id m = transaction_id msg \<and>
      message_type m = Response (SampleInfoHashesResponse (SampleInfoHashesResponseArguments get_dht_id (dur_from_secs 10) [] [] 0))"
    using st' short_reply [OF _ assms(2), where T = T and k = k] no_nearest [OF st'(2) srt] sh none
    by (simp add: handle_request_unfold sample_infohashes_reply_def Let_def reply_setters build_defs required_or_error_def fresh_def
        run_env_def usize_to_i32_unwrap_def i32_max_def default_settings_def nodes_v4_def MAX_SCRAPE_INTERVAL_def)
qed

section \<open>The exchange tests pass\<close>

lemma built_request:
  assumes "mb_transaction_id b = None" and "mb_version b = None" and "build b rng = Ok m" and "message_type m = Request req"
    and "case req of AnnouncePeerRequest a \<Rightarrow> length (ap_token a) \<le> 4 | _ \<Rightarrow> True"
  shows "short m"
proof -
  have "transaction_id m = [fst rng, snd rng]" "version m = None" "requester_ip m = None"
    using assms(1-4) by (cases "mb_message_type b"; auto simp: build_defs Let_def split: option.splits if_splits)+
  then show ?thesis using assms(4,5) by (cases req) (auto simp: short_def wire_ok_def clamp_message_def)
qed

lemmas request_building = builder_setters builder_new_def build_defs required_or_error_def

lemma dht_test_responds_to_ping_passes:
  assumes "good_run T" shows "dht_test_responds_to_ping T"
proof -
  let ?b = "set_sender_id (id_from_random (tr_random_id T 0)) (builder_new BPingRequest)"
  obtain m where m: "build ?b (tr_tid T 0) = Ok m" "message_type m = Request (PingRequest (PingRequestArguments (id_from_random (tr_random_id T 0))))"
    by (simp add: request_building)
  have "short m" using built_request [OF _ _ m] by (simp add: builder_setters builder_new_def)
  then show ?thesis
    unfolding dht_test_responds_to_ping_def Let_def m(1) unwrap_simps
    by (intro running_test_dht_ready exchange [OF assms _ _ m(2) _ answers_ping [OF m(2)]]) simp_all
qed

lemma dht_test_responds_to_find_node_passes:
  assumes "good_run T" shows "dht_test_responds_to_find_node T"
proof -
  let ?i = "id_from_random (tr_random_id T 0)" and ?t = "id_from_random (tr_random_id T 1)"
  obtain m where m: "build (set_target ?t (set_sender_id ?i (builder_new BFindNodeRequest))) (tr_tid T 0) = Ok m"
    "message_type m = Request (FindNodeRequest (FindNodeRequestArguments ?t ?i))"
    by (simp add: request_building)
  have "short m" using built_request [OF _ _ m] by (simp add: builder_setters builder_new_def)
  moreover have "sort_law (tr_sort T)" using assms by (simp add: good_run_def)
  ultimately show ?thesis
    unfolding dht_test_responds_to_find_node_def Let_def m(1) unwrap_simps
    by (intro running_test_dht_ready exchange [OF assms _ _ m(2) _ answers_find_node [OF m(2)]]) simp_all
qed

lemma dht_test_responds_to_get_peers_passes:
  assumes "good_run T" shows "dht_test_responds_to_get_peers T"
proof -
  let ?i = "id_from_random (tr_random_id T 0)" and ?t = "id_from_random (tr_random_id T 1)"
  obtain m where m: "build (set_target ?t (set_sender_id ?i (builder_new BGetPeersRequest))) (tr_tid T 0) = Ok m"
    "message_type m = Request (GetPeersRequest (GetPeersRequestArguments ?t ?i))"
    by (simp add: request_building)
  have "short m" using built_request [OF _ _ m] by (simp add: builder_setters builder_new_def)
  moreover have "sort_law (tr_sort T)" using assms by (simp add: good_run_def)
  ultimately show ?thesis
    unfolding dht_test_responds_to_get_peers_def Let_def m(1) unwrap_simps
    by (intro running_test_dht_ready, elim exchange [OF assms _ _ m(2) _ answers_get_peers [OF m(2) _ _ peers_listed(1)], rotated])
      (simp_all del: upt_rec_numeral)
qed

lemma dht_test_responds_to_sample_infohashes_passes:
  assumes "good_run T" shows "dht_test_responds_to_sample_infohashes T"
proof -
  let ?i = "id_from_random (tr_random_id T 0)" and ?t = "id_from_random (tr_random_id T 1)"
  obtain m where m: "build (set_target ?t (set_sender_id ?i (builder_new BSampleInfoHashesRequest))) (tr_tid T 0) = Ok m"
    "message_type m = Request (SampleInfoHashesRequest (SampleInfoHashesRequestArguments ?t ?i))"
    by (simp add: request_building)
  have "short m" using built_request [OF _ _ m] by (simp add: builder_setters builder_new_def)
  then show ?thesis
    unfolding dht_test_responds_to_sample_infohashes_def Let_def m(1) unwrap_simps
    by (intro running_test_dht_ready exchange [OF assms _ _ m(2) _ answers_sample_infohashes [OF m(2) _ assms]]) simp_all
qed

text \<open>The announcement is listed while it is fresh, so the test must not take a quarter of an hour.\<close>

lemma dht_test_responds_to_announce_peer_passes:
  assumes run: "good_run T" and fast: "hi_clock (tr_input T 2) < hi_clock (tr_input T 1) + dur_from_secs 900"
  shows "dht_test_responds_to_announce_peer T"
proof -
  let ?i = "id_from_random (tr_random_id T 0)" and ?t = "id_from_random (tr_random_id T 1)"
  let ?get = "set_target ?t (set_sender_id ?i (builder_new BGetPeersRequest))"
  let ?token = "calculate_token (tr_crc T) (client T 0) (map (tr_secret T 0) [0..<10])"
  let ?announce = "set_token ?token (set_port 1234 (set_target ?t (set_sender_id ?i (builder_new BAnnouncePeerRequest))))"
  have tokens: "?token = calculate_token (tr_crc T) (client T k) (map (tr_secret T 0) [0..<10])" for k
    by (simp add: calculate_token_def)
  obtain g0 where g0: "build ?get (tr_tid T 0) = Ok g0" "message_type g0 = Request (GetPeersRequest (GetPeersRequestArguments ?t ?i))"
    by (simp add: request_building)
  obtain a where a: "build ?announce (tr_tid T 1) = Ok a"
    "message_type a = Request (AnnouncePeerRequest (AnnouncePeerRequestArguments ?i ?t 1234 None ?token))"
    by (simp add: request_building)
  obtain g2 where g2: "build ?get (tr_tid T 2) = Ok g2" "message_type g2 = Request (GetPeersRequest (GetPeersRequestArguments ?t ?i))"
    by (simp add: request_building)
  have short: "short g0" "short a" "short g2"
    using built_request [OF _ _ g0] built_request [OF _ _ a] built_request [OF _ _ g2]
    by (simp_all add: builder_setters builder_new_def calculate_token_def be_bytes4_def)
  have srt: "sort_law (tr_sort T)" using run by (simp add: good_run_def)
  have newer: "newer (instant_checked_sub (hi_clock (tr_input T 2)) (dur_from_secs 900)) (PeerInfo p (hi_clock (tr_input T 1)))" for p
    using fast by (auto simp: newer_def instant_checked_sub_def split: option.split)
  let ?P2 = "\<lambda>(dht :: test_node) reply. case message_type reply of
      Response (GetPeersResponse a) \<Rightarrow> (case gp_values a of Peers peers \<Rightarrow> length peers = 1 \<and> sock_port (peers ! 0) = 1234 | _ \<Rightarrow> False)
    | _ \<Rightarrow> False"
  let ?P1 = "\<lambda>dht reply. (case message_type reply of Response (PingResponse a) \<Rightarrow> True | _ \<Rightarrow> False) \<and>
      unwrap (build ?get (tr_tid T 2)) (\<lambda>request. send_and_receive T 2 dht request ?P2)"
  let ?ps = "one_peer ?t (hi_clock (tr_input T 1))" and ?secret = "map (tr_secret T 0) [0..<10]"
  let ?P0 = "\<lambda>dht reply. case message_type reply of
      Response (GetPeersResponse a) \<Rightarrow>
        unwrap (build (set_token (gp_token a) (set_port 1234 (set_target ?t (set_sender_id ?i (builder_new BAnnouncePeerRequest)))))
          (tr_tid T 1)) (\<lambda>request. send_and_receive T 1 dht request ?P1)
    | _ \<Rightarrow> False"
  have third: "send_and_receive T 2 node g2 ?P2" if "node_ready 2 ?secret ?ps node" for node
    by (rule exchange [OF run _ that g2(2) short(3) answers_get_peers [OF g2(2) short(3) srt, where peers = "[SockV4 (Ipv4Addr 127 0 0 1) 1234]"]])
      (simp_all add: peers_listed(2) [OF newer, simplified] del: upt_rec_numeral)
  have second: "send_and_receive T 1 node a ?P1" if "node_ready 1 ?secret no_peers node" for node
  proof (rule exchange [OF run _ that a(2) short(2) answers_announce_peer [OF a(2) short(2), where secret = ?secret]])
    fix node reply
    assume kind: "message_type reply = Response (PingResponse (PingResponseArguments get_dht_id))"
      and ready: "node_ready (Suc 1) ?secret (one_peer (ap_info_hash (AnnouncePeerRequestArguments ?i ?t 1234 None ?token)) (hi_clock (tr_input T 1))) node"
    have "node_ready 2 ?secret ?ps node" using ready by (simp add: numeral_2_eq_2 del: upt_rec_numeral)
    from third [OF this] show "?P1 node reply" by (simp add: kind g2(1) del: One_nat_def)
  qed (simp_all add: tokens [of 1] del: upt_rec_numeral)
  show ?thesis
    unfolding dht_test_responds_to_announce_peer_def Let_def g0(1) unwrap_simps
  proof (intro running_test_dht_ready)
    fix node assume ready: "node_ready 0 ?secret no_peers node"
    show "send_and_receive T 0 node g0 ?P0"
    proof (rule exchange [OF run _ ready g0(2) short(1) answers_get_peers [OF g0(2) short(1) srt peers_listed(1), where secret = ?secret]])
      fix node reply
      assume kind: "message_type reply = Response (GetPeersResponse (GetPeersResponseArguments get_dht_id ?token (if [] = [] then Nodes [] else Peers [])))"
        and "node_ready (Suc 0) ?secret no_peers node"
      then have "node_ready 1 ?secret no_peers node" by simp
      from second [OF this] show "?P0 node reply" by (simp add: kind a(1) del: One_nat_def)
    qed simp_all
  qed
qed

text \<open>The library must carry the request, and refuse a buffer of zeros as it does any input that is not bencode.\<close>

lemma socket_test_ignores_oversized_datagrams_passes:
  assumes "\<And>m. short m \<Longrightarrow> carries ser de m" and "de (replicate recv_buffer_size 0) = Err (PacketParseError e)"
  shows "socket_test_ignores_oversized_datagrams windows ser de rng sender"
proof -
  let ?b = "set_sender_id (hex_id 0) (builder_new BPingRequest)"
  obtain m where m: "build ?b rng = Ok m" "message_type m = Request (PingRequest (PingRequestArguments (hex_id 0)))"
    by (simp add: request_building)
  have short: "short m" using built_request [OF _ _ m] by (simp add: builder_setters builder_new_def)
  obtain bs where bs: "to_bytes ser m = Ok bs" "take recv_buffer_size bs = bs" "from_bytes de bs = Ok m"
    using carries_bytes [OF assms(1) [OF short]] short unfolding short_def by metis
  have first: "incoming_turn windows de (if windows then None else Some (replicate 8192 0, sender)) socket_new = socket_new"
    using assms(2) by (simp add: incoming_turn_def background_io_incoming_single_def from_bytes_def recv_buffer_size_def min_def)
  have second: "incoming_turn windows de (Some (bs, sender)) socket_new = socket_new\<lparr>so_incoming := [(m, sender)]\<rparr>"
    using bs(2,3) m(2) by (simp add: incoming_turn_def background_io_incoming_single_def forward_def socket_new_def)
  show ?thesis
    unfolding socket_test_ignores_oversized_datagrams_def Let_def first m(1) unwrap_simps bs(1) second
    by (simp add: ds_recv_from_def)
qed

end
