(* ===== verification/Dht_TestsTwoNodes.thy ===== *)
theory Dht_TestsTwoNodes
  imports Dht_TestsTables Dht_TestsNode Dht_TwoNodes
begin

text \<open>
  The unit test of \<open>src/dht/dht.rs\<close> in which the event loop of one node pings another one as its router. Its
  assertion is about the state after the pinging node has handled the answer, so the model takes that order; the
  test itself only waits for the event, which the accept loop sends on its own.
\<close>

section \<open>The test\<close>

definition router_settings :: "string list \<Rightarrow> DHTSettingsBuilder \<Rightarrow> DHTSettings" where
  "router_settings rs b = settings_build (with_routers rs b)"

definition local_dht :: "test_run \<Rightarrow> Id \<Rightarrow> u16 \<Rightarrow> DHTSettings \<Rightarrow> nat
    \<Rightarrow> (StaticIPV4AddrSource, NodeBucketStorage, torrent_cache) DHTState res" where
  "local_dht T i port settings k =
     dht_new (run_env T) (dht_builder_build (tr_box T) (\<lambda>n. n)
       (db_set_settings settings (db_set_ip_source (static_new (Ipv4Addr 1 2 3 4))
         (db_set_listen_addr (Ipv4Addr 127 0 0 1, port) (db_set_initial_id i dht_builder_new))))) 0 0 (\<lambda>_. 0) id_zero (tr_secret T k)"

definition dht_test_event_loop_pings_routers :: "(string \<Rightarrow> SocketAddr list res) \<Rightarrow> test_run \<Rightarrow> bool" where
  "dht_test_event_loop_pings_routers lookup_host T \<longleftrightarrow>
     (let port1 = 2171;
          addr1 = SockV4 (Ipv4Addr 127 0 0 1) port1
      in unwrap (local_dht T get_dht_id port1 (router_settings [] settings_builder_new) 0) (\<lambda>state1.
         unwrap (make_mutant get_dht_id 4 (id_from_random (tr_random_id T 0))) (\<lambda>id2.
         unwrap (local_dht T id2 0 (router_settings [''127.0.0.1:2171''] (with_router_ping_interval_secs 1 settings_builder_new)) 1) (\<lambda>state2.
        (let state2 = dht_subscribe state2;
             dht1 = (settings_throttler (st_settings state1) (tr_clock T 0), state1, socket_new);
             thr2 = settings_throttler (st_settings state2) (tr_clock T 0);
             dht2 = (thr2, state2, socket_new)
         in case ping_routers lookup_host (\<lambda>rs. rs) state2 of
              [(router, router_id)] \<Rightarrow>
                router = addr1 \<and> unwrap (ping_message state2 (tr_tid T 0)) (\<lambda>ping.
                  case ask_node (run_env T) (run_env T) (tr_linux T) (tr_ser T) (tr_de T) dht2 (client T 0) dht1 router
                         ping router_id (tr_clock T 1) (tr_input T 0) (tr_clock T 1) (tr_clock T 1)
                         (\<lambda>_. (tr_clock T 2, tr_clock T 2)) of
                    Some (Ok state2, sock2, dht1, r) \<Rightarrow>
                      (case accept_turn (run_env T) False thr2 state2 sock2 (tr_input T 1) (tr_clock T 2) (tr_clock T 2) of
                         Some (thr2, state2, sock2, r) \<Rightarrow>
                           sub_queue (hd (st_subscribers state2)) \<noteq> [] \<and> nbs_count (st_buckets state2) = (0, 1)
                       | None \<Rightarrow> False)
                  | _ \<Rightarrow> False)
            | _ \<Rightarrow> False)))))"

section \<open>It passes\<close>

lemma local_dht_new:
  obtains st where "local_dht T i port s k = Ok st" "st_our_id st = i" "st_settings st = s" "st_buckets st = nbs_new i 8"
    "st_ip4_source st = static_new (Ipv4Addr 1 2 3 4)" "st_subscribers st = []"
  by (simp add: local_dht_def dht_new_def dht_builder_build_def db_set_settings_def db_set_ip_source_def
      db_set_listen_addr_def db_set_initial_id_def dht_builder_new_def run_env_def nbs_set_id_def nbs_new_def
      buckets_new_def buckets_set_id_def buckets_clear_def Let_def)

lemma router_settings_simps:
  "calm 0 (settings_throttler (router_settings rs settings_builder_new) now)"
  "calm 0 (settings_throttler (router_settings rs (with_router_ping_interval_secs n settings_builder_new)) now)"
  "cfg_routers (router_settings rs b) = rs" "cfg_read_only (router_settings rs settings_builder_new) = False"
  "cfg_read_only (router_settings rs (with_router_ping_interval_secs n settings_builder_new)) = False"
  using calm_new [of now]
  by (simp_all add: router_settings_def settings_build_def with_routers_def with_router_ping_interval_secs_def
      settings_builder_new_def settings_throttler_def default_settings_def)

text \<open>Any node answers a ping from the loopback interface, shortly.\<close>

lemma local_ping:
  assumes "message_type msg = Request (PingRequest a)" and "short msg"
  obtains st' m where "handle_request (run_env T) st (PingRequest a) (client T k) msg inp = (st', Ok (Some m))"
    "short m" "transaction_id m = transaction_id msg" "message_type m = Response (PingResponse (PingResponseArguments (st_our_id st)))"
proof -
  have "is_valid_for_ip crc i (IpV4 (Ipv4Addr 127 0 0 1)) = Ok True" for crc i
    by (simp add: is_valid_for_ip_def)
  then have "\<exists>st'. common_request_handling (run_env T) st (client T k) msg inp = Ok st' \<and> st_our_id st' = st_our_id st"
    using request_author_id [OF assms(1)] by (simp add: common_request_handling_def Let_def)
  then obtain st' where st': "common_request_handling (run_env T) st (client T k) msg inp = Ok st'" "st_our_id st' = st_our_id st"
    by blast
  obtain m where m: "ping_reply st' (client T k) msg = Ok m" "transaction_id m = transaction_id msg" "version m = None"
      "requester_ip m = Some (client T k)" "message_type m = Response (PingResponse (PingResponseArguments (st_our_id st)))"
    using st'(2) by (simp add: ping_reply_def reply_setters build_defs required_or_error_def)
  have "short m" by (rule short_reply [OF m(2) assms(2) m(3,4,5)]) simp_all
  with m st'(1) that show thesis by (simp add: handle_request_unfold)
qed

lemma count_one_verified:
  assumes "node_id n \<noteq> our" shows "nbs_count (nbs_add_or_update srt (nbs_new our 8) n True t t') = (0, 1)"
  using assms by (simp add: nbs_defs bucket_defs buckets_add_single buckets_count_def Let_def)

lemma dht_test_event_loop_pings_routers_passes:
  assumes run: "good_run T" and host: "lookup_host ''127.0.0.1:2171'' = Ok [SockV4 (Ipv4Addr 127 0 0 1) 2171]"
    and differ: "\<And>i. make_mutant get_dht_id 4 (id_from_random (tr_random_id T 0)) = Ok i \<Longrightarrow> i \<noteq> get_dht_id"
  shows "dht_test_event_loop_pings_routers lookup_host T"
proof -
  let ?addr1 = "SockV4 (Ipv4Addr 127 0 0 1) 2171"
  let ?s1 = "router_settings [] settings_builder_new"
  let ?s2 = "router_settings [''127.0.0.1:2171''] (with_router_ping_interval_secs 1 settings_builder_new)"
  obtain st1 where st1: "local_dht T get_dht_id 2171 ?s1 0 = Ok st1" "st_our_id st1 = get_dht_id" "st_settings st1 = ?s1"
    by (rule local_dht_new)
  obtain id2 where id2: "make_mutant get_dht_id 4 (id_from_random (tr_random_id T 0)) = Ok id2"
    using make_mutant_ok_iff [of get_dht_id 4 "id_from_random (tr_random_id T 0)"] by auto
  obtain st20 where st20: "local_dht T id2 0 ?s2 1 = Ok st20" "st_our_id st20 = id2" "st_settings st20 = ?s2"
    "st_buckets st20 = nbs_new id2 8" "st_ip4_source st20 = static_new (Ipv4Addr 1 2 3 4)" "st_subscribers st20 = []"
    by (rule local_dht_new)
  define st2 where "st2 = dht_subscribe st20"
  have st2: "st_our_id st2 = id2" "st_settings st2 = ?s2" "st_buckets st2 = nbs_new id2 8"
    "st_subscribers st2 = [\<lparr>sub_queue = [], sub_closed = False\<rparr>]"
    using st20(2-6) by (simp_all add: st2_def dht_subscribe_def)
  let ?thr1 = "settings_throttler ?s1 (tr_clock T 0)" and ?thr2 = "settings_throttler ?s2 (tr_clock T 0)"
  have routers: "ping_routers lookup_host (\<lambda>rs. rs) st2 = [(?addr1, None)]"
    using host st2(2) by (simp add: ping_routers_def ping_router_def router_settings_simps)
  obtain ping where ping: "ping_message st2 (tr_tid T 0) = Ok ping" "message_type ping = Request (PingRequest (PingRequestArguments id2))"
    using st2(1) by (simp add: ping_message_def request_building)
  have short: "short ping"
    using ping by (intro built_request [OF _ _ ping(1) [unfolded ping_message_def] ping(2)]) (simp_all add: builder_setters builder_new_def)
  obtain st1' m where reply: "handle_request (run_env T) st1 (PingRequest (PingRequestArguments id2)) (client T 0) ping (tr_input T 0) = (st1', Ok (Some m))"
    "short m" "transaction_id m = transaction_id ping" "message_type m = Response (PingResponse (PingResponseArguments get_dht_id))"
    using local_ping [OF ping(2) short, where k = 0] st1(2) by metis
  note carried = short_carried [OF run]
  obtain bs where bs: "to_bytes (tr_ser T) ping = Ok bs" "take recv_buffer_size bs = bs" "from_bytes (tr_de T) bs = Ok ping"
    using carries_bytes [OF carried [OF short]] short unfolding short_def by metis
  obtain rb where rb: "to_bytes (tr_ser T) m = Ok rb" "take recv_buffer_size rb = rb" "from_bytes (tr_de T) rb = Ok m"
    using carries_bytes [OF carried [OF reply(2)]] reply(2) unfolding short_def by metis
  have clock: "tr_clock T k + dur_from_secs 60 \<le> instant_max" for k using run unfolding good_run_def by blast
  obtain thr1' where thr1: "check_throttle ?thr1 localhost_v4 None None (tr_clock T 1) (tr_clock T 1) = Ok (thr1', False)"
    using calm_check [OF router_settings_simps(1) _ clock] zero_less_numeral by blast
  obtain thr2' where thr2: "check_throttle ?thr2 localhost_v4 None None (tr_clock T 2) (tr_clock T 2) = Ok (thr2', False)"
    using calm_check [OF router_settings_simps(2) _ clock] zero_less_numeral by blast
  have ip: "sock_ip (client T 0) = localhost_v4" "sock_ip ?addr1 = localhost_v4" and port: "sock_port (client T 0) \<noteq> 0"
    using run by (simp_all add: localhost_v4_def good_run_def)
  note served = request_served [OF idle_new port thr1 [folded ip(1)] ping(2) bs(2,3) reply(1) rb(1), where linux = "tr_linux T"]
  let ?sock2 = "socket_new\<lparr>so_requests := add_request (so_requests socket_new)
      (request_info_new ?addr1 None ping (Some (so_next_chan socket_new)) (tr_clock T 1)), so_next_chan := Suc (so_next_chan socket_new)\<rparr>"
  obtain sock1 where sent: "send_own_request socket_new ping ?addr1 None (tr_clock T 1) = (sock1, Ok (so_next_chan socket_new))"
    "outgoing_turn (tr_linux T) (tr_ser T) None sock1 = (?sock2, [(bs, ?addr1)])"
    by (rule request_leaves [OF idle_new ping(2) bs(1)])
  have matches: "response_matches_request (PingResponse (PingResponseArguments get_dht_id)) (PingRequest (PingRequestArguments id2))" by simp
  define sock3 where "sock3 = incoming_turn False (tr_de T) (Some (rb, ?addr1)) ?sock2"
  have no_id: "None = None \<or> None = Some (response_author (PingResponse (PingResponseArguments get_dht_id)))" by simp
  note arrives = answer_arrives [where dest = ?addr1 and now = "tr_clock T 1",
      OF idle_new channels_used_new ping(2) reply(4,3) matches no_id rb(2,3) refl]
  let ?st2' = "st2\<lparr>st_buckets := nbs_add_or_update (tr_sort T) (nbs_new id2 8) (Node get_dht_id ?addr1) True (tr_clock T 2) (tr_clock T 2)\<rparr>"
  have sock3: "so_incoming sock3 = [(m, ?addr1)]" "map_of (so_delivered sock3) (so_next_chan socket_new) = Some m"
    using arrives(2) unfolding sock3_def arrives(1) by simp_all
  have own: "handle_own_response (run_env T) st2 ?addr1 (Some m) (\<lambda>_. (tr_clock T 2, tr_clock T 2)) = (Ok ?st2', Ok m)"
    using reply(4) st2(3) response_author_Some [OF reply(4)]
    by (simp add: handle_own_response_unfold is_valid_for_ip_def run_env_def ip4_vote_helper_def static_source_def
        split: option.split SocketAddr.split)
  have asked: "ask_node (run_env T) (run_env T) (tr_linux T) (tr_ser T) (tr_de T) (?thr2, st2, socket_new) (client T 0) (?thr1, st1, socket_new)
      ?addr1 ping None (tr_clock T 1) (tr_input T 0) (tr_clock T 1) (tr_clock T 1) (\<lambda>_. (tr_clock T 2, tr_clock T 2)) =
      Some (Ok ?st2', sock3, (thr1', send_packet_to_subscribers st1' ping, socket_new), Ok m)"
    using sock3(2) by (simp add: ask_node_def Let_def sent served own sock3_def [symmetric] del: One_nat_def incoming_turn_fields)
  have accepted: "accept_turn (run_env T) False ?thr2 ?st2' sock3 (tr_input T 1) (tr_clock T 2) (tr_clock T 2) =
      Some (thr2', send_packet_to_subscribers ?st2' m, sock3\<lparr>so_incoming := []\<rparr>, Ok ())"
    using reply(4) thr2 ip(2)
    by (simp add: accept_turn_def ds_recv_from_def sock3(1) accept_body_def accept_single_packet_def)
  have seen: "sub_queue (hd (st_subscribers (send_packet_to_subscribers ?st2' m))) \<noteq> []"
    using st2(4) by (simp add: send_packet_to_subscribers_def try_send_def subscriber_capacity_def Let_def)
  have count: "nbs_count (st_buckets (send_packet_to_subscribers ?st2' m)) = (0, 1)"
    using differ [OF id2] by (simp add: send_packet_to_subscribers_def count_one_verified Let_def)
  show ?thesis
    unfolding dht_test_event_loop_pings_routers_def Let_def st1(1) unwrap_simps id2 st20(1)
    using routers ping(1) asked accepted seen count st1(3) st2(2) by (simp add: st2_def [symmetric] del: One_nat_def)
qed

end
