(* ===== verification/Dht_Examples.thy ===== *)
theory Dht_Examples
  imports Dht_OperationsProps Dht_Tasks Dht_Shutdown Dht_Bencode
begin

text \<open>
  The four programs under \<open>examples/\<close>: a command line, a node built from it, and a \<open>select!\<close> between its event loop,
  Ctrl+c and what the program is for. The command line parser \<open>clap\<close> is a parameter with its contract as a locale;
  \<open>new\<close> is \<open>DHT::new\<close> with its socket; \<open>logger_set\<close> tells whether the logger could be set. What is logged, help texts and the layout of the printed results are left out.
\<close>

section \<open>Command lines\<close>

record clap_arg =
  ca_name :: string
  ca_short :: char
  ca_default :: "string option"
  ca_required :: bool

type_synonym arg_values = "string \<Rightarrow> string option"

text \<open>\<open>get_matches\<close> ends the program with a message when a required argument is missing.\<close>

locale command_line =
  fixes get_matches :: "clap_arg list \<Rightarrow> arg_values option"
  assumes present: "get_matches args = Some v \<Longrightarrow> a \<in> set args \<Longrightarrow> ca_required a \<or> ca_default a \<noteq> None \<Longrightarrow> v (ca_name a) \<noteq> None"
begin

lemma valued:
  assumes "get_matches args = Some v" and "\<exists>a \<in> set args. ca_name a = n \<and> (ca_required a \<or> ca_default a \<noteq> None)"
  obtains s where "v n = Some s"
  using present [OF assms(1)] assms(2) by blast

end

text \<open>The arguments that are given, and the defaults.\<close>

definition given_or_default :: "arg_values \<Rightarrow> clap_arg list \<Rightarrow> arg_values option" where
  "given_or_default given args =
     (if list_all (\<lambda>a. ca_required a \<longrightarrow> given (ca_name a) \<noteq> None) args
      then Some (map_of [(ca_name a, the (ca_default a)). a \<leftarrow> args, ca_default a \<noteq> None] ++ given)
      else None)"

interpretation given: command_line "given_or_default g" for g
proof
  fix args v a
  assume v: "given_or_default g args = Some v" and a: "a \<in> set args" and p: "ca_required a \<or> ca_default a \<noteq> None"
  have v_eq: "v = map_of [(ca_name a, the (ca_default a)). a \<leftarrow> args, ca_default a \<noteq> None] ++ g"
    and req: "ca_required a \<Longrightarrow> g (ca_name a) \<noteq> None"
    using v a by (auto simp: given_or_default_def list_all_iff split: if_splits)
  show "v (ca_name a) \<noteq> None"
  proof (cases "ca_required a")
    case True
    then show ?thesis using req by (auto simp: v_eq)
  next
    case False
    then have "ca_default a \<noteq> None" using p by blast
    then have "ca_name a \<in> fst ` set [(ca_name a, the (ca_default a)). a \<leftarrow> args, ca_default a \<noteq> None]"
      using a by force
    then have "map_of [(ca_name a, the (ca_default a)). a \<leftarrow> args, ca_default a \<noteq> None] (ca_name a) \<noteq> None"
      by (simp add: map_of_eq_None_iff)
    then show ?thesis by (simp add: v_eq map_add_None)
  qed
qed

text \<open>\<open>str::parse\<close> for the unsigned types: one plus sign may precede the digits, the value must be in range.\<close>

fun dec_value :: "nat \<Rightarrow> string \<Rightarrow> nat option" where
  "dec_value n [] = Some n"
| "dec_value n (c # s) =
     (let k = of_char c :: nat in if 48 \<le> k \<and> k \<le> 57 then dec_value (10 * n + (k - 48)) s else None)"

definition parse_uint :: "nat \<Rightarrow> string \<Rightarrow> nat option" where
  "parse_uint limit s =
     (let ds = (case s of c # r \<Rightarrow> if c = CHR ''+'' then r else s | [] \<Rightarrow> s)
      in if ds = [] then None
         else case dec_value 0 ds of Some n \<Rightarrow> if n \<le> limit then Some n else None | None \<Rightarrow> None)"

lemma parse_uint_le: "parse_uint limit s = Some n \<Longrightarrow> n \<le> limit"
  by (auto simp: parse_uint_def Let_def split: if_splits option.splits)

text \<open>\<open>expect\<close> on a \<open>Result\<close>.\<close>

definition expect_ok :: "'a res \<Rightarrow> 'a res" where
  "expect_ok r = (case r of Ok x \<Rightarrow> Ok x | _ \<Rightarrow> Panic)"

lemma expect_ok_simps [simp]: "expect_ok (Ok x) = Ok x" "expect_ok (Err e) = Panic" "expect_ok Panic = Panic"
  by (simp_all add: expect_ok_def)

definition u64_max :: nat where
  "u64_max = 2 ^ 64 - 1"

definition port_value :: "arg_values \<Rightarrow> string \<Rightarrow> u16 res" where
  "port_value v name =
     res_bind (expect (v name)) (\<lambda>s. res_bind (expect (parse_uint 65535 s)) (\<lambda>n. Ok (word_of_nat n)))"

definition hash_value :: "(string \<Rightarrow> u8 list option) \<Rightarrow> arg_values \<Rightarrow> Id res" where
  "hash_value hex_decode v = res_bind (expect (v ''info_hash'')) (\<lambda>s. expect_ok (id_from_hex hex_decode s))"

definition timeout_value :: "arg_values \<Rightarrow> duration res" where
  "timeout_value v =
     res_bind (expect (v ''timeout'')) (\<lambda>s. res_bind (expect (parse_uint u64_max s)) (\<lambda>n. Ok (dur_from_secs n)))"

text \<open>The node of the three searches only asks.\<close>

definition asking_config :: "u16 \<Rightarrow> (IPV4Consensus, NodeBucketStorage) DHTConfig" where
  "asking_config port =
     dht_builder_build id id (db_set_settings (settings_build (with_read_only True settings_builder_new))
       (db_set_listen_addr (Ipv4Addr 0 0 0 0, port) dht_builder_new))"

text \<open>
  \<open>DHT::new\<close> chooses the id and tells it to the table, then sets up the socket: the operating system may refuse each of
  the three calls. The draws are arguments; the secret, drawn last, cannot fail.
\<close>

record udp_setup =
  us_bind :: "SocketAddr \<Rightarrow> io_error option"
  us_set_nonblocking :: "io_error option"
  us_from_std :: "io_error option"

definition general_error :: "io_error option \<Rightarrow> unit res" where
  "general_error io = (case io of None \<Rightarrow> Ok () | Some e \<Rightarrow> Err (GeneralError ''io error''))"

definition open_socket :: "udp_setup \<Rightarrow> SocketAddr \<Rightarrow> unit res" where
  "open_socket os socket_addr =
     res_bind (general_error (us_bind os socket_addr)) (\<lambda>std_sock.
     res_bind (general_error (us_set_nonblocking os)) (\<lambda>u.
       general_error (us_from_std os)))"

definition open_dht ::
  "udp_setup \<Rightarrow> ('i, 'n, 'sw, 'o) dht_env \<Rightarrow> u8 \<Rightarrow> u8 \<Rightarrow> (nat \<Rightarrow> u8) \<Rightarrow> Id \<Rightarrow> (nat \<Rightarrow> u8)
     \<Rightarrow> ('i, 'n) DHTConfig \<Rightarrow> ('i, 'n, 'o) DHTState res" where
  "open_dht os E r g rest random_id rng c =
     res_bind (dht_new E c r g rest random_id rng) (\<lambda>dht.
     res_bind (open_socket os (dc_socket_addr c)) (\<lambda>socket. Ok dht))"

text \<open>
  Which branch of the \<open>select!\<close> comes first, with what the network did in the operation, or that one of them panics (they
  run in the task of \<open>main\<close>); and how a program ends.
\<close>

datatype 'a branch = EventLoopEnds | Interrupted | Panics | Completes 'a

datatype 'a ending = UsageMessage | Stopped | ShutDown | Printed 'a

definition finish :: "'a branch \<Rightarrow> ('a \<Rightarrow> 'b) \<Rightarrow> 'b ending res" where
  "finish b f =
     (case b of
        EventLoopEnds \<Rightarrow> Ok Stopped
      | Interrupted \<Rightarrow> Ok ShutDown
      | Panics \<Rightarrow> Panic
      | Completes x \<Rightarrow> Ok (Printed (f x)))"

section \<open>\<open>find_nodes.rs\<close>\<close>

definition find_nodes_args :: "clap_arg list" where
  "find_nodes_args =
     [\<lparr>ca_name = ''dht_listen_port'', ca_short = CHR ''l'', ca_default = Some ''6881'', ca_required = False\<rparr>,
      \<lparr>ca_name = ''info_hash'', ca_short = CHR ''i'', ca_default = None, ca_required = True\<rparr>,
      \<lparr>ca_name = ''timeout'', ca_short = CHR ''t'', ca_default = Some ''60'', ca_required = False\<rparr>]"

definition find_nodes_main ::
  "bool \<Rightarrow> (clap_arg list \<Rightarrow> arg_values option) \<Rightarrow> (string \<Rightarrow> u8 list option) \<Rightarrow> NodeWrapper sorter
     \<Rightarrow> ((IPV4Consensus, NodeBucketStorage) DHTConfig \<Rightarrow> ('i, 'n, 'o) DHTState res)
     \<Rightarrow> (('i, 'n, 'o) DHTState \<Rightarrow> duration \<Rightarrow> find_round list branch) \<Rightarrow> Node list ending res" where
  "find_nodes_main logger_set get_matches hex_decode srt new race =
     (if \<not> logger_set then Panic
      else case get_matches find_nodes_args of
        None \<Rightarrow> Ok UsageMessage
      | Some v \<Rightarrow>
          res_bind (port_value v ''dht_listen_port'') (\<lambda>port.
          res_bind (hash_value hex_decode v) (\<lambda>info_hash.
          res_bind (timeout_value v) (\<lambda>timeout.
          res_bind (expect_ok (new (asking_config port))) (\<lambda>st.
            finish (race st timeout)
              (\<lambda>rounds. find_node srt (cfg_read_only (dht_get_settings st)) info_hash rounds))))))"

section \<open>\<open>get_peers.rs\<close>\<close>

definition get_peers_args :: "clap_arg list" where
  "get_peers_args =
     [\<lparr>ca_name = ''dht_listen_port'', ca_short = CHR ''l'', ca_default = Some ''6881'', ca_required = False\<rparr>,
      \<lparr>ca_name = ''info_hash'', ca_short = CHR ''i'', ca_default = None, ca_required = True\<rparr>,
      \<lparr>ca_name = ''timeout'', ca_short = CHR ''t'', ca_default = Some ''60'', ca_required = False\<rparr>]"

definition get_peers_main ::
  "bool \<Rightarrow> (clap_arg list \<Rightarrow> arg_values option) \<Rightarrow> (string \<Rightarrow> u8 list option) \<Rightarrow> NodeWrapper sorter \<Rightarrow> GetPeersResponder sorter
     \<Rightarrow> (SocketAddr list \<Rightarrow> SocketAddr list)
     \<Rightarrow> ((IPV4Consensus, NodeBucketStorage) DHTConfig \<Rightarrow> ('i, 'n, 'o) DHTState res)
     \<Rightarrow> (('i, 'n, 'o) DHTState \<Rightarrow> duration \<Rightarrow> (find_round list \<times> peers_round list) branch) \<Rightarrow> SocketAddr list ending res" where
  "get_peers_main logger_set get_matches hex_decode srt rsrt iter new race =
     (if \<not> logger_set then Panic
      else case get_matches get_peers_args of
        None \<Rightarrow> Ok UsageMessage
      | Some v \<Rightarrow>
          res_bind (port_value v ''dht_listen_port'') (\<lambda>port.
          res_bind (hash_value hex_decode v) (\<lambda>info_hash.
          res_bind (timeout_value v) (\<lambda>timeout.
          res_bind (expect_ok (new (asking_config port))) (\<lambda>st.
            finish (race st timeout)
              (\<lambda>(boot, rounds). result_peers
                 (get_peers srt rsrt iter (cfg_read_only (dht_get_settings st)) info_hash boot rounds)))))))"

section \<open>\<open>announce_peer.rs\<close>\<close>

definition announce_peer_args :: "clap_arg list" where
  "announce_peer_args =
     [\<lparr>ca_name = ''dht_listen_port'', ca_short = CHR ''l'', ca_default = Some ''6881'', ca_required = False\<rparr>,
      \<lparr>ca_name = ''info_hash'', ca_short = CHR ''i'', ca_default = None, ca_required = True\<rparr>,
      \<lparr>ca_name = ''announce_port'', ca_short = CHR ''p'', ca_default = None, ca_required = False\<rparr>,
      \<lparr>ca_name = ''timeout'', ca_short = CHR ''t'', ca_default = Some ''60'', ca_required = False\<rparr>]"

definition announce_port_value :: "arg_values \<Rightarrow> u16 option res" where
  "announce_port_value v =
     (case v ''announce_port'' of
        Some ap_str \<Rightarrow> res_bind (expect (parse_uint 65535 ap_str)) (\<lambda>ap. Ok (Some (word_of_nat ap)))
      | None \<Rightarrow> Ok None)"

text \<open>What an announcement depends on: the two searches, our id by then, the transaction ids and the results.\<close>

type_synonym announce_run =
  "find_round list \<times> peers_round list \<times> Id \<times> (nat \<Rightarrow> u8 \<times> u8) \<times> (nat \<times> Message res) list"

definition announce_peer_main ::
  "bool \<Rightarrow> (clap_arg list \<Rightarrow> arg_values option) \<Rightarrow> (string \<Rightarrow> u8 list option) \<Rightarrow> NodeWrapper sorter \<Rightarrow> GetPeersResponder sorter
     \<Rightarrow> (SocketAddr list \<Rightarrow> SocketAddr list)
     \<Rightarrow> ((IPV4Consensus, NodeBucketStorage) DHTConfig \<Rightarrow> ('i, 'n, 'o) DHTState res)
     \<Rightarrow> (('i, 'n, 'o) DHTState \<Rightarrow> duration \<Rightarrow> announce_run branch) \<Rightarrow> Node list ending res" where
  "announce_peer_main logger_set get_matches hex_decode srt rsrt iter new race =
     (if \<not> logger_set then Panic
      else case get_matches announce_peer_args of
        None \<Rightarrow> Ok UsageMessage
      | Some v \<Rightarrow>
          res_bind (port_value v ''dht_listen_port'') (\<lambda>port.
          res_bind (hash_value hex_decode v) (\<lambda>info_hash.
          res_bind (announce_port_value v) (\<lambda>announce_port.
          res_bind (timeout_value v) (\<lambda>timeout.
          res_bind (expect_ok (new (asking_config port))) (\<lambda>st.
            finish (race st timeout)
              (\<lambda>(boot, rounds, our_id, tids, completed). snd
                 (announce_peer srt rsrt iter (cfg_read_only (dht_get_settings st)) our_id info_hash announce_port
                    boot rounds tids completed))))))))"

section \<open>\<open>dht_node.rs\<close>\<close>

definition dht_node_args :: "clap_arg list" where
  "dht_node_args =
     [\<lparr>ca_name = ''listen_port'', ca_short = CHR ''l'', ca_default = Some ''6881'', ca_required = False\<rparr>,
      \<lparr>ca_name = ''http'', ca_short = CHR ''h'', ca_default = Some ''127.0.0.1:8080'', ca_required = False\<rparr>,
      \<lparr>ca_name = ''initial_id'', ca_short = CHR ''i'', ca_default = None, ca_required = False\<rparr>]"

definition node_builder ::
  "(string \<Rightarrow> u8 list option) \<Rightarrow> arg_values \<Rightarrow> u16 \<Rightarrow> (IPV4Consensus, NodeBucketStorage) DHTBuilder res" where
  "node_builder hex_decode v port =
     (let builder = db_set_listen_addr (Ipv4Addr 0 0 0 0, port) dht_builder_new
      in case v ''initial_id'' of
           Some arg \<Rightarrow> res_bind (expect_ok (id_from_hex hex_decode arg)) (\<lambda>i. Ok (db_set_initial_id i builder))
         | None \<Rightarrow> Ok builder)"

text \<open>
  \<open>Display\<close> of ids, numbers and addresses; \<open>hex_encode\<close> is \<open>hex::encode\<close>, \<open>show_v6\<close> the notation of IPv6 addresses.
\<close>

definition id_display :: "(bytes \<Rightarrow> string) \<Rightarrow> Id \<Rightarrow> string" where
  "id_display hex_encode i = hex_encode (bytes i)"

definition nat_display :: "nat \<Rightarrow> string" where
  "nat_display n = map (\<lambda>b. char_of (unat b)) (digits n)"

definition addr_display :: "(SocketAddr \<Rightarrow> string) \<Rightarrow> SocketAddr \<Rightarrow> string" where
  "addr_display show_v6 a =
     (case a of
        SockV4 (Ipv4Addr b c d e) p \<Rightarrow>
          nat_display (unat b) @ ''.'' @ nat_display (unat c) @ ''.'' @ nat_display (unat d) @ ''.'' @ nat_display (unat e) @
            '':'' @ nat_display (unat p)
      | _ \<Rightarrow> show_v6 a)"

text \<open>The page of the HTTP server (\<open>warp\<close>): the state is read three times, each time under the lock.\<close>

definition status_page ::
  "(bytes \<Rightarrow> string) \<Rightarrow> (SocketAddr \<Rightarrow> string) \<Rightarrow> ('i, 'n, 'sw, 'o) dht_env
     \<Rightarrow> ('i, 'n, 'o) DHTState \<Rightarrow> ('i, 'n, 'o) DHTState \<Rightarrow> ('i, 'n, 'o) DHTState \<Rightarrow> ('i, 'n, 'o) DHTState \<times> string" where
  "status_page hex_encode show_v6 E st1 st2 st3 =
     (let i = dht_get_id st1;
          nodes = dht_get_nodes E st2;
          nodes_string = concat (map (\<lambda>w. id_display hex_encode (node_id (nw_node w)) @ [CHR 0x09] @
            addr_display show_v6 (node_address (nw_node w)) @ [CHR 0x0A]) nodes);
          (st4, info_hashes) = dht_get_info_hashes E st3 None;
          info_hashes_string = concat (map (\<lambda>(h, peers). id_display hex_encode h @ [CHR 0x09] @
            nat_display (length peers) @ [CHR 0x0A]) info_hashes)
      in (st4, ''Id: '' @ id_display hex_encode i @ [CHR 0x0A] @ nat_display (length nodes) @ '' nodes:'' @ [CHR 0x0A] @
            nodes_string @ [CHR 0x0A] @ ''Info hashes:'' @ [CHR 0x0A] @ info_hashes_string))"

type_synonym ('i, 'n, 'o) http_handler =
  "('i, 'n, 'o) DHTState \<Rightarrow> ('i, 'n, 'o) DHTState \<Rightarrow> ('i, 'n, 'o) DHTState \<Rightarrow> ('i, 'n, 'o) DHTState \<times> string"

text \<open>\<open>parse_addr\<close> is \<open>SocketAddr::from_str\<close>; the server panics when it cannot bind its address. It serves
  the page with the node, and ends only on the signal.\<close>

definition dht_node_main ::
  "bool \<Rightarrow> (clap_arg list \<Rightarrow> arg_values option) \<Rightarrow> (string \<Rightarrow> u8 list option) \<Rightarrow> (bytes \<Rightarrow> string) \<Rightarrow> (string \<Rightarrow> SocketAddr option)
     \<Rightarrow> (SocketAddr \<Rightarrow> string) \<Rightarrow> (IPV4Consensus, NodeBucketStorage, 'sw, 'o) dht_env
     \<Rightarrow> ((IPV4Consensus, NodeBucketStorage) DHTConfig \<Rightarrow> (IPV4Consensus, NodeBucketStorage, 'o) DHTState res)
     \<Rightarrow> (SocketAddr \<Rightarrow> bool)
     \<Rightarrow> ((IPV4Consensus, NodeBucketStorage, 'o) DHTState \<Rightarrow> (IPV4Consensus, NodeBucketStorage, 'o) http_handler \<Rightarrow> unit branch)
     \<Rightarrow> unit ending res" where
  "dht_node_main logger_set get_matches hex_decode hex_encode parse_addr show_v6 E new http_binds race =
     (if \<not> logger_set then Panic
      else case get_matches dht_node_args of
        None \<Rightarrow> Ok UsageMessage
      | Some v \<Rightarrow>
          res_bind (port_value v ''listen_port'') (\<lambda>port.
          res_bind (res_bind (expect (v ''http'')) (\<lambda>s. expect (parse_addr s))) (\<lambda>http_sockaddr.
          res_bind (node_builder hex_decode v port) (\<lambda>builder.
          res_bind (expect_ok (new (dht_builder_build id id builder))) (\<lambda>st.
            if http_binds http_sockaddr
            then finish (race st (status_page hex_encode show_v6 E)) id
            else Panic)))))"

section \<open>Ctrl+c\<close>

text \<open>
  The other branches of the \<open>select!\<close> are dropped with what they own, among it the second handle on the node; then the node
  with its receiver, the receiver of \<open>main\<close>, and the signal is given. \<open>dht_rx\<close> and \<open>main_rx\<close> are the two receivers.
\<close>

definition on_ctrl_c :: "ShutdownReceiver \<Rightarrow> ShutdownReceiver \<Rightarrow> shutdown_event list" where
  "on_ctrl_c dht_rx main_rx = [DropReceiver dht_rx, DropReceiver main_rx, SendSignal]"

section \<open>Lemmas\<close>

lemma asking_config_fields:
  "dc_settings (asking_config port) = default_settings\<lparr>cfg_read_only := True\<rparr>" "dc_id (asking_config port) = None"
  "dc_socket_addr (asking_config port) = SockV4 (Ipv4Addr 0 0 0 0) port" "dc_buckets (asking_config port) = nbs_new id_zero 8"
  by (simp_all add: asking_config_def dht_builder_build_def db_set_settings_def db_set_listen_addr_def dht_builder_new_def
      settings_build_def with_read_only_def settings_builder_new_def)

lemma general_error_Ok [simp]: "general_error io = Ok u \<longleftrightarrow> io = None" "general_error io \<noteq> Panic"
  by (simp_all add: general_error_def split: option.splits)

text \<open>The node of the three searches can always be set up, but for its socket.\<close>

lemma asking_node:
  assumes "e_ip4 E = consensus_source"
  obtains st where "dht_new E (asking_config port) r g rest random_id rng = Ok st" "cfg_read_only (st_settings st)"
proof -
  have "dc_ip4_source (asking_config port) = consensus_new 2 10"
    by (simp add: asking_config_def dht_builder_build_def db_set_settings_def db_set_listen_addr_def dht_builder_new_def)
  then have best: "get_best_ipv4 (e_ip4 E) (dc_ip4_source (asking_config port)) = Ok None"
    by (simp add: assms consensus_source_def consensus_get_best_ipv4_def consensus_new_def)
  then show thesis
    using that by (simp add: dht_new_def asking_config_fields Let_def)
qed

lemma open_dht_node:
  assumes "dht_new E c r g rest random_id rng = Ok st"
  shows "open_dht os E r g rest random_id rng c =
    (case open_socket os (dc_socket_addr c) of Ok u \<Rightarrow> Ok st | Err e \<Rightarrow> Err e | Panic \<Rightarrow> Panic)"
  using assms by (simp add: open_dht_def split: res.splits)

text \<open>Showing the page changes at most the recency order of the peer caches.\<close>

lemma status_page_frame:
  assumes "status_page hex_encode show_v6 E st1 st2 st3 = (st4, page)" shows "\<exists>ps. st4 = st3\<lparr>st_peer_storage := ps\<rparr>"
proof -
  obtain st infos where h: "dht_get_info_hashes E st3 None = (st, infos)" by (cases "dht_get_info_hashes E st3 None")
  then have "st4 = st" using assms by (simp add: status_page_def Let_def)
  then show ?thesis using dht_get_info_hashes_frame [OF h] by simp
qed

text \<open>Ctrl+c: when the event loop and the other branches are gone, only the tasks of the socket hold receivers.\<close>

lemma shutdown_steps_trans:
  assumes "shutdown_steps W B t evs' u" and "shutdown_steps W B s evs t" shows "shutdown_steps W B s (evs @ evs') u"
  using assms
proof (induction rule: shutdown_steps.induct)
  case (more evs' t' e u)
  then show ?case using shutdown_steps.more [of W B s "evs @ evs'" t' e u] by simp
qed simp

inductive_cases drop_receiver_step: "shutdown_step W B crs (DropReceiver r) crs'"
inductive_cases signal_step: "shutdown_step W B crs SendSignal crs'"

lemma shutdown_steps_snocE:
  assumes "shutdown_steps W B s evs u" and "evs = evs' @ [e]"
  obtains t where "shutdown_steps W B s evs' t" "shutdown_step W B t e u"
  using assms by (cases rule: shutdown_steps.cases) auto

lemma on_ctrl_c_receivers:
  assumes "shutdown_steps W B (c, rs) (on_ctrl_c dht_rx main_rx) (c', rs')"
  shows "rs' = remove1 main_rx (remove1 dht_rx rs)"
proof -
  have evs: "on_ctrl_c dht_rx main_rx = [DropReceiver dht_rx, DropReceiver main_rx] @ [SendSignal]" by (simp add: on_ctrl_c_def)
  have two: "[DropReceiver dht_rx, DropReceiver main_rx] = [DropReceiver dht_rx] @ [DropReceiver main_rx]"
    and one: "[DropReceiver dht_rx] = [] @ [DropReceiver dht_rx]" by simp_all
  obtain t1 where t1: "shutdown_steps W B (c, rs) [DropReceiver dht_rx, DropReceiver main_rx] t1" "shutdown_step W B t1 SendSignal (c', rs')"
    by (rule shutdown_steps_snocE [OF assms evs])
  obtain t2 where t2: "shutdown_steps W B (c, rs) [DropReceiver dht_rx] t2" "shutdown_step W B t2 (DropReceiver main_rx) t1"
    by (rule shutdown_steps_snocE [OF t1(1) two])
  obtain t3 where t3: "shutdown_steps W B (c, rs) [] t3" "shutdown_step W B t3 (DropReceiver dht_rx) t2"
    by (rule shutdown_steps_snocE [OF t2(1) one])
  from t3(1) have "t3 = (c, rs)" by (cases rule: shutdown_steps.cases) auto
  then show ?thesis using t1(2) t2(2) t3(2) by (auto elim!: drop_receiver_step signal_step)
qed

lemma ctrl_c_waits_for_tasks:
  assumes "watch_channel W" and "broadcast_channel B" and "create_shutdown W B = (c0, r0)"
    and "shutdown_steps W B (c0, [r0]) evs (c, rs)" and "shutdown_steps W B (c, rs) (on_ctrl_c dht_rx main_rx) (c', rs')"
  shows "r \<in> set rs' \<Longrightarrow> watch W c' r \<noteq> None" and "shutdown_returns B c' \<longleftrightarrow> rs' = []"
proof -
  note ch = shutdown_channelsI [OF assms(1,2)]
  have told: "told (evs @ on_ctrl_c dht_rx main_rx)" by (simp add: told_def on_ctrl_c_def)
  have "shutdown_channels.chan_inv W B (told (evs @ on_ctrl_c dht_rx main_rx)) (c', rs')"
    by (rule shutdown_channels.inv_steps [OF ch shutdown_steps_trans [OF assms(5,4)] shutdown_channels.inv_create [OF ch assms(3)]])
  then have inv: "shutdown_channels.chan_inv W B True (c', rs')" using told by simp
  show "r \<in> set rs' \<Longrightarrow> watch W c' r \<noteq> None" using shutdown_channels.inv_watch [OF ch inv] by blast
  show "shutdown_returns B c' \<longleftrightarrow> rs' = []" by (rule shutdown_channels.inv_returns [OF ch inv])
qed

section \<open>Properties\<close>

lemma find_nodes_declared:
  assumes "command_line get_matches" and "get_matches find_nodes_args = Some v"
  obtains p h t where "v ''dht_listen_port'' = Some p" "v ''info_hash'' = Some h" "v ''timeout'' = Some t"
proof -
  have "v ''dht_listen_port'' \<noteq> None" "v ''info_hash'' \<noteq> None" "v ''timeout'' \<noteq> None"
    using command_line.present [OF assms] by (force simp: find_nodes_args_def)+
  then show thesis using that by blast
qed

lemma find_nodes_main_eq:
  assumes "get_matches find_nodes_args = Some v" and "v ''dht_listen_port'' = Some p" and "v ''info_hash'' = Some h"
    and "v ''timeout'' = Some t"
  shows "find_nodes_main logger_set get_matches hex_decode srt new race =
    (case (logger_set, parse_uint 65535 p, id_from_hex hex_decode h, parse_uint u64_max t) of
       (True, Some q, Ok i, Some n) \<Rightarrow>
         (case new (asking_config (word_of_nat q)) of
            Ok st \<Rightarrow> finish (race st (dur_from_secs n)) (find_node srt (cfg_read_only (st_settings st)) i)
          | _ \<Rightarrow> Panic)
     | _ \<Rightarrow> Panic)"
  by (simp add: find_nodes_main_def port_value_def hash_value_def timeout_value_def assms dht_get_settings_def
      split: option.split res.split bool.split)

lemma find_nodes_outcome:
  assumes "sort_law srt" and "get_matches find_nodes_args = Some v" and "e_ip4 E = consensus_source"
    and "v ''dht_listen_port'' = Some p" and "v ''info_hash'' = Some h" and "v ''timeout'' = Some t"
  shows "(let port = parse_uint 65535 p; info_hash = id_from_hex hex_decode h; timeout = parse_uint u64_max t;
         node = dht_new E (asking_config (word_of_nat (the port))) r g rest random_id rng;
         outcome = find_nodes_main logger_set get_matches hex_decode srt (open_dht os E r g rest random_id rng) race
     in \<exists>st. node = Ok st \<and> cfg_read_only (st_settings st) \<and>
       (outcome = Panic \<longleftrightarrow> \<not> logger_set \<or> port = None \<or> (\<forall>i. info_hash \<noteq> Ok i) \<or> timeout = None \<or>
          us_bind os (SockV4 (Ipv4Addr 0 0 0 0) (word_of_nat (the port))) \<noteq> None \<or> us_set_nonblocking os \<noteq> None \<or>
          us_from_std os \<noteq> None \<or> race st (dur_from_secs (the timeout)) = Panics) \<and>
       (outcome = Panic \<or> (\<exists>e. outcome = Ok e \<and> e \<noteq> UsageMessage)) \<and>
       (\<forall>ns. outcome = Ok (Printed ns) \<longrightarrow> (\<exists>i rounds. info_hash = Ok i \<and>
          race st (dur_from_secs (the timeout)) = Completes rounds \<and> ns = find_node srt True i rounds \<and> length ns \<le> 8 \<and>
          sorted_wrt (\<lambda>a b. id_xor (node_id a) i < id_xor (node_id b) i) ns)))"
proof -
  obtain st where st: "dht_new E (asking_config (word_of_nat (the (parse_uint 65535 p)))) r g rest random_id rng = Ok st"
    "cfg_read_only (st_settings st)"
    by (rule asking_node [OF assms(3)])
  note main = find_nodes_main_eq [where get_matches = get_matches and v = v, OF assms(2,4-6)]
  have opened: "(\<exists>u. open_socket os a = Ok u) \<longleftrightarrow> us_bind os a = None \<and> us_set_nonblocking os = None \<and> us_from_std os = None"
    for a by (simp add: open_socket_def)
  show ?thesis
  proof (cases "logger_set \<and> parse_uint 65535 p \<noteq> None \<and> (\<exists>i. id_from_hex hex_decode h = Ok i) \<and> parse_uint u64_max t \<noteq> None")
    case True
    then obtain q i n where ok: "logger_set" "parse_uint 65535 p = Some q" "id_from_hex hex_decode h = Ok i" "parse_uint u64_max t = Some n"
      by blast
    have node: "dht_new E (asking_config (word_of_nat q)) r g rest random_id rng = Ok st" using st(1) ok(2) by simp
    have eq: "find_nodes_main True get_matches hex_decode srt (open_dht os E r g rest random_id rng) race =
        (case open_socket os (SockV4 (Ipv4Addr 0 0 0 0) (word_of_nat q)) of
           Ok u \<Rightarrow> finish (race st (dur_from_secs n)) (find_node srt True i) | _ \<Rightarrow> Panic)"
      by (simp add: main ok open_dht_node [OF node] asking_config_fields st(2) split: res.split)
    show ?thesis
    proof (cases "open_socket os (SockV4 (Ipv4Addr 0 0 0 0) (word_of_nat q))")
      case (Ok u)
      then show ?thesis
        using opened [of "SockV4 (Ipv4Addr 0 0 0 0) (word_of_nat q)"] find_node_spec [OF assms(1)] st(2) node
        by (cases "race st (dur_from_secs n)") (auto simp: Let_def ok eq finish_def)
    qed (use opened [of "SockV4 (Ipv4Addr 0 0 0 0) (word_of_nat q)"] st(2) node in \<open>auto simp: Let_def ok eq\<close>)
  next
    case False
    then have "find_nodes_main logger_set get_matches hex_decode srt (open_dht os E r g rest random_id rng) race = Panic"
      by (auto simp: main split: option.split res.split bool.split)
    then show ?thesis using False st by (auto simp: Let_def)
  qed
qed

text \<open>
  C36. The example \<open>find_nodes\<close>: a value is there for every argument it expects, and its node can always be set up, so it
  panics exactly when the logger cannot be set, the port or the timeout is not a number in range, the info hash is not
  one, the operating system refuses one of the three calls that open the socket, or one of the branches of its
  \<open>select!\<close> panics first; it never ends with an error value. It searches with a read-only node, and what it prints
  is the result of the search: at most eight nodes in strict order of their distance to the info hash. The environment is the
  one of the builder, whose default source of addresses is \<open>IPV4Consensus\<close>.
\<close>

theorem find_nodes_program:
  assumes "command_line get_matches" and "sort_law srt" and "get_matches find_nodes_args = Some v"
    and "e_ip4 E = consensus_source"
  shows "\<exists>p h t. v ''dht_listen_port'' = Some p \<and> v ''info_hash'' = Some h \<and> v ''timeout'' = Some t \<and>
    (let port = parse_uint 65535 p; info_hash = id_from_hex hex_decode h; timeout = parse_uint u64_max t;
         node = dht_new E (asking_config (word_of_nat (the port))) r g rest random_id rng;
         outcome = find_nodes_main logger_set get_matches hex_decode srt (open_dht os E r g rest random_id rng) race
     in \<exists>st. node = Ok st \<and> cfg_read_only (st_settings st) \<and>
       (outcome = Panic \<longleftrightarrow> \<not> logger_set \<or> port = None \<or> (\<forall>i. info_hash \<noteq> Ok i) \<or> timeout = None \<or>
          us_bind os (SockV4 (Ipv4Addr 0 0 0 0) (word_of_nat (the port))) \<noteq> None \<or> us_set_nonblocking os \<noteq> None \<or>
          us_from_std os \<noteq> None \<or> race st (dur_from_secs (the timeout)) = Panics) \<and>
       (outcome = Panic \<or> (\<exists>e. outcome = Ok e \<and> e \<noteq> UsageMessage)) \<and>
       (\<forall>ns. outcome = Ok (Printed ns) \<longrightarrow> (\<exists>i rounds. info_hash = Ok i \<and>
          race st (dur_from_secs (the timeout)) = Completes rounds \<and> ns = find_node srt True i rounds \<and> length ns \<le> 8 \<and>
          sorted_wrt (\<lambda>a b. id_xor (node_id a) i < id_xor (node_id b) i) ns)))"
proof -
  obtain p h t where v: "v ''dht_listen_port'' = Some p" "v ''info_hash'' = Some h" "v ''timeout'' = Some t"
    by (rule find_nodes_declared [OF assms(1,3)])
  show ?thesis
    by (rule exI [of _ p], rule exI [of _ h], rule exI [of _ t], intro conjI v,
        rule find_nodes_outcome [where get_matches = get_matches and v = v, OF assms(2-4) v])
qed

definition sample_line :: arg_values where
  "sample_line = [''info_hash'' \<mapsto> ''f00ff00ff00ff00ff00ff00ff00ff00ff00ff00f'']"

lemma sample_line_values:
  obtains v where "given_or_default sample_line find_nodes_args = Some v"
    "v ''dht_listen_port'' = Some ''6881''" "v ''timeout'' = Some ''60''"
  by (simp add: given_or_default_def sample_line_def find_nodes_args_def)

theorem find_nodes_program_witness:
  "\<exists>e. find_nodes_main True (given_or_default sample_line) (\<lambda>s. Some (replicate 20 0)) insertion_sort
      (open_dht \<lparr>us_bind = \<lambda>a. None, us_set_nonblocking = None, us_from_std = None\<rparr> sample_env 0 0 (\<lambda>_. 0) id_zero (\<lambda>_. 0))
      (\<lambda>st t. Completes []) = Ok e \<and> e \<noteq> UsageMessage"
proof -
  let ?os = "\<lparr>us_bind = \<lambda>a :: SocketAddr. None :: io_error option, us_set_nonblocking = None, us_from_std = None\<rparr>"
  obtain v where v: "given_or_default sample_line find_nodes_args = Some v"
    "v ''dht_listen_port'' = Some ''6881''" "v ''timeout'' = Some ''60''" by (rule sample_line_values)
  have parsed: "parse_uint 65535 ''6881'' = Some 6881" "parse_uint u64_max ''60'' = Some 60"
    by (simp_all add: parse_uint_def u64_max_def)
  have id: "id_from_hex (\<lambda>s. Some (replicate 20 0)) h = Ok (mk_id (replicate 20 0))" for h
    by (simp add: id_from_hex_def)
  have src: "e_ip4 sample_env = consensus_source" by (simp add: sample_env_def)
  show ?thesis
    using find_nodes_program [OF given.command_line_axioms sort_law_insertion_sort v(1) src, where os = ?os and logger_set = True
        and r = 0 and g = 0 and rest = "\<lambda>_. 0" and random_id = id_zero and rng = "\<lambda>_. 0" and hex_decode = "\<lambda>s. Some (replicate 20 0)"
        and race = "\<lambda>st t. Completes []"] v parsed
    by (auto simp: Let_def id)
qed

end
