(* ===== verification/Spec2Isabelle.thy ===== *)
theory Spec2Isabelle
  imports Dht_IpSource Dht_SystemProps Dht_Refinement Dht_Served Dht_OperationsProps Dht_TwoNodes Dht_Shutdown
    Dht_TestsCommon Dht_TestsBuilder Dht_TestsPublic Dht_TestsInternal Dht_TestsStorage Dht_TestsTwoNodes Dht_Examples
begin

text \<open>
  A verification library for \<open>rustydht-lib\<close>, a node of the BitTorrent Mainline DHT in Rust (paths
  below are relative to \<open>src/\<close> of the crate).

  \<^bold>\<open>The program.\<close> A node (\<open>dht/dht.rs\<close>) keeps one locked \<open>DHTState\<close>: its id, a routing table of nodes, the
  peers that others announced, two token secrets, a source of votes on its own IPv4 address, its
  settings and its subscribers. Tasks work on that state concurrently, one section under the lock at
  a time: the loop over incoming packets, the responses to its own requests, and periodic
  maintenance. They talk to the network through a socket wrapper (\<open>dht/socket.rs\<close>), whose own tasks
  encode and decode datagrams (\<open>packets/\<close>) and match responses to requests. Clients search through
  the node (\<open>dht/operations.rs\<close>), and a shutdown channel (\<open>shutdown.rs\<close>) ends all tasks.

  \<^bold>\<open>The theories\<close>, each with the code it models:

  \<^item> \<open>Dht_Prelude\<close>: lists, bytes, sorting with a total preorder, instants and durations.
  \<^item> \<open>Dht_Errors\<close>: \<open>errors.rs\<close>; results are \<open>Ok\<close>, \<open>Err\<close> or \<open>Panic\<close>. \<open>Dht_Net\<close>: addresses of the standard library.
  \<^item> \<open>Dht_Id\<close>: \<open>common/id.rs\<close>, ids, distance, and ids derived from an address (BEP 42).
  \<^item> \<open>Dht_IpSource\<close>: \<open>common/ipv4_addr_src.rs\<close>; the trait is a record of operations with the locale
    \<open>ip4_source\<close>, interpreted by the static and the consensus source; \<open>tally\<close> counts the votes of a history independently.
  \<^item> \<open>Dht_Buckets\<close>: \<open>storage/buckets.rs\<close>, the bucket table with its overflow loop.
  \<^item> \<open>Dht_Nodes\<close>: \<open>common/node.rs\<close>, \<open>storage/node_wrapper.rs\<close>, \<open>storage/node_bucket_storage.rs\<close>; the trait \<open>NodeStorage\<close>
    is a record of operations with a locale.
  \<^item> \<open>Dht_Throttler\<close>: \<open>storage/throttler.rs\<close>, with the interleaved calls of several addresses (\<open>throttle_calls\<close>).
  \<^item> \<open>Dht_Lru\<close>, \<open>Dht_PeerStorage\<close>: \<open>storage/peer_storage.rs\<close> over the crate \<open>lru\<close>, a parameter with the laws \<open>lru_cache\<close>.
  \<^item> \<open>Dht_Messages\<close>, \<open>Dht_Wire\<close>: \<open>packets/public.rs\<close> and \<open>packets/internal.rs\<close>, messages and their wire types.
  \<^item> \<open>Dht_Bencode\<close>: the bencode format. \<open>Dht_Schema\<close>: the dictionaries that the serde attributes of \<open>packets/internal.rs\<close>
    describe, written and read. \<open>Dht_Datagram\<close>: the contract of the bencode library, the locale \<open>bencode_library\<close>, which the
    two interpret, and the sizes of the datagrams.
  \<^item> \<open>Dht_Builder\<close>: \<open>packets/builder.rs\<close>.
  \<^item> \<open>Dht_Requests\<close>: \<open>storage/outbound_request_storage.rs\<close>, \<open>common/transaction_id.rs\<close>. \<open>Dht_Socket\<close>: \<open>dht/socket.rs\<close>;
    \<open>send_to\<close> is composed of its two halves, storing a request and queueing the message, which are also events of their own.
  \<^item> \<open>Dht_Settings\<close>: \<open>dht/dht_settings.rs\<close>, \<open>dht/builder.rs\<close>.
  \<^item> \<open>Dht_Core\<close>: the sections of \<open>dht/dht.rs\<close>, one definition per handler, reply and periodic turn. What takes the lock more
    than once is composed of its sections: a request of \<open>common_request_handling\<close> and \<open>request_reply\<close>, a response of
    \<open>record_responder\<close> and \<open>record_found_nodes\<close>.
    \<open>Dht_CoreProps\<close>: what a single request does.
  \<^item> \<open>Dht_System\<close>: the histories of a node, \<open>dht_step\<close> with one rule per section under the lock, so that other tasks may come
    between the sections of a packet or of a response, and one rule each for a whole packet and a whole response.
    \<open>Dht_NodeInv\<close>: the invariant of these histories, in the locale \<open>node_env\<close>. \<open>Dht_SystemProps\<close>: what holds over them.
  \<^item> \<open>Dht_Origin\<close>: where the nodes of the routing table come from, and that what is stored is of the node's
    address family, so that its replies can be read. \<open>Dht_Sizes\<close>: that they fit a datagram. \<open>Dht_Served\<close>: what becomes of an
    announcement. \<open>Dht_Refinement\<close>: a specification of the node, a set of known nodes with what they did, announced
    peers and two tokens, and the simulation of every history by it.
  \<^item> \<open>Dht_Tasks\<close>: \<open>send_request\<close>, the router pings, the accept loop on its socket, the end of \<open>run_event_loop\<close>.
  \<^item> \<open>Dht_EndToEnd\<close>: the socket tasks, the accept loop and the wire format composed, from datagram to datagram.
    \<open>Dht_TwoNodes\<close>: a request from one node to another and its answer back.
  \<^item> \<open>Dht_Operations\<close>, \<open>Dht_OperationsProps\<close>: \<open>dht/operations.rs\<close>.
  \<^item> \<open>Dht_Shutdown\<close>: \<open>shutdown.rs\<close>; the \<open>tokio\<close> channels are parameters with the locales \<open>watch_channel\<close> and
    \<open>broadcast_channel\<close>.
  \<^item> \<open>Dht_Examples\<close>: the four programs under \<open>examples/\<close>; the command line parser is a parameter with the locale \<open>command_line\<close>.
  \<^item> \<open>Dht_TestLib\<close> and \<open>Dht_TestsCommon\<close>, \<open>Dht_TestsBuilder\<close>, \<open>Dht_TestsPublic\<close>, \<open>Dht_TestsInternal\<close>, \<open>Dht_TestsStorage\<close>,
    \<open>Dht_TestsTables\<close>, \<open>Dht_TestsNode\<close>, \<open>Dht_TestsTwoNodes\<close>: the unit tests of the crate, each a predicate on what it takes from its environment (clock,
    random bytes, libraries), with the proof that it passes. They check the definitions above against the
    expectations of the authors; \<open>Dht_TestsCommon\<close> computes the checksum to check the vectors of BEP 42.

  \<^bold>\<open>What the lemmas show.\<close> Of the data structures: the bucket table stays well formed and loses only what
  its overflow handling turns away, its queries are exact; the node storage does what its trait
  promises; the throttler counts the packets of each
  address as long as it has a record for each; the address vote is decided by the votes that are left; messages survive the
  wire down to the bencode text, the parser is total and the recorded datagrams of the tests are read as expected; the builder accepts exactly the complete messages. Of the node, over
  every history: only nodes whose id answered from an address it is valid for are handed out, only
  peers announced with a good token are given out, and they are given out as long as they are fresh and
  no later announcement displaces them, tokens outlive one rotation of the secrets, the id
  follows the agreed address, subscribers see only what was received, no packet, response or
  maintenance makes it panic, and each history is one of the abstract specification. Of the tasks:
  only responses to requests that were sent are delivered, every packet causes at most one reply, to
  its sender, every unthrottled request but an announcement with a bad token is served by one readable datagram
  that fits the receive buffer, two nodes
  understand each other, requests with a timeout return, searches return only what was learnt, a shutdown returns
  when and only when all tasks are gone; an example program panics exactly for a logger, an argument or a socket it cannot
  use, or when the running node does.
  Where the code does something else than it says, the property states what it does.

  \<^bold>\<open>Conventions and bounds.\<close> Machine integers are words where the code works on bits or bytes, and
  naturals or integers with the overflow checks written out elsewhere (\<open>i32\<close> votes and counts, \<open>Instant\<close>
  arithmetic up to \<open>instant_max\<close>). Overflow checks are on, so an arithmetic overflow is a \<open>Panic\<close>. Clock
  readings, random bytes, shuffles and the results of the operating system are arguments, so every
  theorem holds for all of them. The throttler has 32 records as in the code, a subscription holds 32
  events, the outgoing queue 128 messages; the overflow loop of the bucket table ends by a measure on its depth (ids have 160 bits), so
  there is no fuel. The bencode parser takes the length of its input as fuel, since each of its calls consumes a byte. A search is
  defined on every finite list of rounds, because its timeout can end it after any of them.

  \<^bold>\<open>Parameters\<close>, code that is not part of the repository: the checksum \<open>crc32c\<close>, the
  bencode library (a writing and a partial reading function with the locale \<open>bencode_library\<close>), the
  crates \<open>hex\<close>, \<open>lru\<close> and \<open>clap\<close>, unstable sorting, name resolution, and the \<open>tokio\<close> watch and
  broadcast channels of the shutdown. Each law a property relies on is a named hypothesis or a locale, and an interpretation
  shows it can hold.

  \<^bold>\<open>Not modelled.\<close> The scheduling of tasks beyond the order of their sections under the lock; the
  pauses between turns and between rounds of a search; waiting for room in the incoming channel, which
  only delays its task; the poisoning of the lock after a panic, which ends the node; logging,
  formatting and \<open>Debug\<close> output, also of what the example programs print; the HTTP server of \<open>dht_node\<close> beyond its page;
  module files and re-exports; of the unit tests, \<open>test_empty_prune\<close>, which asserts nothing.
\<close>

end
